(* ===== verification/PyPrelude.thy ===== *)
theory PyPrelude
  imports Main "HOL-Library.AList" "HOL-Library.Char_ord" "HOL-Library.List_Lexorder"
    "HOL-Library.Product_Lexorder" "HOL-Library.Sublist" "HOL-Library.Multiset"
begin

text \<open>
  The prelude of the development: what every component needs of Python itself.

  \<^item> exceptions as values: \<open>py_error\<close>, the result type \<open>'a res\<close> (\<open>Inl\<close> a raised exception,
    \<open>Inr\<close> a value), sequencing \<open>bind\<close> and the loop \<open>map_res\<close>;
  \<^item> insertion-ordered dictionaries as association lists (\<open>dict_get\<close>, \<open>dict_set\<close> by
    \<open>AList.update\<close>), \<open>list(dict.fromkeys(..))\<close> as \<open>uniq\<close> and \<open>sorted(set(..))\<close> as
    \<open>sorted_set\<close>.

  The collections \<open>res_simps\<close> and \<open>uniq_simps\<close> gather the rules the component proofs use.
\<close>

named_theorems res_simps "equations of the result type"
named_theorems uniq_simps "facts about first-occurrence deduplication"

section \<open>Exceptions as values\<close>

datatype py_error =
    KeyError string
  | ValueError string
  | TypeError string
  | IndexError
  | ZeroDivisionError
  | OverflowErr string
  | RecursionError
  | LookupErr string
  | FileNotFoundError string
  | OSErr string
  | RuntimeErr string
  | SystemExit string
  | ContractError string
  | RunnerError string
  | NotImplementedErr string
  | CalledProcessErr string

type_synonym 'a res = "py_error + 'a"

definition bind :: "'a res \<Rightarrow> ('a \<Rightarrow> 'b res) \<Rightarrow> 'b res" where
  "bind m f = (case m of Inl e \<Rightarrow> Inl e | Inr x \<Rightarrow> f x)"

fun map_res :: "('a \<Rightarrow> 'b res) \<Rightarrow> 'a list \<Rightarrow> 'b list res" where
  "map_res f [] = Inr []"
| "map_res f (x # xs) = bind (f x) (\<lambda>y. bind (map_res f xs) (\<lambda>ys. Inr (y # ys)))"

definition require :: "bool \<Rightarrow> py_error \<Rightarrow> unit res" where
  "require b e = (if b then Inr () else Inl e)"

definition is_ok :: "'a res \<Rightarrow> bool" where
  "is_ok r = (case r of Inl _ \<Rightarrow> False | Inr _ \<Rightarrow> True)"

definition opt_res :: "py_error \<Rightarrow> 'a option \<Rightarrow> 'a res" where
  "opt_res e x = (case x of None \<Rightarrow> Inl e | Some v \<Rightarrow> Inr v)"

definition opt_default :: "'a \<Rightarrow> 'a option \<Rightarrow> 'a" where
  "opt_default d x = (case x of None \<Rightarrow> d | Some v \<Rightarrow> v)"

lemma bind_Inl [simp, res_simps]: "bind (Inl e) f = Inl e"
  and bind_Inr [simp, res_simps]: "bind (Inr x) f = f x"
  by (simp_all add: bind_def)

lemma bind_eq_Inr: "bind m f = Inr y \<longleftrightarrow> (\<exists>x. m = Inr x \<and> f x = Inr y)"
  by (cases m) auto

lemma bind_eq_Inl: "bind m f = Inl e \<longleftrightarrow> m = Inl e \<or> (\<exists>x. m = Inr x \<and> f x = Inl e)"
  by (cases m) auto

lemma bind_InrE:
  assumes "bind m f = Inr y"
  obtains x where "m = Inr x" "f x = Inr y"
  using assms by (auto simp: bind_eq_Inr)

lemma bind_cong [fundef_cong]:
  "m = m' \<Longrightarrow> (\<And>x. m' = Inr x \<Longrightarrow> f x = g x) \<Longrightarrow> bind m f = bind m' g"
  by (cases m') auto

lemma require_simps [simp, res_simps]: "require True e = Inr ()" "require False e = Inl e"
  by (simp_all add: require_def)

lemma require_eq_Inr [simp]: "require b e = Inr u \<longleftrightarrow> b"
  by (simp add: require_def)

lemma opt_res_simps [simp, res_simps]: "opt_res e (Some v) = Inr v" "opt_res e None = Inl e"
  by (simp_all add: opt_res_def)

lemma opt_res_eq_Inr [simp]: "opt_res e x = Inr v \<longleftrightarrow> x = Some v"
  by (cases x) auto

lemma is_ok_simps [simp, res_simps]: "is_ok (Inr x)" "\<not> is_ok (Inl e)"
  by (simp_all add: is_ok_def)

lemma map_sum_eq_Inr: "map_sum f g r = Inr y \<longleftrightarrow> (\<exists>x. r = Inr x \<and> y = g x)"
  by (cases r) auto

lemma is_ok_iff: "is_ok r \<longleftrightarrow> (\<exists>x. r = Inr x)"
  by (cases r) auto

lemma is_ok_bindE:
  assumes "is_ok (bind m f)"
  obtains x where "m = Inr x" "is_ok (f x)"
  using assms by (cases m) auto

lemma is_ok_requireD:
  "is_ok (bind m (\<lambda>x. bind (f x) (\<lambda>y. require (P x y) e))) \<Longrightarrow> \<exists>x y. m = Inr x \<and> f x = Inr y \<and> P x y"
  by (auto simp: is_ok_iff bind_eq_Inr)

lemma map_res_Inr: "(\<And>x. x \<in> set xs \<Longrightarrow> f x = Inr (g x)) \<Longrightarrow> map_res f xs = Inr (map g xs)"
  by (induction xs) auto

lemma map_res_length: "map_res f xs = Inr ys \<Longrightarrow> length ys = length xs"
  by (induction xs arbitrary: ys) (auto simp: bind_eq_Inr)

lemma map_res_nth:
  "map_res f xs = Inr ys \<Longrightarrow> i < length xs \<Longrightarrow> f (xs ! i) = Inr (ys ! i)"
  by (induction xs arbitrary: ys i) (auto simp: bind_eq_Inr nth_Cons split: nat.splits)

lemma map_res_cong [fundef_cong]:
  "xs = ys \<Longrightarrow> (\<And>x. x \<in> set ys \<Longrightarrow> f x = g x) \<Longrightarrow> map_res f xs = map_res g ys"
  by (induction ys arbitrary: xs) auto

lemma map_res_append:
  "map_res f (xs @ ys) = bind (map_res f xs) (\<lambda>as. bind (map_res f ys) (\<lambda>bs. Inr (as @ bs)))"
  by (induction xs) (auto simp: bind_def split: sum.splits)

lemma map_res_set:
  "map_res f xs = Inr ys \<Longrightarrow> x \<in> set xs \<Longrightarrow> \<exists>y \<in> set ys. f x = Inr y"
  by (induction xs arbitrary: ys) (auto simp: bind_eq_Inr)

lemma map_res_mem:
  "map_res f xs = Inr ys \<Longrightarrow> y \<in> set ys \<Longrightarrow> \<exists>x \<in> set xs. f x = Inr y"
  by (induction xs arbitrary: ys) (auto simp: bind_eq_Inr)

lemma map_res_all2:
  "(\<And>x. x \<in> set xs \<Longrightarrow> \<exists>y. f x = Inr y \<and> P x y) \<Longrightarrow> \<exists>ys. map_res f xs = Inr ys \<and> list_all2 P xs ys"
proof (induction xs)
  case (Cons x xs)
  then obtain y ys where "f x = Inr y" "P x y" "map_res f xs = Inr ys" "list_all2 P xs ys"
    by (meson list.set_intros)
  then show ?case by simp
qed simp

section \<open>Dictionaries and first-occurrence deduplication\<close>

type_synonym ('k, 'v) dict = "('k \<times> 'v) list"

definition dict_get :: "'k \<Rightarrow> ('k, 'v) dict \<Rightarrow> 'v option" where
  "dict_get k d = map_of d k"

definition dict_set :: "'k \<Rightarrow> 'v \<Rightarrow> ('k, 'v) dict \<Rightarrow> ('k, 'v) dict" where
  "dict_set k v d = AList.update k v d"

definition dict_keys :: "('k, 'v) dict \<Rightarrow> 'k list" where
  "dict_keys d = map fst d"

text \<open>\<open>{**d, **e}\<close> and \<open>d.update(e)\<close>: the entries of \<open>e\<close> in order, each replacing or appended.\<close>

fun dict_merge :: "('k, 'v) dict \<Rightarrow> ('k, 'v) dict \<Rightarrow> ('k, 'v) dict" where
  "dict_merge d [] = d"
| "dict_merge d ((k, v) # e) = dict_merge (dict_set k v d) e"

lemma dict_get_set [simp]: "dict_get k (dict_set k' v d) = (if k = k' then Some v else dict_get k d)"
  by (simp add: dict_get_def dict_set_def update_conv')

lemma dict_get_Nil [simp]: "dict_get k [] = None"
  by (simp add: dict_get_def)

lemma dict_keys_set:
  "dict_keys (dict_set k v d) = (if k \<in> set (dict_keys d) then dict_keys d else dict_keys d @ [k])"
  by (induction d) (auto simp: dict_keys_def dict_set_def)

lemma distinct_dict_set [simp]: "distinct (dict_keys d) \<Longrightarrow> distinct (dict_keys (dict_set k v d))"
  by (simp add: dict_keys_set)

lemma dict_get_None_iff: "dict_get k d = None \<longleftrightarrow> k \<notin> set (dict_keys d)"
  by (induction d) (auto simp: dict_get_def dict_keys_def)

lemma dict_keys_Nil: "dict_keys [] = []"
  and dict_keys_Cons: "dict_keys (p # e) = fst p # dict_keys e"
  by (simp_all add: dict_keys_def)

lemma set_keys_set: "set (dict_keys (dict_set k v d)) = insert k (set (dict_keys d))"
  by (auto simp: dict_keys_set)

lemma dict_get_Cons: "dict_get k (p # d) = (if fst p = k then Some (snd p) else dict_get k d)"
  by (simp add: dict_get_def)

lemma dict_get_merge:
  "distinct (dict_keys e) \<Longrightarrow>
   dict_get k (dict_merge d e) = (case dict_get k e of None \<Rightarrow> dict_get k d | Some v \<Rightarrow> Some v)"
proof (induction d e rule: dict_merge.induct)
  case (2 d k' v e)
  from "2.prems" have "distinct (dict_keys e)" and k': "k' \<notin> set (dict_keys e)"
    by (simp_all add: dict_keys_def)
  with "2.IH" have IH: "dict_get k (dict_merge (dict_set k' v d) e) =
      (case dict_get k e of None \<Rightarrow> dict_get k (dict_set k' v d) | Some v \<Rightarrow> Some v)" by simp
  show ?case
    using IH k' by (auto simp: dict_get_None_iff [symmetric] dict_get_Cons split: option.splits)
qed simp

lemma keys_merge: "set (dict_keys (dict_merge d e)) = set (dict_keys d) \<union> set (dict_keys e)"
  by (induction d e rule: dict_merge.induct) (simp_all add: set_keys_set dict_keys_Cons dict_keys_Nil)

lemma distinct_dict_merge [simp]: "distinct (dict_keys d) \<Longrightarrow> distinct (dict_keys (dict_merge d e))"
  by (induction d e rule: dict_merge.induct) simp_all

lemma dict_get_merge_other: "k \<notin> set (dict_keys e) \<Longrightarrow> dict_get k (dict_merge d e) = dict_get k d"
  by (induction d e rule: dict_merge.induct) (auto simp: dict_keys_Cons)

fun uniq_from :: "'a list \<Rightarrow> 'a list \<Rightarrow> 'a list" where
  "uniq_from seen [] = []"
| "uniq_from seen (x # xs) =
     (if x \<in> set seen then uniq_from seen xs else x # uniq_from (x # seen) xs)"

definition uniq :: "'a list \<Rightarrow> 'a list" where
  "uniq xs = uniq_from [] xs"

lemma set_uniq_from: "set (uniq_from seen xs) = set xs - set seen"
  by (induction seen xs rule: uniq_from.induct) auto

lemma distinct_uniq_from: "distinct (uniq_from seen xs)"
  by (induction seen xs rule: uniq_from.induct) (auto simp: set_uniq_from)

lemma set_uniq [simp, uniq_simps]: "set (uniq xs) = set xs"
  by (simp add: uniq_def set_uniq_from)

lemma distinct_uniq [simp, uniq_simps]: "distinct (uniq xs)"
  by (simp add: uniq_def distinct_uniq_from)

lemma uniq_Nil_iff [simp, uniq_simps]: "uniq xs = [] \<longleftrightarrow> xs = []"
  by (cases xs) (auto simp: uniq_def)

lemma uniq_from_distinct:
  "distinct xs \<Longrightarrow> set xs \<inter> set seen = {} \<Longrightarrow> uniq_from seen xs = xs"
  by (induction seen xs rule: uniq_from.induct) auto

lemma uniq_distinct [uniq_simps]: "distinct xs \<Longrightarrow> uniq xs = xs"
  by (simp add: uniq_def uniq_from_distinct)

lemma uniq_idem [simp, uniq_simps]: "uniq (uniq xs) = uniq xs"
  by (simp add: uniq_distinct)

lemma subseq_uniq_from: "subseq (uniq_from seen xs) xs"
  by (induction seen xs rule: uniq_from.induct) auto

lemma subseq_uniq [uniq_simps]: "subseq (uniq xs) xs"
  by (simp add: uniq_def subseq_uniq_from)

text \<open>\<open>sorted(set(xs))\<close>.\<close>

definition sorted_set :: "'a::linorder list \<Rightarrow> 'a list" where
  "sorted_set xs = sort (remdups xs)"

lemma set_sorted_set [simp]: "set (sorted_set xs) = set xs"
  and distinct_sorted_set [simp]: "distinct (sorted_set xs)"
  and sorted_sorted_set [simp]: "sorted (sorted_set xs)"
  by (simp_all add: sorted_set_def)

lemma sorted_set_cong: "set xs = set ys \<Longrightarrow> sorted_set xs = sorted_set ys"
  by (rule sorted_distinct_set_unique) simp_all

lemma map_sort_key: "map f (sort_key f xs) = sort (map f xs)"
  by (metis mset_map mset_sort properties_for_sort sorted_sort_key)

lemma sort_mset: "mset xs = mset ys \<Longrightarrow> sort xs = sort ys"
  by (rule properties_for_sort) simp_all

section \<open>Counters\<close>

text \<open>\<open>Counter(..)\<close>: the keys in order of first occurrence.\<close>

definition count_values :: "'a list \<Rightarrow> ('a, nat) dict" where
  "count_values vs = fold (\<lambda>v d. dict_set v (Suc (opt_default 0 (dict_get v d))) d) vs []"

lemma count_values_snoc: "count_values (vs @ [v]) = dict_set v (Suc (opt_default 0 (dict_get v (count_values vs)))) (count_values vs)"
  by (simp add: count_values_def)

lemma count_values_get [simp]: "opt_default 0 (dict_get v (count_values vs)) = count_list vs v"
proof (induction vs rule: rev_induct)
  case Nil
  show ?case by (simp add: count_values_def opt_default_def)
next
  case (snoc w vs)
  then show ?case by (simp add: count_values_snoc dict_get_set) (simp add: opt_default_def)
qed

lemma count_values_keys: "set (dict_keys (count_values vs)) = set vs"
  and count_values_distinct: "distinct (dict_keys (count_values vs))"
proof (induction vs rule: rev_induct)
  case (snoc w vs)
  { case 1 from snoc show ?case by (auto simp: count_values_snoc dict_keys_set) }
  { case 2 from snoc show ?case by (auto simp: count_values_snoc intro: distinct_dict_set) }
qed (simp_all add: count_values_def dict_keys_def)

end
