(* ===== verification/PyText.thy ===== *)
theory PyText
  imports PyPrelude
begin

text \<open>
  Python's \<open>str\<close> operations the program uses, on char lists (the Latin-1 code points), and
  decimal printing of integers, shown injective by reading it back.
\<close>

section \<open>Prefixes, suffixes and searching\<close>

fun startswith :: "string \<Rightarrow> string \<Rightarrow> bool" where
  "startswith s [] = True"
| "startswith [] (p # ps) = False"
| "startswith (c # s) (p # ps) = (c = p \<and> startswith s ps)"

definition endswith :: "string \<Rightarrow> string \<Rightarrow> bool" where
  "endswith s p = startswith (rev s) (rev p)"

text \<open>\<open>s.startswith(tuple)\<close>.\<close>

definition startswith_any :: "string \<Rightarrow> string list \<Rightarrow> bool" where
  "startswith_any s ps = list_ex (startswith s) ps"

text \<open>\<open>find_at i s sub\<close>: the least position at which \<open>sub\<close> occurs in \<open>s\<close>, counted from \<open>i\<close>.\<close>

fun find_at :: "nat \<Rightarrow> string \<Rightarrow> string \<Rightarrow> nat option" where
  "find_at i [] sub = (if sub = [] then Some i else None)"
| "find_at i (c # s) sub = (if startswith (c # s) sub then Some i else find_at (Suc i) s sub)"

text \<open>\<open>s.find(sub, start)\<close> for \<open>0 \<le> start\<close>, with \<open>None\<close> for \<open>-1\<close>.\<close>

definition find_from :: "string \<Rightarrow> string \<Rightarrow> nat \<Rightarrow> nat option" where
  "find_from s sub start = (if start \<le> length s then find_at start (drop start s) sub else None)"

definition contains :: "string \<Rightarrow> string \<Rightarrow> bool" where
  "contains s sub = (find_at 0 s sub \<noteq> None)"

lemma startswith_iff: "startswith s p \<longleftrightarrow> (\<exists>r. s = p @ r)"
  by (induction s p rule: startswith.induct) auto

lemma startswith_append [simp]: "startswith (p @ r) p"
  by (auto simp: startswith_iff)

lemma startswith_take: "startswith s p \<longleftrightarrow> take (length p) s = p"
  by (auto simp: startswith_iff) (metis append_take_drop_id)

lemma startswith_drop: "startswith s p \<Longrightarrow> s = p @ drop (length p) s"
  by (auto simp: startswith_iff)

lemma find_at_Some:
  "find_at i s sub = Some j \<Longrightarrow> i \<le> j \<and> startswith (drop (j - i) s) sub \<and> j - i \<le> length s
     \<and> (\<forall>k<j - i. \<not> startswith (drop k s) sub)"
proof (induction i s sub rule: find_at.induct)
  case (2 i c s sub)
  show ?case
  proof (cases "startswith (c # s) sub")
    case True
    with "2.prems" show ?thesis by simp
  next
    case False
    with "2.prems" have "find_at (Suc i) s sub = Some j" by simp
    from "2.IH" [OF False this] have
      j: "Suc i \<le> j" "startswith (drop (j - Suc i) s) sub" "j - Suc i \<le> length s"
      and least: "\<forall>k<j - Suc i. \<not> startswith (drop k s) sub" by auto
    have "\<not> startswith (drop k (c # s)) sub" if "k < j - i" for k
      using that False least by (cases k) auto
    with j show ?thesis by (auto simp: drop_Cons' Suc_diff_le le_diff_conv)
  qed
qed (auto split: if_splits)

lemma find_at_None: "find_at i s sub = None \<Longrightarrow> k \<le> length s \<Longrightarrow> \<not> startswith (drop k s) sub"
proof (induction i s sub arbitrary: k rule: find_at.induct)
  case (1 i sub)
  then show ?case by (cases sub) auto
next
  case (2 i c s sub)
  then show ?case by (cases k) (auto split: if_splits)
qed

lemma contains_iff: "contains s sub \<longleftrightarrow> (\<exists>l r. s = l @ sub @ r)"
proof
  assume "contains s sub"
  then obtain j where "find_at 0 s sub = Some j" by (auto simp: contains_def)
  from find_at_Some [OF this] have "startswith (drop j s) sub" by simp
  then obtain r where "drop j s = sub @ r" by (auto simp: startswith_iff)
  then show "\<exists>l r. s = l @ sub @ r" by (metis append_take_drop_id)
next
  assume "\<exists>l r. s = l @ sub @ r"
  then obtain l r where s: "s = l @ sub @ r" by blast
  show "contains s sub"
  proof (rule ccontr)
    assume "\<not> contains s sub"
    then have "find_at 0 s sub = None" by (simp add: contains_def)
    from find_at_None [OF this, of "length l"] s show False by simp
  qed
qed

section \<open>Whitespace, lines, splitting and joining\<close>

text \<open>\<open>str.isspace\<close> and the line boundaries of \<open>str.splitlines\<close> on the Latin-1 code points.\<close>

definition py_space :: "char \<Rightarrow> bool" where
  "py_space c = (let n = of_char c :: nat in
     (9 \<le> n \<and> n \<le> 13) \<or> (28 \<le> n \<and> n \<le> 32) \<or> n = 133 \<or> n = 160)"

definition line_end :: "char \<Rightarrow> bool" where
  "line_end c = (let n = of_char c :: nat in (10 \<le> n \<and> n \<le> 13) \<or> (28 \<le> n \<and> n \<le> 30) \<or> n = 133)"

definition lstrip :: "string \<Rightarrow> string" where
  "lstrip s = dropWhile py_space s"

definition rstrip :: "string \<Rightarrow> string" where
  "rstrip s = rev (dropWhile py_space (rev s))"

definition strip :: "string \<Rightarrow> string" where
  "strip s = rstrip (lstrip s)"

text \<open>\<open>s.strip(chars)\<close>.\<close>

definition strip_chars :: "(char \<Rightarrow> bool) \<Rightarrow> string \<Rightarrow> string" where
  "strip_chars P s = rev (dropWhile P (rev (dropWhile P s)))"

function splitlines_acc :: "string \<Rightarrow> string \<Rightarrow> string list" where
  "splitlines_acc cur [] = (if cur = [] then [] else [rev cur])"
| "splitlines_acc cur (c # s) =
     (if c = CHR 0x0D then
        rev cur # splitlines_acc [] (case s of [] \<Rightarrow> [] | d # s' \<Rightarrow> if d = CHR 0x0A then s' else s)
      else if line_end c then rev cur # splitlines_acc [] s
      else splitlines_acc (c # cur) s)"
  by pat_completeness auto
termination
  by (relation "measure (\<lambda>(cur, s). length s)") (auto split: list.splits)

definition splitlines :: "string \<Rightarrow> string list" where
  "splitlines s = splitlines_acc [] s"

fun split_char :: "char \<Rightarrow> string \<Rightarrow> string list" where
  "split_char d [] = [[]]"
| "split_char d (c # s) =
     (if c = d then [] # split_char d s
      else case split_char d s of [] \<Rightarrow> [[c]] | w # ws \<Rightarrow> (c # w) # ws)"

text \<open>\<open>s.split(d, 1)[0]\<close>: what stands before the first \<open>d\<close>, or all of \<open>s\<close>.\<close>

definition before_char :: "char \<Rightarrow> string \<Rightarrow> string" where
  "before_char d s = takeWhile (\<lambda>c. c \<noteq> d) s"

fun join :: "string \<Rightarrow> string list \<Rightarrow> string" where
  "join sep [] = []"
| "join sep [w] = w"
| "join sep (w # v # ws) = w @ sep @ join sep (v # ws)"

abbreviation newline :: string where
  "newline \<equiv> [CHR 0x0A]"

lemma splitlines_acc_line:
  "list_all (\<lambda>c. \<not> line_end c) s \<Longrightarrow> splitlines_acc cur (s @ CHR 0x0A # t) = (rev cur @ s) # splitlines_acc [] t"
proof (induction s arbitrary: cur)
  case Nil
  have "line_end (CHR 0x0A)" by code_simp
  then show ?case by simp
next
  case (Cons c s)
  have "line_end (CHR 0x0D)" by code_simp
  with Cons.prems have "c \<noteq> CHR 0x0D" by auto
  with Cons show ?case by simp
qed

lemma splitlines_acc_return:
  "list_all (\<lambda>c. \<not> line_end c) s \<Longrightarrow> splitlines_acc cur (s @ CHR 0x0D # CHR 0x0A # t) = (rev cur @ s) # splitlines_acc [] t"
proof (induction s arbitrary: cur)
  case (Cons c s)
  have "line_end (CHR 0x0D)" by code_simp
  with Cons.prems have "c \<noteq> CHR 0x0D" by auto
  with Cons show ?case by simp
qed simp

lemma strip_Nil [simp]: "strip [] = []"
  by (simp add: strip_def lstrip_def rstrip_def)

lemma strip_edges:
  "strip s = [] \<or> (\<not> py_space (hd (strip s)) \<and> \<not> py_space (last (strip s)))"
proof (cases "strip s")
  case (Cons c t)
  define u where "u = dropWhile py_space s"
  have strip: "strip s = rev (dropWhile py_space (rev u))"
    by (simp add: strip_def lstrip_def rstrip_def u_def)
  have ne: "dropWhile py_space (rev u) \<noteq> []"
    using strip Cons by (metis list.distinct(1) rev.simps(1))
  have last: "\<not> py_space (last (strip s))"
    using hd_dropWhile [OF ne] ne by (simp add: strip last_rev)
  have "u \<noteq> []" using ne by auto
  then have "\<not> py_space (hd u)" unfolding u_def by (rule hd_dropWhile)
  moreover have "hd u = hd (strip s)"
  proof -
    obtain l where "rev u = l @ dropWhile py_space (rev u)"
      by (metis takeWhile_dropWhile_id)
    then have "u = strip s @ rev l" by (metis rev_append rev_rev_ident strip)
    with Cons show ?thesis by simp
  qed
  ultimately show ?thesis using last by simp
qed simp

lemma dropWhile_id: "xs = [] \<or> \<not> P (hd xs) \<Longrightarrow> dropWhile P xs = xs"
  by (cases xs) auto

lemma strip_id: "s = [] \<or> \<not> py_space (hd s) \<and> \<not> py_space (last s) \<Longrightarrow> strip s = s"
  by (auto simp: strip_def lstrip_def rstrip_def dropWhile_id hd_rev)

lemma strip_strip [simp]: "strip (strip s) = strip s"
  by (rule strip_id) (use strip_edges in blast)

lemma set_strip: "set (strip s) \<subseteq> set s"
  unfolding strip_def lstrip_def rstrip_def
  by (metis (no_types, lifting) set_dropWhileD set_rev subsetI)

lemma split_char_ne [simp]: "split_char d s \<noteq> []"
  by (cases s) (auto split: list.splits)

lemma join_split_char: "join [d] (split_char d s) = s"
proof (induction s)
  case (Cons c s)
  obtain w ws where "split_char d s = w # ws" by (metis split_char_ne neq_Nil_conv)
  with Cons show ?case by (cases ws) auto
qed simp

lemma before_char_id: "d \<notin> set s \<Longrightarrow> before_char d s = s"
  by (auto simp: before_char_def takeWhile_eq_all_conv)

lemma before_char_notin: "d \<notin> set (before_char d s)"
  by (auto simp: before_char_def dest: set_takeWhileD)

lemma before_char_eq_iff: "before_char d s = s \<longleftrightarrow> d \<notin> set s"
  by (metis before_char_id before_char_notin)

section \<open>Decimal numbers\<close>

definition digit_char :: "nat \<Rightarrow> char" where
  "digit_char d = char_of (48 + d)"

definition char_digit :: "char \<Rightarrow> nat" where
  "char_digit c = of_char c - 48"

fun nat_str :: "nat \<Rightarrow> string" where
  "nat_str n = (if n < 10 then [digit_char n] else nat_str (n div 10) @ [digit_char (n mod 10)])"

declare nat_str.simps [simp del]

definition int_str :: "int \<Rightarrow> string" where
  "int_str i = (if i < 0 then CHR ''-'' # nat_str (nat (- i)) else nat_str (nat i))"

definition str_nat :: "string \<Rightarrow> nat" where
  "str_nat s = foldl (\<lambda>n c. 10 * n + char_digit c) 0 s"

lemma char_digit_char: "d < 10 \<Longrightarrow> char_digit (digit_char d) = d"
  by (simp add: char_digit_def digit_char_def)

lemma str_nat_str [simp]: "str_nat (nat_str n) = n"
proof (induction n rule: nat_str.induct)
  case (1 n)
  show ?case
  proof (cases "n < 10")
    case True
    then show ?thesis by (subst nat_str.simps) (simp add: str_nat_def char_digit_char)
  next
    case False
    with 1 show ?thesis by (subst nat_str.simps) (simp add: str_nat_def char_digit_char)
  qed
qed

lemma nat_str_inj [simp]: "nat_str m = nat_str n \<longleftrightarrow> m = n"
  by (metis str_nat_str)

lemma nat_str_ne [simp]: "nat_str n \<noteq> []"
  by (subst nat_str.simps) simp

definition is_digit :: "char \<Rightarrow> bool" where
  "is_digit c = (c \<in> set ''0123456789'')"

lemma digit_chars: "list_all (\<lambda>d. is_digit (digit_char d) \<and> (digit_char d = CHR ''0'' \<longrightarrow> d = 0)) [0..<10]"
  by code_simp

lemma digit_char_digit: "d < 10 \<Longrightarrow> is_digit (digit_char d)"
  and digit_char_zero: "d < 10 \<Longrightarrow> digit_char d = CHR ''0'' \<Longrightarrow> d = 0"
  using digit_chars by (auto simp: list_all_iff)

lemma nat_str_digits: "list_all is_digit (nat_str n)"
proof (induction n rule: nat_str.induct)
  case (1 n)
  then show ?case by (subst nat_str.simps) (simp add: digit_char_digit)
qed

lemma nat_str_lead: "n \<noteq> 0 \<Longrightarrow> hd (nat_str n) \<noteq> CHR ''0''"
proof (induction n rule: nat_str.induct)
  case (1 n)
  then show ?case by (subst nat_str.simps) (auto dest: digit_char_zero)
qed

lemma nat_str_0: "nat_str 0 = ''0''"
  by code_simp

lemma hd_nat_str: "is_digit (hd (nat_str n))"
  using nat_str_digits [of n] by (simp add: list_all_iff)

lemma str_nat_append: "str_nat (s @ t) = str_nat s * 10 ^ length t + str_nat t"
proof -
  let ?f = "\<lambda>n c. 10 * n + char_digit c"
  have "foldl ?f a t = a * 10 ^ length t + foldl ?f 0 t" for a
  proof (induction t arbitrary: a)
    case (Cons c t)
    have step: "foldl ?f b (c # t) = (10 * b + char_digit c) * 10 ^ length t + foldl ?f 0 t" for b
      unfolding foldl_Cons by (rule Cons)
    show ?case unfolding step [of a] step [of 0] by (simp add: algebra_simps)
  qed simp
  then show ?thesis unfolding str_nat_def foldl_append by blast
qed

lemma str_nat_zeros [simp]: "str_nat (replicate n (CHR ''0'')) = 0"
proof -
  have "char_digit (CHR ''0'') = 0" by code_simp
  then show ?thesis by (induction n) (simp_all add: str_nat_def)
qed

end
