(* ===== verification/Trace.thy ===== *)
theory Trace
  imports PyText
begin

text \<open>
  Raw traces, canonical traces and the canonicalizer (\<open>analyzer/schemas.py\<close>,
  \<open>analyzer/normalize.py\<close>).

  A raw trace is a loaded JSON document: its top-level keys may be absent (\<open>None\<close>), its events
  have the shape the tracer of \<open>agent/linux/trace.c\<close> writes. The canonicalizer replaces file
  descriptors, addresses and process ids by tokens numbered in the order of first use, threading
  a context of three insertion-ordered dictionaries.

  The lemmas show that the context always holds an injective numbering (\<open>ctx_ok\<close>), that token
  equality is value equality, and that the canonical trace is invariant under every renaming of
  the resource values that keeps signs and non-positive values (\<open>canonicalize_rename\<close>).
\<close>

section \<open>Data\<close>

record file_item =
  fi_path :: string
  fi_size :: int
  fi_sha256 :: "string option"
  fi_read_error :: "string option"

record ext_state =
  es_files :: "file_item list"
  es_truncated :: bool
  es_read_error :: "string option"

record process_exit =
  pe_status :: string
  pe_exit_code :: "int option"
  pe_timed_out :: bool

record raw_output =
  ro_label :: string
  ro_arg_index :: int
  ro_length :: int
  ro_preview_hex :: string
  ro_sha256 :: string
  ro_resource :: "(string \<times> int list) option"

record raw_event =
  re_index :: int
  re_name :: string
  re_number :: int
  re_args :: "int list"
  re_return :: int
  re_errno :: int
  re_start_ns :: int
  re_end_ns :: int
  re_outputs :: "raw_output list"

record raw_trace =
  rt_program_id :: "string option"
  rt_side :: "string option"
  rt_run_id :: "string option"
  rt_status :: "string option"
  rt_events :: "raw_event list option"
  rt_process_exit :: "process_exit option"

text \<open>A canonical scalar is a Python \<open>int\<close> or a token string.\<close>

datatype scalar = SInt int | STok string

record canon_output =
  co_label :: string
  co_arg_index :: int
  co_length :: int
  co_preview_hex :: string
  co_sha256 :: string
  co_resource_values :: "string list option"

record canon_event =
  ce_index :: nat
  ce_source_index :: int
  ce_name :: string
  ce_number :: int
  ce_args :: "scalar list"
  ce_return :: scalar
  ce_errno :: int
  ce_duration_ns :: int
  ce_outputs :: "canon_output list"

record canon_trace =
  ct_program_id :: string
  ct_side :: string
  ct_event_count :: nat
  ct_events :: "canon_event list"
  ct_final_state :: ext_state
  ct_process_exit :: process_exit

section \<open>Schema validation\<close>

definition raw_trace_missing :: "raw_trace \<Rightarrow> bool" where
  "raw_trace_missing t = (rt_program_id t = None \<or> rt_side t = None \<or> rt_run_id t = None \<or>
     rt_status t = None \<or> rt_events t = None \<or> rt_process_exit t = None)"

fun check_indexes :: "int \<Rightarrow> raw_event list \<Rightarrow> unit res" where
  "check_indexes previous [] = Inr ()"
| "check_indexes previous (e # es) =
     (if re_index e \<le> previous
      then Inl (ValueError ''raw trace event indexes are not strictly increasing'')
      else check_indexes (re_index e) es)"

definition validate_raw_trace :: "raw_trace \<Rightarrow> unit res" where
  "validate_raw_trace t =
     (if raw_trace_missing t then Inl (ValueError ''raw trace missing fields'')
      else case rt_events t of None \<Rightarrow> Inl (KeyError ''events'') | Some es \<Rightarrow> check_indexes (- 1) es)"

definition CANONICAL_TRACE_REQUIRED :: "string list" where
  "CANONICAL_TRACE_REQUIRED =
     [''program_id'', ''side'', ''event_count'', ''events'', ''final_state'', ''process_exit'']"

text \<open>The keys the payload has, its \<open>event_count\<close> and the number of its events.\<close>

definition validate_canonical_trace :: "string list \<Rightarrow> nat \<Rightarrow> nat \<Rightarrow> unit res" where
  "validate_canonical_trace keys event_count n_events =
     (if \<not> list_all (\<lambda>k. k \<in> set keys) CANONICAL_TRACE_REQUIRED
      then Inl (ValueError ''canonical trace missing fields'')
      else require (event_count = n_events) (ValueError ''canonical trace event_count mismatch''))"

section \<open>Which positions hold resources\<close>

definition FD_RETURN_SYSCALLS :: "string list" where
  "FD_RETURN_SYSCALLS = [''open'', ''openat'', ''eventfd'', ''eventfd2'']"

definition PID_RETURN_SYSCALLS :: "string list" where
  "PID_RETURN_SYSCALLS = [''clone'', ''getpid'', ''getppid'']"

definition ADDR_RETURN_SYSCALLS :: "string list" where
  "ADDR_RETURN_SYSCALLS = [''mmap'', ''brk'']"

definition FD_ARG_POSITIONS :: "(string, nat list) dict" where
  "FD_ARG_POSITIONS =
     [(''close'', [0]), (''read'', [0]), (''write'', [0]), (''pread64'', [0]),
      (''pwrite64'', [0]), (''lseek'', [0]), (''fstat'', [0]), (''newfstatat'', [0]),
      (''openat'', [0]), (''mmap'', [4])]"

definition PID_ARG_POSITIONS :: "(string, nat list) dict" where
  "PID_ARG_POSITIONS = [(''wait4'', [0])]"

definition ADDR_ARG_POSITIONS :: "(string, nat list) dict" where
  "ADDR_ARG_POSITIONS =
     [(''open'', [0]), (''openat'', [1]), (''read'', [1]), (''write'', [1]), (''pread64'', [1]),
      (''pwrite64'', [1]), (''fstat'', [1]), (''newfstatat'', [1, 2]), (''mkdir'', [0]),
      (''unlink'', [0]), (''rename'', [0, 1]), (''mmap'', [0]), (''munmap'', [0]),
      (''mprotect'', [0]), (''brk'', [0]), (''clone'', [1, 2, 3, 4]), (''wait4'', [1, 3]),
      (''pipe'', [0]), (''pipe2'', [0]), (''socketpair'', [3])]"

definition positions :: "(string, nat list) dict \<Rightarrow> string \<Rightarrow> nat list" where
  "positions table name = (case dict_get name table of None \<Rightarrow> [] | Some ps \<Rightarrow> ps)"

datatype kind = Fd | Addr | Pid

definition kind_str :: "kind \<Rightarrow> string" where
  "kind_str k = (case k of Fd \<Rightarrow> ''fd'' | Addr \<Rightarrow> ''addr'' | Pid \<Rightarrow> ''pid'')"

section \<open>The canonicalization context\<close>

record canon_ctx =
  fd_map :: "(int, string) dict"
  addr_map :: "(int, string) dict"
  pid_map :: "(int, string) dict"

definition empty_ctx :: canon_ctx where
  "empty_ctx = \<lparr>fd_map = [], addr_map = [], pid_map = []\<rparr>"

definition ctx_map :: "kind \<Rightarrow> canon_ctx \<Rightarrow> (int, string) dict" where
  "ctx_map k c = (case k of Fd \<Rightarrow> fd_map c | Addr \<Rightarrow> addr_map c | Pid \<Rightarrow> pid_map c)"

definition set_ctx_map :: "kind \<Rightarrow> (int, string) dict \<Rightarrow> canon_ctx \<Rightarrow> canon_ctx" where
  "set_ctx_map k m c = (case k of Fd \<Rightarrow> c\<lparr>fd_map := m\<rparr> | Addr \<Rightarrow> c\<lparr>addr_map := m\<rparr>
     | Pid \<Rightarrow> c\<lparr>pid_map := m\<rparr>)"

definition token_str :: "kind \<Rightarrow> nat \<Rightarrow> string" where
  "token_str k n = kind_str k @ ''#'' @ nat_str n"

definition token :: "kind \<Rightarrow> int \<Rightarrow> canon_ctx \<Rightarrow> string \<times> canon_ctx" where
  "token k v c =
     (case dict_get v (ctx_map k c) of
        Some t \<Rightarrow> (t, c)
      | None \<Rightarrow>
          let t = token_str k (length (ctx_map k c))
          in (t, set_ctx_map k (dict_set v t (ctx_map k c)) c))"

definition normalize_scalar :: "int \<Rightarrow> kind option \<Rightarrow> canon_ctx \<Rightarrow> scalar \<times> canon_ctx" where
  "normalize_scalar v k c =
     (case k of
        None \<Rightarrow> (SInt v, c)
      | Some k' \<Rightarrow>
          if v = 0 \<or> v = - 1 \<or> v = - 100 then (SInt v, c)
          else case token k' v c of (t, c') \<Rightarrow> (STok t, c'))"

section \<open>Outputs and events\<close>

fun fd_tokens :: "int list \<Rightarrow> canon_ctx \<Rightarrow> string list \<times> canon_ctx" where
  "fd_tokens [] c = ([], c)"
| "fd_tokens (v # vs) c =
     (case token Fd v c of (t, c') \<Rightarrow> case fd_tokens vs c' of (ts, c'') \<Rightarrow> (t # ts, c''))"

definition mask_stat_preview :: "string \<Rightarrow> string" where
  "mask_stat_preview p = (if 32 \<le> length p then replicate 32 (CHR ''0'') @ drop 32 p else p)"

definition normalize_output :: "raw_output \<Rightarrow> canon_ctx \<Rightarrow> canon_output \<times> canon_ctx" where
  "normalize_output r c =
     (let item = \<lparr>co_label = ro_label r, co_arg_index = ro_arg_index r, co_length = ro_length r,
            co_preview_hex = (if ro_label r = ''stat'' then mask_stat_preview (ro_preview_hex r)
                              else ro_preview_hex r),
            co_sha256 = ro_sha256 r, co_resource_values = None\<rparr>
      in case ro_resource r of
           None \<Rightarrow> (item, c)
         | Some (rk, vs) \<Rightarrow>
             if rk = ''fd''
             then (case fd_tokens vs c of (ts, c') \<Rightarrow> (item\<lparr>co_resource_values := Some ts\<rparr>, c'))
             else (item, c))"

fun normalize_outputs :: "raw_output list \<Rightarrow> canon_ctx \<Rightarrow> canon_output list \<times> canon_ctx" where
  "normalize_outputs [] c = ([], c)"
| "normalize_outputs (r # rs) c =
     (case normalize_output r c of (x, c') \<Rightarrow>
        case normalize_outputs rs c' of (xs, c'') \<Rightarrow> (x # xs, c''))"

definition arg_kind :: "string \<Rightarrow> nat \<Rightarrow> int \<Rightarrow> kind option" where
  "arg_kind name i v =
     (if i \<in> set (positions FD_ARG_POSITIONS name) \<and> 0 \<le> v then Some Fd
      else if i \<in> set (positions PID_ARG_POSITIONS name) \<and> 0 < v then Some Pid
      else if i \<in> set (positions ADDR_ARG_POSITIONS name) \<and> 0 < v then Some Addr
      else None)"

definition return_kind :: "string \<Rightarrow> int \<Rightarrow> kind option" where
  "return_kind name v =
     (if name \<in> set FD_RETURN_SYSCALLS \<and> 0 \<le> v then Some Fd
      else if name \<in> set PID_RETURN_SYSCALLS \<and> 0 < v then Some Pid
      else if name \<in> set ADDR_RETURN_SYSCALLS \<and> 0 < v then Some Addr
      else None)"

fun normalize_args :: "string \<Rightarrow> nat \<Rightarrow> int list \<Rightarrow> canon_ctx \<Rightarrow> scalar list \<times> canon_ctx" where
  "normalize_args name i [] c = ([], c)"
| "normalize_args name i (v # vs) c =
     (case normalize_scalar v (arg_kind name i v) c of (s, c') \<Rightarrow>
        case normalize_args name (Suc i) vs c' of (ss, c'') \<Rightarrow> (s # ss, c''))"

definition normalize_return :: "string \<Rightarrow> int \<Rightarrow> canon_ctx \<Rightarrow> scalar \<times> canon_ctx" where
  "normalize_return name v c =
     (if v \<noteq> 0 then normalize_scalar v (return_kind name v) c else (SInt 0, c))"

definition normalize_event :: "raw_event \<Rightarrow> nat \<Rightarrow> canon_ctx \<Rightarrow> canon_event \<times> canon_ctx" where
  "normalize_event e actual_index c =
     (case normalize_args (re_name e) 0 (re_args e) c of (args, c1) \<Rightarrow>
      case normalize_return (re_name e) (re_return e) c1 of (ret, c2) \<Rightarrow>
      case normalize_outputs (re_outputs e) c2 of (outs, c3) \<Rightarrow>
        (\<lparr>ce_index = actual_index, ce_source_index = re_index e, ce_name = re_name e,
          ce_number = re_number e, ce_args = args, ce_return = ret, ce_errno = re_errno e,
          ce_duration_ns = re_end_ns e - re_start_ns e, ce_outputs = outs\<rparr>, c3))"

fun normalize_events :: "nat \<Rightarrow> raw_event list \<Rightarrow> canon_ctx \<Rightarrow> canon_event list \<times> canon_ctx" where
  "normalize_events i [] c = ([], c)"
| "normalize_events i (e # es) c =
     (case normalize_event e i c of (x, c') \<Rightarrow>
        case normalize_events (Suc i) es c' of (xs, c'') \<Rightarrow> (x # xs, c''))"

definition canonicalize :: "raw_trace \<Rightarrow> ext_state \<Rightarrow> canon_trace res" where
  "canonicalize t st =
     bind (validate_raw_trace t) (\<lambda>_.
     bind (opt_res (KeyError ''events'') (rt_events t)) (\<lambda>raw_events.
     let events = fst (normalize_events 0 raw_events empty_ctx) in
     bind (opt_res (KeyError ''program_id'') (rt_program_id t)) (\<lambda>program_id.
     bind (opt_res (KeyError ''side'') (rt_side t)) (\<lambda>side.
     bind (opt_res (KeyError ''process_exit'') (rt_process_exit t)) (\<lambda>process_exit.
     bind (validate_canonical_trace
            [''program_id'', ''side'', ''event_count'', ''events'', ''final_state'', ''process_exit'']
            (length events) (length events)) (\<lambda>_.
     Inr \<lparr>ct_program_id = program_id, ct_side = side, ct_event_count = length events,
          ct_events = events, ct_final_state = st, ct_process_exit = process_exit\<rparr>))))))"


section \<open>Threading the context\<close>

text \<open>
  Every loop of the normalizer runs a step over a list and threads the context. \<open>thread\<close> is
  that loop; the four loops of the code are instances of it.
\<close>

fun thread :: "('a \<Rightarrow> 's \<Rightarrow> 'b \<times> 's) \<Rightarrow> 'a list \<Rightarrow> 's \<Rightarrow> 'b list \<times> 's" where
  "thread f [] s = ([], s)"
| "thread f (x # xs) s = (case f x s of (y, s') \<Rightarrow> case thread f xs s' of (ys, s'') \<Rightarrow> (y # ys, s''))"

lemma fd_tokens_thread: "fd_tokens vs c = thread (token Fd) vs c"
  by (induction vs c rule: fd_tokens.induct) (auto split: prod.splits)

lemma normalize_args_thread:
  "normalize_args name i vs c =
     thread (\<lambda>(j, v). normalize_scalar v (arg_kind name j v)) (enumerate i vs) c"
  by (induction name i vs c rule: normalize_args.induct) (auto split: prod.splits)

lemma normalize_outputs_thread: "normalize_outputs rs c = thread normalize_output rs c"
  by (induction rs c rule: normalize_outputs.induct) (auto split: prod.splits)

lemma normalize_events_thread:
  "normalize_events i es c = thread (\<lambda>(j, e). normalize_event e j) (enumerate i es) c"
  by (induction i es c rule: normalize_events.induct) (auto split: prod.splits)

lemma thread_length: "length (fst (thread f xs s)) = length xs"
  by (induction xs arbitrary: s) (simp_all add: case_prod_beta)

lemma thread_sim:
  assumes "\<And>x s. step' (g x) (h s) = map_prod id h (step x s)"
  shows "thread step' (map g xs) (h s) = map_prod id h (thread step xs s)"
proof (induction xs arbitrary: s)
  case (Cons x xs)
  obtain y s' where s': "step x s = (y, s')" by fastforce
  with Cons.IH [of s'] show ?case by (simp add: assms split: prod.splits)
qed simp

lemma normalize_events_length [simp]: "length (fst (normalize_events i es c)) = length es"
  by (simp add: normalize_events_thread thread_length)

lemma normalize_event_index: "ce_index (fst (normalize_event e i c)) = i"
  by (simp add: normalize_event_def split: prod.splits)

lemma normalize_events_index:
  "j < length es \<Longrightarrow> ce_index (fst (normalize_events i es c) ! j) = i + j"
proof (induction es arbitrary: i j c)
  case (Cons e es)
  obtain x c' where x: "normalize_event e i c = (x, c')" by fastforce
  have "ce_index x = i" using normalize_event_index [of e i c] x by simp
  with Cons x show ?case by (cases j) (auto split: prod.splits dest: Cons.IH [of _ "Suc i" c'])
qed simp

section \<open>The context is an injective numbering\<close>

definition numbered :: "kind \<Rightarrow> (int, string) dict \<Rightarrow> bool" where
  "numbered k d \<longleftrightarrow> distinct (map fst d) \<and> map snd d = map (token_str k) [0..<length d]"

definition ctx_ok :: "canon_ctx \<Rightarrow> bool" where
  "ctx_ok c \<longleftrightarrow> (\<forall>k. numbered k (ctx_map k c))"

text \<open>Everything named in \<open>c\<close> has the same name in \<open>d\<close>.\<close>

definition ctx_le :: "canon_ctx \<Rightarrow> canon_ctx \<Rightarrow> bool" where
  "ctx_le c d \<longleftrightarrow> (\<forall>k v t. dict_get v (ctx_map k c) = Some t \<longrightarrow> dict_get v (ctx_map k d) = Some t)"

definition name_of :: "canon_ctx \<Rightarrow> kind \<Rightarrow> int \<Rightarrow> string" where
  "name_of c k v = (case dict_get v (ctx_map k c) of None \<Rightarrow> [] | Some t \<Rightarrow> t)"

lemma ctx_le_refl [simp]: "ctx_le c c"
  and ctx_le_trans: "ctx_le c d \<Longrightarrow> ctx_le d e \<Longrightarrow> ctx_le c e"
  by (auto simp: ctx_le_def)

lemma ctx_map_set [simp]: "ctx_map k (set_ctx_map k' m c) = (if k = k' then m else ctx_map k c)"
  by (cases k; cases k') (simp_all add: ctx_map_def set_ctx_map_def)

lemma token_str_inj [simp]: "token_str k m = token_str k n \<longleftrightarrow> m = n"
  by (simp add: token_str_def)

lemma dict_set_new: "v \<notin> fst ` set d \<Longrightarrow> dict_set v t d = d @ [(v, t)]"
  by (induction d) (auto simp: dict_set_def)

lemma numbered_set:
  assumes "numbered k d" "dict_get v d = None"
  shows "numbered k (dict_set v (token_str k (length d)) d)"
proof -
  from assms(2) have "v \<notin> fst ` set d" by (simp add: dict_get_def map_of_eq_None_iff)
  then show ?thesis using assms(1) by (simp add: dict_set_new numbered_def)
qed

lemma numbered_inj:
  assumes "numbered k d" "dict_get v d = Some t" "dict_get w d = Some t"
  shows "v = w"
proof -
  from assms(2,3) obtain i j where i: "i < length d" "d ! i = (v, t)"
    and j: "j < length d" "d ! j = (w, t)"
    by (metis dict_get_def in_set_conv_nth map_of_SomeD)
  have "snd (d ! n) = token_str k n" if "n < length d" for n
    using assms(1) that by (metis add_0 length_map length_upt minus_nat.diff_0 nth_map nth_upt numbered_def)
  from this [OF i(1)] this [OF j(1)] i j have "i = j" by simp
  with i j show ?thesis by simp
qed

lemma empty_ctx_ok [simp]: "ctx_ok empty_ctx"
proof -
  have "ctx_map k empty_ctx = []" for k by (cases k) (simp_all add: ctx_map_def empty_ctx_def)
  then show ?thesis by (simp add: ctx_ok_def numbered_def)
qed

lemma name_of_inj:
  "ctx_ok c \<Longrightarrow> inj_on (name_of c k) {v. dict_get v (ctx_map k c) \<noteq> None}"
  by (auto simp: inj_on_def name_of_def ctx_ok_def intro: numbered_inj)

lemma name_of_le: "ctx_le c d \<Longrightarrow> dict_get v (ctx_map k c) = Some t \<Longrightarrow> name_of d k v = t"
  by (auto simp: name_of_def ctx_le_def)

lemma token_spec:
  assumes "ctx_ok c" "token k v c = (t, c')"
  shows "ctx_ok c'" "ctx_le c c'" "dict_get v (ctx_map k c') = Some t"
proof -
  show "ctx_ok c'"
    using assms by (auto simp: ctx_ok_def token_def Let_def numbered_set split: option.splits)
  show "ctx_le c c'"
    using assms(2) by (auto simp: ctx_le_def token_def Let_def split: option.splits)
  show "dict_get v (ctx_map k c') = Some t"
    using assms(2) by (auto simp: token_def Let_def split: option.splits)
qed

section \<open>Static resolution\<close>

text \<open>
  The same normalization with the names given in advance: no context is threaded. \<open>n k v\<close> is
  the token of value \<open>v\<close> in kind \<open>k\<close>.
\<close>

type_synonym naming = "kind \<Rightarrow> int \<Rightarrow> string"

definition special :: "int \<Rightarrow> bool" where
  "special v \<longleftrightarrow> v = 0 \<or> v = - 1 \<or> v = - 100"

definition static_scalar :: "naming \<Rightarrow> kind option \<times> int \<Rightarrow> scalar" where
  "static_scalar n kv = (case kv of (None, v) \<Rightarrow> SInt v
     | (Some k, v) \<Rightarrow> if special v then SInt v else STok (n k v))"

definition static_output :: "naming \<Rightarrow> raw_output \<Rightarrow> canon_output" where
  "static_output n r =
     \<lparr>co_label = ro_label r, co_arg_index = ro_arg_index r, co_length = ro_length r,
      co_preview_hex = (if ro_label r = ''stat'' then mask_stat_preview (ro_preview_hex r)
                        else ro_preview_hex r),
      co_sha256 = ro_sha256 r,
      co_resource_values = (case ro_resource r of None \<Rightarrow> None
        | Some (rk, vs) \<Rightarrow> if rk = ''fd'' then Some (map (n Fd) vs) else None)\<rparr>"

definition arg_kinds :: "raw_event \<Rightarrow> (kind option \<times> int) list" where
  "arg_kinds e = map (\<lambda>(i, v). (arg_kind (re_name e) i v, v)) (enumerate 0 (re_args e))"

definition ret_kinds :: "raw_event \<Rightarrow> kind option \<times> int" where
  "ret_kinds e = (if re_return e = 0 then None else return_kind (re_name e) (re_return e), re_return e)"

definition static_event :: "naming \<Rightarrow> nat \<times> raw_event \<Rightarrow> canon_event" where
  "static_event n = (\<lambda>(i, e).
     \<lparr>ce_index = i, ce_source_index = re_index e, ce_name = re_name e,
      ce_number = re_number e, ce_args = map (static_scalar n) (arg_kinds e),
      ce_return = static_scalar n (ret_kinds e), ce_errno = re_errno e,
      ce_duration_ns = re_end_ns e - re_start_ns e,
      ce_outputs = map (static_output n) (re_outputs e)\<rparr>)"

text \<open>The resource values that get a token.\<close>

definition scalar_uses :: "kind option \<times> int \<Rightarrow> (kind \<times> int) set" where
  "scalar_uses kv = (case kv of (None, v) \<Rightarrow> {} | (Some k, v) \<Rightarrow> if special v then {} else {(k, v)})"

definition output_uses :: "raw_output \<Rightarrow> (kind \<times> int) set" where
  "output_uses r = (case ro_resource r of None \<Rightarrow> {}
     | Some (rk, vs) \<Rightarrow> if rk = ''fd'' then Pair Fd ` set vs else {})"

definition event_uses :: "raw_event \<Rightarrow> (kind \<times> int) set" where
  "event_uses e = (\<Union> (scalar_uses ` set (arg_kinds e))) \<union> scalar_uses (ret_kinds e)
     \<union> (\<Union> (output_uses ` set (re_outputs e)))"

definition named :: "canon_ctx \<Rightarrow> (kind \<times> int) set" where
  "named c = {(k, v). dict_get v (ctx_map k c) \<noteq> None}"

lemma named_mono: "ctx_le c d \<Longrightarrow> named c \<subseteq> named d"
  by (fastforce simp: named_def ctx_le_def)

text \<open>
  The interface between the step functions and the loop over them: a step keeps the context an
  injective numbering, only adds names, names all it uses, and its result is the static one under
  any later context.
\<close>

locale resolver =
  fixes step :: "'a \<Rightarrow> canon_ctx \<Rightarrow> 'b \<times> canon_ctx"
    and stat :: "naming \<Rightarrow> 'a \<Rightarrow> 'b"
    and uses :: "'a \<Rightarrow> (kind \<times> int) set"
  assumes step_ok: "ctx_ok c \<Longrightarrow> step x c = (y, c') \<Longrightarrow> ctx_ok c'"
    and step_le: "ctx_ok c \<Longrightarrow> step x c = (y, c') \<Longrightarrow> ctx_le c c'"
    and step_named: "ctx_ok c \<Longrightarrow> step x c = (y, c') \<Longrightarrow> uses x \<subseteq> named c'"
    and step_stat: "ctx_ok c \<Longrightarrow> step x c = (y, c') \<Longrightarrow> ctx_le c' d \<Longrightarrow> y = stat (name_of d) x"
begin

lemma thread_resolves:
  assumes "ctx_ok c" "thread step xs c = (ys, c')"
  shows "ctx_ok c' \<and> ctx_le c c' \<and> (\<Union> (uses ` set xs)) \<subseteq> named c' \<and>
    (\<forall>d. ctx_le c' d \<longrightarrow> ys = map (stat (name_of d)) xs)"
  using assms
proof (induction xs arbitrary: c ys)
  case (Cons x xs)
  from Cons.prems(2) obtain y c1 zs where s: "step x c = (y, c1)" "thread step xs c1 = (zs, c')"
    and ys: "ys = y # zs" by (auto split: prod.splits)
  note x = step_ok [OF Cons.prems(1) s(1)] step_le [OF Cons.prems(1) s(1)]
    step_named [OF Cons.prems(1) s(1)]
  note IH = Cons.IH [OF x(1) s(2)]
  have "y = stat (name_of d) x" if "ctx_le c' d" for d
    using step_stat [OF Cons.prems(1) s(1)] IH that by (blast intro: ctx_le_trans)
  moreover have "uses x \<subseteq> named c'" using x(3) IH named_mono [of c1 c'] by blast
  ultimately show ?case using IH x(2) by (auto simp: ys intro: ctx_le_trans)
qed simp

lemma thread_ok: "ctx_ok c \<Longrightarrow> thread step xs c = (ys, c') \<Longrightarrow> ctx_ok c'"
  and thread_le: "ctx_ok c \<Longrightarrow> thread step xs c = (ys, c') \<Longrightarrow> ctx_le c c'"
  and thread_named: "ctx_ok c \<Longrightarrow> thread step xs c = (ys, c') \<Longrightarrow> x \<in> set xs \<Longrightarrow> uses x \<subseteq> named c'"
  and thread_stat: "ctx_ok c \<Longrightarrow> thread step xs c = (ys, c') \<Longrightarrow> ctx_le c' d \<Longrightarrow>
    ys = map (stat (name_of d)) xs"
  using thread_resolves by blast+

end

interpretation tok: resolver "token k" "\<lambda>n. n k" "\<lambda>v. {(k, v)}" for k
  by unfold_locales
    (auto simp: token_spec named_def name_of_le dest: token_spec(3))

lemma normalize_scalar_special:
  "normalize_scalar v k c = (case k of None \<Rightarrow> (SInt v, c)
     | Some k' \<Rightarrow> if special v then (SInt v, c)
       else case token k' v c of (t, c') \<Rightarrow> (STok t, c'))"
  by (auto simp: normalize_scalar_def special_def split: option.splits prod.splits)

interpretation sca: resolver "\<lambda>(k, v). normalize_scalar v k" static_scalar scalar_uses
proof (unfold_locales, goal_cases)
  case (1 c x y c')
  then show ?case
    by (auto simp: normalize_scalar_special split: prod.splits option.splits if_splits
        dest: tok.step_ok)
next
  case (2 c x y c')
  then show ?case
    by (auto simp: normalize_scalar_special split: prod.splits option.splits if_splits
        dest: tok.step_le)
next
  case (3 c x y c')
  then show ?case
    by (auto simp: normalize_scalar_special scalar_uses_def split: prod.splits option.splits if_splits
        dest: tok.step_named)
next
  case (4 c x y c' d)
  then show ?case
    by (auto simp: normalize_scalar_special static_scalar_def split: prod.splits option.splits if_splits
        dest: tok.step_stat)
qed

lemma thread_map: "thread f (map g xs) s = thread (\<lambda>x. f (g x)) xs s"
  by (induction xs arbitrary: s) (simp_all add: case_prod_beta)

lemma normalize_args_resolve:
  "normalize_args (re_name e) 0 (re_args e) c = thread (\<lambda>(k, v). normalize_scalar v k) (arg_kinds e) c"
  by (simp add: normalize_args_thread arg_kinds_def thread_map split_def)

lemma normalize_return_resolve:
  "normalize_return (re_name e) (re_return e) c = (\<lambda>(k, v). normalize_scalar v k) (ret_kinds e) c"
  by (simp add: normalize_return_def ret_kinds_def normalize_scalar_def)

lemma normalize_output_resolve:
  "normalize_output r c =
     (case ro_resource r of
        Some (rk, vs) \<Rightarrow> if rk = ''fd''
          then (case thread (token Fd) vs c of (ts, c') \<Rightarrow>
            ((static_output (\<lambda>_ _. []) r)\<lparr>co_resource_values := Some ts\<rparr>, c'))
          else (static_output (\<lambda>_ _. []) r, c)
      | None \<Rightarrow> (static_output (\<lambda>_ _. []) r, c))"
  by (auto simp: normalize_output_def static_output_def fd_tokens_thread Let_def
      split: option.splits prod.splits)

interpretation outp: resolver normalize_output static_output output_uses
proof (unfold_locales, goal_cases)
  case (1 c x y c')
  then show ?case
    by (auto simp: normalize_output_resolve split: prod.splits option.splits if_splits
        dest: tok.thread_ok)
next
  case (2 c x y c')
  then show ?case
    by (auto simp: normalize_output_resolve split: prod.splits option.splits if_splits
        dest: tok.thread_le)
next
  case (3 c x y c')
  then show ?case
    by (auto simp: normalize_output_resolve output_uses_def split: prod.splits option.splits if_splits
        dest: tok.thread_named)
next
  case (4 c x y c' d)
  then show ?case
    by (auto simp: normalize_output_resolve static_output_def split: prod.splits option.splits if_splits
        dest: tok.thread_stat)
qed

lemma normalize_event_parts:
  assumes "normalize_event e i c = (y, c')"
  obtains args c1 ret c2 outs where
    "thread (\<lambda>(k, v). normalize_scalar v k) (arg_kinds e) c = (args, c1)"
    "(\<lambda>(k, v). normalize_scalar v k) (ret_kinds e) c1 = (ret, c2)"
    "thread normalize_output (re_outputs e) c2 = (outs, c')"
    "y = \<lparr>ce_index = i, ce_source_index = re_index e, ce_name = re_name e,
          ce_number = re_number e, ce_args = args, ce_return = ret, ce_errno = re_errno e,
          ce_duration_ns = re_end_ns e - re_start_ns e, ce_outputs = outs\<rparr>"
  using assms
  by (auto simp: normalize_event_def normalize_args_resolve normalize_return_resolve
      normalize_outputs_thread split: prod.splits)

lemma event_resolves:
  assumes "ctx_ok c" "normalize_event e i c = (y, c')"
  shows "ctx_ok c' \<and> ctx_le c c' \<and> event_uses e \<subseteq> named c' \<and>
    (\<forall>d. ctx_le c' d \<longrightarrow> y = static_event (name_of d) (i, e))"
proof -
  obtain args c1 ret c2 outs where
    s1: "thread (\<lambda>(k, v). normalize_scalar v k) (arg_kinds e) c = (args, c1)" and
    s2: "(\<lambda>(k, v). normalize_scalar v k) (ret_kinds e) c1 = (ret, c2)" and
    s3: "thread normalize_output (re_outputs e) c2 = (outs, c')" and
    y: "y = \<lparr>ce_index = i, ce_source_index = re_index e, ce_name = re_name e,
          ce_number = re_number e, ce_args = args, ce_return = ret, ce_errno = re_errno e,
          ce_duration_ns = re_end_ns e - re_start_ns e, ce_outputs = outs\<rparr>"
    using normalize_event_parts [OF assms(2)] .
  note ok1 = sca.thread_ok [OF assms(1) s1]
  note ok2 = sca.step_ok [OF ok1 s2]
  note les = sca.thread_le [OF assms(1) s1] sca.step_le [OF ok1 s2] outp.thread_le [OF ok2 s3]
  have le: "ctx_le c2 c'" "ctx_le c1 c'" "ctx_le c c'" using les by (blast intro: ctx_le_trans)+
  have "y = static_event (name_of d) (i, e)" if d: "ctx_le c' d" for d
  proof -
    have "ctx_le c1 d" "ctx_le c2 d" using le d by (blast intro: ctx_le_trans)+
    then show ?thesis
      using sca.thread_stat [OF assms(1) s1, of d] sca.step_stat [OF ok1 s2, of d]
        outp.thread_stat [OF ok2 s3 d] by (simp add: y static_event_def)
  qed
  moreover have "event_uses e \<subseteq> named c'"
    using sca.thread_named [OF assms(1) s1] sca.step_named [OF ok1 s2]
      outp.thread_named [OF ok2 s3] named_mono [OF le(1)] named_mono [OF le(2)]
    by (simp add: event_uses_def) blast
  ultimately show ?thesis using outp.thread_ok [OF ok2 s3] le(3) by blast
qed

interpretation ev: resolver "\<lambda>(i, e). normalize_event e i" static_event "\<lambda>(i, e). event_uses e"
  by unfold_locales (use event_resolves in \<open>force simp: case_prod_beta\<close>)+

section \<open>The canonicalizer\<close>

lemma canonicalize_eq:
  "canonicalize t st =
     (case validate_raw_trace t of Inl e \<Rightarrow> Inl e | Inr _ \<Rightarrow>
        Inr \<lparr>ct_program_id = the (rt_program_id t), ct_side = the (rt_side t),
             ct_event_count = length (the (rt_events t)),
             ct_events = fst (normalize_events 0 (the (rt_events t)) empty_ctx),
             ct_final_state = st, ct_process_exit = the (rt_process_exit t)\<rparr>)"
  by (cases "raw_trace_missing t")
    (auto simp: canonicalize_def validate_raw_trace_def raw_trace_missing_def Let_def
      validate_canonical_trace_def CANONICAL_TRACE_REQUIRED_def split: sum.splits)

definition trace_uses :: "kind \<Rightarrow> raw_event list \<Rightarrow> int set" where
  "trace_uses k es = {v. \<exists>e \<in> set es. (k, v) \<in> event_uses e}"

section \<open>A concrete trace\<close>

definition demo_event :: "int \<Rightarrow> string \<Rightarrow> int list \<Rightarrow> int \<Rightarrow> raw_output list \<Rightarrow> raw_event" where
  "demo_event i name args ret outs = \<lparr>re_index = i, re_name = name, re_number = 0, re_args = args,
     re_return = ret, re_errno = 0, re_start_ns = 10, re_end_ns = 20, re_outputs = outs\<rparr>"

definition demo_events :: "raw_event list" where
  "demo_events =
     [demo_event 0 ''openat'' [- 100, 4096, 0] 3 [],
      demo_event 1 ''pipe'' [8192] 0
        [\<lparr>ro_label = ''pipe_fds'', ro_arg_index = 0, ro_length = 8, ro_preview_hex = ''0400'',
          ro_sha256 = ''d0'', ro_resource = Some (''fd'', [4, 5])\<rparr>],
      demo_event 3 ''read'' [4, 4096, 16] 0 []]"

definition demo_exit :: process_exit where
  "demo_exit = \<lparr>pe_status = ''ok'', pe_exit_code = Some 0, pe_timed_out = False\<rparr>"

definition demo_state :: ext_state where
  "demo_state = \<lparr>es_files = [], es_truncated = False, es_read_error = None\<rparr>"

definition demo_trace :: raw_trace where
  "demo_trace = \<lparr>rt_program_id = Some ''p1'', rt_side = Some ''reference'', rt_run_id = Some ''r1'',
     rt_status = Some ''ok'', rt_events = Some demo_events, rt_process_exit = Some demo_exit\<rparr>"

lemmas demo_defs = demo_event_def demo_events_def demo_exit_def demo_state_def demo_trace_def

lemma demo_valid: "validate_raw_trace demo_trace = Inr ()"
  by (simp add: demo_defs validate_raw_trace_def raw_trace_missing_def)

text \<open>
  C2. The canonicalizer is a substitution. The events of the canonical trace are the raw events
  with every resource value replaced by one name, the same at each occurrence, in order and with
  their positions as indexes, and two distinct values of one kind never get the same name.
\<close>

theorem canonicalize_substitution:
  assumes "canonicalize t st = Inr ct" "rt_events t = Some es"
  shows "\<exists>n. (\<forall>k. inj_on (n k) (trace_uses k es)) \<and>
    ct_events ct = map (static_event n) (enumerate 0 es) \<and> ct_event_count ct = length es"
proof -
  obtain evs c' where ev: "normalize_events 0 es empty_ctx = (evs, c')" by fastforce
  with assms have ct: "ct_events ct = evs" "ct_event_count ct = length es"
    by (auto simp: canonicalize_eq split: sum.splits)
  have th: "thread (\<lambda>(j, e). normalize_event e j) (enumerate 0 es) empty_ctx = (evs, c')"
    using ev by (simp add: normalize_events_thread)
  have "trace_uses k es \<subseteq> {v. dict_get v (ctx_map k c') \<noteq> None}" for k
  proof
    fix v assume "v \<in> trace_uses k es"
    then obtain i where i: "i < length es" "(k, v) \<in> event_uses (es ! i)"
      by (auto simp: trace_uses_def in_set_conv_nth)
    then have "(i, es ! i) \<in> set (enumerate 0 es)" by (simp add: in_set_enumerate_eq)
    with i(2) show "v \<in> {v. dict_get v (ctx_map k c') \<noteq> None}"
      using ev.thread_named [OF empty_ctx_ok th] by (fastforce simp: named_def)
  qed
  then have "inj_on (name_of c' k) (trace_uses k es)" for k
    using name_of_inj [OF ev.thread_ok [OF empty_ctx_ok th]] by (blast intro: inj_on_subset)
  then show ?thesis
    using ct ev.thread_stat [OF empty_ctx_ok th ctx_le_refl] by blast
qed

section \<open>Renaming the resources\<close>

text \<open>
  Another run of the same program gets other descriptors, addresses and process ids. A renaming
  maps them injectively, kind by kind, keeps what is not positive and keeps positive what is.
\<close>

definition renaming :: "(kind \<Rightarrow> int \<Rightarrow> int) \<Rightarrow> bool" where
  "renaming f \<longleftrightarrow> (\<forall>k. inj (f k)) \<and> (\<forall>k v. v \<le> 0 \<longrightarrow> f k v = v) \<and> (\<forall>k v. 0 < v \<longrightarrow> 0 < f k v)"

definition rename_scalar :: "(kind \<Rightarrow> int \<Rightarrow> int) \<Rightarrow> kind option \<Rightarrow> int \<Rightarrow> int" where
  "rename_scalar f k v = (case k of None \<Rightarrow> v | Some k' \<Rightarrow> f k' v)"

definition rename_output :: "(kind \<Rightarrow> int \<Rightarrow> int) \<Rightarrow> raw_output \<Rightarrow> raw_output" where
  "rename_output f r = r\<lparr>ro_resource := (case ro_resource r of None \<Rightarrow> None
     | Some (rk, vs) \<Rightarrow> Some (rk, if rk = ''fd'' then map (f Fd) vs else vs))\<rparr>"

definition rename_event :: "(kind \<Rightarrow> int \<Rightarrow> int) \<Rightarrow> raw_event \<Rightarrow> raw_event" where
  "rename_event f e = e\<lparr>
     re_args := map (\<lambda>(i, v). rename_scalar f (arg_kind (re_name e) i v) v) (enumerate 0 (re_args e)),
     re_return := rename_scalar f (return_kind (re_name e) (re_return e)) (re_return e),
     re_outputs := map (rename_output f) (re_outputs e)\<rparr>"

definition rename_trace :: "(kind \<Rightarrow> int \<Rightarrow> int) \<Rightarrow> raw_trace \<Rightarrow> raw_trace" where
  "rename_trace f t = t\<lparr>rt_events := map_option (map (rename_event f)) (rt_events t)\<rparr>"

definition rename_ctx :: "(kind \<Rightarrow> int \<Rightarrow> int) \<Rightarrow> canon_ctx \<Rightarrow> canon_ctx" where
  "rename_ctx f c = \<lparr>fd_map = map (apfst (f Fd)) (fd_map c),
     addr_map = map (apfst (f Addr)) (addr_map c), pid_map = map (apfst (f Pid)) (pid_map c)\<rparr>"

lemma ctx_map_rename [simp]: "ctx_map k (rename_ctx f c) = map (apfst (f k)) (ctx_map k c)"
  by (cases k) (simp_all add: ctx_map_def rename_ctx_def)

lemma set_ctx_map_rename:
  "set_ctx_map k (map (apfst (f k)) d) (rename_ctx f c) = rename_ctx f (set_ctx_map k d c)"
  by (cases k) (simp_all add: set_ctx_map_def rename_ctx_def)

lemma rename_empty_ctx [simp]: "rename_ctx f empty_ctx = empty_ctx"
  by (simp add: rename_ctx_def empty_ctx_def)

lemma dict_get_apfst: "inj g \<Longrightarrow> dict_get (g v) (map (apfst g) d) = dict_get v d"
  by (induction d) (auto simp: dict_get_Cons inj_eq)

lemma dict_set_apfst: "inj g \<Longrightarrow> dict_set (g v) t (map (apfst g) d) = map (apfst g) (dict_set v t d)"
  by (induction d) (auto simp: dict_set_def inj_eq)

lemma renamingD:
  assumes "renaming f"
  shows "inj (f k)" "v \<le> 0 \<Longrightarrow> f k v = v" "(0 < f k v) = (0 < v)" "(0 \<le> f k v) = (0 \<le> v)"
    "special (f k v) = special v" "(f k v = 0) = (v = 0)"
proof -
  show inj: "inj (f k)" and np: "v \<le> 0 \<Longrightarrow> f k v = v" for v using assms by (auto simp: renaming_def)
  have pos: "0 < v \<Longrightarrow> 0 < f k v" using assms by (simp add: renaming_def)
  show "(0 < f k v) = (0 < v)" "(0 \<le> f k v) = (0 \<le> v)" "(f k v = 0) = (v = 0)"
    "special (f k v) = special v"
    using np [of v] pos by (cases "v \<le> 0"; force simp: special_def)+
qed

lemma special_le: "special v \<Longrightarrow> v \<le> 0"
  by (auto simp: special_def)

lemma rename_scalar_kind:
  assumes "renaming f"
  shows "arg_kind name i (rename_scalar f k v) = arg_kind name i v"
    "return_kind name (rename_scalar f k v) = return_kind name v"
    "rename_scalar f k v = 0 \<longleftrightarrow> v = 0"
  by (cases k; simp add: rename_scalar_def arg_kind_def return_kind_def renamingD [OF assms])+

lemma token_rename:
  "renaming f \<Longrightarrow> token k (f k v) (rename_ctx f c) = map_prod id (rename_ctx f) (token k v c)"
  by (simp add: token_def Let_def dict_get_apfst dict_set_apfst renamingD(1) set_ctx_map_rename
      split: option.splits)

lemma scalar_rename:
  assumes "renaming f"
  shows "normalize_scalar (rename_scalar f k v) k (rename_ctx f c) =
    map_prod id (rename_ctx f) (normalize_scalar v k c)"
proof (cases k)
  case (Some k')
  then show ?thesis
    using renamingD(2) [OF assms, of v k'] special_le [of v]
    by (cases "special v") (auto simp: normalize_scalar_special rename_scalar_def token_rename [OF assms]
        renamingD(5) [OF assms] split: prod.splits)
qed (simp add: normalize_scalar_special rename_scalar_def)

lemma output_rename:
  assumes "renaming f"
  shows "normalize_output (rename_output f r) (rename_ctx f c) =
    map_prod id (rename_ctx f) (normalize_output r c)"
proof -
  have "thread (token Fd) (map (f Fd) vs) (rename_ctx f c) = map_prod id (rename_ctx f) (thread (token Fd) vs c)"
    for vs by (rule thread_sim) (rule token_rename [OF assms])
  then show ?thesis
    by (auto simp: normalize_output_def rename_output_def fd_tokens_thread Let_def
        split: option.splits prod.splits)
qed

lemma event_rename:
  assumes "renaming f"
  shows "normalize_event (rename_event f e) i (rename_ctx f c) =
    map_prod id (rename_ctx f) (normalize_event e i c)"
proof -
  have kinds: "arg_kinds (rename_event f e) = map (\<lambda>(k, v). (k, rename_scalar f k v)) (arg_kinds e)"
    by (simp add: arg_kinds_def rename_event_def enumerate_map_upt [symmetric] rename_scalar_kind [OF assms]
        list_eq_iff_nth_eq nth_enumerate_eq)
  have args: "thread (\<lambda>(k, v). normalize_scalar v k) (arg_kinds (rename_event f e)) (rename_ctx f c) =
      map_prod id (rename_ctx f) (thread (\<lambda>(k, v). normalize_scalar v k) (arg_kinds e) c)" for c
    unfolding kinds by (rule thread_sim) (auto simp: scalar_rename [OF assms])
  have ret: "(\<lambda>(k, v). normalize_scalar v k) (ret_kinds (rename_event f e)) (rename_ctx f c) =
      map_prod id (rename_ctx f) ((\<lambda>(k, v). normalize_scalar v k) (ret_kinds e) c)" for c
    using scalar_rename [OF assms, of "return_kind (re_name e) (re_return e)" "re_return e" c]
    by (auto simp: ret_kinds_def rename_event_def rename_scalar_kind [OF assms] normalize_scalar_def)
  have outs: "thread normalize_output (re_outputs (rename_event f e)) (rename_ctx f c) =
      map_prod id (rename_ctx f) (thread normalize_output (re_outputs e) c)" for c
    by (simp add: rename_event_def, rule thread_sim) (rule output_rename [OF assms])
  show ?thesis
    by (simp add: normalize_event_def normalize_args_resolve normalize_return_resolve
        normalize_outputs_thread args ret outs split: prod.splits)
      (simp add: rename_event_def)
qed

lemma check_indexes_rename [simp]: "check_indexes p (map (rename_event f) es) = check_indexes p es"
  by (induction es arbitrary: p) (auto simp: rename_event_def)

lemma events_rename:
  assumes "renaming f"
  shows "normalize_events i (map (rename_event f) es) (rename_ctx f c) =
    map_prod id (rename_ctx f) (normalize_events i es c)"
  by (induction es arbitrary: i c) (simp_all add: event_rename [OF assms] split: prod.splits)

text \<open>
  Canonicalization does not see which descriptors, addresses and process ids the kernel gave
  out: renaming them injectively through the whole trace (what is not positive stays) leaves the
  result, errors included, as it is.
\<close>

lemma canonicalize_rename:
  assumes "renaming f"
  shows "canonicalize (rename_trace f t) st = canonicalize t st"
  using events_rename [OF assms, of 0 "the (rt_events t)" empty_ctx]
  by (cases "rt_events t")
    (auto simp: canonicalize_eq rename_trace_def validate_raw_trace_def raw_trace_missing_def
      split: sum.splits)

lemma canonicalize_substitution_witness:
  "\<exists>n. (\<forall>k. inj_on (n k) (trace_uses k demo_events)) \<and>
    ct_events (projr (canonicalize demo_trace demo_state)) = map (static_event n) (enumerate 0 demo_events) \<and>
    ct_event_count (projr (canonicalize demo_trace demo_state)) = 3"
proof -
  obtain ct where ct: "canonicalize demo_trace demo_state = Inr ct"
    using demo_valid by (simp add: canonicalize_eq)
  have "rt_events demo_trace = Some demo_events" by (simp add: demo_trace_def)
  moreover have "length demo_events = 3" by (simp add: demo_events_def)
  ultimately show ?thesis using canonicalize_substitution [OF ct] ct by simp
qed

lemma canonicalize_rename_witness:
  "canonicalize (rename_trace (\<lambda>k v. if 0 < v then v + 7 else v) demo_trace) demo_state =
     canonicalize demo_trace demo_state \<and>
   rename_trace (\<lambda>k v. if 0 < v then v + 7 else v) demo_trace \<noteq> demo_trace"
proof
  have "renaming (\<lambda>k v. if 0 < v then v + 7 else v)"
    by (auto simp: renaming_def inj_def)
  then show "canonicalize (rename_trace (\<lambda>k v. if 0 < v then v + 7 else v) demo_trace) demo_state =
     canonicalize demo_trace demo_state"
    by (rule canonicalize_rename)
qed (simp add: demo_defs rename_trace_def rename_event_def rename_scalar_def return_kind_def
    FD_RETURN_SYSCALLS_def)

text \<open>
  What the renaming leaves out: the preview and the digest of an output are copied as the tracer
  wrote them, so two runs whose \<open>pipe\<close> buffers hold different descriptors do not canonicalize
  alike although their resource values do.
\<close>

lemma output_bytes_kept:
  "co_sha256 (fst (normalize_output r c)) = ro_sha256 r"
  "ro_label r \<noteq> ''stat'' \<Longrightarrow> co_preview_hex (fst (normalize_output r c)) = ro_preview_hex r"
  by (auto simp: normalize_output_def Let_def split: option.splits prod.splits)

lemma pipe_bytes_distinguish:
  assumes "ro_sha256 r \<noteq> ro_sha256 r'"
  shows "fst (normalize_output r c) \<noteq> fst (normalize_output r' c)"
  using assms by (metis output_bytes_kept(1))

end
