(* ===== verification/Constants.thy ===== *)
theory Constants
  imports PyText
begin

text \<open>
  The canonical vocabulary of \<open>core/constants.py\<close>. Each \<open>StrEnum\<close> is a datatype with its string;
  a member equals its string in Python, so the components compare \<open>status_str OK\<close> with the
  strings that runs report. The lemmas show the strings distinct, which is what makes the
  comparisons of the components decide the member.
\<close>

datatype ExecutionStatus = OK | TIMEOUT | INFRA_ERROR | CRASH | CANDIDATE_BUG | UNSUPPORTED

fun status_str :: "ExecutionStatus \<Rightarrow> string" where
  "status_str OK = ''ok''"
| "status_str TIMEOUT = ''timeout''"
| "status_str INFRA_ERROR = ''infra_error''"
| "status_str CRASH = ''crash''"
| "status_str CANDIDATE_BUG = ''candidate_bug''"
| "status_str UNSUPPORTED = ''unsupported''"

datatype Classification =
    NO_DIFF | BASELINE_INVALID | BUG_LIKELY | WEAK_SPEC_OR_ENV_NOISE | UNSUPPORTED_FEATURE
  | BUILD_FAILURE | INFRA_ERROR_CLASS

fun class_str :: "Classification \<Rightarrow> string" where
  "class_str NO_DIFF = ''no_diff''"
| "class_str BASELINE_INVALID = ''baseline_invalid''"
| "class_str BUG_LIKELY = ''bug_likely''"
| "class_str WEAK_SPEC_OR_ENV_NOISE = ''weak_spec_or_env_noise''"
| "class_str UNSUPPORTED_FEATURE = ''unsupported_feature''"
| "class_str BUILD_FAILURE = ''build_failure''"
| "class_str INFRA_ERROR_CLASS = ''infra_error''"

datatype ExecutionMode = SINGLE_COMMAND | PACKAGED_PER_CASE | SHARED_RUNTIME_BATCH

fun mode_str :: "ExecutionMode \<Rightarrow> string" where
  "mode_str SINGLE_COMMAND = ''single_command''"
| "mode_str PACKAGED_PER_CASE = ''packaged_per_case''"
| "mode_str SHARED_RUNTIME_BATCH = ''shared_runtime_batch''"

datatype Side = REFERENCE | CANDIDATE

fun side_str :: "Side \<Rightarrow> string" where
  "side_str REFERENCE = ''reference''"
| "side_str CANDIDATE = ''candidate''"

datatype TraceEventsTransport = FILE_TRANSPORT | STDOUT_TRANSPORT

fun transport_str :: "TraceEventsTransport \<Rightarrow> string" where
  "transport_str FILE_TRANSPORT = ''file''"
| "transport_str STDOUT_TRANSPORT = ''stdout''"

datatype SCMLPreflightStatus = PF_NOT_RUN | PF_PASSED | PF_REJECTED

fun preflight_str :: "SCMLPreflightStatus \<Rightarrow> string" where
  "preflight_str PF_NOT_RUN = ''not_run''"
| "preflight_str PF_PASSED = ''passed''"
| "preflight_str PF_REJECTED = ''rejected''"

datatype SCMLResultBucket =
    NOT_RUN | REJECTED_BY_SCML | PASSED_SCML_AND_NO_DIFF | PASSED_SCML_AND_DIVERGED
  | PASSED_SCML_BUT_CANDIDATE_FAILED | PASSED_SCML_BUT_REFERENCE_FAILED

fun bucket_str :: "SCMLResultBucket \<Rightarrow> string" where
  "bucket_str NOT_RUN = []"
| "bucket_str REJECTED_BY_SCML = ''rejected_by_scml''"
| "bucket_str PASSED_SCML_AND_NO_DIFF = ''passed_scml_and_no_diff''"
| "bucket_str PASSED_SCML_AND_DIVERGED = ''passed_scml_and_diverged''"
| "bucket_str PASSED_SCML_BUT_CANDIDATE_FAILED = ''passed_scml_but_candidate_failed''"
| "bucket_str PASSED_SCML_BUT_REFERENCE_FAILED = ''passed_scml_but_reference_failed''"

lemma status_str_inj [simp]: "status_str s = status_str s' \<longleftrightarrow> s = s'"
  by (cases s; cases s'; simp)

lemma class_str_inj [simp]: "class_str c = class_str c' \<longleftrightarrow> c = c'"
  by (cases c; cases c'; simp)

lemma mode_str_inj [simp]: "mode_str m = mode_str m' \<longleftrightarrow> m = m'"
  by (cases m; cases m'; simp)

lemma side_str_inj [simp]: "side_str s = side_str s' \<longleftrightarrow> s = s'"
  by (cases s; cases s'; simp)

lemma transport_str_inj [simp]: "transport_str t = transport_str t' \<longleftrightarrow> t = t'"
  by (cases t; cases t'; simp)

lemma bucket_str_inj [simp]: "bucket_str b = bucket_str b' \<longleftrightarrow> b = b'"
  by (cases b; cases b'; simp)

text \<open>The configured label of a classification: \<open>config()["classification"][c]\<close>.\<close>

type_synonym class_labels = "(string, string) dict"

definition class_label :: "class_labels \<Rightarrow> Classification \<Rightarrow> string res" where
  "class_label classes c = opt_res (KeyError (class_str c)) (dict_get (class_str c) classes)"

text \<open>Every label the code looks up is configured.\<close>

definition labels_total :: "class_labels \<Rightarrow> bool" where
  "labels_total classes \<longleftrightarrow> list_all (\<lambda>c. dict_get (class_str c) classes \<noteq> None)
     [NO_DIFF, BASELINE_INVALID, BUG_LIKELY, WEAK_SPEC_OR_ENV_NOISE, UNSUPPORTED_FEATURE]"

lemma labels_total_ok:
  assumes "labels_total classes" "c \<noteq> BUILD_FAILURE" "c \<noteq> INFRA_ERROR_CLASS"
  obtains l where "class_label classes c = Inr l"
  using assms by (cases c) (auto simp: labels_total_def class_label_def)

end
