(* ===== verification/Compare.thy ===== *)
theory Compare
  imports Trace Constants
begin

text \<open>
  Comparing two canonical traces and classifying a case (\<open>analyzer/compare.py\<close>,
  \<open>analyzer/classify.py\<close>). \<open>compare_events\<close> is the loop of \<open>compare_canonical\<close> with its two
  variables \<open>first_divergence_index\<close> and \<open>noise_only\<close>; the noise syscalls and the labels are
  the parts of the configuration the code reads.

  The lemmas give the verdict as a relation on the two traces: equivalent exactly when the
  events match pointwise and the final state and the process exit agree; the reported index is
  the first position that does not match; the flag \<open>noise_only\<close> is never set.
\<close>

section \<open>Comparison\<close>

datatype field_name = Args | ReturnValue | Errno | Outputs

definition is_noise_event :: "canon_event \<Rightarrow> canon_event \<Rightarrow> string list \<Rightarrow> bool" where
  "is_noise_event l r noise_syscalls =
     (if ce_name l \<noteq> ce_name r then False
      else if ce_name l \<notin> set noise_syscalls then False
      else ce_args l = ce_args r \<and> ce_outputs l = ce_outputs r)"

definition field_differs :: "field_name \<Rightarrow> canon_event \<Rightarrow> canon_event \<Rightarrow> bool" where
  "field_differs f l r = (case f of
       Args \<Rightarrow> ce_args l \<noteq> ce_args r
     | ReturnValue \<Rightarrow> ce_return l \<noteq> ce_return r
     | Errno \<Rightarrow> ce_errno l \<noteq> ce_errno r
     | Outputs \<Rightarrow> ce_outputs l \<noteq> ce_outputs r)"

text \<open>The inner loop over the four fields: does it break?\<close>

fun fields_break :: "bool \<Rightarrow> field_name list \<Rightarrow> canon_event \<Rightarrow> canon_event \<Rightarrow> bool" where
  "fields_break noise [] l r = False"
| "fields_break noise (f # fs) l r =
     (if field_differs f l r
      then (if noise \<and> (f = ReturnValue \<or> f = Errno) then fields_break noise fs l r else True)
      else fields_break noise fs l r)"

text \<open>The result is \<open>(first_divergence_index, noise_only)\<close>; \<open>zip(strict=True)\<close> raises when one
  list ends before the other.\<close>

fun compare_events :: "string list \<Rightarrow> canon_event list \<Rightarrow> canon_event list \<Rightarrow> (nat option \<times> bool) res" where
  "compare_events noise [] [] = Inr (None, True)"
| "compare_events noise (l # ls) (r # rs) =
     (if ce_name l \<noteq> ce_name r then Inr (Some (ce_index l), False)
      else if fields_break (is_noise_event l r noise) [Args, ReturnValue, Errno, Outputs] l r
        then Inr (Some (ce_index l), False)
      else compare_events noise ls rs)"
| "compare_events noise _ _ = Inl (ValueError ''zip() arguments have different lengths'')"

record comparison =
  cmp_equivalent :: bool
  cmp_noise_only :: bool
  cmp_first_divergence_index :: "nat option"
  cmp_reason :: string
  cmp_final_state_equal :: "bool option"
  cmp_process_exit_equal :: "bool option"

definition compare_canonical :: "string list \<Rightarrow> canon_trace \<Rightarrow> canon_trace \<Rightarrow> comparison res" where
  "compare_canonical noise_syscalls reference candidate =
     (if ct_event_count reference \<noteq> ct_event_count candidate then
        Inr \<lparr>cmp_equivalent = False, cmp_noise_only = False,
             cmp_first_divergence_index =
               Some (min (ct_event_count reference) (ct_event_count candidate)),
             cmp_reason = ''event_count_mismatch'',
             cmp_final_state_equal = None, cmp_process_exit_equal = None\<rparr>
      else
        bind (compare_events noise_syscalls (ct_events reference) (ct_events candidate)) (\<lambda>(first, noise0).
        let final_state_equal = (ct_final_state reference = ct_final_state candidate);
            process_exit_equal = (ct_process_exit reference = ct_process_exit candidate);
            noise1 = (if process_exit_equal then noise0 else False);
            first1 = (if \<not> process_exit_equal \<and> first = None then Some (ct_event_count reference) else first);
            equivalent = (first1 = None \<and> final_state_equal \<and> process_exit_equal);
            noise2 = (if equivalent then False else noise1)
        in Inr \<lparr>cmp_equivalent = equivalent, cmp_noise_only = noise2 \<and> final_state_equal,
                cmp_first_divergence_index = first1,
                cmp_reason = (if equivalent then ''no_diff'' else ''content_mismatch''),
                cmp_final_state_equal = Some final_state_equal,
                cmp_process_exit_equal = Some process_exit_equal\<rparr>))"

section \<open>Classification\<close>

definition classify_result ::
  "class_labels \<Rightarrow> bool \<Rightarrow> string \<Rightarrow> string \<Rightarrow> comparison option \<Rightarrow> string res" where
  "classify_result classes reference_stable reference_status candidate_status comparison =
     (if \<not> reference_stable \<or> reference_status \<noteq> status_str OK then class_label classes BASELINE_INVALID
      else if candidate_status = status_str UNSUPPORTED then class_label classes UNSUPPORTED_FEATURE
      else if candidate_status \<in> {status_str CRASH, status_str TIMEOUT, status_str CANDIDATE_BUG}
        then class_label classes BUG_LIKELY
      else case comparison of
        None \<Rightarrow>
          if candidate_status = status_str INFRA_ERROR then class_label classes WEAK_SPEC_OR_ENV_NOISE
          else class_label classes UNSUPPORTED_FEATURE
      | Some c \<Rightarrow>
          if cmp_equivalent c then class_label classes NO_DIFF
          else if candidate_status \<in> {status_str CRASH, status_str TIMEOUT, status_str CANDIDATE_BUG}
            then class_label classes BUG_LIKELY
          else if candidate_status = status_str INFRA_ERROR then class_label classes WEAK_SPEC_OR_ENV_NOISE
          else if cmp_noise_only c then class_label classes WEAK_SPEC_OR_ENV_NOISE
          else class_label classes BUG_LIKELY)"

section \<open>What the comparison decides\<close>

text \<open>Two events match: the same call, arguments and outputs; the result too, unless the call is noise.\<close>

definition event_match :: "string list \<Rightarrow> canon_event \<Rightarrow> canon_event \<Rightarrow> bool" where
  "event_match noise l r \<longleftrightarrow> ce_name l = ce_name r \<and> ce_args l = ce_args r \<and> ce_outputs l = ce_outputs r \<and>
     (ce_name l \<in> set noise \<or> ce_return l = ce_return r \<and> ce_errno l = ce_errno r)"

lemma event_match_iff:
  "event_match noise l r \<longleftrightarrow> ce_name l = ce_name r \<and>
     \<not> fields_break (is_noise_event l r noise) [Args, ReturnValue, Errno, Outputs] l r"
  by (auto simp: event_match_def is_noise_event_def field_differs_def)

lemma compare_events_Cons [simp]:
  "compare_events noise (l # ls) (r # rs) =
     (if event_match noise l r then compare_events noise ls rs else Inr (Some (ce_index l), False))"
  by (auto simp: event_match_iff)

declare compare_events.simps(2) [simp del]

lemma event_match_refl [simp]: "event_match noise e e"
  by (simp add: event_match_def)

lemma event_match_sym: "event_match noise l r \<longleftrightarrow> event_match noise r l"
  by (auto simp: event_match_def)

lemma compare_events_match:
  "length ls = length rs \<Longrightarrow> list_all2 (event_match noise) ls rs \<Longrightarrow> compare_events noise ls rs = Inr (None, True)"
  by (induction ls rs rule: list_induct2) auto

lemma compare_events_split:
  "length ls = length rs \<Longrightarrow> \<not> list_all2 (event_match noise) ls rs \<Longrightarrow>
     \<exists>i < length ls. compare_events noise ls rs = Inr (Some (ce_index (ls ! i)), False) \<and>
       \<not> event_match noise (ls ! i) (rs ! i) \<and> (\<forall>j < i. event_match noise (ls ! j) (rs ! j))"
proof (induction ls rs rule: list_induct2)
  case (Cons l ls r rs)
  show ?case
  proof (cases "event_match noise l r")
    case True
    with Cons.prems Cons.IH obtain i where i: "i < length ls"
      "compare_events noise ls rs = Inr (Some (ce_index (ls ! i)), False)"
      "\<not> event_match noise (ls ! i) (rs ! i)" "\<forall>j < i. event_match noise (ls ! j) (rs ! j)" by auto
    with True show ?thesis by (intro exI [of _ "Suc i"]) (auto simp: less_Suc_eq_0_disj)
  qed (intro exI [of _ 0]; simp)
qed simp

text \<open>The traces the canonicalizer makes: the count is the number of events, the indexes their positions.\<close>

definition canon_wf :: "canon_trace \<Rightarrow> bool" where
  "canon_wf t \<longleftrightarrow> ct_event_count t = length (ct_events t) \<and> map ce_index (ct_events t) = [0..<length (ct_events t)]"

lemma canon_wf_nth: "canon_wf t \<Longrightarrow> i < length (ct_events t) \<Longrightarrow> ce_index (ct_events t ! i) = i"
  by (metis add_0 canon_wf_def length_map minus_nat.diff_0 length_upt nth_map nth_upt)

lemma canonicalize_wf:
  assumes "canonicalize t st = Inr ct"
  shows "canon_wf ct"
proof -
  let ?es = "the (rt_events t)"
  have "map ce_index (fst (normalize_events 0 ?es empty_ctx)) = [0..<length ?es]"
    by (rule nth_equalityI) (simp_all add: normalize_events_index)
  with assms show ?thesis by (auto simp: canonicalize_eq canon_wf_def split: sum.splits)
qed

lemma compare_total:
  assumes "canon_wf a" "canon_wf b"
  obtains c where "compare_canonical noise a b = Inr c"
proof (cases "ct_event_count a = ct_event_count b")
  case True
  with assms have len: "length (ct_events a) = length (ct_events b)" by (simp add: canon_wf_def)
  then obtain x where "compare_events noise (ct_events a) (ct_events b) = Inr x"
    using compare_events_match compare_events_split [OF len] by blast
  with that True show ?thesis by (cases x) (auto simp: compare_canonical_def Let_def)
qed (auto simp: compare_canonical_def intro: that)

lemma compare_same_count:
  assumes "ct_event_count a = ct_event_count b" "compare_canonical noise a b = Inr c"
  obtains first noise0 where "compare_events noise (ct_events a) (ct_events b) = Inr (first, noise0)"
    "cmp_first_divergence_index c = (if ct_process_exit a \<noteq> ct_process_exit b \<and> first = None
       then Some (ct_event_count a) else first)"
    "cmp_equivalent c \<longleftrightarrow> first = None \<and> ct_final_state a = ct_final_state b \<and> ct_process_exit a = ct_process_exit b"
    "cmp_noise_only c \<longleftrightarrow> \<not> cmp_equivalent c \<and> noise0 \<and> ct_final_state a = ct_final_state b \<and>
       ct_process_exit a = ct_process_exit b"
  using assms by (cases "compare_events noise (ct_events a) (ct_events b)")
    (auto simp: compare_canonical_def Let_def split: if_splits)

lemma compare_events_Inr:
  assumes "compare_events noise ls rs = Inr (first, noise0)" "length ls = length rs"
  shows "(first = None \<longleftrightarrow> list_all2 (event_match noise) ls rs) \<and> (noise0 \<longleftrightarrow> first = None)"
proof (cases "list_all2 (event_match noise) ls rs")
  case True
  with compare_events_match [OF assms(2)] assms(1) show ?thesis by simp
next
  case False
  with compare_events_split [OF assms(2) False] assms(1) show ?thesis by auto
qed

lemma compare_equivalent_iff:
  assumes "canon_wf a" "canon_wf b" "compare_canonical noise a b = Inr c"
  shows "cmp_equivalent c \<longleftrightarrow> list_all2 (event_match noise) (ct_events a) (ct_events b) \<and>
    ct_final_state a = ct_final_state b \<and> ct_process_exit a = ct_process_exit b"
proof (cases "ct_event_count a = ct_event_count b")
  case True
  from compare_same_count [OF True assms(3)] obtain first noise0 where
    "compare_events noise (ct_events a) (ct_events b) = Inr (first, noise0)"
    "cmp_equivalent c \<longleftrightarrow> first = None \<and> ct_final_state a = ct_final_state b \<and> ct_process_exit a = ct_process_exit b"
    by metis
  with compare_events_Inr True assms(1,2) show ?thesis by (auto simp: canon_wf_def)
next
  case False
  with assms show ?thesis
    by (auto simp: compare_canonical_def canon_wf_def dest: list_all2_lengthD)
qed

lemma compare_events_flag:
  "compare_events noise ls rs = Inr (first, noise0) \<Longrightarrow> noise0 = (first = None)"
  by (induction ls rs rule: list_induct2') (auto simp: compare_events.simps(3,4) split: if_splits)

lemma noise_only_never: "compare_canonical noise a b = Inr c \<Longrightarrow> cmp_noise_only c = False"
proof (cases "ct_event_count a = ct_event_count b")
  assume c: "compare_canonical noise a b = Inr c"
  case True
  from compare_same_count [OF True c] compare_events_flag show ?thesis by metis
qed (auto simp: compare_canonical_def)

text \<open>
  C3. The comparison of two canonicalized traces always returns, and it says equivalent exactly
  when the traces have the same length, every pair of events agrees on call, arguments and outputs
  and (unless the call is a configured noise call) on return value and errno, and the final states
  and process exits are equal.
\<close>

theorem compare_verdict:
  assumes "canonicalize t st = Inr a" "canonicalize t' st' = Inr b"
  shows "\<exists>c. compare_canonical noise a b = Inr c \<and>
    (cmp_equivalent c \<longleftrightarrow> list_all2 (event_match noise) (ct_events a) (ct_events b) \<and>
       st = st' \<and> ct_process_exit a = ct_process_exit b)"
proof -
  have "ct_final_state a = st" "ct_final_state b = st'"
    using assms by (auto simp: canonicalize_eq split: sum.splits)
  then show ?thesis
    using canonicalize_wf [OF assms(1)] canonicalize_wf [OF assms(2)]
    by (metis compare_total compare_equivalent_iff)
qed

text \<open>
  The reported divergence index is the first one: below it all events match, and at it they do
  not (or it is the number of events, all of which match, and the process exits differ); no index
  means that all events and the process exits agree.
\<close>

theorem compare_first_divergence:
  assumes "canonicalize t st = Inr a" "canonicalize t' st' = Inr b"
    "compare_canonical noise a b = Inr c" "ct_event_count a = ct_event_count b"
  shows "case cmp_first_divergence_index c of
      None \<Rightarrow> list_all2 (event_match noise) (ct_events a) (ct_events b) \<and> ct_process_exit a = ct_process_exit b
    | Some i \<Rightarrow> (\<forall>j < i. event_match noise (ct_events a ! j) (ct_events b ! j)) \<and>
        (if i < ct_event_count a then \<not> event_match noise (ct_events a ! i) (ct_events b ! i)
         else i = ct_event_count a \<and> ct_process_exit a \<noteq> ct_process_exit b)"
proof -
  let ?as = "ct_events a" and ?bs = "ct_events b"
  note wf = canonicalize_wf [OF assms(1)] canonicalize_wf [OF assms(2)]
  then have len: "length ?as = length ?bs" and n: "ct_event_count a = length ?as"
    using assms(4) by (auto simp: canon_wf_def)
  from compare_same_count [OF assms(4,3)] obtain first noise0 where
    ev: "compare_events noise ?as ?bs = Inr (first, noise0)" and
    fst: "cmp_first_divergence_index c = (if ct_process_exit a \<noteq> ct_process_exit b \<and> first = None
       then Some (ct_event_count a) else first)" by metis
  show ?thesis
  proof (cases "list_all2 (event_match noise) ?as ?bs")
    case True
    then show ?thesis
      using compare_events_match [OF len True] ev fst n by (auto dest: list_all2_nthD)
  next
    case False
    then obtain i where "i < length ?as" "compare_events noise ?as ?bs = Inr (Some (ce_index (?as ! i)), False)"
      "\<not> event_match noise (?as ! i) (?bs ! i)" "\<forall>j < i. event_match noise (?as ! j) (?bs ! j)"
      using compare_events_split [OF len] by blast
    then show ?thesis using ev fst n canon_wf_nth [OF wf(1)] by simp
  qed
qed

text \<open>
  C32. The classification, on the comparisons the comparer produces, is this table and no other:
  \<open>noise_only\<close> is never set by \<open>compare_canonical\<close>, so neither the branch that
  reads it nor the second test for a crashed candidate is ever taken, and an infrastructure error
  of the candidate with an equivalent comparison still counts as no difference.
\<close>

theorem classify_table:
  assumes "\<forall>c. cmp = Some c \<longrightarrow> compare_canonical noise a b = Inr c"
  shows "classify_result classes ref_stable ref_status cand_status cmp = class_label classes
    (if \<not> ref_stable \<or> ref_status \<noteq> ''ok'' then BASELINE_INVALID
     else if cand_status = ''unsupported'' then UNSUPPORTED_FEATURE
     else if cand_status \<in> {''crash'', ''timeout'', ''candidate_bug''} then BUG_LIKELY
     else case map_option cmp_equivalent cmp of
       None \<Rightarrow> if cand_status = ''infra_error'' then WEAK_SPEC_OR_ENV_NOISE else UNSUPPORTED_FEATURE
     | Some equivalent \<Rightarrow> if equivalent then NO_DIFF
         else if cand_status = ''infra_error'' then WEAK_SPEC_OR_ENV_NOISE else BUG_LIKELY)"
  using assms noise_only_never
  by (cases cmp) (auto simp: classify_result_def)

section \<open>Reruns of one execution\<close>

text \<open>Another run of the same execution: other resources, other times.\<close>

definition retime_event :: "(int \<Rightarrow> int \<times> int) \<Rightarrow> raw_event \<Rightarrow> raw_event" where
  "retime_event g e = e\<lparr>re_start_ns := fst (g (re_index e)), re_end_ns := snd (g (re_index e))\<rparr>"

definition rerun_trace :: "(kind \<Rightarrow> int \<Rightarrow> int) \<Rightarrow> (int \<Rightarrow> int \<times> int) \<Rightarrow> string \<Rightarrow> raw_trace \<Rightarrow> raw_trace" where
  "rerun_trace f g side t = (rename_trace f t)\<lparr>
     rt_side := Some side,
     rt_events := map_option (map (retime_event g)) (rt_events (rename_trace f t))\<rparr>"

definition untimed :: "canon_event \<Rightarrow> canon_event" where
  "untimed e = e\<lparr>ce_duration_ns := 0\<rparr>"

lemma normalize_event_retime:
  "map_prod untimed id (normalize_event (retime_event g e) i c) = map_prod untimed id (normalize_event e i c)"
  by (auto simp: normalize_event_def retime_event_def untimed_def split: prod.splits)

lemma normalize_events_retime:
  "map_prod (map untimed) id (normalize_events i (map (retime_event g) es) c) =
     map_prod (map untimed) id (normalize_events i es c)"
proof (induction es arbitrary: i c)
  case (Cons e es)
  obtain x c1 where x: "normalize_event e i c = (x, c1)" by fastforce
  then obtain y where y: "normalize_event (retime_event g e) i c = (y, c1)" "untimed y = untimed x"
    using normalize_event_retime [of g e i c] by (cases "normalize_event (retime_event g e) i c") auto
  show ?case
    using Cons.IH [of "Suc i" c1] x y by (auto split: prod.splits)
qed simp

lemma untimed_match: "untimed x = untimed y \<Longrightarrow> event_match noise x y"
  by (cases x; cases y) (simp add: untimed_def event_match_def)

lemma untimed_match_all: "map untimed xs = map untimed ys \<Longrightarrow> list_all2 (event_match noise) xs ys"
  by (auto simp: list_all2_conv_all_nth untimed_match dest: map_eq_imp_length_eq)
    (metis length_map nth_map untimed_match)

lemma check_indexes_retime [simp]: "check_indexes p (map (retime_event g) es) = check_indexes p es"
  by (induction es arbitrary: p) (auto simp: retime_event_def)

lemma canonicalize_rerun:
  assumes "renaming f" "canonicalize t st = Inr a"
  obtains b where "canonicalize (rerun_trace f g side t) st = Inr b"
    "map untimed (ct_events b) = map untimed (ct_events a)"
    "ct_process_exit b = ct_process_exit a" "ct_final_state b = ct_final_state a"
proof -
  let ?t = "rename_trace f t"
  from assms have "canonicalize ?t st = Inr a" by (simp add: canonicalize_rename)
  moreover have "validate_raw_trace (rerun_trace f g side t) = validate_raw_trace ?t" if "rt_side ?t \<noteq> None"
    using that by (auto simp: rerun_trace_def validate_raw_trace_def raw_trace_missing_def split: option.splits)
  moreover have "map untimed (fst (normalize_events 0 (map (retime_event g) es) empty_ctx)) =
      map untimed (fst (normalize_events 0 es empty_ctx))" for es
    using normalize_events_retime [of 0 g es empty_ctx]
    by (auto simp: prod_eq_iff)
  ultimately show thesis
    by (intro that [of "a\<lparr>ct_side := side, ct_events :=
          fst (normalize_events 0 (the (rt_events (rerun_trace f g side t))) empty_ctx)\<rparr>"])
      (auto simp: canonicalize_eq rerun_trace_def validate_raw_trace_def raw_trace_missing_def
        split: sum.splits if_splits option.splits)
qed

text \<open>
  No false alarm from the run itself: when the candidate makes the same calls with the same
  results as the reference, in other descriptors, addresses and process ids and at other times,
  the comparison of the two canonical traces is equivalent, with no divergence index.
\<close>

lemma rerun_equivalent:
  assumes "renaming f" "canonicalize t st = Inr a" "canonicalize (rerun_trace f g side t) st = Inr b"
  shows "\<exists>c. compare_canonical noise a b = Inr c \<and> cmp_equivalent c \<and> cmp_first_divergence_index c = None"
proof -
  obtain b' where "canonicalize (rerun_trace f g side t) st = Inr b'"
    "map untimed (ct_events b') = map untimed (ct_events a)"
    "ct_process_exit b' = ct_process_exit a" "ct_final_state b' = ct_final_state a"
    using canonicalize_rerun [OF assms(1,2)] .
  with assms(3) have b: "map untimed (ct_events b) = map untimed (ct_events a)"
    "ct_process_exit b = ct_process_exit a" "ct_final_state b = ct_final_state a" by auto
  note wf = canonicalize_wf [OF assms(2)] canonicalize_wf [OF assms(3)]
  have cnt: "ct_event_count a = ct_event_count b"
    using wf b(1) by (simp add: canon_wf_def) (metis length_map)
  have m: "list_all2 (event_match noise) (ct_events a) (ct_events b)"
    using untimed_match_all [OF b(1) [symmetric]] .
  obtain c where c: "compare_canonical noise a b = Inr c" using compare_total [OF wf] .
  with compare_equivalent_iff [OF wf c] m b have eq: "cmp_equivalent c" by simp
  from compare_same_count [OF cnt c] eq have "cmp_first_divergence_index c = None"
    using b(2) by metis
  with c eq show ?thesis by blast
qed

section \<open>Concrete instances\<close>

definition demo_canon :: canon_trace where
  "demo_canon = projr (canonicalize demo_trace demo_state)"

lemma demo_canon: "canonicalize demo_trace demo_state = Inr demo_canon"
  using demo_valid by (simp add: demo_canon_def canonicalize_eq)

definition demo_failed :: raw_trace where
  "demo_failed = demo_trace\<lparr>rt_events := Some
     [demo_event 0 ''openat'' [- 100, 4096, 0] 7 [], demo_event 1 ''brk'' [] 0 [],
      demo_event 2 ''read'' [7, 4096, 16] (- 1) []]\<rparr>"

definition demo_failed_canon :: canon_trace where
  "demo_failed_canon = projr (canonicalize demo_failed demo_state)"

lemma demo_failed_canon: "canonicalize demo_failed demo_state = Inr demo_failed_canon"
proof -
  have "validate_raw_trace demo_failed = Inr ()"
    by (simp add: demo_failed_def demo_defs validate_raw_trace_def raw_trace_missing_def)
  then show ?thesis by (simp add: demo_failed_canon_def canonicalize_eq)
qed

lemma demo_diverges:
  "map_sum id (\<lambda>c. (cmp_first_divergence_index c, cmp_equivalent c)) (compare_canonical [] demo_canon demo_failed_canon) =
     Inr (Some 1, False)"
  by code_simp

lemma demo_counts: "ct_event_count demo_canon = 3" "ct_event_count demo_failed_canon = 3"
  by code_simp+

lemma demo_comparison:
  obtains c where "compare_canonical [] demo_canon demo_failed_canon = Inr c"
    "cmp_first_divergence_index c = Some 1" "\<not> cmp_equivalent c"
  using demo_diverges by (cases "compare_canonical [] demo_canon demo_failed_canon") auto

lemma compare_verdict_witness:
  "\<exists>c. compare_canonical [''brk''] demo_canon demo_canon = Inr c \<and>
    (cmp_equivalent c \<longleftrightarrow> list_all2 (event_match [''brk'']) (ct_events demo_canon) (ct_events demo_canon) \<and>
       demo_state = demo_state \<and> ct_process_exit demo_canon = ct_process_exit demo_canon)"
  by (rule compare_verdict [OF demo_canon demo_canon])

lemma compare_first_divergence_witness:
  "event_match [] (ct_events demo_canon ! 0) (ct_events demo_failed_canon ! 0) \<and>
   \<not> event_match [] (ct_events demo_canon ! 1) (ct_events demo_failed_canon ! 1)"
proof -
  obtain c where c: "compare_canonical [] demo_canon demo_failed_canon = Inr c"
    "cmp_first_divergence_index c = Some 1" using demo_comparison .
  have "ct_event_count demo_canon = ct_event_count demo_failed_canon" by (simp add: demo_counts)
  from compare_first_divergence [OF demo_canon demo_failed_canon c(1) this] c(2)
  show ?thesis by (simp add: demo_counts)
qed

lemma classify_table_witness:
  "\<exists>c. compare_canonical [] demo_canon demo_failed_canon = Inr c \<and> \<not> cmp_equivalent c \<and>
    classify_result [(''bug_likely'', ''BUG'')] True ''ok'' ''ok'' (Some c) = Inr ''BUG'' \<and>
    classify_result [(''weak_spec_or_env_noise'', ''WEAK'')] True ''ok'' ''infra_error'' (Some c) = Inr ''WEAK''"
proof -
  obtain c where c: "compare_canonical [] demo_canon demo_failed_canon = Inr c"
    "cmp_first_divergence_index c = Some 1" "\<not> cmp_equivalent c" using demo_comparison .
  have "\<forall>c'. Some c = Some c' \<longrightarrow> compare_canonical [] demo_canon demo_failed_canon = Inr c'"
    using c(1) by simp
  then show ?thesis
    using c(1,3) classify_table [of "Some c" "[]" demo_canon demo_failed_canon]
    by (intro exI [of _ c]) (simp add: class_label_def dict_get_def)
qed

lemma rerun_equivalent_witness:
  "\<exists>b c. canonicalize (rerun_trace (\<lambda>k v. if 0 < v then v + 7 else v) (\<lambda>i. (i, 2 * i)) ''candidate'' demo_trace)
      demo_state = Inr b \<and> compare_canonical [] demo_canon b = Inr c \<and> cmp_equivalent c \<and>
    cmp_first_divergence_index c = None"
proof -
  have f: "renaming (\<lambda>k v. if 0 < v then v + 7 else v)" by (auto simp: renaming_def inj_def)
  obtain b where b: "canonicalize (rerun_trace (\<lambda>k v. if 0 < v then v + 7 else v) (\<lambda>i. (i, 2 * i))
      ''candidate'' demo_trace) demo_state = Inr b"
    by (rule canonicalize_rerun [OF f demo_canon]) (rule that)
  from rerun_equivalent [OF f demo_canon b] b show ?thesis by blast
qed

end
