(* ===== verification/PyFloat.thy ===== *)
theory PyFloat
  imports Complex_Main PyText
begin

text \<open>
  Python's \<open>float\<close> as the source uses it: the finite binary64 numbers, as rationals. \<open>to_double\<close> is
  the rounding to the nearest of them (ties to even, subnormal numbers included), \<open>py_truediv\<close> the
  true division of two integers, \<open>float_repr\<close> the text of \<open>repr\<close> and of \<open>json.dumps\<close> (the shortest
  decimal that reads back, the closest of these), \<open>fixed3\<close> the format \<open>.3f\<close>. The rounding is
  monotone and leaves a double as it is, and \<open>repr\<close> never loses a value: seventeen digits are enough
  (\<open>repr_decimal_reads_back\<close>). Infinities, NaN and the negative zero are not values here.
\<close>

section \<open>Rounding\<close>

definition nearest_even :: "rat \<Rightarrow> int" where
  "nearest_even x = (let f = \<lfloor>x\<rfloor>; r = x - of_int f in
     if r < 1 / 2 \<or> (r = 1 / 2 \<and> even f) then f else f + 1)"

text \<open>The number of digits of an integer in base \<open>b\<close>.\<close>

function int_length :: "int \<Rightarrow> int \<Rightarrow> nat" where
  "int_length b n = (if n < 1 \<or> b < 2 then 0 else Suc (int_length b (n div b)))"
  by pat_completeness auto
termination
  by (relation "measure (\<lambda>(b, n). nat n)") (auto simp: nat_mono_iff pos_imp_zdiv_nonneg_iff intro: int_div_less_self)

declare int_length.simps [simp del]

text \<open>The power of the base above a positive number: \<open>b powi (m - 1) \<le> x < b powi m\<close>.\<close>

definition magnitude :: "int \<Rightarrow> rat \<Rightarrow> int" where
  "magnitude b x = (if 1 \<le> x then int (int_length b \<lfloor>x\<rfloor>) else 1 - int (int_length b (\<lceil>1 / x\<rceil> - 1)))"

definition ulp_exp :: "rat \<Rightarrow> int" where
  "ulp_exp x = max (magnitude 2 \<bar>x\<bar> - 53) (- 1074)"

definition to_double :: "rat \<Rightarrow> rat" where
  "to_double x = (if x = 0 then 0 else
     (let u = 2 powi ulp_exp x in of_int (nearest_even (x / u)) * u))"

definition finite_double :: "rat \<Rightarrow> bool" where
  "finite_double x \<longleftrightarrow> \<bar>x\<bar> < 2 ^ 1024"

definition is_double :: "rat \<Rightarrow> bool" where
  "is_double x \<longleftrightarrow> to_double x = x \<and> finite_double x"

text \<open>\<open>a / b\<close> of two integers.\<close>

definition py_truediv :: "int \<Rightarrow> int \<Rightarrow> rat res" where
  "py_truediv a b =
     (if b = 0 then Inl ZeroDivisionError
      else let q = to_double (of_int a / of_int b) in
        if finite_double q then Inr q else Inl (OverflowErr ''integer division result too large for a float''))"

text \<open>\<open>float(i)\<close> of an integer.\<close>

definition py_float_of_int :: "int \<Rightarrow> rat res" where
  "py_float_of_int i = (let q = to_double (of_int i) in
     if finite_double q then Inr q else Inl (OverflowErr ''int too large to convert to float''))"

section \<open>Texts\<close>

text \<open>Decimal digits of integers, computed without unary numbers.\<close>

function pos_str :: "int \<Rightarrow> string" where
  "pos_str i = (if i < 10 then [digit_char (nat i)] else pos_str (i div 10) @ [digit_char (nat (i mod 10))])"
  by pat_completeness auto
termination
  by (relation "measure nat") auto

declare pos_str.simps [simp del]

lemma pos_str_nat: "0 \<le> i \<Longrightarrow> pos_str i = nat_str (nat i)"
proof (induction i rule: pos_str.induct)
  case (1 i)
  then show ?case
    by (subst pos_str.simps, subst nat_str.simps)
      (auto simp: nat_div_distrib nat_mod_distrib nat_less_iff)
qed

lemma int_str_code [code]:
  "int_str i = (if i < 0 then CHR ''-'' # pos_str (- i) else pos_str i)"
  by (simp add: int_str_def pos_str_nat)

definition str_int :: "string \<Rightarrow> int" where
  "str_int s = foldl (\<lambda>n c. 10 * n + int (char_digit c)) 0 s"

lemma str_int_nat [code_unfold]: "int (str_nat s) = str_int s"
proof -
  have "int (foldl (\<lambda>n c. 10 * n + char_digit c) n s) = foldl (\<lambda>n c. 10 * n + int (char_digit c)) (int n) s" for n
    by (induction s arbitrary: n) simp_all
  from this [of 0] show ?thesis by (simp add: str_nat_def str_int_def)
qed

text \<open>\<open>f"{x:.3f}"\<close>: the exact value of the double, rounded to three decimals.\<close>

definition fixed3 :: "rat \<Rightarrow> string" where
  "fixed3 x = (let n = nearest_even (\<bar>x\<bar> * 1000); d = n mod 1000 in
     (if x < 0 then ''-'' else []) @ int_str (n div 1000) @ ''.'' @
     int_str (d div 100) @ int_str (d div 10 mod 10) @ int_str (d mod 10))"

text \<open>
  \<open>repr\<close>: for one digit, two digits and so on up to seventeen, the two decimals around the number,
  the closer one first; the first that reads back is the text.
\<close>

definition decimal_value :: "int \<times> int \<Rightarrow> rat" where
  "decimal_value = (\<lambda>(m, s). of_int m * 10 powi s)"

definition decimal_candidates :: "rat \<Rightarrow> nat \<Rightarrow> (int \<times> int) list" where
  "decimal_candidates x n =
     (let s = magnitude 10 x - int n; y = x / 10 powi s; c = nearest_even y; f = \<lfloor>y\<rfloor>
      in [(c, s), (if c = f then f + 1 else f, s)])"

definition reads_back :: "rat \<Rightarrow> int \<times> int \<Rightarrow> bool" where
  "reads_back x d \<longleftrightarrow> to_double (decimal_value d) = x"

definition repr_decimal :: "rat \<Rightarrow> int \<times> int" where
  "repr_decimal x =
     (case find (reads_back x) (concat (map (decimal_candidates x) [1..<18])) of
        Some d \<Rightarrow> d
      | None \<Rightarrow> hd (decimal_candidates x 17))"

definition rstrip_zeros :: "string \<Rightarrow> string" where
  "rstrip_zeros s = rev (dropWhile (\<lambda>c. c = CHR ''0'') (rev s))"

text \<open>The digits and the place of the point: the number is \<open>0.ds\<close> times ten to \<open>p\<close>.\<close>

definition layout_digits :: "string \<Rightarrow> int \<Rightarrow> string" where
  "layout_digits ds p =
     (if - 4 < p \<and> p \<le> 16 then
        (if p \<le> 0 then ''0.'' @ replicate (nat (- p)) (CHR ''0'') @ ds
         else if int (length ds) \<le> p then ds @ replicate (nat p - length ds) (CHR ''0'') @ ''.0''
         else take (nat p) ds @ ''.'' @ drop (nat p) ds)
      else
        (let e = p - 1; k = int_str \<bar>e\<bar> in
         take 1 ds @ (if length ds = 1 then [] else CHR ''.'' # tl ds) @ ''e'' @
         (if e < 0 then ''-'' else ''+'') @ (if length k < 2 then CHR ''0'' # k else k)))"

definition pos_repr :: "rat \<Rightarrow> string" where
  "pos_repr x = (let (m, s) = repr_decimal x; t = int_str m in
     layout_digits (rstrip_zeros t) (int (length t) + s))"

definition float_repr :: "rat \<Rightarrow> string" where
  "float_repr x = (if x = 0 then ''0.0'' else if x < 0 then CHR ''-'' # pos_repr (- x) else pos_repr x)"

section \<open>Magnitudes\<close>

lemma int_length_bounds:
  "2 \<le> b \<Longrightarrow> 0 < n \<Longrightarrow> 0 < int_length b n \<and> b ^ (int_length b n - 1) \<le> n \<and> n < b ^ int_length b n"
proof (induction b n rule: int_length.induct)
  case (1 b n)
  have step: "int_length b n = Suc (int_length b (n div b))"
    using "1.prems" by (subst int_length.simps) simp
  have split: "b * (n div b) \<le> n" "n < b * (n div b) + b"
    using "1.prems" by (simp_all add: minus_mod_eq_mult_div [symmetric])
  show ?case
  proof (cases "n div b = 0")
    case True
    have "int_length b 0 = 0" by (simp add: int_length.simps)
    with True split "1.prems" show ?thesis by (simp add: step)
  next
    case False
    then have pos: "0 < n div b" using "1.prems" by (simp add: pos_imp_zdiv_nonneg_iff order_less_le)
    obtain l where l: "int_length b (n div b) = Suc l" "b ^ l \<le> n div b" "n div b < b ^ Suc l"
      using "1.IH" "1.prems" pos by (cases "int_length b (n div b)") auto
    have low: "b * b ^ l \<le> b * (n div b)" using l(2) "1.prems" by (intro mult_left_mono) auto
    have high: "b * (n div b) + b \<le> b * b ^ Suc l"
      using mult_left_mono [of "n div b + 1" "b ^ Suc l" b] l(3) "1.prems" by (simp add: distrib_left)
    from low split(1) have "b * b ^ l \<le> n" by (rule order_trans)
    moreover from high split(2) have "n < b * b ^ Suc l" by linarith
    ultimately show ?thesis by (simp add: step l(1))
  qed
qed

lemma int_length_powi:
  assumes "2 \<le> b" "0 < n"
  shows "(of_int b :: rat) powi (int (int_length b n) - 1) \<le> of_int n \<and> of_int n < (of_int b :: rat) powi int (int_length b n)"
proof -
  let ?l = "int_length b n"
  have "0 < ?l" "b ^ (?l - 1) \<le> n" "n < b ^ ?l" using int_length_bounds [OF assms] by auto
  moreover have "int ?l - 1 = int (?l - 1)" using \<open>0 < ?l\<close> by simp
  ultimately show ?thesis by (metis of_int_le_iff of_int_less_iff of_int_power power_int_of_nat)
qed

lemma magnitude_bounds:
  assumes "2 \<le> b" "0 < x"
  shows "(of_int b :: rat) powi (magnitude b x - 1) \<le> x" "x < of_int b powi magnitude b x"
proof -
  have "of_int b powi (magnitude b x - 1) \<le> x \<and> x < of_int b powi magnitude b x"
  proof (cases "1 \<le> x")
    case True
    then have pos: "0 < \<lfloor>x\<rfloor>" by simp
    define l where "l = int_length b \<lfloor>x\<rfloor>"
    have b: "0 < l" "b ^ (l - 1) \<le> \<lfloor>x\<rfloor>" "\<lfloor>x\<rfloor> < b ^ l"
      using int_length_bounds [OF assms(1) pos] by (auto simp: l_def)
    have "of_int (b ^ (l - 1)) \<le> x" using b(2) by (simp add: le_floor_iff)
    moreover have "x < of_int (b ^ l)" using b(3) by (simp add: floor_less_iff)
    moreover have "int l - 1 = int (l - 1)" using b(1) by simp
    ultimately show ?thesis using True by (simp add: magnitude_def l_def [symmetric] del: of_nat_diff)
  next
    case False
    then have inv: "1 < 1 / x" using assms(2) by (simp add: field_simps)
    then have pos: "0 < \<lceil>1 / x\<rceil> - 1" by (simp add: less_ceiling_iff)
    define l where "l = int_length b (\<lceil>1 / x\<rceil> - 1)"
    have b: "0 < l" "b ^ (l - 1) \<le> \<lceil>1 / x\<rceil> - 1" "\<lceil>1 / x\<rceil> - 1 < b ^ l"
      using int_length_bounds [OF assms(1) pos] by (auto simp: l_def)
    have "b ^ (l - 1) < \<lceil>1 / x\<rceil>" "\<lceil>1 / x\<rceil> \<le> b ^ l" using b(2,3) by linarith+
    then have "of_int (b ^ (l - 1)) < 1 / x" "1 / x \<le> of_int (b ^ l)"
      by (simp_all add: less_ceiling_iff ceiling_le_iff)
    moreover have "(of_int b :: rat) powi (- int n) = 1 / of_int (b ^ n)" for n
      by (simp add: power_int_minus divide_inverse)
    moreover have "0 < (of_int (b ^ n) :: rat)" for n using assms(1) by simp
    ultimately have "of_int b powi (- int l) \<le> x" "x < of_int b powi (- int (l - 1))"
      using assms(2) by (simp_all add: field_simps del: of_int_power)
    moreover have "- int (l - 1) = 1 - int l" using b(1) by simp
    ultimately show ?thesis using False by (simp add: magnitude_def l_def [symmetric] del: of_nat_diff)
  qed
  then show "(of_int b :: rat) powi (magnitude b x - 1) \<le> x" "x < of_int b powi magnitude b x" by auto
qed

lemma powi_less_iff: "2 \<le> b \<Longrightarrow> (of_int b :: rat) powi i < of_int b powi j \<longleftrightarrow> i < j"
  using power_int_strict_increasing [of i j "of_int b :: rat"] power_int_increasing [of j i "of_int b :: rat"]
  by (cases "i < j") auto

lemma magnitude_unique:
  assumes "2 \<le> b" "(of_int b :: rat) powi (m - 1) \<le> x" "x < of_int b powi m"
  shows "magnitude b x = m"
proof -
  have "0 < (of_int b :: rat) powi (m - 1)" using assms(1) by simp
  then have x: "0 < x" using assms(2) by linarith
  have "(of_int b :: rat) powi (magnitude b x - 1) < of_int b powi m"
    "(of_int b :: rat) powi (m - 1) < of_int b powi magnitude b x"
    using magnitude_bounds [OF assms(1) x] assms(2,3) by linarith+
  then show ?thesis using assms(1) by (simp add: powi_less_iff)
qed

lemma magnitude_mono:
  assumes "2 \<le> b" "0 < x" "x \<le> y"
  shows "magnitude b x \<le> magnitude b y"
proof -
  have "(of_int b :: rat) powi (magnitude b x - 1) < of_int b powi magnitude b y"
    using magnitude_bounds(1) [OF assms(1,2)] magnitude_bounds(2) [OF assms(1), of y] assms(2,3) by linarith
  then show ?thesis using assms(1) by (simp add: powi_less_iff)
qed

section \<open>Properties of the rounding\<close>

lemma nearest_even_near: "\<bar>of_int (nearest_even x) - x\<bar> \<le> 1 / 2"
  using floor_correct [of x] by (auto simp: nearest_even_def Let_def)

lemma nearest_even_int [simp]: "nearest_even (of_int n) = n"
  by (simp add: nearest_even_def)

lemma nearest_even_unique:
  assumes "\<bar>of_int n - x\<bar> < 1 / 2"
  shows "nearest_even x = n"
proof -
  have "\<bar>of_int (nearest_even x) - of_int n\<bar> < (1 :: rat)"
    using nearest_even_near [of x] assms by linarith
  then have "\<bar>nearest_even x - n\<bar> < 1" by (metis of_int_1_less_iff of_int_abs of_int_diff of_int_less_1_iff)
  then show ?thesis by linarith
qed

lemma nearest_even_mono:
  assumes "x \<le> y"
  shows "nearest_even x \<le> nearest_even y"
proof (cases "\<lfloor>x\<rfloor> = \<lfloor>y\<rfloor>")
  case True
  with assms show ?thesis by (auto simp: nearest_even_def Let_def)
next
  case False
  with floor_mono [OF assms] have "\<lfloor>x\<rfloor> + 1 \<le> \<lfloor>y\<rfloor>" by linarith
  moreover have "nearest_even x \<le> \<lfloor>x\<rfloor> + 1" "\<lfloor>y\<rfloor> \<le> nearest_even y"
    by (simp_all add: nearest_even_def Let_def)
  ultimately show ?thesis by linarith
qed

lemma floor_odd: "\<lfloor>- x\<rfloor> = (if x = of_int \<lfloor>x\<rfloor> then - \<lfloor>x\<rfloor> else - \<lfloor>x\<rfloor> - 1)" for x :: rat
proof (cases "x = of_int \<lfloor>x\<rfloor>")
  case True
  then show ?thesis by (metis floor_of_int of_int_minus)
next
  case False
  with floor_correct [of x] show ?thesis by (simp add: floor_eq_iff) linarith
qed

lemma nearest_even_minus: "nearest_even (- x) = - nearest_even x"
proof (cases "x = of_int \<lfloor>x\<rfloor>")
  case True
  then show ?thesis by (metis nearest_even_int of_int_minus)
next
  case False
  define r where "r = x - of_int \<lfloor>x\<rfloor>"
  have "- x - of_int \<lfloor>- x\<rfloor> = 1 - r" using False by (simp add: floor_odd r_def)
  then show ?thesis using False
    by (auto simp: nearest_even_def Let_def floor_odd r_def [symmetric])
qed

lemma to_double_zero [simp]: "to_double 0 = 0"
  by (simp add: to_double_def)

lemma to_double_minus [simp]: "to_double (- x) = - to_double x"
  by (simp add: to_double_def ulp_exp_def nearest_even_minus Let_def)

lemma is_double_minus [simp]: "is_double (- x) \<longleftrightarrow> is_double x"
  by (simp add: is_double_def finite_double_def)

text \<open>A multiple of the unit with at most 53 bits is a double.\<close>

lemma to_double_exact:
  assumes "\<bar>n\<bar> \<le> 2 ^ 53" "- 1074 \<le> e"
  shows "to_double (of_int n * 2 powi e) = of_int n * 2 powi e"
proof (cases "n = 0")
  case False
  let ?x = "of_int n * 2 powi e :: rat" and ?u = "ulp_exp (of_int n * 2 powi e)"
  have pos: "0 < \<bar>?x\<bar>" using False by simp
  note m = magnitude_bounds [of 2, OF _ pos, simplified]
  have abs: "\<bar>?x\<bar> = of_int \<bar>n\<bar> * 2 powi e" by (simp add: abs_mult power_int_abs)
  have le: "(of_int \<bar>n\<bar> :: rat) \<le> 2 powi 53" using assms(1) by (metis of_int_le_iff of_int_numeral of_int_power power_int_numeral)
  have "\<bar>?x\<bar> \<le> 2 powi (53 + e)"
    unfolding abs using mult_right_mono [OF le, of "2 powi e"] by (simp add: power_int_add)
  have "?u \<le> e \<or> (?u = e + 1 \<and> \<bar>n\<bar> = 2 ^ 53)"
  proof (cases "\<bar>n\<bar> = 2 ^ 53")
    case True
    then have "\<bar>?x\<bar> = 2 powi (53 + e)" unfolding abs by (simp add: power_int_add)
    then have "magnitude 2 \<bar>?x\<bar> = 54 + e"
      by (intro magnitude_unique) (simp_all add: power_int_add)
    with True assms(2) show ?thesis by (simp add: ulp_exp_def)
  next
    case False
    with assms(1) have "\<bar>n\<bar> < 2 ^ 53" by linarith
    then have "(of_int \<bar>n\<bar> :: rat) < 2 powi 53" by (metis of_int_less_iff of_int_numeral of_int_power power_int_numeral)
    then have "\<bar>?x\<bar> < 2 powi (53 + e)"
      unfolding abs using mult_strict_right_mono [of "of_int \<bar>n\<bar>" "2 powi 53" "2 powi e :: rat"] by (simp add: power_int_add)
    with m(1) have "2 powi (magnitude 2 \<bar>?x\<bar> - 1) < (2 powi (53 + e) :: rat)" by linarith
    then have "magnitude 2 \<bar>?x\<bar> - 1 < 53 + e" using powi_less_iff [of 2] by simp
    with assms(2) show ?thesis by (simp add: ulp_exp_def)
  qed
  then obtain k where k: "?x / 2 powi ?u = of_int k"
  proof
    assume "?u \<le> e"
    then have "?x / 2 powi ?u = of_int (n * 2 ^ nat (e - ?u))"
      by (simp add: power_int_diff [symmetric] power_int_nonneg_exp [symmetric] times_divide_eq_right [symmetric] del: times_divide_eq_right)
    then show ?thesis by (rule that)
  next
    assume u: "?u = e + 1 \<and> \<bar>n\<bar> = 2 ^ 53"
    then have "n = 2 * (sgn n * 2 ^ 52)" by (simp add: abs_if sgn_if split: if_splits)
    then have "(of_int n :: rat) = 2 * of_int (sgn n * 2 ^ 52)" by (metis of_int_mult of_int_numeral)
    then have "?x / 2 powi ?u = of_int (sgn n * 2 ^ 52)" using u by (simp add: power_int_add)
    then show ?thesis by (rule that)
  qed
  then have "to_double ?x = of_int k * 2 powi ?u" using pos by (simp add: to_double_def Let_def)
  then show ?thesis using k by (simp add: field_simps)
qed simp

lemma to_double_of_int [simp]: "\<bar>n\<bar> \<le> 2 ^ 53 \<Longrightarrow> to_double (of_int n) = of_int n"
  using to_double_exact [of n 0] by simp

lemma to_double_one [simp]: "to_double 1 = 1"
  using to_double_of_int [of 1] by simp

lemma scaled_bound:
  assumes "0 < x"
  shows "x / 2 powi ulp_exp x < 2 ^ 53"
proof -
  have "x < 2 powi magnitude 2 x" using magnitude_bounds(2) [of 2 x] assms by simp
  also have "\<dots> \<le> 2 powi (53 + ulp_exp x)"
    using assms by (intro power_int_increasing) (simp_all add: ulp_exp_def)
  finally show ?thesis by (simp add: power_int_add field_simps)
qed

lemma nearest_even_le: "x \<le> of_int n \<Longrightarrow> nearest_even x \<le> n"
  and nearest_even_ge: "of_int n \<le> x \<Longrightarrow> n \<le> nearest_even x"
  using nearest_even_mono [of x "of_int n"] nearest_even_mono [of "of_int n" x] by simp_all

lemma to_double_units:
  assumes "0 < x"
  obtains n where "to_double x = of_int n * 2 powi ulp_exp x" "n = nearest_even (x / 2 powi ulp_exp x)"
    "0 \<le> n" "n \<le> 2 ^ 53" "- 1074 \<le> ulp_exp x"
proof (rule that [OF _ refl])
  show "to_double x = of_int (nearest_even (x / 2 powi ulp_exp x)) * 2 powi ulp_exp x"
    using assms by (simp add: to_double_def Let_def)
  show "0 \<le> nearest_even (x / 2 powi ulp_exp x)" using assms by (intro nearest_even_ge) simp
  show "nearest_even (x / 2 powi ulp_exp x) \<le> 2 ^ 53"
    using scaled_bound [OF assms] by (intro nearest_even_le) simp
qed (simp add: ulp_exp_def)

lemma to_double_idem [simp]: "to_double (to_double x) = to_double x"
proof -
  have pos: "to_double (to_double y) = to_double y" if y: "0 < y" for y
    using to_double_units [OF y] by (metis abs_of_nonneg to_double_exact)
  consider "x = 0" | "0 < x" | "0 < - x" by linarith
  then show ?thesis
  proof cases
    case 3
    with pos [of "- x"] show ?thesis by simp
  qed (simp_all add: pos)
qed

lemma to_double_nonneg:
  assumes "0 \<le> x"
  shows "0 \<le> to_double x"
proof (cases "x = 0")
  case False
  with assms have "0 < x" by simp
  then obtain n where "to_double x = of_int n * 2 powi ulp_exp x" "0 \<le> n" using to_double_units by metis
  then show ?thesis by simp
qed simp

lemma to_double_mono_pos:
  assumes "0 < x" "x \<le> y"
  shows "to_double x \<le> to_double y"
proof (cases "ulp_exp x = ulp_exp y")
  case True
  have "x / 2 powi ulp_exp y \<le> y / 2 powi ulp_exp y" using assms(2) by (simp add: divide_right_mono)
  with True assms show ?thesis by (simp add: to_double_def Let_def nearest_even_mono)
next
  case False
  have "0 < y" using assms by linarith
  have "magnitude 2 x \<le> magnitude 2 y" using magnitude_mono [of 2 x y] assms by simp
  with False assms have less: "ulp_exp x + 1 \<le> ulp_exp y" and y: "ulp_exp y = magnitude 2 y - 53"
    by (auto simp: ulp_exp_def)
  have "2 powi (52 + ulp_exp y) \<le> y" using magnitude_bounds(1) [of 2 y] \<open>0 < y\<close> by (simp add: y)
  then have "of_int (2 ^ 52) \<le> y / 2 powi ulp_exp y" by (simp add: power_int_add field_simps)
  then have "2 ^ 52 \<le> nearest_even (y / 2 powi ulp_exp y)" by (rule nearest_even_ge)
  then have "(of_int (2 ^ 52) :: rat) \<le> of_int (nearest_even (y / 2 powi ulp_exp y))" by (simp only: of_int_le_iff)
  then have "of_int (2 ^ 52) * 2 powi ulp_exp y \<le> of_int (nearest_even (y / 2 powi ulp_exp y)) * (2 powi ulp_exp y :: rat)"
    by (rule mult_right_mono) simp
  then have ly: "2 ^ 52 * 2 powi ulp_exp y \<le> to_double y"
    using \<open>0 < y\<close> by (simp add: to_double_def Let_def)
  obtain n where n: "to_double x = of_int n * 2 powi ulp_exp x" "n \<le> 2 ^ 53" using to_double_units [OF assms(1)] by metis
  have "(of_int n :: rat) \<le> of_int (2 ^ 53)" using n(2) by (simp only: of_int_le_iff)
  then have "of_int n * 2 powi ulp_exp x \<le> (2 ^ 53 :: rat) * 2 powi ulp_exp x"
    by (intro mult_right_mono) simp_all
  also have "\<dots> = 2 ^ 52 * 2 powi (ulp_exp x + 1)" by (simp add: power_int_add)
  also have "\<dots> \<le> 2 ^ 52 * 2 powi ulp_exp y"
    using less by (intro mult_left_mono power_int_increasing) simp_all
  finally show ?thesis using ly n(1) by linarith
qed

lemma to_double_mono:
  assumes "x \<le> y"
  shows "to_double x \<le> to_double y"
proof -
  consider "0 < x" | "y < 0" | "x \<le> 0" "0 \<le> y" by linarith
  then show ?thesis
  proof cases
    case 1
    with assms show ?thesis by (simp add: to_double_mono_pos)
  next
    case 2
    with assms to_double_mono_pos [of "- y" "- x"] show ?thesis by simp
  next
    case 3
    with to_double_nonneg [of "- x"] to_double_nonneg [of y] show ?thesis by simp
  qed
qed

lemma is_double_zero [simp]: "is_double 0"
  by (simp add: is_double_def finite_double_def)

lemma is_double_to_double: "finite_double (to_double x) \<Longrightarrow> is_double (to_double x)"
  by (simp add: is_double_def)

text \<open>A ratio of counts is a double between zero and one, and one only for equal counts.\<close>

lemma py_truediv_ratio:
  assumes "0 \<le> a" "a \<le> b" "0 < b"
  obtains q where "py_truediv a b = Inr q" "q = to_double (of_int a / of_int b)" "0 \<le> q" "q \<le> 1"
proof -
  let ?q = "to_double (of_int a / of_int b)"
  have "of_int a / of_int b \<le> (1 :: rat)" using assms by simp
  then have le: "?q \<le> 1" using to_double_mono [of "of_int a / of_int b" 1] by simp
  have ge: "0 \<le> ?q" using assms by (intro to_double_nonneg) simp
  have "finite_double ?q" using le ge less_le_trans [of ?q 2 "2 ^ 1024"] by (simp add: finite_double_def)
  with assms le ge show ?thesis by (intro that) (simp_all add: py_truediv_def Let_def)
qed

section \<open>Seventeen digits are enough\<close>

lemma unit_gap:
  assumes "of_int a * v < of_int b * v" "0 < (v :: rat)"
  shows "of_int a * v + v \<le> of_int b * v"
proof -
  have "a < b" using assms by (simp add: mult_less_cancel_right_pos)
  then have "(of_int (a + 1) :: rat) \<le> of_int b" by (simp only: of_int_le_iff)
  then have "of_int (a + 1) * v \<le> of_int b * v" using assms(2) by (intro mult_right_mono) simp_all
  then show ?thesis by (simp add: distrib_right)
qed

lemma powi_multiple:
  assumes "u \<le> j"
  shows "(2 powi j :: rat) = of_int (2 ^ nat (j - u)) * 2 powi u"
  using assms by (simp add: power_int_nonneg_exp [symmetric] power_int_add [symmetric])

text \<open>A number within a relative distance of two to minus 54 of a double rounds to it.\<close>

lemma to_double_near:
  assumes "to_double x = x" "0 < x" "\<bar>y - x\<bar> * 2 ^ 54 < x"
  shows "to_double y = x"
proof -
  define m where "m = magnitude 2 x"
  define u where "u = ulp_exp x"
  have mx: "2 powi (m - 1) \<le> x" "x < 2 powi m" using magnitude_bounds [of 2 x] assms(2) by (simp_all add: m_def)
  have u: "u = max (m - 53) (- 1074)" using assms(2) by (simp add: u_def ulp_exp_def m_def)
  obtain n where "to_double x = of_int n * 2 powi u" using to_double_units [OF assms(2)] unfolding u_def by metis
  with assms(1) have n: "x = of_int n * 2 powi u" by simp
  have "0 < (of_int n :: rat)" using assms(2) unfolding n by (rule zero_less_mult_pos2) simp
  then have "0 < n" by simp
  then have "(of_int 0 :: rat) * 2 powi u < of_int n * 2 powi u" by simp
  from unit_gap [OF this] have "2 powi u \<le> x" by (simp add: n)
  then have "2 powi u < (2 powi m :: rat)" using mx(2) by linarith
  then have um: "u \<le> m - 1" using powi_less_iff [of 2 u m] by simp
  have low: "(2 powi (m - 54) :: rat) \<le> 2 powi (u - 1)" by (rule power_int_increasing) (simp_all add: u)
  have half: "(2 powi (u - 1) :: rat) < 2 powi u" by (rule power_int_strict_increasing) simp_all
  have close: "\<bar>y - x\<bar> < 2 powi (m - 54)" using assms(3) mx(2) by (simp add: power_int_diff field_simps)
  have y: "0 < y" using assms(2,3) by (cases "y \<le> 0") auto
  have "\<exists>k. x = of_int k * 2 powi ulp_exp y \<and> \<bar>y - x\<bar> < 2 powi (ulp_exp y - 1)"
  proof (cases "2 powi (m - 1) \<le> y")
    case True
    have "x + 2 powi u \<le> 2 powi m"
      using unit_gap [of n "2 powi u" "2 ^ nat (m - u)"] mx(2) powi_multiple [of u m] um by (simp add: n)
    then have "y < 2 powi m" using close low half by linarith
    with True have "magnitude 2 y = m" by (intro magnitude_unique) simp_all
    then have "ulp_exp y = u" using y by (simp add: ulp_exp_def u)
    then show ?thesis using n close low by (intro exI [of _ n]) auto
  next
    case False
    have x: "x = 2 powi (m - 1)"
    proof (rule ccontr)
      assume "x \<noteq> 2 powi (m - 1)"
      then have "2 powi (m - 1) + 2 powi u \<le> x"
        using unit_gap [of "2 ^ nat (m - 1 - u)" "2 powi u" n] mx(1) powi_multiple [OF um] by (simp add: n)
      then show False using False close low half by linarith
    qed
    have close': "\<bar>y - x\<bar> < 2 powi (m - 55)" using assms(3) by (simp add: x power_int_diff field_simps)
    have "(2 powi (m - 2) :: rat) = x / 2" "(2 powi (m - 55) :: rat) < x / 2"
      by (simp_all add: x power_int_diff)
    then have "2 powi (m - 2) \<le> y" using close' by linarith
    with False have "magnitude 2 y = m - 1" by (intro magnitude_unique) simp_all
    then have uy: "ulp_exp y = max (m - 54) (- 1074)" using y by (simp add: ulp_exp_def)
    then have "ulp_exp y \<le> m - 1" using um u by linarith
    then have "x = of_int (2 ^ nat (m - 1 - ulp_exp y)) * 2 powi ulp_exp y" unfolding x by (rule powi_multiple)
    moreover have "(2 powi (m - 55) :: rat) \<le> 2 powi (ulp_exp y - 1)" by (rule power_int_increasing) (simp_all add: uy)
    ultimately show ?thesis using close' by (intro exI conjI) (assumption, linarith)
  qed
  then obtain k where k: "x = of_int k * 2 powi ulp_exp y" "\<bar>y - x\<bar> < 2 powi (ulp_exp y - 1)" by blast
  have "of_int k - y / 2 powi ulp_exp y = (x - y) / 2 powi ulp_exp y"
    unfolding k(1) by (simp add: diff_divide_distrib)
  then have "\<bar>of_int k - y / 2 powi ulp_exp y\<bar> = \<bar>y - x\<bar> / 2 powi ulp_exp y"
    by (simp add: abs_divide abs_minus_commute)
  also have "\<dots> < 1 / 2" using k(2) by (simp add: power_int_diff field_simps)
  finally have "nearest_even (y / 2 powi ulp_exp y) = k" by (rule nearest_even_unique)
  then show ?thesis using y k(1) by (simp add: to_double_def Let_def)
qed

lemma decimal_candidate_pos:
  assumes "0 < x" "1 \<le> n" "d \<in> set (decimal_candidates x n)"
  shows "0 < fst d"
proof -
  let ?y = "x / 10 powi (magnitude 10 x - int n)"
  have "(10 powi (magnitude 10 x - int n) :: rat) \<le> 10 powi (magnitude 10 x - 1)"
    using assms(2) by (intro power_int_increasing) simp_all
  also have "\<dots> \<le> x" using magnitude_bounds(1) [of 10 x] assms(1) by simp
  finally have y: "of_int 1 \<le> ?y" by (simp add: le_divide_eq)
  from y have "1 \<le> nearest_even ?y" by (rule nearest_even_ge)
  moreover from y have "1 \<le> \<lfloor>?y\<rfloor>" by (simp only: le_floor_iff)
  moreover have "fst d = nearest_even ?y \<or> fst d = \<lfloor>?y\<rfloor> \<or> fst d = \<lfloor>?y\<rfloor> + 1"
    using assms(3) by (auto simp: decimal_candidates_def Let_def)
  ultimately show ?thesis by linarith
qed

lemma find_SomeD: "find P xs = Some d \<Longrightarrow> d \<in> set xs \<and> P d"
  by (auto simp: find_Some_iff)

lemma repr_decimal_cases:
  obtains n where "1 \<le> n" "repr_decimal x \<in> set (decimal_candidates x n)"
proof (cases "find (reads_back x) (concat (map (decimal_candidates x) [1..<18]))")
  case None
  have "hd (decimal_candidates x 17) \<in> set (decimal_candidates x 17)" by (simp add: decimal_candidates_def Let_def)
  with None show ?thesis by (intro that [of 17]) (simp_all add: repr_decimal_def)
next
  case (Some d)
  then have "d \<in> set (concat (map (decimal_candidates x) [1..<18]))" using find_SomeD by fast
  then obtain n where "n \<in> set [1..<18]" "d \<in> set (decimal_candidates x n)" by (auto simp del: upt_Suc)
  with Some show ?thesis by (intro that [of n]) (simp_all add: repr_decimal_def)
qed

lemma repr_decimal_pos:
  assumes "0 < x"
  shows "0 < fst (repr_decimal x)"
proof -
  obtain n where "1 \<le> n" "repr_decimal x \<in> set (decimal_candidates x n)" by (rule repr_decimal_cases)
  then show ?thesis using decimal_candidate_pos [OF assms] by blast
qed

lemma repr_decimal_reads_back:
  assumes "to_double x = x" "0 < x"
  shows "to_double (decimal_value (repr_decimal x)) = x"
proof -
  define k where "k = magnitude 10 x"
  define y where "y = x / 10 powi (k - 17)"
  have "x = y * 10 powi (k - 17)" by (simp add: y_def)
  then have "decimal_value (nearest_even y, k - 17) - x = (of_int (nearest_even y) - y) * 10 powi (k - 17)"
    by (simp add: decimal_value_def algebra_simps)
  then have "\<bar>decimal_value (nearest_even y, k - 17) - x\<bar> = \<bar>of_int (nearest_even y) - y\<bar> * 10 powi (k - 17)"
    by (simp add: abs_mult power_int_abs)
  also have "\<dots> \<le> 1 / 2 * 10 powi (k - 17)" by (intro mult_right_mono nearest_even_near) simp
  finally have "\<bar>decimal_value (nearest_even y, k - 17) - x\<bar> * 2 ^ 54 \<le> 1 / 2 * 10 powi (k - 17) * 2 ^ 54"
    by (intro mult_right_mono) simp_all
  also have "\<dots> = 2 ^ 53 / 10 ^ 16 * 10 powi (k - 1)" by (simp add: power_int_diff)
  also have "\<dots> < 1 * 10 powi (k - 1)" by (intro mult_strict_right_mono) simp_all
  also have "\<dots> \<le> x" using magnitude_bounds(1) [of 10 x] assms(2) by (simp add: k_def)
  finally have "reads_back x (nearest_even y, k - 17)"
    using to_double_near [OF assms] by (simp add: reads_back_def)
  moreover have "(nearest_even y, k - 17) \<in> set (decimal_candidates x 17)"
    by (simp add: decimal_candidates_def Let_def y_def k_def)
  moreover have "17 \<in> set [1..<18]" by simp
  ultimately have "find (reads_back x) (concat (map (decimal_candidates x) [1..<18])) \<noteq> None"
    unfolding find_None_iff set_concat set_map by blast
  then obtain d where "find (reads_back x) (concat (map (decimal_candidates x) [1..<18])) = Some d" by blast
  moreover from this have "reads_back x d" using find_SomeD by fast
  ultimately show ?thesis by (simp add: repr_decimal_def reads_back_def)
qed

section \<open>The text of a number\<close>

text \<open>The value of digits \<open>ds\<close> after the point, shifted by \<open>p\<close> places.\<close>

definition digits_value :: "string \<Rightarrow> int \<Rightarrow> rat" where
  "digits_value ds p = of_int (int (str_nat ds)) * 10 powi (p - int (length ds))"

lemma digits_value_zeros [simp]:
  "digits_value (replicate n (CHR ''0'') @ ds) p = digits_value ds (p - int n)"
  "digits_value (ds @ replicate n (CHR ''0'')) p = digits_value ds p"
  by (simp_all add: digits_value_def str_nat_append power_int_diff power_int_add field_simps)

lemma rstrip_zeros_split: "\<exists>n. s = rstrip_zeros s @ replicate n (CHR ''0'')"
proof -
  have "takeWhile (\<lambda>c. c = CHR ''0'') (rev s) = replicate (length (takeWhile (\<lambda>c. c = CHR ''0'') (rev s))) (CHR ''0'')"
    by (rule replicate_eqI) (auto dest: set_takeWhileD)
  then have "rev s = replicate (length (takeWhile (\<lambda>c. c = CHR ''0'') (rev s))) (CHR ''0'') @ dropWhile (\<lambda>c. c = CHR ''0'') (rev s)"
    by (metis takeWhile_dropWhile_id)
  then have "s = rstrip_zeros s @ replicate (length (takeWhile (\<lambda>c. c = CHR ''0'') (rev s))) (CHR ''0'')"
    unfolding rstrip_zeros_def by (metis rev_append rev_replicate rev_rev_ident)
  then show ?thesis by blast
qed

lemma pos_repr_layout:
  assumes "0 < x"
  obtains ds p where "pos_repr x = layout_digits ds p" "ds \<noteq> []" "list_all is_digit ds" "hd ds \<noteq> CHR ''0''"
    "digits_value ds p = decimal_value (repr_decimal x)"
proof -
  obtain m s where d: "repr_decimal x = (m, s)" by (cases "repr_decimal x")
  with repr_decimal_pos [OF assms] have m: "0 < m" by simp
  define t where "t = int_str m"
  have t: "t = nat_str (nat m)" using m by (simp add: t_def int_str_def)
  define ds where "ds = rstrip_zeros t"
  obtain n where n: "t = ds @ replicate n (CHR ''0'')" using rstrip_zeros_split [of t] by (auto simp: ds_def)
  have lead: "hd t \<noteq> CHR ''0''" using nat_str_lead [of "nat m"] m by (simp add: t)
  have ne: "ds \<noteq> []" using lead n t by (cases n) auto
  have "list_all is_digit ds" using nat_str_digits [of "nat m"] by (simp add: t [symmetric] n)
  moreover have "hd ds \<noteq> CHR ''0''" using lead ne by (simp add: n)
  moreover have "digits_value ds (int (length t) + s) = digits_value t (int (length t) + s)" by (simp add: n)
  then have "digits_value ds (int (length t) + s) = decimal_value (repr_decimal x)"
    using m by (simp add: d decimal_value_def digits_value_def t)
  moreover have "pos_repr x = layout_digits ds (int (length t) + s)"
    by (simp add: pos_repr_def d Let_def t_def ds_def)
  ultimately show ?thesis using ne that by blast
qed

lemma int_str_digits: "0 \<le> i \<Longrightarrow> int_str i \<noteq> [] \<and> list_all is_digit (int_str i)"
  by (simp add: int_str_def nat_str_digits)

lemma layout_chars:
  assumes "ds \<noteq> []" "list_all is_digit ds"
  shows "list_all (\<lambda>c. is_digit c \<or> c \<in> set ''.-+e'') (layout_digits ds p) \<and>
    layout_digits ds p \<noteq> [] \<and> is_digit (hd (layout_digits ds p))"
proof -
  have "is_digit (CHR ''0'')" by (simp add: is_digit_def)
  moreover obtain d t where "ds = d # t" using assms(1) by (cases ds) auto
  moreover have "list_all is_digit (int_str \<bar>p - 1\<bar>)" using int_str_digits by simp
  moreover have "set (drop n ds) \<subseteq> set ds" for n by (rule set_drop_subset)
  ultimately show ?thesis using assms(2)
    by (auto simp: layout_digits_def Let_def list_all_iff take_Cons' hd_append dest: in_set_takeD in_set_dropD)
qed

lemma float_repr_chars:
  "list_all (\<lambda>c. is_digit c \<or> c \<in> set ''.-+e'') (float_repr x)"
  "float_repr x \<noteq> [] \<and> (hd (float_repr x) = CHR ''-'' \<or> is_digit (hd (float_repr x)))"
proof -
  have "list_all (\<lambda>c. is_digit c \<or> c \<in> set ''.-+e'') (pos_repr y) \<and> pos_repr y \<noteq> [] \<and> is_digit (hd (pos_repr y))"
    if "0 < y" for y
    using pos_repr_layout [OF that] layout_chars by metis
  then show "list_all (\<lambda>c. is_digit c \<or> c \<in> set ''.-+e'') (float_repr x)"
    "float_repr x \<noteq> [] \<and> (hd (float_repr x) = CHR ''-'' \<or> is_digit (hd (float_repr x)))"
    by (auto simp: float_repr_def is_digit_def)
qed

end
