(* ===== verification/PyValue.thy ===== *)
theory PyValue
  imports PyFloat
begin

text \<open>
  JSON values as the loaded documents have them: a dictionary keeps its insertion order, a float is
  a finite double. \<open>truthy\<close>
  is Python's truth test, \<open>py_get\<close> the \<open>dict.get\<close> with its default, \<open>py_item\<close> the subscript
  with its \<open>KeyError\<close>. \<open>str\<close> and \<open>int\<close> are written out for the values the components
  convert; a conversion the sources never make raises \<open>TypeError\<close>.
\<close>

datatype pyval =
    PNone
  | PBool bool
  | PInt int
  | PFloat rat
  | PStr string
  | PList "pyval list"
  | PDict "(string \<times> pyval) list"

fun truthy :: "pyval \<Rightarrow> bool" where
  "truthy PNone = False"
| "truthy (PBool b) = b"
| "truthy (PInt i) = (i \<noteq> 0)"
| "truthy (PFloat x) = (x \<noteq> 0)"
| "truthy (PStr s) = (s \<noteq> [])"
| "truthy (PList vs) = (vs \<noteq> [])"
| "truthy (PDict kvs) = (kvs \<noteq> [])"

fun is_dict :: "pyval \<Rightarrow> bool" where
  "is_dict (PDict kvs) = True"
| "is_dict _ = False"

fun is_list :: "pyval \<Rightarrow> bool" where
  "is_list (PList vs) = True"
| "is_list _ = False"

fun is_str :: "pyval \<Rightarrow> bool" where
  "is_str (PStr s) = True"
| "is_str _ = False"

fun is_bool :: "pyval \<Rightarrow> bool" where
  "is_bool (PBool b) = True"
| "is_bool _ = False"

text \<open>\<open>isinstance(v, int)\<close>: \<open>bool\<close> is a subclass.\<close>

fun is_int :: "pyval \<Rightarrow> bool" where
  "is_int (PInt i) = True"
| "is_int (PBool b) = True"
| "is_int _ = False"

fun items :: "pyval \<Rightarrow> (string \<times> pyval) list" where
  "items (PDict kvs) = kvs"
| "items _ = []"

definition py_get :: "string \<Rightarrow> pyval \<Rightarrow> pyval \<Rightarrow> pyval" where
  "py_get k dflt d = (case dict_get k (items d) of None \<Rightarrow> dflt | Some v \<Rightarrow> v)"

definition py_item :: "string \<Rightarrow> pyval \<Rightarrow> pyval res" where
  "py_item k d = (case d of PDict kvs \<Rightarrow> opt_res (KeyError k) (dict_get k kvs)
     | _ \<Rightarrow> Inl (TypeError ''not subscriptable by a string''))"

text \<open>\<open>int(v)\<close>.\<close>

fun py_int :: "pyval \<Rightarrow> int res" where
  "py_int (PInt i) = Inr i"
| "py_int (PBool b) = Inr (if b then 1 else 0)"
| "py_int (PFloat x) = Inr (if 0 \<le> x then \<lfloor>x\<rfloor> else \<lceil>x\<rceil>)"
| "py_int (PStr s) =
     (let t = strip s;
          neg = (t \<noteq> [] \<and> hd t = CHR ''-'');
          ds = (if t \<noteq> [] \<and> (hd t = CHR ''-'' \<or> hd t = CHR ''+'') then tl t else t)
      in if ds \<noteq> [] \<and> list_all (\<lambda>c. c \<in> set ''0123456789'') ds
         then Inr (if neg then - int (str_nat ds) else int (str_nat ds))
         else Inl (ValueError ''invalid literal for int()''))"
| "py_int _ = Inl (TypeError ''int() argument must be a string or a number'')"

text \<open>\<open>str(v)\<close> on scalars; containers are never printed by the modelled code.\<close>

fun py_str :: "pyval \<Rightarrow> string" where
  "py_str PNone = ''None''"
| "py_str (PBool b) = (if b then ''True'' else ''False'')"
| "py_str (PInt i) = int_str i"
| "py_str (PFloat x) = float_repr x"
| "py_str (PStr s) = s"
| "py_str _ = ''<container>''"

lemma truthy_dict [simp]: "truthy (PDict kvs) \<longleftrightarrow> kvs \<noteq> []" by simp

lemma py_get_PDict: "py_get k d (PDict kvs) = (case dict_get k kvs of None \<Rightarrow> d | Some v \<Rightarrow> v)"
  by (simp add: py_get_def)

lemma py_item_ok: "py_item k d = Inr v \<longleftrightarrow> (\<exists>kvs. d = PDict kvs \<and> dict_get k kvs = Some v)"
  by (auto simp: py_item_def split: pyval.splits)

text \<open>A key whose value is used as a string, and a counter as a document.\<close>

definition str_item :: "string \<Rightarrow> pyval \<Rightarrow> string res" where
  "str_item k d = bind (py_item k d) (\<lambda>v. case v of PStr s \<Rightarrow> Inr s | _ \<Rightarrow> Inl (TypeError ''path''))"

definition count_items :: "(string, nat) dict \<Rightarrow> pyval" where
  "count_items d = PDict (map (\<lambda>(k, n). (k, PInt (int n))) d)"

end
