(* ===== verification/Stability.thy ===== *)
theory Stability
  imports Compare PyValue
begin

text \<open>
  Trace hashes and the stability test (\<open>orchestrator/stability.py\<close>). A canonical trace is hashed
  as a JSON document without its timing keys; the digest of a document (SHA-256 of its sorted
  dump) is the parameter \<open>digest\<close>. The document of a trace is \<open>trace_json\<close>, key by key what
  \<open>canonicalize\<close> builds. Where the digest has no collision, equal hashes are equal traces up to
  the durations, the side included: the two sides of a case never hash alike.
\<close>

section \<open>The stable view\<close>

definition VOLATILE_KEYS :: "string list" where
  "VOLATILE_KEYS = [''duration_ns'', ''start_ns'', ''end_ns'']"

fun stable_view :: "pyval \<Rightarrow> pyval" and stable_items :: "(string \<times> pyval) list \<Rightarrow> (string \<times> pyval) list"
  and stable_list :: "pyval list \<Rightarrow> pyval list" where
  "stable_view (PDict kvs) = PDict (stable_items kvs)"
| "stable_view (PList vs) = PList (stable_list vs)"
| "stable_view v = v"
| "stable_items [] = []"
| "stable_items ((k, v) # kvs) =
     (if k \<in> set VOLATILE_KEYS then stable_items kvs else (k, stable_view v) # stable_items kvs)"
| "stable_list [] = []"
| "stable_list (v # vs) = stable_view v # stable_list vs"

section \<open>The document of a canonical trace\<close>

definition opt_json :: "('a \<Rightarrow> pyval) \<Rightarrow> 'a option \<Rightarrow> pyval" where
  "opt_json f x = (case x of None \<Rightarrow> PNone | Some v \<Rightarrow> f v)"

fun scalar_json :: "scalar \<Rightarrow> pyval" where
  "scalar_json (SInt i) = PInt i"
| "scalar_json (STok t) = PStr t"

definition output_json :: "canon_output \<Rightarrow> pyval" where
  "output_json x = PDict ([(''label'', PStr (co_label x)), (''arg_index'', PInt (co_arg_index x)),
     (''length'', PInt (co_length x)), (''preview_hex'', PStr (co_preview_hex x)),
     (''sha256'', PStr (co_sha256 x))] @
     (case co_resource_values x of None \<Rightarrow> []
      | Some ts \<Rightarrow> [(''resource_kind'', PStr ''fd''), (''resource_values'', PList (map PStr ts))]))"

definition event_json :: "canon_event \<Rightarrow> pyval" where
  "event_json e = PDict [(''index'', PInt (int (ce_index e))), (''source_event_index'', PInt (ce_source_index e)),
     (''syscall_name'', PStr (ce_name e)), (''syscall_number'', PInt (ce_number e)),
     (''args'', PList (map scalar_json (ce_args e))), (''return_value'', scalar_json (ce_return e)),
     (''errno'', PInt (ce_errno e)), (''duration_ns'', PInt (ce_duration_ns e)),
     (''outputs'', PList (map output_json (ce_outputs e)))]"

definition file_json :: "file_item \<Rightarrow> pyval" where
  "file_json f = PDict [(''path'', PStr (fi_path f)), (''size'', PInt (fi_size f)),
     (''sha256'', opt_json PStr (fi_sha256 f)), (''read_error'', opt_json PStr (fi_read_error f))]"

definition state_json :: "ext_state \<Rightarrow> pyval" where
  "state_json s = PDict [(''files'', PList (map file_json (es_files s))), (''truncated'', PBool (es_truncated s)),
     (''read_error'', opt_json PStr (es_read_error s))]"

definition exit_json :: "process_exit \<Rightarrow> pyval" where
  "exit_json x = PDict [(''status'', PStr (pe_status x)), (''exit_code'', opt_json PInt (pe_exit_code x)),
     (''timed_out'', PBool (pe_timed_out x))]"

definition trace_json :: "canon_trace \<Rightarrow> pyval" where
  "trace_json t = PDict [(''program_id'', PStr (ct_program_id t)), (''side'', PStr (ct_side t)),
     (''event_count'', PInt (int (ct_event_count t))), (''events'', PList (map event_json (ct_events t))),
     (''final_state'', state_json (ct_final_state t)), (''process_exit'', exit_json (ct_process_exit t))]"

definition canonical_trace_hash :: "(pyval \<Rightarrow> 'h) \<Rightarrow> canon_trace \<Rightarrow> 'h" where
  "canonical_trace_hash digest t = digest (stable_view (trace_json t))"

definition all_equal :: "'h list \<Rightarrow> bool" where
  "all_equal values = (values \<noteq> [] \<and> length (remdups values) = 1)"

text \<open>\<open>read_json\<close> is the document at a path, \<open>None\<close> where there is no file.\<close>

definition build_status_ok :: "(string \<Rightarrow> pyval option) \<Rightarrow> string \<Rightarrow> bool" where
  "build_status_ok read_json path =
     (case read_json path of None \<Rightarrow> False | Some payload \<Rightarrow> py_get ''status'' PNone payload = PStr ''ok'')"

section \<open>Equal hashes\<close>

lemma all_equal_iff: "all_equal xs \<longleftrightarrow> xs \<noteq> [] \<and> (\<forall>x \<in> set xs. x = last xs)"
proof
  assume "all_equal xs"
  then obtain y where y: "remdups xs = [y]" and ne: "xs \<noteq> []"
    by (auto simp: all_equal_def length_Suc_conv)
  then have "set xs = {y}" by (metis list.simps(15) empty_set set_remdups)
  then show "xs \<noteq> [] \<and> (\<forall>x \<in> set xs. x = last xs)" using ne last_in_set by fastforce
next
  assume r: "xs \<noteq> [] \<and> (\<forall>x \<in> set xs. x = last xs)"
  then have "set xs = {last xs}" by auto
  then have "card (set xs) = 1" by simp
  then show "all_equal xs" using r by (simp add: all_equal_def length_remdups_card_conv)
qed

lemma stable_list_map: "stable_list vs = map stable_view vs"
  by (induction vs) auto

lemma stable_opt_json: "(\<And>v. stable_view (f v) = f v) \<Longrightarrow> stable_view (opt_json f x) = opt_json f x"
  by (cases x) (simp_all add: opt_json_def)

lemma stable_scalar: "stable_view (scalar_json s) = scalar_json s"
  by (cases s) simp_all

lemma stable_output: "stable_view (output_json x) = output_json x"
  by (auto simp: output_json_def VOLATILE_KEYS_def stable_list_map split: option.splits)

lemma stable_file: "stable_view (file_json x) = file_json x"
  by (simp add: file_json_def VOLATILE_KEYS_def stable_opt_json)

lemma stable_state: "stable_view (state_json x) = state_json x"
  by (simp add: state_json_def VOLATILE_KEYS_def stable_opt_json stable_list_map stable_file)

lemma stable_exit: "stable_view (exit_json x) = exit_json x"
  by (simp add: exit_json_def VOLATILE_KEYS_def stable_opt_json)

lemma opt_json_inj: "inj f \<Longrightarrow> (\<And>v. f v \<noteq> PNone) \<Longrightarrow> opt_json f x = opt_json f y \<longleftrightarrow> x = y"
  by (cases x; cases y) (auto simp: opt_json_def inj_eq dest: sym)

lemma opt_json_PStr [simp]: "opt_json PStr x = opt_json PStr y \<longleftrightarrow> x = y"
  by (rule opt_json_inj; simp add: inj_def)

lemma opt_json_PInt [simp]: "opt_json PInt x = opt_json PInt y \<longleftrightarrow> x = y"
  by (rule opt_json_inj; simp add: inj_def)

lemma scalar_json_inj [simp]: "scalar_json s = scalar_json s' \<longleftrightarrow> s = s'"
  by (cases s; cases s'; simp)

lemma map_inj_iff: "(\<And>x y. f x = f y \<longleftrightarrow> x = y) \<Longrightarrow> map f xs = map f ys \<longleftrightarrow> xs = ys"
  by (metis inj_def inj_map_eq_map)

lemma output_json_inj [simp]: "output_json x = output_json y \<longleftrightarrow> x = y"
proof
  assume "output_json x = output_json y"
  then show "x = y"
    by (cases x; cases y) (auto simp: output_json_def map_inj_iff split: option.splits)
qed simp

lemma file_json_inj [simp]: "file_json x = file_json y \<longleftrightarrow> x = y"
  by (cases x; cases y) (auto simp: file_json_def)

lemma state_json_inj [simp]: "state_json x = state_json y \<longleftrightarrow> x = y"
  by (cases x; cases y) (auto simp: state_json_def map_inj_iff)

lemma exit_json_inj [simp]: "exit_json x = exit_json y \<longleftrightarrow> x = y"
  by (cases x; cases y) (auto simp: exit_json_def)

lemma stable_event: "stable_view (event_json e) = stable_view (event_json e') \<longleftrightarrow> untimed e = untimed e'"
  by (cases e; cases e')
    (auto simp: event_json_def VOLATILE_KEYS_def stable_list_map stable_scalar stable_output untimed_def
      map_inj_iff comp_def)

lemma stable_events:
  "map (\<lambda>e. stable_view (event_json e)) xs = map (\<lambda>e. stable_view (event_json e)) ys \<longleftrightarrow>
   map untimed xs = map untimed ys"
  by (auto simp: list_eq_iff_nth_eq stable_event)

text \<open>
  C34. Where the digest has no collision, two canonical traces have the same hash exactly when
  they agree on program, side, every event up to its duration, final state and process exit. So
  stable runs are runs with one observable behaviour, and because the side is hashed, a reference
  trace and a candidate trace never hash alike.
\<close>

theorem hash_equal_iff:
  assumes "inj digest"
  shows "canonical_trace_hash digest a = canonical_trace_hash digest b \<longleftrightarrow>
    ct_program_id a = ct_program_id b \<and> ct_side a = ct_side b \<and> ct_event_count a = ct_event_count b \<and>
    map untimed (ct_events a) = map untimed (ct_events b) \<and> ct_final_state a = ct_final_state b \<and>
    ct_process_exit a = ct_process_exit b"
  using stable_events [of "ct_events a" "ct_events b"] assms
  by (auto simp: canonical_trace_hash_def inj_eq trace_json_def VOLATILE_KEYS_def stable_list_map
      stable_state stable_exit comp_def)

lemma hash_equal_iff_witness:
  "canonical_trace_hash id (demo_canon\<lparr>ct_side := ''candidate''\<rparr>) \<noteq> canonical_trace_hash id demo_canon \<and>
   canonical_trace_hash id (demo_canon\<lparr>ct_events := map untimed (ct_events demo_canon)\<rparr>) =
     canonical_trace_hash id demo_canon"
proof -
  have "ct_side demo_canon = ''reference''" by code_simp
  moreover have "untimed (untimed e) = untimed e" for e by (simp add: untimed_def)
  ultimately show ?thesis by (simp add: hash_equal_iff [OF inj_on_id] comp_def)
qed

end
