(* ===== verification/Targets.thy ===== *)
theory Targets
  imports PyValue Constants
begin

text \<open>
  Capabilities, target adapters and their registry (\<open>core/capabilities.py\<close>,
  \<open>targets/base.py\<close>, \<open>targets/registry.py\<close>, \<open>targets/*/adapter.py\<close>).

  An adapter is a record of the methods the orchestrator calls; each concrete adapter is the base
  adapter with the methods its class overrides replaced, as in the source. File digests
  (\<open>sha256\<close> of the bytes of a path), the digest of a JSON document and the scripts of
  \<open>initramfs.py\<close> are parameters. The registry is the insertion-ordered dictionary of adapter
  factories; an importable module of \<open>targets/\<close> registers itself on first use.
\<close>

section \<open>Capabilities and execution modes\<close>

record capability_set =
  supports_batch_execution :: bool
  supports_preflight :: bool
  supports_snapshot_reuse :: bool

definition no_capabilities :: capability_set where
  "no_capabilities = \<lparr>supports_batch_execution = False, supports_preflight = False,
     supports_snapshot_reuse = False\<rparr>"

definition capabilities_from_config :: "pyval \<Rightarrow> capability_set" where
  "capabilities_from_config cfg =
     (let raw = py_get ''capabilities'' (PDict []) cfg
      in if \<not> is_dict raw then no_capabilities
         else \<lparr>supports_batch_execution = truthy (py_get ''supports_batch_execution'' (PBool False) raw),
               supports_preflight = truthy (py_get ''supports_preflight'' (PBool False) raw),
               supports_snapshot_reuse = truthy (py_get ''supports_snapshot_reuse'' (PBool False) raw)\<rparr>)"

definition LEGACY_SHARED_GUEST_SHELL :: string where
  "LEGACY_SHARED_GUEST_SHELL = ''shared_guest_shell''"

definition canonical_execution_mode :: "string option \<Rightarrow> string option" where
  "canonical_execution_mode mode =
     (if mode = Some LEGACY_SHARED_GUEST_SHELL then Some (mode_str SHARED_RUNTIME_BATCH) else mode)"

section \<open>Adapters\<close>

record adapter =
  ad_name :: string
  ad_execution_modes :: "pyval \<Rightarrow> string list"
  ad_requires_campaign_healthcheck :: "pyval \<Rightarrow> bool"
  ad_preflight_payload :: "pyval \<Rightarrow> pyval"
  ad_prepare_campaign_assets :: "pyval \<Rightarrow> pyval"
  ad_prepare_case_package_payload :: "pyval list \<Rightarrow> pyval \<Rightarrow> pyval \<Rightarrow> pyval option res"
  ad_prepare_batch_manifest_payload :: "pyval list \<Rightarrow> pyval \<Rightarrow> pyval \<Rightarrow> pyval option res"
  ad_packaged_candidate_env :: "string \<Rightarrow> int \<Rightarrow> (string, string) dict"

definition cfg_str :: "string \<Rightarrow> pyval \<Rightarrow> pyval" where
  "cfg_str k cfg = PStr (py_str (py_get k (PStr []) cfg))"

definition base_preflight_payload :: "string \<Rightarrow> (pyval \<Rightarrow> string list) \<Rightarrow> pyval \<Rightarrow> pyval" where
  "base_preflight_payload name modes cfg = PDict
     [(''target'', PStr name), (''workflow'', cfg_str ''workflow'' cfg), (''arch'', cfg_str ''arch'' cfg),
      (''target_os'', cfg_str ''target_os'' cfg),
      (''supports_preflight'', PBool (supports_preflight (capabilities_from_config cfg))),
      (''supported_execution_modes'', PList (map PStr (modes cfg)))]"

definition base_adapter :: "string \<Rightarrow> adapter" where
  "base_adapter name =
     \<lparr>ad_name = name,
      ad_execution_modes = (\<lambda>cfg. [mode_str SINGLE_COMMAND]),
      ad_requires_campaign_healthcheck = (\<lambda>cfg. False),
      ad_preflight_payload = base_preflight_payload name (\<lambda>cfg. [mode_str SINGLE_COMMAND]),
      ad_prepare_campaign_assets =
        (\<lambda>cfg. PDict [(''target'', PStr name), (''workflow'', cfg_str ''workflow'' cfg)]),
      ad_prepare_case_package_payload = (\<lambda>cases cfg meta. Inr None),
      ad_prepare_batch_manifest_payload = (\<lambda>cases cfg meta. Inr None),
      ad_packaged_candidate_env = (\<lambda>package_dir slot. [])\<rparr>"

definition base_prepare_case :: "string \<Rightarrow> pyval \<Rightarrow> pyval \<Rightarrow> pyval" where
  "base_prepare_case name entry cfg = PDict
     [(''target'', PStr name), (''workflow'', cfg_str ''workflow'' cfg),
      (''program_id'', cfg_str ''program_id'' entry), (''binary_path'', cfg_str ''binary_path'' entry)]"

definition base_prepare_batch :: "adapter \<Rightarrow> pyval list \<Rightarrow> pyval \<Rightarrow> pyval option" where
  "base_prepare_batch a cases cfg =
     (if \<not> supports_batch_execution (capabilities_from_config cfg) then None
      else let modes = ad_execution_modes a cfg;
               primary_mode = (if modes \<noteq> [] then hd modes else mode_str SINGLE_COMMAND)
           in Some (PDict [(''target'', PStr (ad_name a)), (''workflow'', cfg_str ''workflow'' cfg),
                (''execution_mode'', PStr primary_mode), (''case_count'', PInt (int (length cases))),
                (''program_ids'', PList (map (cfg_str ''program_id'') cases)), (''cases'', PList cases)]))"

text \<open>One case of a package payload: the program and the digest of its binary.\<close>

definition package_case :: "(string \<Rightarrow> string res) \<Rightarrow> pyval \<Rightarrow> pyval res" where
  "package_case file_sha c =
     bind (py_item ''binary_path'' c) (\<lambda>p.
     bind (file_sha (py_str p)) (\<lambda>digest.
     Inr (PDict [(''program_id'', cfg_str ''program_id'' c), (''binary_sha256'', PStr digest)])))"

definition preview_bytes :: "pyval \<Rightarrow> int res" where
  "preview_bytes cfg = bind (py_item ''normalization'' cfg) (\<lambda>n. bind (py_item ''preview_bytes'' n) py_int)"

definition shared_package_payload ::
  "(string \<Rightarrow> string res) \<Rightarrow> pyval list \<Rightarrow> pyval \<Rightarrow> pyval \<Rightarrow> pyval option res" where
  "shared_package_payload file_sha cases cfg meta =
     bind (preview_bytes cfg) (\<lambda>n.
     bind (map_res (package_case file_sha) cases) (\<lambda>cs.
     Inr (Some (PDict [(''workflow'', cfg_str ''workflow'' cfg), (''target'', cfg_str ''target'' cfg),
       (''arch'', cfg_str ''arch'' cfg), (''preview_bytes'', PInt n),
       (''batch_metadata'', if truthy meta then meta else PDict []), (''cases'', PList cs)]))))"

definition asterinas_package_payload ::
  "(string \<Rightarrow> string res) \<Rightarrow> (pyval \<Rightarrow> pyval res) \<Rightarrow> pyval list \<Rightarrow> pyval \<Rightarrow> pyval \<Rightarrow> pyval option res" where
  "asterinas_package_payload file_sha template_inputs cases cfg meta =
     bind (template_inputs cfg) (\<lambda>inputs.
     bind (preview_bytes cfg) (\<lambda>n.
     bind (map_res (package_case file_sha) cases) (\<lambda>cs.
     Inr (Some (PDict [(''workflow'', cfg_str ''workflow'' cfg), (''preview_bytes'', PInt n),
       (''template_inputs'', inputs), (''cases'', PList cs)])))))"

definition linux_adapter :: adapter where
  "linux_adapter = (base_adapter ''linux'')\<lparr>
     ad_prepare_campaign_assets := (\<lambda>cfg. PDict
       [(''target'', PStr ''linux''), (''workflow'', cfg_str ''workflow'' cfg),
        (''build_info_path'', cfg_str ''build_info_path'' (py_get ''target_config'' (PDict []) cfg)),
        (''eligible_file'', cfg_str ''eligible_file'' (py_get ''paths'' (PDict []) cfg))])\<rparr>"

definition asterinas_adapter :: "(string \<Rightarrow> string res) \<Rightarrow> (pyval \<Rightarrow> pyval res) \<Rightarrow> adapter" where
  "asterinas_adapter file_sha template_inputs = (base_adapter ''asterinas'')\<lparr>
     ad_execution_modes := (\<lambda>cfg. [mode_str PACKAGED_PER_CASE]),
     ad_preflight_payload := base_preflight_payload ''asterinas'' (\<lambda>cfg. [mode_str PACKAGED_PER_CASE]),
     ad_prepare_campaign_assets := (\<lambda>cfg. PDict
       [(''target'', PStr ''asterinas''), (''workflow'', cfg_str ''workflow'' cfg),
        (''build_info_path'', cfg_str ''build_info_path'' (py_get ''target_config'' (PDict []) cfg)),
        (''candidate_initramfs_packages_dir'',
          cfg_str ''candidate_initramfs_packages_dir'' (py_get ''paths'' (PDict []) cfg))]),
     ad_prepare_case_package_payload := asterinas_package_payload file_sha template_inputs,
     ad_packaged_candidate_env := (\<lambda>package_dir slot.
       [(''SYZABI_ASTERINAS_PACKAGE_DIR'', package_dir), (''SYZABI_ASTERINAS_PACKAGE_SLOT'', int_str slot)])\<rparr>"

definition qemu_linux_adapter :: "(string \<Rightarrow> string res) \<Rightarrow> adapter" where
  "qemu_linux_adapter file_sha =
     (let payload = (\<lambda>cfg. PDict [(''target'', PStr ''qemu_linux''), (''workflow'', cfg_str ''workflow'' cfg),
            (''arch'', cfg_str ''arch'' cfg)])
      in (base_adapter ''qemu_linux'')\<lparr>
           ad_requires_campaign_healthcheck := (\<lambda>cfg. True),
           ad_preflight_payload := payload, ad_prepare_campaign_assets := payload,
           ad_prepare_case_package_payload := shared_package_payload file_sha\<rparr>)"

text \<open>The preflight payloads of the two tgoskits targets come from their \<open>api.py\<close>.\<close>

definition arceos_adapter :: "(pyval \<Rightarrow> pyval) \<Rightarrow> (pyval \<Rightarrow> pyval) \<Rightarrow> adapter" where
  "arceos_adapter preflight replay_preflight = (base_adapter ''tgoskits_arceos'')\<lparr>
     ad_preflight_payload := preflight, ad_prepare_campaign_assets := replay_preflight\<rparr>"

definition starryos_adapter :: "(string \<Rightarrow> string res) \<Rightarrow> (pyval \<Rightarrow> pyval) \<Rightarrow> adapter" where
  "starryos_adapter file_sha preflight = (base_adapter ''tgoskits_starryos'')\<lparr>
     ad_execution_modes := (\<lambda>cfg. [mode_str PACKAGED_PER_CASE]),
     ad_requires_campaign_healthcheck := (\<lambda>cfg. True),
     ad_preflight_payload := preflight, ad_prepare_campaign_assets := preflight,
     ad_prepare_case_package_payload := shared_package_payload file_sha\<rparr>"

section \<open>The registry\<close>

type_synonym registry = "(string, adapter) dict"

definition register_target_adapter :: "string \<Rightarrow> adapter \<Rightarrow> registry \<Rightarrow> registry" where
  "register_target_adapter name factory reg = dict_set name factory reg"

definition active_target_name :: "pyval \<Rightarrow> string" where
  "active_target_name cfg = (case py_get ''target'' PNone cfg of
     PStr t \<Rightarrow> if t \<noteq> [] then t else ''linux'' | _ \<Rightarrow> ''linux'')"

definition payload_missing :: "pyval option res \<Rightarrow> bool" where
  "payload_missing r = (case r of Inl _ \<Rightarrow> False | Inr p \<Rightarrow> p = None)"

definition validate_target_adapter :: "adapter \<Rightarrow> pyval \<Rightarrow> unit res" where
  "validate_target_adapter a cfg =
     (if supports_batch_execution (capabilities_from_config cfg) then
        let modes = ad_execution_modes a cfg
        in if mode_str PACKAGED_PER_CASE \<in> set modes \<and>
              payload_missing (ad_prepare_case_package_payload a [] cfg (PDict []))
           then Inl (LookupErr ''prepare_case_package_payload returns None'')
           else if mode_str SHARED_RUNTIME_BATCH \<in> set modes \<and>
              payload_missing (ad_prepare_batch_manifest_payload a [] cfg (PDict []))
           then Inl (LookupErr ''prepare_batch_manifest_payload returns None'')
           else Inr ()
      else Inr ())"

text \<open>\<open>importable\<close> is what \<open>importlib\<close> finds under \<open>targets/\<close>: the adapter of each module.\<close>

definition discover_target_adapter :: "(string, adapter) dict \<Rightarrow> string \<Rightarrow> adapter res" where
  "discover_target_adapter importable target =
     opt_res (LookupErr (''unsupported target: '' @ target)) (dict_get target importable)"

definition get_target_adapter ::
  "(string, adapter) dict \<Rightarrow> pyval \<Rightarrow> registry \<Rightarrow> adapter res \<times> registry" where
  "get_target_adapter importable cfg reg =
     (let target = active_target_name cfg
      in case dict_get target reg of
           Some a \<Rightarrow> (bind (validate_target_adapter a cfg) (\<lambda>_. Inr a), reg)
         | None \<Rightarrow>
             (case discover_target_adapter importable target of
                Inl e \<Rightarrow> (Inl e, reg)
              | Inr a \<Rightarrow> (bind (validate_target_adapter a cfg) (\<lambda>_. Inr a),
                          register_target_adapter target a reg)))"

definition available_targets :: "registry \<Rightarrow> string list" where
  "available_targets reg = sort (dict_keys reg)"

definition builtin_adapters ::
  "(string \<Rightarrow> string res) \<Rightarrow> (pyval \<Rightarrow> pyval res) \<Rightarrow> (pyval \<Rightarrow> pyval) \<Rightarrow> (pyval \<Rightarrow> pyval) \<Rightarrow> (string, adapter) dict" where
  "builtin_adapters file_sha template_inputs preflight replay_preflight =
     [(''linux'', linux_adapter), (''asterinas'', asterinas_adapter file_sha template_inputs),
      (''qemu_linux'', qemu_linux_adapter file_sha),
      (''tgoskits_arceos'', arceos_adapter preflight replay_preflight),
      (''tgoskits_starryos'', starryos_adapter file_sha preflight)]"

definition initial_registry :: registry where
  "initial_registry = register_target_adapter ''linux'' linux_adapter []"

section \<open>What the registry promises\<close>

lemmas adapter_defs = linux_adapter_def asterinas_adapter_def qemu_linux_adapter_def arceos_adapter_def
  starryos_adapter_def base_adapter_def

lemma package_payload_not_None:
  "\<not> payload_missing (shared_package_payload file_sha cases cfg meta)"
  "\<not> payload_missing (asterinas_package_payload file_sha inputs cases cfg meta)"
  by (auto simp: payload_missing_def shared_package_payload_def asterinas_package_payload_def bind_def
      split: sum.splits)

lemma builtin_valid:
  "dict_get t (builtin_adapters file_sha inputs pf rpf) = Some a \<Longrightarrow> validate_target_adapter a cfg = Inr ()"
  by (auto simp: builtin_adapters_def dict_get_def validate_target_adapter_def adapter_defs Let_def
      package_payload_not_None split: if_splits)

definition builtin_registry :: "(string, adapter) dict \<Rightarrow> registry \<Rightarrow> bool" where
  "builtin_registry importable reg \<longleftrightarrow> (\<forall>t a. dict_get t reg = Some a \<longrightarrow> dict_get t importable = Some a)"

text \<open>
  Looking up the adapter of a configuration finds, whatever was looked up before, exactly the
  adapter of the module the configuration names, already registered or not; validation never
  rejects an adapter of this repository, also where batch execution is enabled; an unknown target
  is a lookup error and changes nothing.
\<close>

theorem target_lookup:
  assumes "importable = builtin_adapters file_sha template_inputs preflight replay_preflight"
    "builtin_registry importable reg" "get_target_adapter importable cfg reg = (r, reg')"
  shows "r = (case dict_get (active_target_name cfg) importable of
        Some a \<Rightarrow> Inr a | None \<Rightarrow> Inl (LookupErr (''unsupported target: '' @ active_target_name cfg)))
    \<and> builtin_registry importable reg' \<and> (\<forall>e. r = Inl e \<longrightarrow> reg' = reg)"
proof -
  have valid: "validate_target_adapter a cfg = Inr ()" if "dict_get t importable = Some a" for t a
    using builtin_valid that assms(1) by blast
  have reg: "dict_get t importable = Some a" if "dict_get t reg = Some a" for t a
    using that assms(2) by (simp add: builtin_registry_def)
  show ?thesis
  proof (cases "dict_get (active_target_name cfg) reg")
    case (Some a)
    then show ?thesis
      using assms(2,3) reg [OF Some] valid [OF reg [OF Some]]
      by (auto simp: get_target_adapter_def Let_def)
  next
    case None
    then show ?thesis
      using assms(2,3) valid
      by (auto simp: get_target_adapter_def discover_target_adapter_def register_target_adapter_def
          builtin_registry_def Let_def split: option.splits if_splits)
  qed
qed

lemma target_lookup_witness:
  "get_target_adapter (builtin_adapters (\<lambda>_. Inr ''d'') Inr id id)
     (PDict [(''target'', PStr ''asterinas''), (''capabilities'', PDict [(''supports_batch_execution'', PBool True)])])
     initial_registry =
   (Inr (asterinas_adapter (\<lambda>_. Inr ''d'') Inr),
    [(''linux'', linux_adapter), (''asterinas'', asterinas_adapter (\<lambda>_. Inr ''d'') Inr)])" (is "?l = ?r")
proof -
  let ?imp = "builtin_adapters (\<lambda>_. Inr ''d'') Inr id id"
  let ?cfg = "PDict [(''target'', PStr ''asterinas''),
    (''capabilities'', PDict [(''supports_batch_execution'', PBool True)])]"
  have reg: "builtin_registry ?imp initial_registry"
    by (auto simp: builtin_registry_def initial_registry_def register_target_adapter_def dict_set_def
        builtin_adapters_def dict_get_def)
  have fst: "fst ?l = Inr (asterinas_adapter (\<lambda>_. Inr ''d'') Inr)"
    using target_lookup [OF refl reg prod.collapse [symmetric], of ?cfg]
    by (simp add: active_target_name_def py_get_def builtin_adapters_def dict_get_def)
  have "snd ?l = [(''linux'', linux_adapter), (''asterinas'', asterinas_adapter (\<lambda>_. Inr ''d'') Inr)]"
    by (simp add: get_target_adapter_def active_target_name_def py_get_def initial_registry_def
        register_target_adapter_def dict_set_def dict_get_def discover_target_adapter_def builtin_adapters_def
        Let_def)
  with fst show ?thesis by (simp add: prod_eq_iff)
qed

section \<open>Package identity\<close>

text \<open>\<open>case_package_id\<close>: the digest of the payload.\<close>

definition case_package_id :: "(pyval \<Rightarrow> 'h) \<Rightarrow> pyval \<Rightarrow> 'h" where
  "case_package_id digest payload = digest payload"

definition package_key :: "(string \<Rightarrow> string res) \<Rightarrow> pyval \<Rightarrow> (pyval \<times> string) res" where
  "package_key file_sha c = bind (py_item ''binary_path'' c) (\<lambda>p.
     bind (file_sha (py_str p)) (\<lambda>d. Inr (cfg_str ''program_id'' c, d)))"

lemma package_case_key:
  "package_case file_sha c = Inr v \<Longrightarrow> \<exists>k. package_key file_sha c = Inr k \<and>
     v = PDict [(''program_id'', fst k), (''binary_sha256'', PStr (snd k))]"
  by (auto simp: package_case_def package_key_def bind_eq_Inr)

lemma package_cases_keys:
  "map_res (package_case file_sha) cs = Inr vs \<Longrightarrow> map_res (package_case file_sha') ds = Inr vs \<Longrightarrow>
   map_res (package_key file_sha) cs = map_res (package_key file_sha') ds"
proof (induction cs arbitrary: ds vs)
  case (Cons c cs)
  then obtain v vs' where v: "package_case file_sha c = Inr v" "map_res (package_case file_sha) cs = Inr vs'"
    "vs = v # vs'" by (auto simp: bind_eq_Inr)
  with Cons.prems(2) obtain d ds' where d: "ds = d # ds'" "package_case file_sha' d = Inr v"
    "map_res (package_case file_sha') ds' = Inr vs'" by (cases ds) (auto simp: bind_eq_Inr)
  from package_case_key [OF v(1)] package_case_key [OF d(2)]
  have "package_key file_sha c = package_key file_sha' d" by auto
  then show ?case using Cons.IH [OF v(2) d(3)] d(1) by simp
qed (auto dest: map_res_length)

text \<open>
  A candidate package is found again under its identity: where the digest of the payload has
  no collision, two batches with the same package id agree on workflow, target, architecture,
  preview size and, case by case in order, on program id and on the digest of the binary. Nothing
  else of the cases (paths, run ids) enters.
\<close>

theorem package_id_sound:
  assumes "inj digest"
    "shared_package_payload file_sha cases cfg meta = Inr (Some p)"
    "shared_package_payload file_sha' cases' cfg' meta' = Inr (Some p')"
    "case_package_id digest p = case_package_id digest p'"
  shows "cfg_str ''workflow'' cfg = cfg_str ''workflow'' cfg' \<and> cfg_str ''target'' cfg = cfg_str ''target'' cfg' \<and>
    cfg_str ''arch'' cfg = cfg_str ''arch'' cfg' \<and> preview_bytes cfg = preview_bytes cfg' \<and>
    map_res (package_key file_sha) cases = map_res (package_key file_sha') cases'"
proof -
  from assms(1,4) have "p = p'" by (simp add: case_package_id_def inj_eq)
  with assms(2,3) show ?thesis
    by (auto simp: shared_package_payload_def bind_eq_Inr intro: package_cases_keys)
qed

lemma package_id_sound_witness:
  "\<exists>p. shared_package_payload (\<lambda>f. Inr (f @ ''!'')) [PDict [(''program_id'', PStr ''p1''), (''binary_path'', PStr ''a'')]]
      (PDict [(''normalization'', PDict [(''preview_bytes'', PInt 64)])]) PNone = Inr (Some p) \<and>
    map_res (package_key (\<lambda>f. Inr (f @ ''!''))) [PDict [(''program_id'', PStr ''p1''), (''binary_path'', PStr ''a'')]] =
    map_res (package_key (\<lambda>f. Inr ''a!'')) [PDict [(''program_id'', PStr ''p1''), (''binary_path'', PStr ''b'')]]"
proof -
  let ?cfg = "PDict [(''normalization'', PDict [(''preview_bytes'', PInt 64)])]"
  let ?a = "[PDict [(''program_id'', PStr ''p1''), (''binary_path'', PStr ''a'')]]"
  let ?b = "[PDict [(''program_id'', PStr ''p1''), (''binary_path'', PStr ''b'')]]"
  obtain p where p: "shared_package_payload (\<lambda>f. Inr (f @ ''!'')) ?a ?cfg PNone = Inr (Some p)"
    "shared_package_payload (\<lambda>f. Inr ''a!'') ?b ?cfg PNone = Inr (Some p)"
    by (simp add: shared_package_payload_def preview_bytes_def py_item_def dict_get_def package_case_def
        cfg_str_def py_get_def)
  from package_id_sound [OF inj_on_id p refl] p(1) show ?thesis by (auto simp: id_def)
qed

end
