(* ===== verification/Pool.thy ===== *)
theory Pool
  imports PyPrelude
begin

text \<open>
  The thread pools of the orchestrator. Every use has one shape: submit \<open>f\<close> on each item, wait
  for the futures \<open>as_completed\<close>, and put each result in the slot of its item. The completion
  order is the scheduler's choice, so it is an argument: a list of the indexes. A future that
  raised raises again when its result is read.
\<close>

fun pool_collect :: "('a \<Rightarrow> 'b res) \<Rightarrow> 'a list \<Rightarrow> nat list \<Rightarrow> 'b option list \<Rightarrow> 'b option list res" where
  "pool_collect f xs [] slots = Inr slots"
| "pool_collect f xs (i # order) slots =
     bind (f (xs ! i)) (\<lambda>y. pool_collect f xs order (slots[i := Some y]))"

definition pool_run :: "('a \<Rightarrow> 'b res) \<Rightarrow> 'a list \<Rightarrow> nat list \<Rightarrow> 'b option list res" where
  "pool_run f xs order = pool_collect f xs order (replicate (length xs) None)"

text \<open>\<open>[r for r in results if r is not None]\<close>.\<close>

fun somes :: "'a option list \<Rightarrow> 'a list" where
  "somes [] = []"
| "somes (None # xs) = somes xs"
| "somes (Some x # xs) = x # somes xs"

lemma somes_map_Some [simp]: "somes (map Some xs) = xs"
  by (induction xs) simp_all

definition completion_order :: "nat list \<Rightarrow> nat \<Rightarrow> bool" where
  "completion_order order n \<longleftrightarrow> distinct order \<and> set order = {..<n}"

lemma pool_collect_ok:
  assumes "\<And>x. x \<in> set xs \<Longrightarrow> f x = Inr (g x)"
  shows "set order \<subseteq> {..<length xs} \<Longrightarrow> length slots = length xs \<Longrightarrow>
    \<exists>r. pool_collect f xs order slots = Inr r \<and> length r = length xs \<and>
      (\<forall>i < length xs. r ! i = (if i \<in> set order then Some (g (xs ! i)) else slots ! i))"
proof (induction order arbitrary: slots)
  case (Cons i order)
  then have "f (xs ! i) = Inr (g (xs ! i))" by (auto intro: assms)
  moreover obtain r where "pool_collect f xs order (slots[i := Some (g (xs ! i))]) = Inr r"
    "length r = length xs"
    "\<forall>j < length xs. r ! j = (if j \<in> set order then Some (g (xs ! j)) else slots[i := Some (g (xs ! i))] ! j)"
    using Cons.IH [of "slots[i := Some (g (xs ! i))]"] Cons.prems by auto
  ultimately show ?case using Cons.prems by (intro exI [of _ r]) (auto simp: nth_list_update)
qed simp

text \<open>When no item raises, the slots hold the results in item order, whatever finished first.\<close>

lemma pool_run_ok:
  assumes "\<And>x. x \<in> set xs \<Longrightarrow> f x = Inr (g x)" "completion_order order (length xs)"
  shows "pool_run f xs order = Inr (map (Some \<circ> g) xs)"
proof -
  obtain r where r: "pool_run f xs order = Inr r" "length r = length xs"
    "\<forall>i < length xs. r ! i = (if i \<in> set order then Some (g (xs ! i)) else replicate (length xs) None ! i)"
    using pool_collect_ok [of xs f g order "replicate (length xs) None", OF assms(1)] assms(2)
    by (auto simp: pool_run_def completion_order_def)
  moreover have "r = map (Some \<circ> g) xs"
    using r(2,3) assms(2) by (intro nth_equalityI) (auto simp: completion_order_def)
  ultimately show ?thesis by simp
qed

lemma completion_order_upt: "completion_order [0..<n] n"
  by (simp add: completion_order_def lessThan_atLeast0)

text \<open>The sequential loop over the items gives the same slots.\<close>

lemma pool_run_seq:
  assumes "\<And>x. x \<in> set xs \<Longrightarrow> f x = Inr (g x)" "completion_order order (length xs)"
  shows "pool_run f xs order = bind (map_res f xs) (\<lambda>ys. Inr (map Some ys))"
  using pool_run_ok [OF assms] map_res_Inr [of xs f g] assms(1) by simp

lemma pool_run_all2:
  assumes "\<And>x. x \<in> set xs \<Longrightarrow> \<exists>y. f x = Inr y \<and> P x y" "completion_order order (length xs)"
  shows "\<exists>ys. pool_run f xs order = Inr (map Some ys) \<and> map_res f xs = Inr ys \<and> list_all2 P xs ys"
proof -
  obtain ys where ys: "map_res f xs = Inr ys" "list_all2 P xs ys"
    using map_res_all2 [of xs f P] assms(1) by blast
  have "f x = Inr (projr (f x))" if "x \<in> set xs" for x using assms(1) [OF that] by auto
  from pool_run_seq [of xs f "\<lambda>x. projr (f x)", OF this assms(2)] ys show ?thesis by simp
qed

text \<open>A pool that returns read every future: none raised.\<close>

lemma pool_collect_raises:
  "pool_collect f xs order slots = Inr r \<Longrightarrow> i \<in> set order \<Longrightarrow> \<exists>y. f (xs ! i) = Inr y"
  by (induction order arbitrary: slots) (auto simp: bind_eq_Inr)

lemma pool_run_raises:
  assumes "pool_run f xs order = Inr r" "completion_order order (length xs)" "x \<in> set xs"
  shows "\<exists>y. f x = Inr y"
proof -
  from assms(3) obtain i where "i < length xs" "x = xs ! i" by (auto simp: in_set_conv_nth)
  with assms(1,2) show ?thesis
    by (auto simp: pool_run_def completion_order_def dest!: pool_collect_raises [where i = i])
qed

end
