(* ===== verification/Scheduler.thy ===== *)
theory Scheduler
  imports Stability Targets Pool
begin

text \<open>
  The scheduler of differential runs (\<open>orchestrator/scheduler.py\<close>, \<open>orchestrator/models.py\<close>).

  A case is prepared (build checked, reference run once, rerun on failure), its candidate is run,
  and it is finalized (compared, rerun on both sides when it does not simply agree, tested for a
  stable reference, classified). What the runs do is the environment \<open>sched_env\<close>: \<open>se_execute\<close> is
  the result of one execution request (\<open>execute_side\<close> and \<open>execute_candidate_case_in_package\<close>;
  the run id of a request names the attempt, so reruns are free to differ), \<open>se_batch\<close> that of a
  batch, \<open>se_trace_at\<close>/\<open>se_state_at\<close>/\<open>se_json_at\<close> are the documents at a path, \<open>None\<close> where
  there is no file. Exceptions are values; the \<open>_safe\<close> wrappers turn them into results.
\<close>

section \<open>Data\<close>

record run_result =
  rr_program_id :: string
  rr_side :: string
  rr_status :: string
  rr_exit_code :: "int option"
  rr_stdout_path :: string
  rr_stderr_path :: string
  rr_console_log_path :: string
  rr_trace_json_path :: "string option"
  rr_external_state_path :: "string option"
  rr_elapsed_ms :: int
  rr_role :: string
  rr_snapshot_id :: string
  rr_kernel_build :: string
  rr_run_id :: string
  rr_status_detail :: "string option"
  rr_runner_kind :: "string option"

record entry =
  en_program_id :: string
  en_normalized_path :: "string option"
  en_meta_path :: "string option"
  en_scml_preflight_status :: "string option"
  en_scml_rejection_reasons :: "string list option"
  en_scml_trace_log_path :: "string option"
  en_scml_sctrace_output_path :: "string option"
  en_scml_preflight_run_root :: "string option"

record scml_fields =
  sf_preflight_status :: string
  sf_rejection_reasons :: "string list"
  sf_trace_log_path :: string
  sf_sctrace_output_path :: string
  sf_preflight_run_root :: string

record run_request =
  rq_program_id :: string
  rq_side :: Side
  rq_run_id :: string
  rq_inject :: "pyval option"
  rq_package :: "(string \<times> int) option"

record batch_case =
  bc_program_id :: string
  bc_run_id :: string
  bc_inject :: "pyval option"
  bc_prepared_case :: pyval

record batch_outcome =
  bo_results :: "(string, run_result) dict"
  bo_package_dir :: "string option"
  bo_slots :: "(string, int) dict"

record sched_cfg =
  sc_cfg :: pyval
  sc_workflow :: string
  sc_classes :: class_labels
  sc_rerun_count :: int
  sc_noise :: "string list"

record 'h sched_env =
  se_execute :: "run_request \<Rightarrow> run_result res"
  se_batch :: "batch_case list \<Rightarrow> batch_outcome res"
  se_trace_at :: "string \<Rightarrow> raw_trace option"
  se_state_at :: "string \<Rightarrow> ext_state option"
  se_json_at :: "string \<Rightarrow> pyval option"
  se_digest :: "pyval \<Rightarrow> 'h"
  se_now :: int
  se_adapter :: "adapter res"
  se_profiles :: pyval
  se_build_root :: "string \<Rightarrow> string"

text \<open>The result of a case; a key that only some results have is an option.\<close>

record 'h case_result =
  cr_program_id :: string
  cr_classification :: string
  cr_build_result_path :: "string option"
  cr_normalized_path :: string
  cr_meta_path :: string
  cr_reference_runs :: "run_result list option"
  cr_candidate_run :: "run_result option"
  cr_candidate_runs :: "run_result list option"
  cr_comparison :: "comparison option option"
  cr_scml :: scml_fields
  cr_package_dir :: "string option"
  cr_package_slot :: "int option option"
  cr_package_workflow :: "string option"
  cr_bucket :: string
  cr_reference_hash :: "'h option"
  cr_candidate_hash :: "'h option"
  cr_collection :: "(string \<times> pyval \<times> run_result) option"
  cr_error :: "(string \<times> py_error) option"
  cr_finalized :: bool

record 'h ready_case =
  rc_entry :: entry
  rc_prepared_case :: pyval
  rc_program_id :: string
  rc_run_id :: string
  rc_inject :: "pyval option"
  rc_reference_results :: "run_result list"
  rc_reference_hashes :: "'h list"
  rc_reference_canonical :: "canon_trace option"

datatype 'h prepared = Final "'h case_result" | Ready "'h ready_case"

section \<open>Running and loading\<close>

definition next_run_id :: "'h sched_env \<Rightarrow> string \<Rightarrow> string" where
  "next_run_id env program_id = int_str (se_now env) @ ''-'' @ take 12 program_id"

definition load_canonical :: "'h sched_env \<Rightarrow> run_result \<Rightarrow> canon_trace res" where
  "load_canonical env r =
     bind (opt_res (TypeError ''path'') (rr_trace_json_path r)) (\<lambda>tp.
     bind (opt_res (FileNotFoundError tp) (se_trace_at env tp)) (\<lambda>raw.
     bind (opt_res (TypeError ''path'') (rr_external_state_path r)) (\<lambda>sp.
     bind (opt_res (FileNotFoundError sp) (se_state_at env sp)) (\<lambda>st. canonicalize raw st))))"

definition present :: "string option \<Rightarrow> bool" where
  "present p = (case p of None \<Rightarrow> False | Some s \<Rightarrow> s \<noteq> [])"

definition maybe_load_canonical :: "'h sched_env \<Rightarrow> run_result \<Rightarrow> canon_trace option res" where
  "maybe_load_canonical env r =
     (if \<not> present (rr_trace_json_path r) \<or> \<not> present (rr_external_state_path r) then Inr None
      else if se_trace_at env (the (rr_trace_json_path r)) = None \<or>
              se_state_at env (the (rr_external_state_path r)) = None then Inr None
      else bind (load_canonical env r) (\<lambda>c. Inr (Some c)))"

definition run_reference_once ::
  "'h sched_env \<Rightarrow> string \<Rightarrow> string \<Rightarrow> string \<Rightarrow> (run_result \<times> canon_trace option) res" where
  "run_reference_once env program_id run_id sfx =
     bind (se_execute env \<lparr>rq_program_id = program_id, rq_side = REFERENCE,
             rq_run_id = run_id @ ''-'' @ sfx, rq_inject = None, rq_package = None\<rparr>) (\<lambda>result.
     if rr_status result = ''ok''
     then bind (load_canonical env result) (\<lambda>c. Inr (result, Some c))
     else Inr (result, None))"

definition run_candidate_once_with_package ::
  "'h sched_env \<Rightarrow> string \<Rightarrow> string \<Rightarrow> string \<Rightarrow> pyval option \<Rightarrow> string option \<Rightarrow> int option \<Rightarrow>
   (run_result \<times> canon_trace option) res" where
  "run_candidate_once_with_package env program_id run_id sfx inject package_dir package_slot =
     bind (se_execute env \<lparr>rq_program_id = program_id, rq_side = CANDIDATE,
             rq_run_id = run_id @ ''-'' @ sfx, rq_inject = inject,
             rq_package = (case (package_dir, package_slot) of (Some d, Some s) \<Rightarrow> Some (d, s) | _ \<Rightarrow> None)\<rparr>)
       (\<lambda>result. bind (maybe_load_canonical env result) (\<lambda>c. Inr (result, c)))"

definition run_candidate_once ::
  "'h sched_env \<Rightarrow> string \<Rightarrow> string \<Rightarrow> string \<Rightarrow> pyval option \<Rightarrow> (run_result \<times> canon_trace option) res" where
  "run_candidate_once env program_id run_id sfx inject =
     run_candidate_once_with_package env program_id run_id sfx inject None None"

definition scml_of_entry :: "entry \<Rightarrow> scml_fields" where
  "scml_of_entry e =
     \<lparr>sf_preflight_status = opt_default ''not_run'' (en_scml_preflight_status e),
      sf_rejection_reasons = opt_default [] (en_scml_rejection_reasons e),
      sf_trace_log_path = opt_default [] (en_scml_trace_log_path e),
      sf_sctrace_output_path = opt_default [] (en_scml_sctrace_output_path e),
      sf_preflight_run_root = opt_default [] (en_scml_preflight_run_root e)\<rparr>"

definition scml_result_bucket ::
  "class_labels \<Rightarrow> string \<Rightarrow> string option \<Rightarrow> string \<Rightarrow> comparison option \<Rightarrow> string res" where
  "scml_result_bucket classes preflight_status candidate_status classification cmp =
     (if preflight_status = ''not_run'' then Inr []
      else if preflight_status \<noteq> ''passed'' then Inr ''rejected_by_scml''
      else if classification = class_str BUILD_FAILURE then Inr ''passed_scml_but_candidate_failed''
      else case cmp of
        None \<Rightarrow> bind (class_label classes BASELINE_INVALID) (\<lambda>baseline_invalid.
          Inr (if classification = baseline_invalid then ''passed_scml_but_reference_failed''
               else if candidate_status \<noteq> Some (status_str OK) then ''passed_scml_but_candidate_failed''
               else ''passed_scml_but_reference_failed''))
      | Some c \<Rightarrow> Inr (if cmp_equivalent c then ''passed_scml_and_no_diff'' else ''passed_scml_and_diverged''))"

text \<open>The common part of every result: the entry's fields, the classification and the bucket.\<close>

definition entry_result :: "entry \<Rightarrow> string \<Rightarrow> string \<Rightarrow> 'h case_result" where
  "entry_result e classification bucket =
     \<lparr>cr_program_id = en_program_id e, cr_classification = classification,
      cr_build_result_path = None,
      cr_normalized_path = opt_default [] (en_normalized_path e),
      cr_meta_path = opt_default [] (en_meta_path e),
      cr_reference_runs = None, cr_candidate_run = None, cr_candidate_runs = None,
      cr_comparison = None, cr_scml = scml_of_entry e, cr_package_dir = None, cr_package_slot = None,
      cr_package_workflow = None, cr_bucket = bucket, cr_reference_hash = None,
      cr_candidate_hash = None, cr_collection = None, cr_error = None, cr_finalized = False\<rparr>"

definition finalize_result :: "'h case_result \<Rightarrow> 'h case_result" where
  "finalize_result r = r\<lparr>cr_finalized := True\<rparr>"

definition entry_json :: "entry \<Rightarrow> pyval" where
  "entry_json e = PDict [(''program_id'', PStr (en_program_id e))]"

section \<open>Preparing a case\<close>

fun rerun_references ::
  "'h sched_env \<Rightarrow> string \<Rightarrow> string \<Rightarrow> nat list \<Rightarrow> run_result list \<Rightarrow> 'h list \<Rightarrow> (run_result list \<times> 'h list) res" where
  "rerun_references env program_id run_id [] results hashes = Inr (results, hashes)"
| "rerun_references env program_id run_id (attempt # attempts) results hashes =
     bind (run_reference_once env program_id run_id (''ref-triage'' @ nat_str attempt)) (\<lambda>(result, canonical).
     rerun_references env program_id run_id attempts (results @ [result])
       (case canonical of None \<Rightarrow> hashes | Some c \<Rightarrow> hashes @ [canonical_trace_hash (se_digest env) c]))"

definition rerun_attempts :: "sched_cfg \<Rightarrow> nat list" where
  "rerun_attempts cfg = [0..<nat (sc_rerun_count cfg)]"

definition build_reference_runs ::
  "'h sched_env \<Rightarrow> sched_cfg \<Rightarrow> string \<Rightarrow> string \<Rightarrow> (run_result list \<times> 'h list \<times> canon_trace option) res" where
  "build_reference_runs env cfg program_id run_id =
     bind (run_reference_once env program_id run_id ''ref0'') (\<lambda>(result, canonical).
     let hashes = (case canonical of None \<Rightarrow> [] | Some c \<Rightarrow> [canonical_trace_hash (se_digest env) c]) in
     if rr_status result \<noteq> status_str OK
     then bind (rerun_references env program_id run_id (rerun_attempts cfg) [result] hashes)
            (\<lambda>(results, hashes). Inr (results, hashes, canonical))
     else Inr ([result], hashes, canonical))"

definition controlled_divergence_spec :: "pyval \<Rightarrow> bool \<Rightarrow> pyval option res" where
  "controlled_divergence_spec profiles enabled =
     bind (py_item ''candidate'' profiles) (\<lambda>candidate.
     let spec = py_get ''controlled_divergence'' (PDict []) candidate in
     if \<not> enabled \<or> \<not> truthy (py_get ''enabled'' (PBool False) spec) then Inr None
     else bind (py_item ''match_syscall'' spec) (\<lambda>m. bind (py_item ''field'' spec) (\<lambda>f.
          bind (py_item ''value'' spec) (\<lambda>v.
          Inr (Some (PDict [(''call_index'', PInt (- 1)), (''syscall_name'', m), (''field'', f), (''value'', v)]))))))"

definition prepare_case :: "'h sched_env \<Rightarrow> sched_cfg \<Rightarrow> bool \<Rightarrow> entry \<Rightarrow> 'h prepared res" where
  "prepare_case env cfg controlled e =
     bind (se_adapter env) (\<lambda>adapter.
     let program_id = en_program_id e;
         prepared = base_prepare_case (ad_name adapter) (entry_json e) (sc_cfg cfg);
         preflight = sf_preflight_status (scml_of_entry e);
         build_path = se_build_root env program_id @ ''/build-result.json'' in
     if \<not> build_status_ok (se_json_at env) build_path then
       bind (scml_result_bucket (sc_classes cfg) preflight None (class_str BUILD_FAILURE) None) (\<lambda>bucket.
       Inr (Final (finalize_result ((entry_result e (class_str BUILD_FAILURE) bucket)
         \<lparr>cr_build_result_path := Some build_path\<rparr>))))
     else
       bind (controlled_divergence_spec (se_profiles env) controlled) (\<lambda>inject.
       let run_id = next_run_id env program_id in
       bind (build_reference_runs env cfg program_id run_id) (\<lambda>(results, hashes, canonical).
       if rr_status (hd results) \<noteq> status_str OK then
         bind (class_label (sc_classes cfg) BASELINE_INVALID) (\<lambda>label.
         bind (scml_result_bucket (sc_classes cfg) preflight None label None) (\<lambda>bucket.
         Inr (Final (finalize_result ((entry_result e label bucket)\<lparr>cr_reference_runs := Some results\<rparr>)))))
       else Inr (Ready \<lparr>rc_entry = e, rc_prepared_case = prepared, rc_program_id = program_id,
              rc_run_id = run_id, rc_inject = inject, rc_reference_results = results,
              rc_reference_hashes = hashes, rc_reference_canonical = canonical\<rparr>))))"

section \<open>Triage\<close>

record 'h triage =
  tr_reference_results :: "run_result list"
  tr_reference_hashes :: "'h list"
  tr_reference_canonical :: "canon_trace option"
  tr_candidate_results :: "run_result list"
  tr_candidate_hashes :: "'h list"
  tr_candidate_canonical :: "canon_trace option"
  tr_comparison :: "comparison option"

definition add_reference :: "'h sched_env \<Rightarrow> run_result \<times> canon_trace option \<Rightarrow> 'h triage \<Rightarrow> 'h triage" where
  "add_reference env = (\<lambda>(result, canonical) s.
     let s' = s\<lparr>tr_reference_results := tr_reference_results s @ [result]\<rparr> in
     case canonical of None \<Rightarrow> s'
     | Some c \<Rightarrow> s'\<lparr>tr_reference_canonical := Some c,
         tr_reference_hashes := tr_reference_hashes s @ [canonical_trace_hash (se_digest env) c]\<rparr>)"

definition add_candidate ::
  "'h sched_env \<Rightarrow> sched_cfg \<Rightarrow> run_result \<times> canon_trace option \<Rightarrow> 'h triage \<Rightarrow> 'h triage res" where
  "add_candidate env cfg = (\<lambda>(result, canonical) s.
     let s' = s\<lparr>tr_candidate_results := tr_candidate_results s @ [result]\<rparr> in
     case canonical of None \<Rightarrow> Inr s'
     | Some c \<Rightarrow>
         bind (case tr_reference_canonical s of
                 None \<Rightarrow> Inr None
               | Some r \<Rightarrow> bind (compare_canonical (sc_noise cfg) r c) (\<lambda>x. Inr (Some x))) (\<lambda>cmp.
         Inr (s'\<lparr>tr_candidate_hashes := tr_candidate_hashes s @ [canonical_trace_hash (se_digest env) c],
                 tr_candidate_canonical := Some c, tr_comparison := cmp\<rparr>)))"

fun run_triage_loop ::
  "'h sched_env \<Rightarrow> sched_cfg \<Rightarrow> string \<Rightarrow> string \<Rightarrow> pyval option \<Rightarrow> string option \<Rightarrow> int option \<Rightarrow>
   nat list \<Rightarrow> 'h triage \<Rightarrow> 'h triage res" where
  "run_triage_loop env cfg program_id run_id inject package_dir package_slot [] s = Inr s"
| "run_triage_loop env cfg program_id run_id inject package_dir package_slot (attempt # attempts) s =
     bind (run_reference_once env program_id run_id (''ref-triage'' @ nat_str attempt)) (\<lambda>ref.
     bind (run_candidate_once_with_package env program_id run_id (''candidate-triage'' @ nat_str attempt)
             inject package_dir package_slot) (\<lambda>cand.
     bind (add_candidate env cfg cand (add_reference env ref s)) (\<lambda>s'.
     run_triage_loop env cfg program_id run_id inject package_dir package_slot attempts s')))"

section \<open>Finalizing a case\<close>

definition compare_opt :: "sched_cfg \<Rightarrow> canon_trace option \<Rightarrow> canon_trace \<Rightarrow> comparison res" where
  "compare_opt cfg reference c =
     bind (opt_res (TypeError ''NoneType'') reference) (\<lambda>r. compare_canonical (sc_noise cfg) r c)"

definition first_triage ::
  "'h sched_env \<Rightarrow> sched_cfg \<Rightarrow> 'h ready_case \<Rightarrow> run_result \<Rightarrow> canon_trace option \<Rightarrow> 'h triage res" where
  "first_triage env cfg prep result canonical =
     bind (case canonical of None \<Rightarrow> Inr None
           | Some c \<Rightarrow> bind (compare_opt cfg (rc_reference_canonical prep) c) (\<lambda>x. Inr (Some x))) (\<lambda>cmp.
     Inr \<lparr>tr_reference_results = rc_reference_results prep, tr_reference_hashes = rc_reference_hashes prep,
          tr_reference_canonical = rc_reference_canonical prep,
          tr_candidate_results = [result],
          tr_candidate_hashes = (case canonical of None \<Rightarrow> []
             | Some c \<Rightarrow> [canonical_trace_hash (se_digest env) c]),
          tr_candidate_canonical = canonical, tr_comparison = cmp\<rparr>)"

definition needs_triage :: "run_result \<Rightarrow> comparison option \<Rightarrow> bool" where
  "needs_triage result cmp =
     (rr_status result \<noteq> status_str OK \<or> (case cmp of None \<Rightarrow> False | Some c \<Rightarrow> \<not> cmp_equivalent c))"

text \<open>The comparison is recomputed when all candidate hashes agree with the last reference hash.\<close>

definition recheck :: "sched_cfg \<Rightarrow> 'h triage \<Rightarrow> comparison option res" where
  "recheck cfg s =
     (if tr_candidate_hashes s \<noteq> [] \<and> all_equal (tr_candidate_hashes s) \<and> tr_reference_hashes s \<noteq> [] \<and>
         last (tr_candidate_hashes s) = last (tr_reference_hashes s)
      then (case tr_candidate_canonical s of None \<Rightarrow> Inr (tr_comparison s)
            | Some c \<Rightarrow> bind (compare_opt cfg (tr_reference_canonical s) c) (\<lambda>x. Inr (Some x)))
      else Inr (tr_comparison s))"

definition with_runs :: "'h ready_case \<Rightarrow> 'h triage \<Rightarrow> 'h case_result \<Rightarrow> 'h case_result" where
  "with_runs prep s r = r\<lparr>cr_program_id := rc_program_id prep,
     cr_reference_runs := Some (tr_reference_results s), cr_candidate_runs := Some (tr_candidate_results s)\<rparr>"

definition unstable_result :: "sched_cfg \<Rightarrow> 'h ready_case \<Rightarrow> 'h triage \<Rightarrow> 'h case_result res" where
  "unstable_result cfg prep s =
     (let e = rc_entry prep in
      bind (class_label (sc_classes cfg) BASELINE_INVALID) (\<lambda>label.
      bind (scml_result_bucket (sc_classes cfg) (sf_preflight_status (scml_of_entry e))
              (Some (rr_status (last (tr_candidate_results s)))) label None) (\<lambda>bucket.
      Inr (finalize_result (with_runs prep s (entry_result e label bucket))))))"

definition stable_result ::
  "'h sched_env \<Rightarrow> sched_cfg \<Rightarrow> adapter \<Rightarrow> 'h ready_case \<Rightarrow> string option \<Rightarrow> int option \<Rightarrow> 'h triage \<Rightarrow>
   comparison option \<Rightarrow> 'h case_result res" where
  "stable_result env cfg adapter prep package_dir package_slot s cmp =
     (let e = rc_entry prep; candidate_last = last (tr_candidate_results s) in
      bind (classify_result (sc_classes cfg) True (rr_status (last (tr_reference_results s)))
              (rr_status candidate_last) cmp) (\<lambda>classification.
      bind (scml_result_bucket (sc_classes cfg) (sf_preflight_status (scml_of_entry e))
              (Some (rr_status candidate_last)) classification cmp) (\<lambda>bucket.
      Inr (finalize_result ((with_runs prep s (entry_result e classification bucket))
        \<lparr>cr_candidate_run := Some candidate_last, cr_comparison := Some cmp,
         cr_package_dir := Some (opt_default [] package_dir),
         cr_package_slot := Some package_slot,
         cr_package_workflow := Some (if package_dir = None then [] else sc_workflow cfg),
         cr_reference_hash := (if tr_candidate_canonical s = None then None
            else Some (last (tr_reference_hashes s))),
         cr_candidate_hash := map_option (canonical_trace_hash (se_digest env)) (tr_candidate_canonical s),
         cr_collection := Some (ad_name adapter, cfg_str ''workflow'' (sc_cfg cfg), candidate_last)\<rparr>)))))"

definition triaged ::
  "'h sched_env \<Rightarrow> sched_cfg \<Rightarrow> 'h ready_case \<Rightarrow> run_result \<Rightarrow> canon_trace option \<Rightarrow>
   string option \<Rightarrow> int option \<Rightarrow> 'h triage res" where
  "triaged env cfg prep result canonical package_dir package_slot =
     bind (first_triage env cfg prep result canonical) (\<lambda>s.
     if needs_triage result (tr_comparison s)
     then run_triage_loop env cfg (rc_program_id prep) (rc_run_id prep) (rc_inject prep)
            package_dir package_slot (rerun_attempts cfg) s
     else Inr s)"

definition finalize_prepared_case ::
  "'h sched_env \<Rightarrow> sched_cfg \<Rightarrow> 'h ready_case \<Rightarrow> run_result \<Rightarrow> canon_trace option \<Rightarrow>
   string option \<Rightarrow> int option \<Rightarrow> 'h case_result res" where
  "finalize_prepared_case env cfg prep result canonical package_dir package_slot =
     bind (se_adapter env) (\<lambda>adapter.
     bind (triaged env cfg prep result canonical package_dir package_slot) (\<lambda>s.
     if \<not> all_equal (tr_reference_hashes s) then unstable_result cfg prep s
     else bind (recheck cfg s) (\<lambda>cmp. stable_result env cfg adapter prep package_dir package_slot s cmp)))"

definition infra_error_result ::
  "'h sched_env \<Rightarrow> sched_cfg \<Rightarrow> entry \<Rightarrow> string \<Rightarrow> py_error \<Rightarrow> run_result list \<Rightarrow> run_result list \<Rightarrow>
   'h case_result res" where
  "infra_error_result env cfg e stage exc reference_results candidate_results =
     bind (se_adapter env) (\<lambda>adapter.
     let candidate_run = (if candidate_results = [] then None else Some (last candidate_results)) in
     bind (scml_result_bucket (sc_classes cfg) (sf_preflight_status (scml_of_entry e))
             (map_option rr_status candidate_run) (class_str INFRA_ERROR_CLASS) None) (\<lambda>bucket.
     Inr (finalize_result ((entry_result e (class_str INFRA_ERROR_CLASS) bucket)
       \<lparr>cr_reference_runs := Some reference_results, cr_candidate_runs := Some candidate_results,
        cr_error := Some (stage, exc), cr_candidate_run := candidate_run\<rparr>))))"

definition prepare_case_safe :: "'h sched_env \<Rightarrow> sched_cfg \<Rightarrow> bool \<Rightarrow> entry \<Rightarrow> 'h prepared res" where
  "prepare_case_safe env cfg controlled e =
     (case prepare_case env cfg controlled e of
        Inr p \<Rightarrow> Inr p
      | Inl exc \<Rightarrow> bind (infra_error_result env cfg e ''prepare_case'' exc [] []) (\<lambda>r. Inr (Final r)))"

definition finalize_prepared_case_safe ::
  "'h sched_env \<Rightarrow> sched_cfg \<Rightarrow> 'h ready_case \<Rightarrow> run_result \<Rightarrow> canon_trace option \<Rightarrow>
   string option \<Rightarrow> int option \<Rightarrow> 'h case_result res" where
  "finalize_prepared_case_safe env cfg prep result canonical package_dir package_slot =
     (case finalize_prepared_case env cfg prep result canonical package_dir package_slot of
        Inr r \<Rightarrow> Inr r
      | Inl exc \<Rightarrow> infra_error_result env cfg (rc_entry prep) ''finalize_prepared_case'' exc
                    (rc_reference_results prep) [result])"

definition schedule_one :: "'h sched_env \<Rightarrow> sched_cfg \<Rightarrow> bool \<Rightarrow> entry \<Rightarrow> 'h case_result res" where
  "schedule_one env cfg controlled e =
     bind (prepare_case_safe env cfg controlled e) (\<lambda>p. case p of
       Final r \<Rightarrow> Inr r
     | Ready prep \<Rightarrow>
         (case run_candidate_once env (rc_program_id prep) (rc_run_id prep) ''candidate0'' (rc_inject prep) of
            Inl exc \<Rightarrow> infra_error_result env cfg (rc_entry prep) ''run_candidate_once'' exc
                         (rc_reference_results prep) []
          | Inr (result, canonical) \<Rightarrow>
              finalize_prepared_case_safe env cfg prep result canonical None None))"

section \<open>Scheduling the entries\<close>

record sched_args =
  sa_program_id :: "string option"
  sa_limit :: "int option"
  sa_jobs :: "int option"
  sa_candidate_batch_size :: "int option"
  sa_controlled_divergence :: bool

text \<open>A Python slice \<open>xs[:n]\<close>: a negative bound counts from the end.\<close>

definition slice_to :: "int \<Rightarrow> 'a list \<Rightarrow> 'a list" where
  "slice_to n xs = (if 0 \<le> n then take (nat n) xs else take (length xs - nat (- n)) xs)"

definition selected_entries :: "sched_args \<Rightarrow> entry list \<Rightarrow> entry list" where
  "selected_entries args rows =
     (let rows1 = (case sa_program_id args of None \<Rightarrow> rows
            | Some p \<Rightarrow> if p = [] then rows else filter (\<lambda>e. en_program_id e = p) rows)
      in case sa_limit args of None \<Rightarrow> rows1 | Some n \<Rightarrow> slice_to n rows1)"

definition ensure_entries_built :: "'h sched_env \<Rightarrow> sched_cfg \<Rightarrow> entry list \<Rightarrow> unit res" where
  "ensure_entries_built env cfg entries =
     (let missing = filter (\<lambda>p. se_json_at env (se_build_root env p @ ''/build-result.json'') = None)
            (map en_program_id entries)
      in if missing = [] then Inr ()
         else Inl (SystemExit (''missing testcase builds for '' @ nat_str (length missing) @
           '' program(s); run `python3 tools/prog2c_wrap.py --workflow '' @ sc_workflow cfg @
           '' --limit '' @ nat_str (length entries) @ ''` or `make build-workflow WORKFLOW='' @ sc_workflow cfg @
           ''` first. sample program_ids: '' @ join '', '' (take 5 missing) @
           (if 5 < length missing then '', ...'' else []))))"

definition effective_jobs :: "sched_args \<Rightarrow> pyval \<Rightarrow> int res" where
  "effective_jobs args cfg = (case sa_jobs args of
       Some n \<Rightarrow> Inr (max 1 n)
     | None \<Rightarrow> let parallel = py_get ''parallel'' (PDict []) cfg in
         if is_dict parallel then bind (py_int (py_get ''jobs'' (PInt 1) parallel)) (\<lambda>n. Inr (max 1 n))
         else Inr 1)"

definition effective_candidate_batch_size :: "sched_args \<Rightarrow> pyval \<Rightarrow> int res" where
  "effective_candidate_batch_size args cfg = (case sa_candidate_batch_size args of
       Some n \<Rightarrow> Inr (max 1 n)
     | None \<Rightarrow> let parallel = py_get ''parallel'' (PDict []) cfg in
         if is_dict parallel
         then bind (py_int (py_get ''candidate_batch_size'' (PInt 1) parallel)) (\<lambda>n. Inr (max 1 n))
         else Inr 1)"

definition candidate_batching_enabled :: "'h sched_env \<Rightarrow> sched_args \<Rightarrow> pyval \<Rightarrow> bool res" where
  "candidate_batching_enabled env args cfg =
     (if \<not> supports_batch_execution (capabilities_from_config cfg) then Inr False
      else bind (effective_candidate_batch_size args cfg) (\<lambda>size.
        if size \<le> 1 then Inr False
        else bind (py_item ''candidate'' (se_profiles env)) (\<lambda>profile.
          if py_get ''kind'' PNone profile \<noteq> PStr ''command''
          then Inl (ContractError ''candidate batch execution requires a command runner profile'')
          else bind (se_adapter env) (\<lambda>adapter.
            let mode = py_get ''command_batching_mode'' PNone profile;
                batching_mode = canonical_execution_mode (if mode = PNone then None else Some (py_str mode))
            in case batching_mode of
                 None \<Rightarrow> Inl (ContractError ''candidate batch execution requires an explicit command_batching_mode'')
               | Some m \<Rightarrow> if m \<notin> set (ad_execution_modes adapter cfg)
                   then Inl (ContractError ''batching mode is not supported by target'')
                   else Inr True))))"

definition max_concurrent_vms :: "pyval \<Rightarrow> int res" where
  "max_concurrent_vms cfg =
     (let parallel = py_get ''parallel'' (PDict []) cfg
      in py_int (py_get ''max_concurrent_vms'' (py_get ''jobs'' (PInt 1) parallel) parallel))"

fun chunks :: "nat \<Rightarrow> 'a list \<Rightarrow> 'a list list" where
  "chunks n xs = (if xs = [] \<or> n = 0 then [] else take n xs # chunks n (drop n xs))"

declare chunks.simps [simp del]

definition batch_case_of :: "'h ready_case \<Rightarrow> batch_case" where
  "batch_case_of prep = \<lparr>bc_program_id = rc_program_id prep,
     bc_run_id = rc_run_id prep @ ''-candidate0'', bc_inject = rc_inject prep,
     bc_prepared_case = rc_prepared_case prep\<rparr>"

definition finalize_chunk_case ::
  "'h sched_env \<Rightarrow> sched_cfg \<Rightarrow> batch_outcome \<Rightarrow> nat \<times> 'h ready_case \<Rightarrow> (nat \<times> 'h case_result) res" where
  "finalize_chunk_case env cfg batch = (\<lambda>(index, prep).
     case bind (opt_res (KeyError (rc_program_id prep)) (dict_get (rc_program_id prep) (bo_results batch)))
            (\<lambda>result. bind (maybe_load_canonical env result) (\<lambda>c. Inr (result, c))) of
       Inl exc \<Rightarrow> bind (infra_error_result env cfg (rc_entry prep) ''load_candidate_batch_result'' exc
                     (rc_reference_results prep) []) (\<lambda>r. Inr (index, r))
     | Inr (result, canonical) \<Rightarrow>
         bind (finalize_prepared_case_safe env cfg prep result canonical (bo_package_dir batch)
                 (dict_get (rc_program_id prep) (bo_slots batch))) (\<lambda>r. Inr (index, r)))"

text \<open>
  One chunk: the indexed results it yields. \<open>order\<close> is the completion order of its pool; below,
  \<open>orders k n\<close> is the completion order of the \<open>k\<close>-th pool of the campaign, which has \<open>n\<close> items.
\<close>

definition run_chunk ::
  "'h sched_env \<Rightarrow> sched_cfg \<Rightarrow> int \<Rightarrow> nat list \<Rightarrow> (nat \<times> 'h ready_case) list \<Rightarrow>
   (nat \<times> 'h case_result) list res" where
  "run_chunk env cfg jobs order chunk =
     (case se_batch env (map (\<lambda>(_, prep). batch_case_of prep) chunk) of
        Inl exc \<Rightarrow> map_res (\<lambda>(index, prep). bind (infra_error_result env cfg (rc_entry prep)
            ''execute_candidate_batch_with_context'' exc (rc_reference_results prep) [])
            (\<lambda>r. Inr (index, r))) chunk
      | Inr batch \<Rightarrow>
          if jobs \<le> 1 \<or> length chunk \<le> 1 then map_res (finalize_chunk_case env cfg batch) chunk
          else bind (pool_run (finalize_chunk_case env cfg batch) chunk order) (\<lambda>rs. Inr (somes rs)))"

fun place :: "(nat \<times> 'a) list \<Rightarrow> 'a option list \<Rightarrow> 'a option list" where
  "place [] slots = slots"
| "place ((i, x) # ixs) slots = place ixs (slots[i := Some x])"

fun run_chunks ::
  "'h sched_env \<Rightarrow> sched_cfg \<Rightarrow> int \<Rightarrow> (nat \<Rightarrow> nat \<Rightarrow> nat list) \<Rightarrow> nat \<Rightarrow> (nat \<times> 'h ready_case) list list \<Rightarrow>
   'h case_result option list \<Rightarrow> 'h case_result option list res" where
  "run_chunks env cfg jobs orders k [] results = Inr results"
| "run_chunks env cfg jobs orders k (chunk # rest) results =
     bind (run_chunk env cfg jobs (orders k (length chunk)) chunk) (\<lambda>finalized.
     run_chunks env cfg jobs orders (Suc k) rest (place finalized results))"

definition final_slot :: "'h prepared \<Rightarrow> 'h case_result option" where
  "final_slot p = (case p of Final r \<Rightarrow> Some r | Ready _ \<Rightarrow> None)"

definition pending_cases :: "'h prepared list \<Rightarrow> (nat \<times> 'h ready_case) list" where
  "pending_cases ps = concat (map (\<lambda>(i, p). case p of Final _ \<Rightarrow> [] | Ready c \<Rightarrow> [(i, c)]) (enumerate 0 ps))"

definition schedule_entries_with_candidate_batch ::
  "'h sched_env \<Rightarrow> sched_cfg \<Rightarrow> sched_args \<Rightarrow> int \<Rightarrow> (nat \<Rightarrow> nat \<Rightarrow> nat list) \<Rightarrow> entry list \<Rightarrow> 'h case_result list res" where
  "schedule_entries_with_candidate_batch env cfg args jobs orders entries =
     (if entries = [] then Inr []
      else
        bind (if jobs \<le> 1 \<or> length entries \<le> 1
              then map_res (prepare_case_safe env cfg (sa_controlled_divergence args)) entries
              else bind (pool_run (prepare_case_safe env cfg (sa_controlled_divergence args)) entries
                     (orders 0 (length entries))) (\<lambda>ps. Inr (somes ps))) (\<lambda>prepared.
        bind (effective_candidate_batch_size args (sc_cfg cfg)) (\<lambda>size.
        bind (run_chunks env cfg jobs orders 1 (chunks (nat size) (pending_cases prepared))
               (map final_slot prepared)) (\<lambda>results. Inr (somes results)))))"

definition schedule_entries ::
  "'h sched_env \<Rightarrow> sched_cfg \<Rightarrow> sched_args \<Rightarrow> int \<Rightarrow> (nat \<Rightarrow> nat \<Rightarrow> nat list) \<Rightarrow> entry list \<Rightarrow> 'h case_result list res" where
  "schedule_entries env cfg args jobs orders entries =
     bind (candidate_batching_enabled env args (sc_cfg cfg)) (\<lambda>batching.
     if batching then schedule_entries_with_candidate_batch env cfg args jobs orders entries
     else if jobs \<le> 1 \<or> length entries \<le> 1
       then map_res (schedule_one env cfg (sa_controlled_divergence args)) entries
     else bind (pool_run (schedule_one env cfg (sa_controlled_divergence args)) entries
            (orders 0 (length entries))) (\<lambda>rs. Inr (somes rs)))"

section \<open>A case always ends in a result\<close>

definition result_of :: "entry \<Rightarrow> 'h case_result \<Rightarrow> bool" where
  "result_of e r \<longleftrightarrow> cr_program_id r = en_program_id e \<and> cr_finalized r"

lemma result_of_entry [simp]:
  "cr_program_id (entry_result e c b) = en_program_id e"
  by (simp add: entry_result_def)

definition case_env :: "'h sched_env \<Rightarrow> sched_cfg \<Rightarrow> bool" where
  "case_env env cfg \<longleftrightarrow> is_ok (se_adapter env) \<and> labels_total (sc_classes cfg)"

lemma bucket_ok:
  assumes "labels_total classes"
  obtains b where "scml_result_bucket classes p s c cmp = Inr b"
proof (cases "class_label classes BASELINE_INVALID")
  case (Inl e)
  then show thesis using assms by (auto simp: labels_total_def class_label_def)
next
  case (Inr b)
  then have "is_ok (scml_result_bucket classes p s c cmp)"
    by (cases cmp) (simp_all add: scml_result_bucket_def)
  then show thesis using that by (auto simp: is_ok_iff)
qed

lemma infra_error_ok:
  assumes "case_env env cfg"
  obtains r where "infra_error_result env cfg e stage exc rs cs = Inr r" "result_of e r"
    "cr_classification r = ''infra_error''"
proof -
  from assms obtain a where a: "se_adapter env = Inr a" and lt: "labels_total (sc_classes cfg)"
    by (auto simp: case_env_def is_ok_iff)
  obtain b where "scml_result_bucket (sc_classes cfg) (sf_preflight_status (scml_of_entry e))
      (map_option rr_status (if cs = [] then None else Some (last cs))) ''infra_error'' None = Inr b"
    using bucket_ok [OF lt] .
  with a show thesis
    by (intro that) (auto simp: infra_error_result_def Let_def finalize_result_def result_of_def entry_result_def)
qed

definition prepared_of :: "entry \<Rightarrow> 'h prepared \<Rightarrow> bool" where
  "prepared_of e p = (case p of Final r \<Rightarrow> result_of e r
     | Ready c \<Rightarrow> rc_entry c = e \<and> rc_program_id c = en_program_id e)"

lemma prepare_case_of: "prepare_case env cfg controlled e = Inr p \<Longrightarrow> prepared_of e p"
  by (auto simp: prepare_case_def Let_def bind_eq_Inr prepared_of_def result_of_def finalize_result_def
      entry_result_def split: if_splits)

lemma prepare_case_safe_ok:
  assumes "case_env env cfg"
  obtains p where "prepare_case_safe env cfg controlled e = Inr p" "prepared_of e p"
proof (cases "prepare_case env cfg controlled e")
  case (Inl exc)
  obtain r where "infra_error_result env cfg e ''prepare_case'' exc [] [] = Inr r" "result_of e r"
    using infra_error_ok [OF assms] by metis
  with Inl show thesis by (intro that [of "Final r"]) (simp_all add: prepare_case_safe_def prepared_of_def)
next
  case (Inr p)
  then show thesis using prepare_case_of [OF Inr] by (intro that [of p]) (simp_all add: prepare_case_safe_def)
qed

lemma finalize_of:
  "finalize_prepared_case env cfg prep result c pd ps = Inr r \<Longrightarrow>
     cr_program_id r = rc_program_id prep \<and> cr_finalized r"
  unfolding finalize_prepared_case_def unstable_result_def stable_result_def Let_def
  by (elim bind_InrE) (auto simp: finalize_result_def with_runs_def split: if_splits elim!: bind_InrE)

lemma finalize_safe_ok:
  assumes "case_env env cfg" "rc_entry prep = e" "rc_program_id prep = en_program_id e"
  obtains r where "finalize_prepared_case_safe env cfg prep result c pd ps = Inr r" "result_of e r"
proof (cases "finalize_prepared_case env cfg prep result c pd ps")
  case (Inl exc)
  obtain r where "infra_error_result env cfg e ''finalize_prepared_case'' exc (rc_reference_results prep) [result] = Inr r"
    "result_of e r" using infra_error_ok [OF assms(1)] by metis
  with Inl assms(2) show thesis by (intro that [of r]) (simp_all add: finalize_prepared_case_safe_def)
next
  case (Inr r)
  then show thesis using finalize_of [OF Inr] assms(3)
    by (intro that [of r]) (simp_all add: finalize_prepared_case_safe_def result_of_def)
qed

lemma schedule_one_ok:
  assumes "case_env env cfg"
  obtains r where "schedule_one env cfg controlled e = Inr r" "result_of e r"
proof -
  obtain p where p: "prepare_case_safe env cfg controlled e = Inr p" "prepared_of e p"
    using prepare_case_safe_ok [OF assms] .
  show thesis
  proof (cases p)
    case (Final r)
    with p show thesis by (intro that [of r]) (simp_all add: schedule_one_def prepared_of_def)
  next
    case (Ready prep)
    with p(2) have prep: "rc_entry prep = e" "rc_program_id prep = en_program_id e"
      by (simp_all add: prepared_of_def)
    show thesis
    proof (cases "run_candidate_once env (rc_program_id prep) (rc_run_id prep) ''candidate0'' (rc_inject prep)")
      case (Inl exc)
      obtain r where "infra_error_result env cfg e ''run_candidate_once'' exc (rc_reference_results prep) [] = Inr r"
        "result_of e r" using infra_error_ok [OF assms] by metis
      with p(1) Ready Inl prep show thesis by (intro that [of r]) (simp_all add: schedule_one_def)
    next
      case (Inr x)
      obtain result c where x: "x = (result, c)" by fastforce
      obtain r where "finalize_prepared_case_safe env cfg prep result c None None = Inr r" "result_of e r"
        using finalize_safe_ok [OF assms prep] .
      with p(1) Ready Inr x show thesis by (intro that [of r]) (simp_all add: schedule_one_def)
    qed
  qed
qed

section \<open>One result for each entry, in order\<close>

lemma chunks_concat: "0 < n \<Longrightarrow> concat (chunks n xs) = xs"
proof (induction n xs rule: chunks.induct)
  case (1 n xs)
  then show ?case by (cases "xs = []") (simp_all add: chunks.simps)
qed

definition slots_ok :: "entry list \<Rightarrow> 'h case_result option list \<Rightarrow> bool" where
  "slots_ok entries slots \<longleftrightarrow>
     list_all2 (\<lambda>e s. case s of None \<Rightarrow> True | Some r \<Rightarrow> result_of e r) entries slots"

definition filled :: "'a option list \<Rightarrow> nat set" where
  "filled slots = {i. i < length slots \<and> slots ! i \<noteq> None}"

definition pending_ok :: "entry list \<Rightarrow> (nat \<times> 'h ready_case) \<Rightarrow> bool" where
  "pending_ok entries = (\<lambda>(i, prep). i < length entries \<and> rc_entry prep = entries ! i \<and>
     rc_program_id prep = en_program_id (entries ! i))"

definition finalized_ok :: "entry list \<Rightarrow> (nat \<times> 'h ready_case) \<Rightarrow> (nat \<times> 'h case_result) \<Rightarrow> bool" where
  "finalized_ok entries = (\<lambda>(i, prep) (j, r). i = j \<and> i < length entries \<and> result_of (entries ! i) r)"

lemma finalize_chunk_case_ok:
  assumes "case_env env cfg" "pending_ok entries x"
  shows "\<exists>y. finalize_chunk_case env cfg batch x = Inr y \<and> finalized_ok entries x y"
proof -
  obtain i prep where x: "x = (i, prep)" by fastforce
  with assms(2) have prep: "i < length entries" "rc_entry prep = entries ! i"
    "rc_program_id prep = en_program_id (entries ! i)" by (simp_all add: pending_ok_def)
  let ?load = "bind (opt_res (KeyError (rc_program_id prep)) (dict_get (rc_program_id prep) (bo_results batch)))
    (\<lambda>result. bind (maybe_load_canonical env result) (\<lambda>c. Inr (result, c)))"
  show ?thesis
  proof (cases ?load)
    case (Inl exc)
    obtain r where "infra_error_result env cfg (entries ! i) ''load_candidate_batch_result'' exc
        (rc_reference_results prep) [] = Inr r" "result_of (entries ! i) r"
      using infra_error_ok [OF assms(1)] by metis
    with Inl prep x show ?thesis by (simp add: finalize_chunk_case_def finalized_ok_def)
  next
    case (Inr y)
    obtain result c where y: "y = (result, c)" by fastforce
    obtain r where "finalize_prepared_case_safe env cfg prep result c (bo_package_dir batch)
        (dict_get (rc_program_id prep) (bo_slots batch)) = Inr r" "result_of (entries ! i) r"
      using finalize_safe_ok [OF assms(1) prep(2,3)] .
    with Inr prep x y show ?thesis by (simp add: finalize_chunk_case_def finalized_ok_def)
  qed
qed

lemma run_chunk_ok:
  assumes "case_env env cfg" "\<forall>x \<in> set chunk. pending_ok entries x" "completion_order order (length chunk)"
  shows "\<exists>ys. run_chunk env cfg jobs order chunk = Inr ys \<and> list_all2 (finalized_ok entries) chunk ys"
proof (cases "se_batch env (map (\<lambda>(_, prep). batch_case_of prep) chunk)")
  case (Inl exc)
  let ?f = "\<lambda>(index, prep). bind (infra_error_result env cfg (rc_entry prep)
    ''execute_candidate_batch_with_context'' exc (rc_reference_results prep) []) (\<lambda>r. Inr (index, r))"
  have "\<exists>y. ?f x = Inr y \<and> finalized_ok entries x y" if "x \<in> set chunk" for x
  proof -
    obtain i prep where x: "x = (i, prep)" by fastforce
    obtain r where "infra_error_result env cfg (rc_entry prep) ''execute_candidate_batch_with_context'' exc
        (rc_reference_results prep) [] = Inr r" "result_of (rc_entry prep) r"
      using infra_error_ok [OF assms(1)] by metis
    with x that assms(2) show ?thesis by (auto simp: finalized_ok_def pending_ok_def)
  qed
  then show ?thesis using Inl map_res_all2 [of chunk ?f] by (simp add: run_chunk_def)
next
  case (Inr batch)
  have "\<exists>y. finalize_chunk_case env cfg batch x = Inr y \<and> finalized_ok entries x y" if "x \<in> set chunk" for x
    using finalize_chunk_case_ok [OF assms(1)] assms(2) that by blast
  from pool_run_all2 [of chunk "finalize_chunk_case env cfg batch", OF this assms(3)] Inr
  show ?thesis by (auto simp: run_chunk_def)
qed

lemma place_ok:
  "list_all2 (finalized_ok entries) chunk ys \<Longrightarrow> slots_ok entries slots \<Longrightarrow>
   slots_ok entries (place ys slots) \<and> filled (place ys slots) = filled slots \<union> fst ` set chunk"
proof (induction chunk ys arbitrary: slots rule: list_all2_induct)
  case (Cons x chunk y ys)
  obtain i prep r where xy: "x = (i, prep)" "y = (i, r)" and i: "i < length entries" "result_of (entries ! i) r"
    using Cons(1) by (auto simp: finalized_ok_def split: prod.splits)
  from i Cons.prems have len: "length slots = length entries" by (simp add: slots_ok_def list_all2_conv_all_nth)
  have "slots_ok entries (slots[i := Some r])"
    using Cons.prems i by (auto simp: slots_ok_def list_all2_conv_all_nth nth_list_update)
  moreover have "filled (slots[i := Some r]) = insert i (filled slots)"
    using i len by (auto simp: filled_def nth_list_update)
  ultimately show ?case using Cons.IH xy by simp
qed simp

lemma run_chunks_ok:
  assumes "case_env env cfg" "\<forall>k n. completion_order (orders k n) n"
  shows "\<forall>x \<in> set (concat cs). pending_ok entries x \<Longrightarrow> slots_ok entries slots \<Longrightarrow>
    \<exists>slots'. run_chunks env cfg jobs orders k cs slots = Inr slots' \<and> slots_ok entries slots' \<and>
      filled slots' = filled slots \<union> fst ` set (concat cs)"
proof (induction cs arbitrary: slots k)
  case (Cons chunk cs)
  have "\<forall>x \<in> set chunk. pending_ok entries x" using Cons.prems(1) by simp
  from run_chunk_ok [OF assms(1) this assms(2) [rule_format]] obtain ys where
    ys: "run_chunk env cfg jobs (orders k (length chunk)) chunk = Inr ys" "list_all2 (finalized_ok entries) chunk ys"
    by blast
  from Cons.IH [of "place ys slots" "Suc k"] place_ok [OF ys(2) Cons.prems(2)] Cons.prems(1) ys(1)
  show ?case by (auto simp: image_Un Un_assoc simp del: concat.simps(1))
qed simp

lemma somes_full:
  "slots_ok entries slots \<Longrightarrow> filled slots = {..<length entries} \<Longrightarrow> list_all2 result_of entries (somes slots)"
proof -
  assume ok: "slots_ok entries slots" and f: "filled slots = {..<length entries}"
  then have len: "length slots = length entries" by (simp add: slots_ok_def list_all2_conv_all_nth)
  then have "slots ! i \<noteq> None" if "i < length slots" for i
    using f that by (auto simp: filled_def set_eq_iff)
  then have "slots = map Some (map the slots)" by (intro nth_equalityI) auto
  moreover have "list_all2 result_of entries rs" if "slots_ok entries (map Some rs)" for rs
    using that by (simp add: slots_ok_def list.rel_map)
  ultimately show ?thesis using ok by (metis somes_map_Some)
qed

lemma prepared_slots:
  assumes "list_all2 prepared_of entries ps"
  shows "slots_ok entries (map final_slot ps)" "\<forall>x \<in> set (pending_cases ps). pending_ok entries x"
    "filled (map final_slot ps) \<union> fst ` set (pending_cases ps) = {..<length entries}"
proof -
  have len: "length ps = length entries" using assms by (simp add: list_all2_lengthD)
  have nth: "prepared_of (entries ! i) (ps ! i)" if "i < length entries" for i
    using assms that by (simp add: list_all2_nthD)
  have "case final_slot (ps ! i) of None \<Rightarrow> True | Some r \<Rightarrow> result_of (entries ! i) r"
    if "i < length entries" for i
    using nth [OF that] by (cases "ps ! i") (simp_all add: final_slot_def prepared_of_def)
  then show "slots_ok entries (map final_slot ps)"
    using len by (simp add: slots_ok_def list_all2_conv_all_nth)
  have mem: "(i, c) \<in> set (pending_cases ps) \<longleftrightarrow> i < length ps \<and> ps ! i = Ready c" for i c
    by (force simp: pending_cases_def in_set_enumerate_eq split: prepared.splits)
  then show "\<forall>x \<in> set (pending_cases ps). pending_ok entries x"
    using nth len by (fastforce simp: pending_ok_def prepared_of_def)
  have "i \<in> fst ` set (pending_cases ps) \<longleftrightarrow> i < length ps \<and> (\<exists>c. ps ! i = Ready c)" for i
    using mem by force
  moreover have "i \<in> filled (map final_slot ps) \<longleftrightarrow> i < length ps \<and> (\<exists>r. ps ! i = Final r)" for i
    by (auto simp: filled_def final_slot_def split: prepared.splits)
  moreover have "(\<exists>r. ps ! i = Final r) \<or> (\<exists>c. ps ! i = Ready c)" for i by (cases "ps ! i") auto
  ultimately have "i \<in> filled (map final_slot ps) \<union> fst ` set (pending_cases ps) \<longleftrightarrow> i < length entries" for i
    using len by (metis Un_iff)
  then show "filled (map final_slot ps) \<union> fst ` set (pending_cases ps) = {..<length entries}"
    by blast
qed

lemma batch_size_pos: "effective_candidate_batch_size args cfg = Inr n \<Longrightarrow> 1 \<le> n"
  by (auto simp: effective_candidate_batch_size_def Let_def bind_eq_Inr split: option.splits if_splits)

lemma batch_schedule_ok:
  assumes "case_env env cfg" "\<forall>k n. completion_order (orders k n) n"
    "effective_candidate_batch_size args (sc_cfg cfg) = Inr bsz"
  shows "\<exists>rs. schedule_entries_with_candidate_batch env cfg args jobs orders entries = Inr rs \<and>
    list_all2 result_of entries rs"
proof (cases "entries = []")
  case False
  let ?f = "prepare_case_safe env cfg (sa_controlled_divergence args)"
  have "\<exists>p. ?f e = Inr p \<and> prepared_of e p" for e using prepare_case_safe_ok [OF assms(1)] by metis
  from pool_run_all2 [of entries ?f prepared_of, OF this assms(2) [rule_format]] obtain ps where
    ps: "pool_run ?f entries (orders 0 (length entries)) = Inr (map Some ps)" "map_res ?f entries = Inr ps"
      "list_all2 prepared_of entries ps" by blast
  note slots = prepared_slots [OF ps(3)]
  have pos: "0 < nat bsz" using batch_size_pos [OF assms(3)] by simp
  then have "\<forall>x \<in> set (concat (chunks (nat bsz) (pending_cases ps))). pending_ok entries x"
    using slots(2) by (simp only: chunks_concat)
  from run_chunks_ok [OF assms(1,2) this slots(1), where jobs = jobs and k = 1] obtain sl where
    "run_chunks env cfg jobs orders 1 (chunks (nat bsz) (pending_cases ps)) (map final_slot ps) = Inr sl"
    "slots_ok entries sl" "filled sl = {..<length entries}"
    using slots(3) pos by (auto simp: chunks_concat)
  with False ps(1,2) assms(3) somes_full show ?thesis
    by (auto simp: schedule_entries_with_candidate_batch_def)
qed (simp add: schedule_entries_with_candidate_batch_def)

text \<open>
  C6. A campaign gives exactly one finalized result for each selected entry, in the order of the
  entries and under the entry's program id: sequential, with a thread pool or in candidate batches
  of any size, in whatever order the workers finish, and whatever the builds, runs and batches do
  (failures and exceptions of a case become its result), provided the adapter loads and the
  classification labels are configured.
\<close>

theorem schedule_entries_aligned:
  assumes "case_env env cfg" "\<forall>k n. completion_order (orders k n) n"
    "candidate_batching_enabled env args (sc_cfg cfg) = Inr batching"
  shows "\<exists>rs. schedule_entries env cfg args jobs orders entries = Inr rs \<and>
    map cr_program_id rs = map en_program_id entries \<and> (\<forall>r \<in> set rs. cr_finalized r)"
proof -
  let ?f = "schedule_one env cfg (sa_controlled_divergence args)"
  have "\<exists>rs. schedule_entries env cfg args jobs orders entries = Inr rs \<and> list_all2 result_of entries rs"
  proof (cases batching)
    case True
    with assms(3) obtain bsz where "effective_candidate_batch_size args (sc_cfg cfg) = Inr bsz"
      by (auto simp: candidate_batching_enabled_def bind_eq_Inr split: if_splits)
    from batch_schedule_ok [OF assms(1,2) this] assms(3) True show ?thesis
      by (simp add: schedule_entries_def)
  next
    case False
    have "\<exists>r. ?f e = Inr r \<and> result_of e r" for e using schedule_one_ok [OF assms(1)] by metis
    from pool_run_all2 [of entries ?f result_of, OF this] assms(2) obtain rs where
      "pool_run ?f entries (orders 0 (length entries)) = Inr (map Some rs)" "map_res ?f entries = Inr rs"
      "list_all2 result_of entries rs" by blast
    with False assms(3) show ?thesis by (auto simp: schedule_entries_def)
  qed
  then obtain rs where rs: "schedule_entries env cfg args jobs orders entries = Inr rs"
    and l: "list_all2 result_of entries rs" by blast
  have "map cr_program_id rs = map en_program_id entries \<and> (\<forall>r \<in> set rs. cr_finalized r)"
    using l by (induction entries rs rule: list_all2_induct) (auto simp: result_of_def)
  with rs show ?thesis by blast
qed

end
