(* ===== verification/Verdicts.thy ===== *)
theory Verdicts
  imports Scheduler
begin

text \<open>
  What a classified result of the scheduler guarantees. The invariant \<open>tri_inv\<close> of the triage
  state ties its hashes, canonical traces and comparison to the runs that are recorded in the
  result; every step of preparation and triage keeps it. From it: no verdict rests on an unstable
  reference, a case without difference has two recorded runs that agree, a likely bug was rerun as
  often as configured, and a candidate that behaves like the reference is reported as no difference.
\<close>

section \<open>The invariant of the triage state\<close>

definition ok_run :: "run_result \<Rightarrow> bool" where
  "ok_run r \<longleftrightarrow> rr_status r = ''ok''"

definition run_hash :: "'h sched_env \<Rightarrow> run_result \<Rightarrow> 'h res" where
  "run_hash env r = bind (load_canonical env r) (\<lambda>c. Inr (canonical_trace_hash (se_digest env) c))"

definition ref_ok :: "'h sched_env \<Rightarrow> run_result list \<Rightarrow> 'h list \<Rightarrow> bool" where
  "ref_ok env rs hs \<longleftrightarrow> map_res (run_hash env) (filter ok_run rs) = Inr hs"

lemma ref_ok_snoc:
  assumes "ref_ok env rs hs" "run_reference_once env p run sfx = Inr (r, c)"
  shows "ref_ok env (rs @ [r]) (case c of None \<Rightarrow> hs | Some x \<Rightarrow> hs @ [canonical_trace_hash (se_digest env) x])"
    "c = Some x \<Longrightarrow> ok_run r \<and> load_canonical env r = Inr x"
    "c = None \<Longrightarrow> \<not> ok_run r"
  using assms
  by (auto simp: run_reference_once_def bind_eq_Inr ref_ok_def ok_run_def map_res_append run_hash_def
      split: if_splits)

definition backed :: "'h sched_env \<Rightarrow> run_result list \<Rightarrow> canon_trace option \<Rightarrow> bool" where
  "backed env rs c \<longleftrightarrow> (\<forall>x. c = Some x \<longrightarrow> (\<exists>r \<in> set rs. load_canonical env r = Inr x))"

definition compared :: "'h sched_env \<Rightarrow> sched_cfg \<Rightarrow> run_result list \<Rightarrow> run_result list \<Rightarrow> comparison option \<Rightarrow> bool" where
  "compared env cfg refs cands cmp \<longleftrightarrow> (\<forall>c. cmp = Some c \<longrightarrow> (\<exists>ra \<in> set refs. \<exists>rb \<in> set cands. \<exists>a b.
     load_canonical env ra = Inr a \<and> load_canonical env rb = Inr b \<and>
     compare_canonical (sc_noise cfg) a b = Inr c))"

definition tri_inv :: "'h sched_env \<Rightarrow> sched_cfg \<Rightarrow> 'h triage \<Rightarrow> bool" where
  "tri_inv env cfg s \<longleftrightarrow> ref_ok env (tr_reference_results s) (tr_reference_hashes s) \<and>
     backed env (tr_reference_results s) (tr_reference_canonical s) \<and>
     backed env (tr_candidate_results s) (tr_candidate_canonical s) \<and>
     compared env cfg (tr_reference_results s) (tr_candidate_results s) (tr_comparison s) \<and>
     tr_reference_results s \<noteq> [] \<and> tr_candidate_results s \<noteq> []"

lemma backed_snoc: "backed env rs c \<Longrightarrow> backed env (rs @ [r]) c"
  by (auto simp: backed_def)

lemma compared_snoc: "compared env cfg refs cands cmp \<Longrightarrow> compared env cfg refs (cands @ [r]) cmp"
  unfolding compared_def by fastforce

lemma maybe_load_backed: "maybe_load_canonical env r = Inr c \<Longrightarrow> backed env [r] c"
  by (auto simp: maybe_load_canonical_def backed_def bind_eq_Inr split: if_splits)

lemma candidate_backed:
  "run_candidate_once_with_package env p run sfx inject pd ps = Inr (r, c) \<Longrightarrow> maybe_load_canonical env r = Inr c"
  by (auto simp: run_candidate_once_with_package_def bind_eq_Inr)

lemma add_reference_inv:
  assumes "tri_inv env cfg s" "run_reference_once env p run sfx = Inr (r, c)"
  shows "tri_inv env cfg (add_reference env (r, c) s)"
    "tr_candidate_results (add_reference env (r, c) s) = tr_candidate_results s"
    "length (tr_reference_results (add_reference env (r, c) s)) = Suc (length (tr_reference_results s))"
proof -
  note ref = ref_ok_snoc [OF _ assms(2), of "tr_reference_results s" "tr_reference_hashes s"]
  show "tri_inv env cfg (add_reference env (r, c) s)"
    using assms(1) ref
    by (cases c) (auto simp: tri_inv_def add_reference_def Let_def backed_def compared_def)
qed (auto simp: add_reference_def Let_def split: option.splits)

lemma add_candidate_inv:
  assumes "tri_inv env cfg s" "maybe_load_canonical env r = Inr c" "add_candidate env cfg (r, c) s = Inr s'"
  shows "tri_inv env cfg s'" "length (tr_candidate_results s') = Suc (length (tr_candidate_results s))"
    "tr_reference_results s' = tr_reference_results s"
proof -
  show "length (tr_candidate_results s') = Suc (length (tr_candidate_results s))"
    "tr_reference_results s' = tr_reference_results s"
    using assms(3) by (auto simp: add_candidate_def Let_def bind_eq_Inr split: option.splits)
  show "tri_inv env cfg s'"
  proof (cases c)
    case None
    then show ?thesis
      using assms(1,3) by (auto simp: add_candidate_def tri_inv_def Let_def backed_snoc compared_snoc)
  next
    case (Some x)
    have load: "load_canonical env r = Inr x"
      using maybe_load_backed [OF assms(2)] Some by (auto simp: backed_def)
    obtain cmp where s': "s' = s\<lparr>tr_candidate_results := tr_candidate_results s @ [r],
        tr_candidate_hashes := tr_candidate_hashes s @ [canonical_trace_hash (se_digest env) x],
        tr_candidate_canonical := Some x, tr_comparison := cmp\<rparr>"
      and cmp: "cmp = None \<or> (\<exists>a c. tr_reference_canonical s = Some a \<and> cmp = Some c \<and>
        compare_canonical (sc_noise cfg) a x = Inr c)"
      using assms(3) Some
      by (auto simp: add_candidate_def Let_def bind_eq_Inr split: option.splits)
    have "compared env cfg (tr_reference_results s) (tr_candidate_results s @ [r]) cmp"
      using cmp load assms(1) unfolding compared_def tri_inv_def backed_def by fastforce
    then show ?thesis using assms(1) load by (auto simp: s' tri_inv_def backed_def)
  qed
qed

lemma triage_loop_inv:
  assumes "run_triage_loop env cfg p run inject pd ps attempts s = Inr s'" "tri_inv env cfg s"
  shows "tri_inv env cfg s' \<and>
    length (tr_reference_results s') = length (tr_reference_results s) + length attempts \<and>
    length (tr_candidate_results s') = length (tr_candidate_results s) + length attempts"
  using assms
proof (induction attempts arbitrary: s)
  case (Cons k attempts)
  from Cons.prems(1) obtain r c r' c' s1 where
    ref: "run_reference_once env p run (''ref-triage'' @ nat_str k) = Inr (r, c)" and
    cand: "run_candidate_once_with_package env p run (''candidate-triage'' @ nat_str k) inject pd ps = Inr (r', c')" and
    s1: "add_candidate env cfg (r', c') (add_reference env (r, c) s) = Inr s1" and
    rest: "run_triage_loop env cfg p run inject pd ps attempts s1 = Inr s'"
    by (auto simp: bind_eq_Inr)
  note ar = add_reference_inv [OF Cons.prems(2) ref]
  note ac = add_candidate_inv [OF ar(1) candidate_backed [OF cand] s1]
  from Cons.IH [OF rest ac(1)] ac(2,3) ar(2,3) show ?case by simp
qed simp

section \<open>From preparation to the verdict\<close>

definition ready_inv :: "'h sched_env \<Rightarrow> 'h ready_case \<Rightarrow> bool" where
  "ready_inv env prep \<longleftrightarrow> length (rc_reference_results prep) = 1 \<and> ok_run (hd (rc_reference_results prep)) \<and>
     ref_ok env (rc_reference_results prep) (rc_reference_hashes prep) \<and>
     rc_reference_canonical prep \<noteq> None \<and>
     backed env (rc_reference_results prep) (rc_reference_canonical prep)"

lemma rerun_references_hd:
  "rerun_references env p run ks (r # rs) hs = Inr (rs', hs') \<Longrightarrow> hd rs' = r"
proof (induction ks arbitrary: rs hs)
  case (Cons k ks)
  from Cons.prems obtain x c where "rerun_references env p run ks (r # (rs @ [x]))
      (case c of None \<Rightarrow> hs | Some y \<Rightarrow> hs @ [canonical_trace_hash (se_digest env) y]) = Inr (rs', hs')"
    by (auto simp: bind_eq_Inr)
  then show ?case by (rule Cons.IH)
qed auto

lemma prepare_ready:
  assumes "prepare_case env cfg controlled e = Inr (Ready prep)"
  shows "ready_inv env prep"
proof -
  from assms obtain results hashes canonical run where
    runs: "build_reference_runs env cfg (en_program_id e) run = Inr (results, hashes, canonical)" and
    ok: "ok_run (hd results)" and
    prep: "rc_reference_results prep = results" "rc_reference_hashes prep = hashes"
      "rc_reference_canonical prep = canonical"
    by (auto simp: prepare_case_def Let_def bind_eq_Inr ok_run_def split: if_splits)
  from runs obtain r c where r: "run_reference_once env (en_program_id e) run ''ref0'' = Inr (r, c)"
    and cases: "(ok_run r \<and> results = [r] \<and> canonical = c \<and>
       hashes = (case c of None \<Rightarrow> [] | Some x \<Rightarrow> [canonical_trace_hash (se_digest env) x])) \<or>
      (\<not> ok_run r \<and> (\<exists>hs. rerun_references env (en_program_id e) run (rerun_attempts cfg) [r] hs = Inr (results, hashes)))"
    by (auto simp: build_reference_runs_def bind_eq_Inr Let_def ok_run_def split: if_splits)
  from cases ok rerun_references_hd have "ok_run r \<and> results = [r] \<and> canonical = c \<and>
      hashes = (case c of None \<Rightarrow> [] | Some x \<Rightarrow> [canonical_trace_hash (se_digest env) x])" by metis
  moreover have "ref_ok env [] []" by (simp add: ref_ok_def)
  ultimately show ?thesis
    using ref_ok_snoc [OF _ r, of "[]" "[]"] prep ok
    by (cases c) (auto simp: ready_inv_def backed_def)
qed

lemma first_triage_inv:
  assumes "ready_inv env prep" "maybe_load_canonical env result = Inr c"
    "first_triage env cfg prep result c = Inr s"
  shows "tri_inv env cfg s" "tr_candidate_results s = [result]"
    "tr_reference_results s = rc_reference_results prep" "tr_candidate_canonical s = c"
    "tr_reference_canonical s = rc_reference_canonical prep"
    "tr_comparison s = None \<longleftrightarrow> c = None"
    "c = Some x \<Longrightarrow> bind (compare_opt cfg (rc_reference_canonical prep) x) (\<lambda>y. Inr (Some y)) = Inr (tr_comparison s)"
proof -
  show *: "tr_candidate_results s = [result]" "tr_reference_results s = rc_reference_results prep"
    "tr_candidate_canonical s = c" "tr_reference_canonical s = rc_reference_canonical prep"
    "tr_comparison s = None \<longleftrightarrow> c = None"
    "c = Some x \<Longrightarrow> bind (compare_opt cfg (rc_reference_canonical prep) x) (\<lambda>y. Inr (Some y)) = Inr (tr_comparison s)"
    using assms(3) by (auto simp: first_triage_def bind_eq_Inr split: option.splits)
  have hs: "tr_reference_hashes s = rc_reference_hashes prep"
    using assms(3) by (auto simp: first_triage_def bind_eq_Inr split: option.splits)
  have b: "backed env [result] c" using maybe_load_backed [OF assms(2)] .
  have "compared env cfg (rc_reference_results prep) [result] (tr_comparison s)"
    using assms(1,3) b
    by (auto simp: first_triage_def bind_eq_Inr compare_opt_def compared_def ready_inv_def backed_def
        split: option.splits) blast?
  then show "tri_inv env cfg s"
    using assms(1) b * hs by (auto simp: tri_inv_def ready_inv_def)
qed

lemma recheck_compared:
  assumes "tri_inv env cfg s" "recheck cfg s = Inr cmp"
  shows "compared env cfg (tr_reference_results s) (tr_candidate_results s) cmp"
proof -
  from assms(2) consider "cmp = tr_comparison s"
    | a b c where "tr_reference_canonical s = Some a" "tr_candidate_canonical s = Some b"
      "compare_canonical (sc_noise cfg) a b = Inr c" "cmp = Some c"
    by (auto simp: recheck_def compare_opt_def bind_eq_Inr split: if_splits option.splits)
  then show ?thesis using assms(1)
    by cases (auto simp: tri_inv_def backed_def compared_def)
qed

section \<open>The verdicts\<close>

text \<open>The seven labels a result can carry are different strings.\<close>

definition labels_distinct :: "class_labels \<Rightarrow> bool" where
  "labels_distinct classes \<longleftrightarrow> labels_total classes \<and>
     distinct (map (\<lambda>c. dict_get (class_str c) classes)
       [NO_DIFF, BASELINE_INVALID, BUG_LIKELY, WEAK_SPEC_OR_ENV_NOISE, UNSUPPORTED_FEATURE] @
       [Some ''build_failure'', Some ''infra_error''])"

lemma labels_distinctD:
  assumes "labels_distinct classes" "class_label classes c = Inr l" "class_label classes d = Inr l"
    "c \<notin> {BUILD_FAILURE, INFRA_ERROR_CLASS}" "d \<notin> {BUILD_FAILURE, INFRA_ERROR_CLASS}"
  shows "c = d"
  using assms by (cases c; cases d; auto simp: labels_distinct_def class_label_def)

lemma label_not_fixed:
  assumes "labels_distinct classes" "class_label classes c = Inr l" "c \<notin> {BUILD_FAILURE, INFRA_ERROR_CLASS}"
  shows "l \<noteq> ''build_failure''" "l \<noteq> ''infra_error''"
  using assms by (cases c; auto simp: labels_distinct_def class_label_def)+

definition triage_class :: "Classification \<Rightarrow> bool" where
  "triage_class c \<longleftrightarrow> c \<in> {NO_DIFF, BUG_LIKELY, WEAK_SPEC_OR_ENV_NOISE, UNSUPPORTED_FEATURE}"

text \<open>A result with a triage label was finalized from a triage state with the invariant.\<close>

lemma classified_from_triage:
  assumes "labels_distinct (sc_classes cfg)" "schedule_one env cfg controlled e = Inr r"
    "class_label (sc_classes cfg) k = Inr (cr_classification r)" "triage_class k"
  obtains prep result canonical s cmp where
    "ready_inv env prep" "maybe_load_canonical env result = Inr canonical"
    "triaged env cfg prep result canonical None None = Inr s"
    "all_equal (tr_reference_hashes s)" "recheck cfg s = Inr cmp"
    "classify_result (sc_classes cfg) True (rr_status (last (tr_reference_results s)))
       (rr_status (last (tr_candidate_results s))) cmp = Inr (cr_classification r)"
    "cr_reference_runs r = Some (tr_reference_results s)" "cr_candidate_runs r = Some (tr_candidate_results s)"
proof -
  have k: "k \<notin> {BUILD_FAILURE, INFRA_ERROR_CLASS}" "k \<noteq> BASELINE_INVALID"
    using assms(4) by (auto simp: triage_class_def)
  note fixed = label_not_fixed [OF assms(1,3) k(1)]
  have base: "class_label (sc_classes cfg) BASELINE_INVALID \<noteq> Inr (cr_classification r)"
    using labels_distinctD [OF assms(1,3) _ k(1), of BASELINE_INVALID] k(2) by auto
  have infra: "cr_classification r' = ''infra_error''"
    if "infra_error_result env cfg e' stage exc rs cs = Inr r'" for e' stage exc rs cs r'
    using that by (auto simp: infra_error_result_def bind_eq_Inr Let_def finalize_result_def entry_result_def)
  from assms(2) obtain p where p: "prepare_case_safe env cfg controlled e = Inr p" and
    r: "(case p of Final r \<Rightarrow> Inr r | Ready prep \<Rightarrow>
         (case run_candidate_once env (rc_program_id prep) (rc_run_id prep) ''candidate0'' (rc_inject prep) of
            Inl exc \<Rightarrow> infra_error_result env cfg (rc_entry prep) ''run_candidate_once'' exc
                         (rc_reference_results prep) []
          | Inr (result, canonical) \<Rightarrow>
              finalize_prepared_case_safe env cfg prep result canonical None None)) = Inr r"
    by (auto simp: schedule_one_def bind_eq_Inr)
  show thesis
  proof (cases p)
    case (Final r')
    with p r have "prepare_case env cfg controlled e = Inr (Final r) \<or>
        cr_classification r = ''infra_error''"
      by (auto simp: prepare_case_safe_def bind_eq_Inr infra split: sum.splits)
    then have "cr_classification r \<in> {''build_failure'', ''infra_error''} \<or>
        class_label (sc_classes cfg) BASELINE_INVALID = Inr (cr_classification r)"
      by (auto simp: prepare_case_def Let_def bind_eq_Inr finalize_result_def entry_result_def split: if_splits)
    with fixed base show thesis by auto
  next
    case (Ready prep)
    with p have "prepare_case env cfg controlled e = Inr (Ready prep)"
      by (auto simp: prepare_case_safe_def bind_eq_Inr split: sum.splits)
    then have inv: "ready_inv env prep" by (rule prepare_ready)
    from Ready r infra fixed obtain result canonical where
      run: "run_candidate_once env (rc_program_id prep) (rc_run_id prep) ''candidate0'' (rc_inject prep) =
        Inr (result, canonical)" and
      fin: "finalize_prepared_case_safe env cfg prep result canonical None None = Inr r"
      by (cases "run_candidate_once env (rc_program_id prep) (rc_run_id prep) ''candidate0'' (rc_inject prep)") auto
    have load: "maybe_load_canonical env result = Inr canonical"
      using run by (auto simp: run_candidate_once_def intro: candidate_backed)
    from fin infra fixed have "finalize_prepared_case env cfg prep result canonical None None = Inr r"
      by (auto simp: finalize_prepared_case_safe_def split: sum.splits)
    then obtain a s where s: "triaged env cfg prep result canonical None None = Inr s" and
      f: "(if \<not> all_equal (tr_reference_hashes s) then unstable_result cfg prep s
         else bind (recheck cfg s) (\<lambda>cmp. stable_result env cfg a prep None None s cmp)) = Inr r"
      by (auto simp: finalize_prepared_case_def bind_eq_Inr)
    have "all_equal (tr_reference_hashes s)"
      using f base by (auto simp: unstable_result_def bind_eq_Inr Let_def finalize_result_def with_runs_def
          entry_result_def split: if_splits)
    moreover from this f obtain cmp where "recheck cfg s = Inr cmp"
      "stable_result env cfg a prep None None s cmp = Inr r" by (auto simp: bind_eq_Inr)
    moreover from this(2) have "classify_result (sc_classes cfg) True (rr_status (last (tr_reference_results s)))
       (rr_status (last (tr_candidate_results s))) cmp = Inr (cr_classification r)"
      "cr_reference_runs r = Some (tr_reference_results s)" "cr_candidate_runs r = Some (tr_candidate_results s)"
      by (auto simp: stable_result_def bind_eq_Inr Let_def finalize_result_def with_runs_def entry_result_def)
    ultimately show thesis using that [OF inv load s] by blast
  qed
qed

lemma triaged_inv:
  assumes "ready_inv env prep" "maybe_load_canonical env result = Inr c"
    "triaged env cfg prep result c pd ps = Inr s"
  shows "tri_inv env cfg s"
proof -
  from assms(3) obtain s0 where s0: "first_triage env cfg prep result c = Inr s0" and
    rest: "(if needs_triage result (tr_comparison s0)
      then run_triage_loop env cfg (rc_program_id prep) (rc_run_id prep) (rc_inject prep) pd ps (rerun_attempts cfg) s0
      else Inr s0) = Inr s"
    by (auto simp: triaged_def bind_eq_Inr)
  note inv = first_triage_inv(1) [OF assms(1,2) s0]
  show ?thesis
  proof (cases "needs_triage result (tr_comparison s0)")
    case True
    with rest have "run_triage_loop env cfg (rc_program_id prep) (rc_run_id prep) (rc_inject prep) pd ps
        (rerun_attempts cfg) s0 = Inr s" by simp
    from triage_loop_inv [OF this inv] show ?thesis by simp
  qed (use rest inv in simp)
qed

definition same_observation :: "canon_trace \<Rightarrow> canon_trace \<Rightarrow> bool" where
  "same_observation a b \<longleftrightarrow> map untimed (ct_events a) = map untimed (ct_events b) \<and>
     ct_final_state a = ct_final_state b \<and> ct_process_exit a = ct_process_exit b"

lemma ref_ok_stable:
  assumes "inj (se_digest env)" "ref_ok env rs hs" "all_equal hs" "x \<in> set rs" "y \<in> set rs" "ok_run x" "ok_run y"
  shows "\<exists>a b. load_canonical env x = Inr a \<and> load_canonical env y = Inr b \<and> same_observation a b"
proof -
  have "\<exists>h \<in> set hs. run_hash env z = Inr h" if "z \<in> {x, y}" for z
    using assms(2,4-7) that map_res_set [of "run_hash env" "filter ok_run rs" hs z] by (auto simp: ref_ok_def)
  then obtain hx hy where "hx \<in> set hs" "run_hash env x = Inr hx" "hy \<in> set hs" "run_hash env y = Inr hy" by blast
  moreover from this assms(3) have "hx = hy" by (metis all_equal_iff)
  ultimately show ?thesis
    using assms(1) by (auto simp: run_hash_def bind_eq_Inr hash_equal_iff same_observation_def)
qed

text \<open>
  C1. No verdict rests on an unstable or failed reference. A result with a verdict (no
  difference, likely bug, weak specification, unsupported) records reference runs of which the
  last is ok, and every two of its ok runs load to canonical traces with the same events (up to
  durations), final state and process exit.
\<close>

theorem verdict_stable_reference:
  assumes "inj (se_digest env)" "labels_distinct (sc_classes cfg)"
    "schedule_one env cfg controlled e = Inr r"
    "class_label (sc_classes cfg) k = Inr (cr_classification r)" "triage_class k"
  shows "\<exists>rs. cr_reference_runs r = Some rs \<and> rs \<noteq> [] \<and> ok_run (last rs) \<and>
    (\<forall>x \<in> set rs. \<forall>y \<in> set rs. ok_run x \<and> ok_run y \<longrightarrow>
      (\<exists>a b. load_canonical env x = Inr a \<and> load_canonical env y = Inr b \<and> same_observation a b))"
proof -
  obtain prep result canonical s cmp where ready: "ready_inv env prep"
      "maybe_load_canonical env result = Inr canonical"
      "triaged env cfg prep result canonical None None = Inr s" and
    stable: "all_equal (tr_reference_hashes s)" and
    cls: "classify_result (sc_classes cfg) True (rr_status (last (tr_reference_results s)))
       (rr_status (last (tr_candidate_results s))) cmp = Inr (cr_classification r)" and
    runs: "cr_reference_runs r = Some (tr_reference_results s)"
    using classified_from_triage [OF assms(2-5)] by metis
  have inv: "tri_inv env cfg s" using triaged_inv [OF ready] .
  have "class_label (sc_classes cfg) BASELINE_INVALID \<noteq> Inr (cr_classification r)"
    using labels_distinctD [OF assms(2,4)] assms(5) by (fastforce simp: triage_class_def)
  with cls have "ok_run (last (tr_reference_results s))"
    by (auto simp: classify_result_def ok_run_def split: if_splits)
  moreover have "tr_reference_results s \<noteq> []" "ref_ok env (tr_reference_results s) (tr_reference_hashes s)"
    using inv by (simp_all add: tri_inv_def)
  ultimately show ?thesis using runs ref_ok_stable [OF assms(1) _ stable] by blast
qed

text \<open>
  C8. A case reported without difference has one: the result records a reference run and a
  candidate run whose canonical traces match event by event and have the same final state and the
  same process exit.
\<close>

theorem no_diff_witnessed:
  assumes "labels_distinct (sc_classes cfg)" "schedule_one env cfg controlled e = Inr r"
    "class_label (sc_classes cfg) NO_DIFF = Inr (cr_classification r)"
  shows "\<exists>refs cands. cr_reference_runs r = Some refs \<and> cr_candidate_runs r = Some cands \<and>
    (\<exists>ra \<in> set refs. \<exists>rb \<in> set cands. \<exists>a b.
      load_canonical env ra = Inr a \<and> load_canonical env rb = Inr b \<and>
      list_all2 (event_match (sc_noise cfg)) (ct_events a) (ct_events b) \<and>
      ct_final_state a = ct_final_state b \<and> ct_process_exit a = ct_process_exit b)"
proof -
  have tc: "triage_class NO_DIFF" by (simp add: triage_class_def)
  obtain prep result canonical s cmp where ready: "ready_inv env prep"
      "maybe_load_canonical env result = Inr canonical"
      "triaged env cfg prep result canonical None None = Inr s" and
    re: "recheck cfg s = Inr cmp" and
    cls: "classify_result (sc_classes cfg) True (rr_status (last (tr_reference_results s)))
       (rr_status (last (tr_candidate_results s))) cmp = Inr (cr_classification r)" and
    runs: "cr_reference_runs r = Some (tr_reference_results s)" "cr_candidate_runs r = Some (tr_candidate_results s)"
    using classified_from_triage [OF assms tc] by metis
  have "k = NO_DIFF" if "class_label (sc_classes cfg) k = Inr (cr_classification r)"
    "k \<notin> {BUILD_FAILURE, INFRA_ERROR_CLASS}" for k
    using labels_distinctD [OF assms(1) that(1) assms(3)] that(2) by simp
  with cls obtain c where c: "cmp = Some c" "cmp_equivalent c"
    by (fastforce simp: classify_result_def split: if_splits option.splits)
  with recheck_compared [OF triaged_inv [OF ready] re] obtain ra rb a b where
    ab: "ra \<in> set (tr_reference_results s)" "rb \<in> set (tr_candidate_results s)"
      "load_canonical env ra = Inr a" "load_canonical env rb = Inr b"
      "compare_canonical (sc_noise cfg) a b = Inr c" by (auto simp: compared_def)
  have "canon_wf a" "canon_wf b"
    using ab(3,4) by (auto simp: load_canonical_def bind_eq_Inr intro: canonicalize_wf)
  from compare_equivalent_iff [OF this ab(5)] c(2) ab runs show ?thesis by blast
qed

lemma recheck_single:
  assumes "ready_inv env prep" "maybe_load_canonical env result = Inr c"
    "first_triage env cfg prep result c = Inr s"
  shows "recheck cfg s = Inr (tr_comparison s)"
proof (cases c)
  case None
  then show ?thesis using first_triage_inv(4) [OF assms] by (simp add: recheck_def)
next
  case (Some x)
  then show ?thesis
    using first_triage_inv(4,5,7) [OF assms] by (simp add: recheck_def)
qed

text \<open>
  C9. A likely bug was triaged: its result records one reference run and one candidate run more
  than the configured number of reruns. A single divergence or crash is never the whole evidence.
\<close>

theorem bug_likely_rerun:
  assumes "labels_distinct (sc_classes cfg)" "schedule_one env cfg controlled e = Inr r"
    "class_label (sc_classes cfg) BUG_LIKELY = Inr (cr_classification r)"
  shows "\<exists>refs cands. cr_reference_runs r = Some refs \<and> length refs = 1 + nat (sc_rerun_count cfg) \<and>
    cr_candidate_runs r = Some cands \<and> length cands = 1 + nat (sc_rerun_count cfg)"
proof -
  have tc: "triage_class BUG_LIKELY" by (simp add: triage_class_def)
  obtain prep result canonical s cmp where ready: "ready_inv env prep"
      "maybe_load_canonical env result = Inr canonical" and
    tri: "triaged env cfg prep result canonical None None = Inr s" and
    re: "recheck cfg s = Inr cmp" and
    cls: "classify_result (sc_classes cfg) True (rr_status (last (tr_reference_results s)))
       (rr_status (last (tr_candidate_results s))) cmp = Inr (cr_classification r)" and
    runs: "cr_reference_runs r = Some (tr_reference_results s)" "cr_candidate_runs r = Some (tr_candidate_results s)"
    using classified_from_triage [OF assms tc] by metis
  obtain s0 where s0: "first_triage env cfg prep result canonical = Inr s0" and
    rest: "(if needs_triage result (tr_comparison s0)
      then run_triage_loop env cfg (rc_program_id prep) (rc_run_id prep) (rc_inject prep) None None (rerun_attempts cfg) s0
      else Inr s0) = Inr s"
    using tri by (auto simp: triaged_def bind_eq_Inr)
  note ft = first_triage_inv [OF ready s0]
  have "needs_triage result (tr_comparison s0)"
  proof (rule ccontr)
    assume no: "\<not> needs_triage result (tr_comparison s0)"
    with rest have [simp]: "s = s0" by simp
    have "cmp = tr_comparison s0" using recheck_single [OF ready s0] re by simp
    then have "\<exists>k \<in> {BASELINE_INVALID, UNSUPPORTED_FEATURE, NO_DIFF}. class_label (sc_classes cfg) k = Inr (cr_classification r)"
      using cls no ft(2) by (auto simp: classify_result_def needs_triage_def split: if_splits option.splits)
    then show False using labels_distinctD [OF assms(1) _ assms(3)] by fastforce
  qed
  with rest have "run_triage_loop env cfg (rc_program_id prep) (rc_run_id prep) (rc_inject prep) None None
      (rerun_attempts cfg) s0 = Inr s" by simp
  from triage_loop_inv [OF this ft(1)] have
    "length (tr_reference_results s) = 1 + nat (sc_rerun_count cfg)"
    "length (tr_candidate_results s) = 1 + nat (sc_rerun_count cfg)"
    using ready(1) ft(2,3) by (simp_all add: ready_inv_def rerun_attempts_def)
  with runs show ?thesis by blast
qed

section \<open>The faithful candidate\<close>

definition request_of :: "'h sched_env \<Rightarrow> entry \<Rightarrow> Side \<Rightarrow> string \<Rightarrow> pyval option \<Rightarrow> run_request" where
  "request_of env e side sfx inject = \<lparr>rq_program_id = en_program_id e, rq_side = side,
     rq_run_id = next_run_id env (en_program_id e) @ ''-'' @ sfx, rq_inject = inject, rq_package = None\<rparr>"

definition buildable :: "'h sched_env \<Rightarrow> entry \<Rightarrow> bool" where
  "buildable env e \<longleftrightarrow> build_status_ok (se_json_at env) (se_build_root env (en_program_id e) @ ''/build-result.json'')"

text \<open>A finished run with its two documents.\<close>

definition finished :: "'h sched_env \<Rightarrow> run_result \<Rightarrow> raw_trace \<Rightarrow> ext_state \<Rightarrow> bool" where
  "finished env r t st \<longleftrightarrow> ok_run r \<and> present (rr_trace_json_path r) \<and> present (rr_external_state_path r) \<and>
     se_trace_at env (the (rr_trace_json_path r)) = Some t \<and>
     se_state_at env (the (rr_external_state_path r)) = Some st"

lemma finished_load:
  assumes "finished env r t st"
  shows "load_canonical env r = canonicalize t st"
    "maybe_load_canonical env r = bind (canonicalize t st) (\<lambda>c. Inr (Some c))"
  using assms
  by (auto simp: finished_def load_canonical_def maybe_load_canonical_def present_def split: option.splits)

text \<open>
  C10. No false alarm end to end: when the build is there, the first reference run finishes with a
  valid trace and the candidate run finishes with the same calls and results (in other descriptors,
  addresses, process ids and times) and the same final state, the case is scheduled to a result
  without difference, from these two runs alone.
\<close>

theorem faithful_candidate_no_diff:
  assumes "case_env env cfg" "buildable env e"
    "controlled_divergence_spec (se_profiles env) controlled = Inr inject"
    "se_execute env (request_of env e REFERENCE ''ref0'' None) = Inr ra" "finished env ra t st"
    "canonicalize t st = Inr a"
    "se_execute env (request_of env e CANDIDATE ''candidate0'' inject) = Inr rb"
    "finished env rb (rerun_trace f g side t) st" "renaming f"
  shows "\<exists>r. schedule_one env cfg controlled e = Inr r \<and>
    class_label (sc_classes cfg) NO_DIFF = Inr (cr_classification r) \<and>
    cr_reference_runs r = Some [ra] \<and> cr_candidate_runs r = Some [rb]"
proof -
  let ?pid = "en_program_id e" and ?h = "canonical_trace_hash (se_digest env)"
  let ?run = "next_run_id env ?pid"
  obtain ad where ad: "se_adapter env = Inr ad" and lt: "labels_total (sc_classes cfg)"
    using assms(1) by (auto simp: case_env_def is_ok_iff)
  obtain b where b: "canonicalize (rerun_trace f g side t) st = Inr b"
    by (rule canonicalize_rerun [OF assms(9,6)]) (rule that)
  obtain c where c: "compare_canonical (sc_noise cfg) a b = Inr c" "cmp_equivalent c"
    using rerun_equivalent [OF assms(9,6) b] by blast
  note la = finished_load(1) [OF assms(5), unfolded assms(6)]
  have ok: "rr_status ra = ''ok''" "rr_status rb = ''ok''"
    using assms(5,8) by (simp_all add: finished_def ok_run_def)
  have ref: "run_reference_once env ?pid ?run ''ref0'' = Inr (ra, Some a)"
    using assms(4) la ok by (simp add: run_reference_once_def request_of_def)
  define prep where "prep = \<lparr>rc_entry = e, rc_prepared_case = base_prepare_case (ad_name ad) (entry_json e) (sc_cfg cfg),
    rc_program_id = ?pid, rc_run_id = ?run, rc_inject = inject, rc_reference_results = [ra],
    rc_reference_hashes = [?h a], rc_reference_canonical = Some a\<rparr>"
  have "prepare_case env cfg controlled e = Inr (Ready prep)"
    using ad assms(2,3) ref ok
    by (simp add: prepare_case_def buildable_def build_reference_runs_def Let_def prep_def)
  then have p: "prepare_case_safe env cfg controlled e = Inr (Ready prep)" by (simp add: prepare_case_safe_def)
  have load: "maybe_load_canonical env rb = Inr (Some b)" using finished_load(2) [OF assms(8)] b by simp
  have cand: "run_candidate_once env ?pid ?run ''candidate0'' inject = Inr (rb, Some b)"
    using assms(7) load by (simp add: run_candidate_once_def run_candidate_once_with_package_def request_of_def)
  define s where "s = \<lparr>tr_reference_results = [ra], tr_reference_hashes = [?h a],
    tr_reference_canonical = Some a, tr_candidate_results = [rb], tr_candidate_hashes = [?h b],
    tr_candidate_canonical = Some b, tr_comparison = Some c\<rparr>"
  have "triaged env cfg prep rb (Some b) None None = Inr s"
    using c ok by (simp add: triaged_def first_triage_def prep_def compare_opt_def needs_triage_def s_def)
  moreover have "all_equal (tr_reference_hashes s)" by (simp add: s_def all_equal_def)
  moreover have "recheck cfg s = Inr (Some c)" using c by (simp add: recheck_def s_def compare_opt_def)
  ultimately have fin: "finalize_prepared_case env cfg prep rb (Some b) None None =
      stable_result env cfg ad prep None None s (Some c)"
    using ad by (simp add: finalize_prepared_case_def)
  obtain l where l: "class_label (sc_classes cfg) NO_DIFF = Inr l" using labels_total_ok [OF lt] by blast
  obtain bk where bk: "scml_result_bucket (sc_classes cfg) (sf_preflight_status (scml_of_entry e)) (Some ''ok'') l (Some c) = Inr bk"
    using bucket_ok [OF lt] .
  have "\<exists>r. stable_result env cfg ad prep None None s (Some c) = Inr r \<and> cr_classification r = l \<and>
      cr_reference_runs r = Some [ra] \<and> cr_candidate_runs r = Some [rb]"
    using l bk c ok by (simp add: stable_result_def s_def prep_def classify_result_def Let_def
        finalize_result_def with_runs_def entry_result_def)
  then show ?thesis using p cand fin l
    by (auto simp: schedule_one_def prep_def finalize_prepared_case_safe_def)
qed

section \<open>Concrete campaigns\<close>

definition demo_run :: "string \<Rightarrow> run_result" where
  "demo_run side = \<lparr>rr_program_id = ''p1'', rr_side = side, rr_status = ''ok'', rr_exit_code = Some 0,
     rr_stdout_path = [], rr_stderr_path = [], rr_console_log_path = [], rr_trace_json_path = Some side,
     rr_external_state_path = Some ''state'', rr_elapsed_ms = 1, rr_role = side, rr_snapshot_id = [],
     rr_kernel_build = [], rr_run_id = [], rr_status_detail = None, rr_runner_kind = None\<rparr>"

text \<open>The candidate of \<open>demo_env t\<close> leaves the trace \<open>t\<close>; the reference always leaves \<open>demo_trace\<close>.\<close>

definition demo_env :: "raw_trace \<Rightarrow> pyval sched_env" where
  "demo_env t = \<lparr>se_execute = (\<lambda>q. Inr (demo_run (side_str (rq_side q)))),
     se_batch = (\<lambda>cs. Inl (RunnerError ''no batch'')),
     se_trace_at = (\<lambda>p. if p = ''reference'' then Some demo_trace else Some t),
     se_state_at = (\<lambda>p. Some demo_state),
     se_json_at = (\<lambda>p. Some (PDict [(''status'', PStr ''ok'')])),
     se_digest = id, se_now = 7, se_adapter = Inr linux_adapter,
     se_profiles = PDict [(''candidate'', PDict [(''kind'', PStr ''command'')])],
     se_build_root = (\<lambda>p. ''build/'' @ p)\<rparr>"

definition demo_labels :: class_labels where
  "demo_labels = [(''no_diff'', ''NO_DIFF''), (''baseline_invalid'', ''BASELINE_INVALID''),
     (''bug_likely'', ''BUG_LIKELY''), (''weak_spec_or_env_noise'', ''NOISE''),
     (''unsupported_feature'', ''UNSUPPORTED'')]"

definition demo_cfg :: sched_cfg where
  "demo_cfg = \<lparr>sc_cfg = PDict [(''workflow'', PStr ''baseline'')], sc_workflow = ''baseline'',
     sc_classes = demo_labels, sc_rerun_count = 2, sc_noise = [''brk'']\<rparr>"

definition demo_entry :: entry where
  "demo_entry = \<lparr>en_program_id = ''p1'', en_normalized_path = None, en_meta_path = None,
     en_scml_preflight_status = None, en_scml_rejection_reasons = None, en_scml_trace_log_path = None,
     en_scml_sctrace_output_path = None, en_scml_preflight_run_root = None\<rparr>"

definition demo_result :: "raw_trace \<Rightarrow> pyval case_result" where
  "demo_result t = projr (schedule_one (demo_env t) demo_cfg False demo_entry)"

lemma demo_labels_distinct: "labels_distinct (sc_classes demo_cfg)"
  by code_simp

lemma demo_case_env: "case_env (demo_env t) demo_cfg"
  using demo_labels_distinct by (simp add: case_env_def demo_env_def labels_distinct_def)

lemma demo_scheduled: "schedule_one (demo_env t) demo_cfg False demo_entry = Inr (demo_result t)"
  using schedule_one_ok [OF demo_case_env] by (metis demo_result_def sum.sel(2))

lemma demo_same: "cr_classification (demo_result demo_trace) = ''NO_DIFF''"
  by code_simp

lemma demo_bug: "cr_classification (demo_result demo_failed) = ''BUG_LIKELY''"
  by code_simp

lemma demo_digest: "inj (se_digest (demo_env t))"
  by (simp add: demo_env_def)

lemma verdict_stable_reference_witness:
  "\<exists>rs. cr_reference_runs (demo_result demo_failed) = Some rs \<and> rs \<noteq> [] \<and> ok_run (last rs)"
proof -
  have "class_label (sc_classes demo_cfg) BUG_LIKELY = Inr (cr_classification (demo_result demo_failed))"
    unfolding demo_bug by code_simp
  from verdict_stable_reference [OF demo_digest demo_labels_distinct demo_scheduled this]
  show ?thesis by (auto simp: triage_class_def)
qed

lemma no_diff_witnessed_witness:
  "\<exists>refs cands. cr_reference_runs (demo_result demo_trace) = Some refs \<and>
    cr_candidate_runs (demo_result demo_trace) = Some cands \<and>
    (\<exists>ra \<in> set refs. \<exists>rb \<in> set cands. \<exists>a b.
      load_canonical (demo_env demo_trace) ra = Inr a \<and> load_canonical (demo_env demo_trace) rb = Inr b \<and>
      list_all2 (event_match (sc_noise demo_cfg)) (ct_events a) (ct_events b) \<and>
      ct_final_state a = ct_final_state b \<and> ct_process_exit a = ct_process_exit b)"
proof -
  have "class_label (sc_classes demo_cfg) NO_DIFF = Inr (cr_classification (demo_result demo_trace))"
    unfolding demo_same by code_simp
  from no_diff_witnessed [OF demo_labels_distinct demo_scheduled this] show ?thesis .
qed

lemma bug_likely_rerun_witness:
  "\<exists>refs cands. cr_reference_runs (demo_result demo_failed) = Some refs \<and> length refs = 3 \<and>
    cr_candidate_runs (demo_result demo_failed) = Some cands \<and> length cands = 3"
proof -
  have "class_label (sc_classes demo_cfg) BUG_LIKELY = Inr (cr_classification (demo_result demo_failed))"
    unfolding demo_bug by code_simp
  from bug_likely_rerun [OF demo_labels_distinct demo_scheduled this] show ?thesis
    by (simp add: demo_cfg_def numeral_3_eq_3)
qed

lemma faithful_candidate_no_diff_witness:
  "\<exists>r. schedule_one (demo_env (rerun_trace (\<lambda>k v. if 0 < v then v + 7 else v) (\<lambda>i. (i, 2 * i)) ''candidate'' demo_trace))
      demo_cfg False demo_entry = Inr r \<and> cr_classification r = ''NO_DIFF''"
proof -
  let ?f = "\<lambda>(k::kind) v::int. if 0 < v then v + 7 else v" and ?g = "\<lambda>i::int. (i, 2 * i)"
  let ?env = "demo_env (rerun_trace ?f ?g ''candidate'' demo_trace)"
  have f: "renaming ?f" by (auto simp: renaming_def inj_def)
  have b: "buildable ?env demo_entry"
    by (simp add: buildable_def build_status_ok_def demo_env_def py_get_def dict_get_def)
  have i: "controlled_divergence_spec (se_profiles ?env) False = Inr None"
    by (simp add: controlled_divergence_spec_def demo_env_def py_item_def dict_get_def)
  have x: "se_execute ?env (request_of ?env demo_entry sd sfx inj) = Inr (demo_run (side_str sd))" for sd sfx inj
    by (simp add: demo_env_def request_of_def)
  have fin: "finished ?env (demo_run (side_str REFERENCE)) demo_trace demo_state"
    "finished ?env (demo_run (side_str CANDIDATE)) (rerun_trace ?f ?g ''candidate'' demo_trace) demo_state"
    by (simp_all add: finished_def ok_run_def demo_run_def present_def demo_env_def)
  have "class_label (sc_classes demo_cfg) NO_DIFF = Inr ''NO_DIFF''" by code_simp
  with faithful_candidate_no_diff [OF demo_case_env b i x fin(1) demo_canon x fin(2) f]
  show ?thesis by auto
qed

lemma schedule_entries_aligned_witness:
  "\<exists>rs. schedule_entries (demo_env demo_failed) demo_cfg
      \<lparr>sa_program_id = None, sa_limit = None, sa_jobs = None, sa_candidate_batch_size = None,
       sa_controlled_divergence = False\<rparr> 4 (\<lambda>k n. [0..<n]) [demo_entry, demo_entry\<lparr>en_program_id := ''p2''\<rparr>] = Inr rs \<and>
    map cr_program_id rs = [''p1'', ''p2'']"
proof -
  let ?args = "\<lparr>sa_program_id = None, sa_limit = None, sa_jobs = None, sa_candidate_batch_size = None,
       sa_controlled_divergence = False\<rparr>"
  have "candidate_batching_enabled (demo_env demo_failed) ?args (sc_cfg demo_cfg) = Inr False"
    by (simp add: candidate_batching_enabled_def capabilities_from_config_def py_get_def demo_cfg_def
        dict_get_def)
  from schedule_entries_aligned [OF demo_case_env _ this, of "\<lambda>k n. [0..<n]" 4
      "[demo_entry, demo_entry\<lparr>en_program_id := ''p2''\<rparr>]"]
  show ?thesis by (auto simp: completion_order_upt demo_entry_def)
qed

end
