(* ===== verification/Scml.thy ===== *)
theory Scml
  imports PyValue Constants
begin

text \<open>
  The SCML compatibility gate (\<open>targets/asterinas/scml.py\<close>): the index of the syscall manifest
  under a generation profile, the reading of the matcher's output, and the classification of each
  of its lines into rejection reasons. Manifest and profile are JSON values; the taxonomy of
  reasons is the configured dictionary. The regular expression of a syscall line never has to
  give characters back, so \<open>parse_syscall_name\<close> takes the longest run at each step.
\<close>

section \<open>Tables\<close>

definition UNSUPPORTED_PREFIX :: string where "UNSUPPORTED_PREFIX = ''Unsupported syscall: ''"
definition PARSE_ERROR_PREFIX :: string where "PARSE_ERROR_PREFIX = ''Strace Parse Error: ''"

definition FIELD_REASON_HINTS :: "(string, string) dict" where
  "FIELD_REASON_HINTS = map (\<lambda>k. (k, ''unsupported_flag_pattern''))
     [''flags'', ''flags_in_events'', ''mount_flags'', ''event_flags'', ''control_flags'', ''codes'',
      ''masks'', ''who_flags'', ''op_flags'']"

definition PATH_PATTERN_SYSCALLS :: "string list" where
  "PATH_PATTERN_SYSCALLS =
     [''mount'', ''umount'', ''umount2'', ''open'', ''openat'', ''rename'', ''renameat'', ''renameat2'',
      ''mkdir'', ''mkdirat'', ''link'', ''linkat'', ''symlink'', ''symlinkat'', ''unlink'', ''unlinkat'',
      ''newfstatat'', ''faccessat'', ''faccessat2'', ''readlinkat'', ''utimensat'']"

definition STRUCT_PATTERN_SYSCALLS :: "string list" where
  "STRUCT_PATTERN_SYSCALLS = [''clone3'']"

section \<open>The manifest index\<close>

type_synonym manifest_index = "(string, pyval) dict"

text \<open>\<open>{**entry, k: v}\<close>.\<close>

definition with_key :: "string \<Rightarrow> pyval \<Rightarrow> pyval \<Rightarrow> pyval" where
  "with_key k v d = PDict (dict_set k v (items d))"

definition profile_entry :: "string list \<Rightarrow> pyval \<Rightarrow> pyval \<Rightarrow> string \<Rightarrow> string \<Rightarrow> pyval \<Rightarrow> pyval" where
  "profile_entry enabled_categories deferred_categories deferred_syscalls category syscall e =
     (let effective = with_key ''category'' (PStr category) e;
          enabled0 = truthy (py_get ''generation_enabled'' (PBool True) e);
          reason0 = py_get ''defer_reason'' PNone e;
          (enabled, reason) =
            (if syscall \<in> set (map fst (items deferred_syscalls))
             then (False, py_get syscall PNone deferred_syscalls)
             else if category \<notin> set enabled_categories
             then (False, py_get category (PStr ''category_not_enabled'') deferred_categories)
             else (enabled0, reason0))
      in with_key ''defer_reason'' reason (with_key ''generation_enabled'' (PBool enabled) effective))"

definition str_items :: "pyval \<Rightarrow> string list res" where
  "str_items v = (case v of
       PList vs \<Rightarrow> map_res (\<lambda>x. case x of PStr s \<Rightarrow> Inr s | _ \<Rightarrow> Inl (TypeError ''str'')) vs
     | PDict kvs \<Rightarrow> Inr (map fst kvs)
     | _ \<Rightarrow> Inl (TypeError ''not iterable''))"

text \<open>The two nested loops over categories and their syscalls, in order.\<close>

definition category_syscalls :: "pyval \<Rightarrow> (string \<times> string \<times> pyval) list res" where
  "category_syscalls manifest =
     bind (py_item ''categories'' manifest) (\<lambda>categories.
     bind (map_res (\<lambda>(c, category). bind (py_item ''syscalls'' category) (\<lambda>s.
             Inr (map (\<lambda>(n, e). (c, n, e)) (items s)))) (items categories)) (\<lambda>rows.
     Inr (concat rows)))"

fun index_rows :: "(string \<Rightarrow> string \<Rightarrow> pyval \<Rightarrow> pyval) \<Rightarrow> (string \<times> string \<times> pyval) list \<Rightarrow> manifest_index \<Rightarrow> manifest_index" where
  "index_rows f [] index = index"
| "index_rows f ((c, n, e) # rows) index = index_rows f rows (dict_set n (f c n e) index)"

definition apply_generation_profile :: "pyval \<Rightarrow> pyval \<Rightarrow> manifest_index res" where
  "apply_generation_profile manifest profile =
     bind (bind (py_item ''enabled_categories'' profile) str_items) (\<lambda>enabled.
     bind (category_syscalls manifest) (\<lambda>rows.
     Inr (index_rows (profile_entry enabled (py_get ''deferred_categories'' (PDict []) profile)
            (py_get ''deferred_syscalls'' (PDict []) profile)) rows [])))"

definition load_manifest_index :: "pyval \<Rightarrow> pyval option \<Rightarrow> manifest_index res" where
  "load_manifest_index manifest profile = (case profile of
       Some p \<Rightarrow> apply_generation_profile manifest p
     | None \<Rightarrow> bind (category_syscalls manifest) (\<lambda>rows.
         Inr (index_rows (\<lambda>c n e. with_key ''category'' (PStr c) e) rows [])))"

section \<open>Reading the matcher's output\<close>

text \<open>
  \<open>manifest_index or AsterinasSCMLSource(cfg).load_manifest_index()\<close>: the index a gate works on. The tools
  pass the index they loaded; an empty one is loaded once more.
\<close>

definition gate_manifest_index :: "manifest_index option \<Rightarrow> manifest_index res \<Rightarrow> manifest_index res" where
  "gate_manifest_index given loaded = (case given of Some (e # es) \<Rightarrow> Inr (e # es) | _ \<Rightarrow> loaded)"

lemma gate_manifest_index_loaded: "gate_manifest_index (Some index) (Inr index) = Inr index"
  by (cases index) (simp_all add: gate_manifest_index_def)

definition digit :: "char \<Rightarrow> bool" where
  "digit c \<longleftrightarrow> c \<in> set ''0123456789''"

definition word_char :: "char \<Rightarrow> bool" where
  "word_char c \<longleftrightarrow> digit c \<or> c \<in> set ''abcdefghijklmnopqrstuvwxyzABCDEFGHIJKLMNOPQRSTUVWXYZ_''"

definition name_before_paren :: "string \<Rightarrow> string option" where
  "name_before_paren s =
     (let name = takeWhile word_char s; rest = dropWhile word_char s
      in if name \<noteq> [] \<and> rest \<noteq> [] \<and> hd rest = CHR ''('' then Some name else None)"

definition parse_syscall_name :: "string \<Rightarrow> string option" where
  "parse_syscall_name line =
     (let s = lstrip line; ds = takeWhile digit s; rest = dropWhile digit s
      in if ds \<noteq> [] \<and> rest \<noteq> [] \<and> py_space (hd rest) then name_before_paren (lstrip rest)
         else name_before_paren s)"

definition parse_sctrace_lines :: "string \<Rightarrow> string \<Rightarrow> string list" where
  "parse_sctrace_lines out err =
     filter (\<lambda>l. startswith l UNSUPPORTED_PREFIX \<or> startswith l PARSE_ERROR_PREFIX)
       (map strip (splitlines out @ splitlines err))"

definition unsupported_call :: "string \<Rightarrow> string option" where
  "unsupported_call line = parse_syscall_name (strip (drop (length UNSUPPORTED_PREFIX) line))"

text \<open>\<open>None in target_syscalls\<close> is false.\<close>

definition relevant_output_lines :: "string list \<Rightarrow> string list option \<Rightarrow> string list" where
  "relevant_output_lines output_lines target_syscalls = (case target_syscalls of
       None \<Rightarrow> output_lines
     | Some targets \<Rightarrow> filter (\<lambda>line. \<not> startswith line UNSUPPORTED_PREFIX \<or>
         (case unsupported_call line of None \<Rightarrow> False | Some n \<Rightarrow> n \<in> set targets)) output_lines)"

section \<open>Reasons\<close>

type_synonym taxonomy = "(string, string) dict"

definition reason_of :: "taxonomy \<Rightarrow> string \<Rightarrow> string res" where
  "reason_of taxonomy k = opt_res (KeyError k) (dict_get k taxonomy)"

text \<open>\<open>any(value and value in line for value in values)\<close>.\<close>

fun any_in_line :: "string \<Rightarrow> pyval list \<Rightarrow> bool res" where
  "any_in_line line [] = Inr False"
| "any_in_line line (v # vs) =
     (if \<not> truthy v then any_in_line line vs
      else case v of PStr s \<Rightarrow> if contains line s then Inr True else any_in_line line vs
           | _ \<Rightarrow> Inl (TypeError ''in <string> requires string''))"

fun unsupported_field :: "string \<Rightarrow> (string \<times> pyval) list \<Rightarrow> string option res" where
  "unsupported_field line [] = Inr None"
| "unsupported_field line ((key, v) # kvs) =
     (if startswith key ''unsupported_'' \<and> is_list v
      then bind (any_in_line line (case v of PList vs \<Rightarrow> vs | _ \<Rightarrow> [])) (\<lambda>hit.
        if hit then Inr (Some (drop (length ''unsupported_'') key)) else unsupported_field line kvs)
      else unsupported_field line kvs)"

definition classify_reason_from_entry :: "taxonomy \<Rightarrow> string \<Rightarrow> pyval \<Rightarrow> string res" where
  "classify_reason_from_entry taxonomy line e =
     bind (unsupported_field line (items e)) (\<lambda>field. case field of
       Some f \<Rightarrow> reason_of taxonomy (case dict_get f FIELD_REASON_HINTS of
                   None \<Rightarrow> ''unsupported_flag_pattern'' | Some h \<Rightarrow> h)
     | None \<Rightarrow> bind (py_item ''name'' e) (\<lambda>n.
         if n \<in> PStr ` set STRUCT_PATTERN_SYSCALLS then reason_of taxonomy ''unsupported_struct_pattern''
         else if n \<in> PStr ` set PATH_PATTERN_SYSCALLS then reason_of taxonomy ''unsupported_path_pattern''
         else reason_of taxonomy ''unsupported_flag_pattern''))"

definition classify_line :: "taxonomy \<Rightarrow> manifest_index \<Rightarrow> string \<Rightarrow> string list option \<Rightarrow> string list res" where
  "classify_line taxonomy index line target_syscalls =
     (let one = (\<lambda>r. bind r (\<lambda>x. Inr [x])) in
      if startswith line PARSE_ERROR_PREFIX \<or> \<not> startswith line UNSUPPORTED_PREFIX
      then one (reason_of taxonomy ''scml_parser_gap'')
      else case unsupported_call line of
        None \<Rightarrow> one (reason_of taxonomy ''scml_parser_gap'')
      | Some n \<Rightarrow>
          if (case target_syscalls of None \<Rightarrow> False | Some ts \<Rightarrow> n \<notin> set ts) then Inr []
          else case dict_get n index of
            None \<Rightarrow> one (reason_of taxonomy ''syscall_not_in_manifest'')
          | Some e \<Rightarrow>
              if \<not> truthy (py_get ''generation_enabled'' (PBool True) e)
              then one (reason_of taxonomy ''deferred_category'')
              else one (classify_reason_from_entry taxonomy (strip (drop (length UNSUPPORTED_PREFIX) line)) e))"

text \<open>The loop of the gate's clients: \<open>reasons.extend(..)\<close> over the relevant lines.\<close>

definition gate_reasons :: "taxonomy \<Rightarrow> manifest_index \<Rightarrow> string list \<Rightarrow> string list \<Rightarrow> string list res" where
  "gate_reasons taxonomy index lines targets =
     bind (map_res (\<lambda>l. classify_line taxonomy index l (Some targets))
            (relevant_output_lines lines (Some targets))) (\<lambda>rs. Inr (concat rs))"

section \<open>What the gate decides\<close>

lemma relevant_classified:
  assumes "line \<in> set (relevant_output_lines lines (Some targets))"
    "classify_line taxonomy index line (Some targets) = Inr rs"
  shows "length rs = 1"
  using assms
  by (auto simp: relevant_output_lines_def classify_line_def Let_def bind_eq_Inr
      split: if_splits option.splits)

lemma gate_reasons_Nil:
  "gate_reasons taxonomy index lines targets = Inr rs \<Longrightarrow>
     rs = [] \<longleftrightarrow> relevant_output_lines lines (Some targets) = []"
proof -
  assume "gate_reasons taxonomy index lines targets = Inr rs"
  then obtain rss where rss: "map_res (\<lambda>l. classify_line taxonomy index l (Some targets))
      (relevant_output_lines lines (Some targets)) = Inr rss" "rs = concat rss"
    by (auto simp: gate_reasons_def bind_eq_Inr)
  show "rs = [] \<longleftrightarrow> relevant_output_lines lines (Some targets) = []"
  proof (cases "relevant_output_lines lines (Some targets)")
    case (Cons l ls)
    with rss obtain r where "classify_line taxonomy index l (Some targets) = Inr r" "r \<in> set rss"
      by (auto simp: bind_eq_Inr)
    with relevant_classified [of l lines targets] Cons rss(2) show ?thesis by fastforce
  qed (use rss in simp)
qed

text \<open>What a profile enables.\<close>

definition enabled_in :: "pyval \<Rightarrow> bool" where
  "enabled_in e \<longleftrightarrow> truthy (py_get ''generation_enabled'' (PBool True) e)"

lemma get_with_key [simp]:
  "py_get k d (with_key k' v e) = (if k = k' then v else py_get k d e)"
  by (simp add: py_get_def with_key_def)

lemma profile_entry_enabled:
  "enabled_in (profile_entry cats dc ds c n e) \<longleftrightarrow>
     enabled_in e \<and> c \<in> set cats \<and> n \<notin> set (map fst (items ds))"
  by (auto simp: profile_entry_def Let_def enabled_in_def)

lemma profile_entry_category: "py_get ''category'' d (profile_entry cats dc ds c n e) = PStr c"
  by (simp add: profile_entry_def Let_def)

lemma index_rows_get:
  "dict_get k (index_rows f rows index) = Some v \<Longrightarrow>
     dict_get k index = Some v \<or> (\<exists>c e. (c, k, e) \<in> set rows \<and> v = f c k e)"
  by (induction f rows index rule: index_rows.induct) (auto split: if_splits)

lemma profile_narrows_rows:
  assumes "apply_generation_profile manifest profile = Inr index" "dict_get n index = Some e" "enabled_in e"
  shows "\<exists>rows c e0 cats. category_syscalls manifest = Inr rows \<and> (c, n, e0) \<in> set rows \<and> enabled_in e0 \<and>
    bind (py_item ''enabled_categories'' profile) str_items = Inr cats \<and> c \<in> set cats \<and>
    n \<notin> set (map fst (items (py_get ''deferred_syscalls'' (PDict []) profile))) \<and>
    py_get ''category'' PNone e = PStr c"
proof -
  obtain cats rows where cats: "bind (py_item ''enabled_categories'' profile) str_items = Inr cats"
    and rows: "category_syscalls manifest = Inr rows"
    and index: "index = index_rows (profile_entry cats (py_get ''deferred_categories'' (PDict []) profile)
            (py_get ''deferred_syscalls'' (PDict []) profile)) rows []"
    using assms(1) unfolding apply_generation_profile_def by (elim bind_InrE) auto
  from index_rows_get assms(2) index obtain c e0 where "(c, n, e0) \<in> set rows"
    "e = profile_entry cats (py_get ''deferred_categories'' (PDict []) profile)
      (py_get ''deferred_syscalls'' (PDict []) profile) c n e0" by fastforce
  with assms(3) cats rows show ?thesis
    by (auto simp: profile_entry_enabled profile_entry_category)
qed

text \<open>
  A generation profile only ever narrows: an entry of the index that is enabled for
  generation stands in the manifest under a category the profile enables, is enabled there, and
  its syscall is not deferred; and it carries that category.
\<close>

theorem profile_narrows:
  assumes "apply_generation_profile manifest profile = Inr index" "dict_get n index = Some e" "enabled_in e"
  shows "\<exists>rows c e0 cats. category_syscalls manifest = Inr rows \<and> (c, n, e0) \<in> set rows \<and> enabled_in e0 \<and>
    bind (py_item ''enabled_categories'' profile) str_items = Inr cats \<and> c \<in> set cats \<and>
    n \<notin> set (map fst (items (py_get ''deferred_syscalls'' (PDict []) profile))) \<and>
    py_get ''category'' PNone e = PStr c"
  by (rule profile_narrows_rows [OF assms])

definition demo_manifest :: pyval where
  "demo_manifest = PDict [(''categories'', PDict [(''fs'', PDict [(''syscalls'', PDict
     [(''openat'', PDict [(''name'', PStr ''openat''), (''unsupported_flags'', PList [PStr ''O_PATH''])])])])])]"

lemma profile_narrows_witness:
  "\<exists>index e. apply_generation_profile demo_manifest (PDict [(''enabled_categories'', PList [PStr ''fs''])]) = Inr index \<and>
     dict_get ''openat'' index = Some e \<and> enabled_in e \<and> py_get ''category'' PNone e = PStr ''fs''"
proof -
  let ?p = "PDict [(''enabled_categories'', PList [PStr ''fs''])]"
  obtain index e where i: "apply_generation_profile demo_manifest ?p = Inr index"
    "dict_get ''openat'' index = Some e" "enabled_in e"
    by (simp add: apply_generation_profile_def demo_manifest_def category_syscalls_def py_item_def dict_get_def
        str_items_def profile_entry_enabled enabled_in_def) (simp add: profile_entry_def with_key_def py_get_def
        dict_set_def dict_get_def Let_def)
  from profile_narrows [OF i] i show ?thesis
    by (auto simp: demo_manifest_def category_syscalls_def py_item_def dict_get_def)
qed

end
