(* ===== verification/Preflight.thy ===== *)
theory Preflight
  imports Scml Scheduler
begin

text \<open>
  The SCML preflight gate (\<open>tools/preflight_scml_gate.py\<close>): each entry is built, traced under
  \<open>strace\<close>, matched by \<open>sctrace\<close>, and accepted or rejected with reasons. The build, the two
  processes and the metadata file are the environment. Output targets and evidence directories
  are path computations over the arguments.
\<close>

section \<open>Data\<close>

record process_run =
  pr_returncode :: "int option"
  pr_stdout :: string
  pr_stderr :: string
  pr_timed_out :: bool

record pf_entry =
  pf_program_id :: string
  pf_normalized_path :: string
  pf_meta_path :: string
  pf_reason :: "string list option"
  pf_source_workflow :: "string option"
  pf_source_program_id :: "string option"

record pf_row =
  pw_program_id :: string
  pw_workflow :: string
  pw_reason :: "string list"
  pw_normalized_path :: string
  pw_meta_path :: string
  pw_source_workflow :: string
  pw_source_program_id :: string
  pw_status :: string
  pw_rejection_reasons :: "string list"
  pw_trace_log_path :: string
  pw_sctrace_output_path :: string
  pw_run_root :: string

record pf_args =
  pa_program_id :: "string option"
  pa_limit :: "int option"
  pa_jobs :: "int option"

record pf_env =
  pe_workflow :: string
  pe_taxonomy :: taxonomy
  pe_index :: manifest_index
  pe_build :: "string \<Rightarrow> string res"
  pe_strace :: "string \<Rightarrow> process_run res"
  pe_sctrace :: "string \<Rightarrow> process_run res"
  pe_meta_syscalls :: "string \<Rightarrow> string list res"
  pe_artifact_dir :: string
  pe_eligible_file :: string
  pe_report :: "string list \<Rightarrow> string"

section \<open>Arguments and paths\<close>

definition pf_selected_entries :: "pf_args \<Rightarrow> pf_entry list \<Rightarrow> pf_entry list" where
  "pf_selected_entries args rows =
     (let rows1 = (if present (pa_program_id args)
                   then filter (\<lambda>e. Some (pf_program_id e) = pa_program_id args) rows else rows)
      in case pa_limit args of None \<Rightarrow> rows1 | Some n \<Rightarrow> slice_to n rows1)"

definition is_filtered_run :: "pf_args \<Rightarrow> bool" where
  "is_filtered_run args = (present (pa_program_id args) \<or> pa_limit args \<noteq> None)"

definition filtered_run_label :: "pf_args \<Rightarrow> string" where
  "filtered_run_label args =
     (let parts = (if present (pa_program_id args) then [''program-'' @ take 16 (the (pa_program_id args))] else []) @
                  (case pa_limit args of None \<Rightarrow> [] | Some n \<Rightarrow> [''limit-'' @ int_str n]);
          label = join ''-'' parts
      in if label = [] then ''filtered'' else label)"

record pf_targets =
  pt_eligible_file :: string
  pt_rejections_file :: string
  pt_summary_file :: string

definition output_targets :: "pf_env \<Rightarrow> pf_args \<Rightarrow> pf_targets" where
  "output_targets env args =
     (if \<not> is_filtered_run args then
        \<lparr>pt_eligible_file = pe_eligible_file env, pt_rejections_file = pe_report env [''scml-rejections.jsonl''],
         pt_summary_file = pe_report env [''preflight-summary.json'']\<rparr>
      else let debug_root = pe_report env [''debug-preflight'', filtered_run_label args] in
        \<lparr>pt_eligible_file = debug_root @ ''/eligible.jsonl'',
         pt_rejections_file = debug_root @ ''/scml-rejections.jsonl'',
         pt_summary_file = debug_root @ ''/preflight-summary.json''\<rparr>)"

definition evidence_root :: "pf_env \<Rightarrow> pf_args \<Rightarrow> string \<Rightarrow> string" where
  "evidence_root env args program_id =
     (if \<not> is_filtered_run args then join ''/'' [pe_artifact_dir env, program_id]
      else join ''/'' [pe_artifact_dir env, ''debug'', filtered_run_label args, program_id])"

section \<open>One entry\<close>

definition pf_base_row :: "pf_env \<Rightarrow> pf_args \<Rightarrow> pf_entry \<Rightarrow> pf_row" where
  "pf_base_row env args e =
     (let base_dir = evidence_root env args (pf_program_id e) in
      \<lparr>pw_program_id = pf_program_id e, pw_workflow = pe_workflow env, pw_reason = [],
       pw_normalized_path = pf_normalized_path e, pw_meta_path = pf_meta_path e,
       pw_source_workflow = opt_default [] (pf_source_workflow e),
       pw_source_program_id = opt_default [] (pf_source_program_id e),
       pw_status = [], pw_rejection_reasons = [],
       pw_trace_log_path = base_dir @ ''/preflight.strace.log'',
       pw_sctrace_output_path = base_dir @ ''/preflight.sctrace.txt'', pw_run_root = base_dir\<rparr>)"

definition pf_rejected :: "pf_env \<Rightarrow> pf_args \<Rightarrow> pf_entry \<Rightarrow> string list \<Rightarrow> pf_row" where
  "pf_rejected env args e reasons =
     (pf_base_row env args e)\<lparr>pw_status := ''rejected_by_scml'', pw_rejection_reasons := reasons\<rparr>"

definition pf_accepted :: "pf_env \<Rightarrow> pf_args \<Rightarrow> pf_entry \<Rightarrow> pf_row" where
  "pf_accepted env args e = (pf_base_row env args e)
     \<lparr>pw_status := ''passed'', pw_reason := opt_default [] (pf_reason e) @ [''runtime_scml_preflight_passed'']\<rparr>"

definition base_syscalls :: "string list \<Rightarrow> string list" where
  "base_syscalls full_names = map (before_char CHR ''$'') full_names"

text \<open>\<open>(accepted, rejected)\<close>, exactly one of which is not \<open>None\<close>.\<close>

definition run_preflight :: "pf_env \<Rightarrow> pf_args \<Rightarrow> pf_entry \<Rightarrow> (pf_row option \<times> pf_row option) res" where
  "run_preflight env args e =
     (let reject = (\<lambda>reasons. Inr (None, Some (pf_rejected env args e reasons)));
          tax = reason_of (pe_taxonomy env) in
      bind (pe_build env (pf_program_id e)) (\<lambda>build_status.
      if build_status \<noteq> ''ok'' then bind (tax ''preflight_build_failure'') (\<lambda>r. reject [r]) else
      bind (pe_strace env (pf_program_id e)) (\<lambda>strace_run.
      if pr_timed_out strace_run then bind (tax ''preflight_runtime_timeout'') (\<lambda>r. reject [r])
      else if pr_returncode strace_run \<noteq> Some 0 then
        reject [opt_default ''preflight_runtime_failure'' (dict_get ''preflight_runtime_failure'' (pe_taxonomy env))]
      else
      bind (pe_sctrace env (pf_program_id e)) (\<lambda>sctrace_run.
      if pr_timed_out sctrace_run then bind (tax ''preflight_matcher_timeout'') (\<lambda>r. reject [r]) else
      bind (pe_meta_syscalls env (pf_meta_path e)) (\<lambda>full_names.
      let lines = parse_sctrace_lines (pr_stdout sctrace_run) (pr_stderr sctrace_run) in
      bind (gate_reasons (pe_taxonomy env) (pe_index env) lines (base_syscalls full_names)) (\<lambda>reasons.
      bind (if pr_returncode sctrace_run \<noteq> Some 0
            then bind (tax ''scml_parser_gap'') (\<lambda>r. Inr (reasons @ [r])) else Inr reasons) (\<lambda>reasons.
      let reasons = uniq reasons in
      if reasons \<noteq> [] then reject reasons else Inr (Some (pf_accepted env args e), None))))))))"

section \<open>All entries\<close>

definition pf_effective_jobs :: "pf_args \<Rightarrow> pyval \<Rightarrow> int res" where
  "pf_effective_jobs args cfg = (case pa_jobs args of
       Some n \<Rightarrow> Inr (max 1 n)
     | None \<Rightarrow> let parallel = py_get ''parallel'' (PDict []) cfg in
         if is_dict parallel then bind (py_int (py_get ''jobs'' (PInt 1) parallel)) (\<lambda>n. Inr (max 1 n))
         else Inr 1)"

definition run_preflight_entries ::
  "pf_env \<Rightarrow> pf_args \<Rightarrow> int \<Rightarrow> nat list \<Rightarrow> pf_entry list \<Rightarrow> (pf_row list \<times> pf_row list) res" where
  "run_preflight_entries env args jobs order entries =
     bind (if jobs \<le> 1 \<or> length entries \<le> 1 then map_res (run_preflight env args) entries
           else bind (pool_run (run_preflight env args) entries order) (\<lambda>rs. Inr (somes rs))) (\<lambda>results.
     Inr (somes (map fst results), somes (map snd results)))"

section \<open>What acceptance means\<close>

definition rejection :: "pf_env \<Rightarrow> pf_args \<Rightarrow> pf_entry \<Rightarrow> pf_row \<Rightarrow> bool" where
  "rejection env args e row \<longleftrightarrow>
     (\<exists>reasons. reasons \<noteq> [] \<and> distinct reasons \<and> row = pf_rejected env args e reasons)"

lemma rejectionI: "reasons \<noteq> [] \<Longrightarrow> distinct reasons \<Longrightarrow> rejection env args e (pf_rejected env args e reasons)"
  by (auto simp: rejection_def)

lemma rejectionD:
  assumes "rejection env args e row"
  shows "pw_program_id row = pf_program_id e" "pw_status row = ''rejected_by_scml''" "pw_rejection_reasons row \<noteq> []"
  using assms by (auto simp: rejection_def pf_rejected_def pf_base_row_def Let_def)

lemma run_preflight_one:
  "run_preflight env args e = Inr (a, r) \<Longrightarrow>
     (a = Some (pf_accepted env args e) \<and> r = None) \<or> (a = None \<and> (\<exists>row. r = Some row \<and> rejection env args e row))"
  unfolding run_preflight_def Let_def
  by (auto elim!: bind_InrE split: if_splits intro!: rejectionI)

text \<open>
  C13. The gate lets a program through only on evidence: the build is ok, \<open>strace\<close> and \<open>sctrace\<close>
  both end in time with exit code 0, and every line of the matcher's output is about a syscall the
  program does not contain or a line whose syscall name cannot be read (such a line is dropped as
  irrelevant before the classification that would call it a parser gap).
\<close>

theorem preflight_accepts:
  assumes "run_preflight env args e = Inr (Some row, r)"
  shows "pe_build env (pf_program_id e) = Inr ''ok'' \<and>
    (\<exists>s. pe_strace env (pf_program_id e) = Inr s \<and> \<not> pr_timed_out s \<and> pr_returncode s = Some 0) \<and>
    (\<exists>s names. pe_sctrace env (pf_program_id e) = Inr s \<and> \<not> pr_timed_out s \<and> pr_returncode s = Some 0 \<and>
      pe_meta_syscalls env (pf_meta_path e) = Inr names \<and>
      (\<forall>line \<in> set (parse_sctrace_lines (pr_stdout s) (pr_stderr s)).
        startswith line UNSUPPORTED_PREFIX \<and>
        (\<forall>n. unsupported_call line = Some n \<longrightarrow> n \<notin> before_char CHR ''$'' ` set names)))"
proof -
  obtain s1 s2 names reasons where b: "pe_build env (pf_program_id e) = Inr ''ok''"
    and s1: "pe_strace env (pf_program_id e) = Inr s1" "\<not> pr_timed_out s1" "pr_returncode s1 = Some 0"
    and s2: "pe_sctrace env (pf_program_id e) = Inr s2" "\<not> pr_timed_out s2"
    and names: "pe_meta_syscalls env (pf_meta_path e) = Inr names"
    and g: "gate_reasons (pe_taxonomy env) (pe_index env)
        (parse_sctrace_lines (pr_stdout s2) (pr_stderr s2)) (base_syscalls names) = Inr reasons"
    and fin: "pr_returncode s2 = Some 0" "reasons = []"
    using assms unfolding run_preflight_def Let_def
    by (auto elim!: bind_InrE split: if_splits)
  from gate_reasons_Nil [OF g] fin(2)
  have "relevant_output_lines (parse_sctrace_lines (pr_stdout s2) (pr_stderr s2)) (Some (base_syscalls names)) = []"
    by simp
  then have "\<forall>line \<in> set (parse_sctrace_lines (pr_stdout s2) (pr_stderr s2)).
      startswith line UNSUPPORTED_PREFIX \<and>
      (\<forall>n. unsupported_call line = Some n \<longrightarrow> n \<notin> before_char CHR ''$'' ` set names)"
    by (auto simp: relevant_output_lines_def filter_empty_conv base_syscalls_def split: option.splits)
  with b s1 s2 names fin show ?thesis by blast
qed

text \<open>
  The gate partitions: when no entry raises, every entry is either accepted or rejected (with
  at least one reason), never both and never lost; accepted and rejected rows keep the order of the
  entries, for every completion order of the pool.
\<close>

theorem preflight_partition:
  assumes "run_preflight_entries env args jobs order entries = Inr (accepted, rejected)"
    "completion_order order (length entries)"
  shows "\<exists>keep. accepted = map (pf_accepted env args) (filter keep entries) \<and>
    map pw_program_id rejected = map pf_program_id (filter (\<lambda>e. \<not> keep e) entries) \<and>
    (\<forall>row \<in> set rejected. pw_status row = ''rejected_by_scml'' \<and> pw_rejection_reasons row \<noteq> []) \<and>
    length accepted + length rejected = length entries"
proof -
  let ?f = "run_preflight env args"
  obtain rs where rs: "map_res ?f entries = Inr rs" "accepted = somes (map fst rs)" "rejected = somes (map snd rs)"
  proof (cases "jobs \<le> 1 \<or> length entries \<le> 1")
    case True
    with assms(1) that show thesis by (auto simp: run_preflight_entries_def bind_eq_Inr)
  next
    case False
    with assms(1) obtain slots where slots: "pool_run ?f entries order = Inr slots"
      "accepted = somes (map fst (somes slots))" "rejected = somes (map snd (somes slots))"
      by (auto simp: run_preflight_entries_def bind_eq_Inr)
    have "\<exists>y. ?f x = Inr y \<and> True" if "x \<in> set entries" for x
      using pool_run_raises [OF slots(1) assms(2) that] by blast
    from pool_run_all2 [of entries ?f "\<lambda>_ _. True", OF this assms(2)] slots that show thesis by auto
  qed
  define keep where "keep e = (\<exists>row r. ?f e = Inr (Some row, r))" for e
  have "somes (map fst rs) = map (pf_accepted env args) (filter keep entries) \<and>
    map pw_program_id (somes (map snd rs)) = map pf_program_id (filter (\<lambda>e. \<not> keep e) entries) \<and>
    (\<forall>row \<in> set (somes (map snd rs)). pw_status row = ''rejected_by_scml'' \<and> pw_rejection_reasons row \<noteq> []) \<and>
    length (somes (map fst rs)) + length (somes (map snd rs)) = length entries"
    using rs(1)
  proof (induction entries arbitrary: rs)
    case (Cons e es)
    then obtain a r rs' where y: "?f e = Inr (a, r)" "map_res ?f es = Inr rs'" "rs = (a, r) # rs'"
      by (auto simp: bind_eq_Inr)
    from run_preflight_one [OF y(1)] Cons.IH [OF y(2)] y(1,3) show ?case
      by (auto simp: keep_def rejectionD)
  qed simp
  with rs(2,3) show ?thesis by blast
qed

section \<open>A concrete gate\<close>

definition demo_pf_env :: pf_env where
  "demo_pf_env = \<lparr>pe_workflow = ''asterinas_scml'', pe_taxonomy = [(''preflight_build_failure'', ''build'')],
     pe_index = [], pe_build = (\<lambda>p. Inr (if p = ''p2'' then ''failed'' else ''ok'')),
     pe_strace = (\<lambda>p. Inr \<lparr>pr_returncode = Some 0, pr_stdout = [], pr_stderr = [], pr_timed_out = False\<rparr>),
     pe_sctrace = (\<lambda>p. Inr \<lparr>pr_returncode = Some 0, pr_stdout = ''Unsupported syscall: 12 brk(0)'',
        pr_stderr = [], pr_timed_out = False\<rparr>),
     pe_meta_syscalls = (\<lambda>p. Inr [''openat$dir'', ''close'']), pe_artifact_dir = ''art'',
     pe_eligible_file = ''el'', pe_report = join ''/''\<rparr>"

definition demo_pf_args :: pf_args where
  "demo_pf_args = \<lparr>pa_program_id = None, pa_limit = None, pa_jobs = None\<rparr>"

definition demo_pf_entry :: "string \<Rightarrow> pf_entry" where
  "demo_pf_entry p = \<lparr>pf_program_id = p, pf_normalized_path = [], pf_meta_path = [], pf_reason = None,
     pf_source_workflow = None, pf_source_program_id = None\<rparr>"

definition demo_pf_entries :: "pf_entry list" where
  "demo_pf_entries = map demo_pf_entry [''p1'', ''p2'', ''p3'']"

lemma demo_pf_run:
  "run_preflight demo_pf_env demo_pf_args (demo_pf_entry ''p1'') =
     Inr (Some (pf_accepted demo_pf_env demo_pf_args (demo_pf_entry ''p1'')), None)"
  by code_simp

lemma demo_pf_all:
  "map_sum id (\<lambda>(a, r). (map pw_program_id a, map pw_program_id r))
     (run_preflight_entries demo_pf_env demo_pf_args 1 [] demo_pf_entries) = Inr ([''p1'', ''p3''], [''p2''])"
  by code_simp

lemma preflight_accepts_witness:
  "\<exists>s. pe_sctrace demo_pf_env ''p1'' = Inr s \<and>
    (\<forall>line \<in> set (parse_sctrace_lines (pr_stdout s) (pr_stderr s)). startswith line UNSUPPORTED_PREFIX) \<and>
    parse_sctrace_lines (pr_stdout s) (pr_stderr s) = [''Unsupported syscall: 12 brk(0)'']"
proof -
  have p: "pf_program_id (demo_pf_entry ''p1'') = ''p1''" by (simp add: demo_pf_entry_def)
  from preflight_accepts [OF demo_pf_run, unfolded p] obtain s where s: "pe_sctrace demo_pf_env ''p1'' = Inr s"
    "\<forall>line \<in> set (parse_sctrace_lines (pr_stdout s) (pr_stderr s)). startswith line UNSUPPORTED_PREFIX" by blast
  moreover from s(1) have "s = \<lparr>pr_returncode = Some 0, pr_stdout = ''Unsupported syscall: 12 brk(0)'',
      pr_stderr = [], pr_timed_out = False\<rparr>" by (simp add: demo_pf_env_def)
  moreover have "parse_sctrace_lines ''Unsupported syscall: 12 brk(0)'' [] = [''Unsupported syscall: 12 brk(0)'']"
    by code_simp
  ultimately show ?thesis by auto
qed

lemma preflight_partition_witness:
  "\<exists>accepted rejected. run_preflight_entries demo_pf_env demo_pf_args 2 [2, 0, 1] demo_pf_entries = Inr (accepted, rejected) \<and>
    length accepted + length rejected = 3"
proof -
  have "is_ok (run_preflight_entries demo_pf_env demo_pf_args 2 [2, 0, 1] demo_pf_entries)" by code_simp
  then obtain a r where ar: "run_preflight_entries demo_pf_env demo_pf_args 2 [2, 0, 1] demo_pf_entries = Inr (a, r)"
    by (auto simp: is_ok_iff)
  moreover have "completion_order [2, 0, 1] (length demo_pf_entries)"
    by (auto simp: completion_order_def demo_pf_entries_def)
  ultimately show ?thesis using preflight_partition [OF ar] by (auto simp: demo_pf_entries_def)
qed

end
