(* ===== verification/Json.thy ===== *)
theory Json
  imports PyValue
begin

text \<open>
  The JSON documents the pipeline stores (\<open>core/persistence.py\<close>): \<open>json.dumps\<close> with
  \<open>ensure_ascii=False, sort_keys=True\<close>, compact or with \<open>indent=2\<close>, and \<open>json.loads\<close>, over the
  values of \<open>PyValue\<close>. A file is a text in a store of files.

  A float is written by its \<open>repr\<close> and read to the nearest double. Three things of \<open>json.loads\<close> have
  no value here and raise \<open>NotImplementedErr\<close>: infinite and undefined numbers, the negative zero of
  the floats, and code points beyond Latin-1. Its recursion runs on fuel; twice the
  length of the text is enough (\<open>json_loads_fuel\<close>). The interpreter's own recursion limit is not
  modelled.
\<close>

section \<open>Writing\<close>

definition hex_digit :: "nat \<Rightarrow> char" where
  "hex_digit d = (if d < 10 then char_of (48 + d) else char_of (87 + d))"

text \<open>The escapes \<open>json.dumps\<close> makes with \<open>ensure_ascii=False\<close>.\<close>

definition json_escape :: "char \<Rightarrow> string" where
  "json_escape c = (let n = of_char c :: nat in
     if n = 34 then [CHR 0x5C, CHR 0x22]
     else if n = 92 then [CHR 0x5C, CHR 0x5C]
     else if n = 10 then [CHR 0x5C, CHR ''n'']
     else if n = 13 then [CHR 0x5C, CHR ''r'']
     else if n = 9 then [CHR 0x5C, CHR ''t'']
     else if n = 12 then [CHR 0x5C, CHR ''f'']
     else if n = 8 then [CHR 0x5C, CHR ''b'']
     else if n < 32 then [CHR 0x5C, CHR ''u'', CHR ''0'', CHR ''0'', hex_digit (n div 16), hex_digit (n mod 16)]
     else [c])"

definition json_quote :: "string \<Rightarrow> string" where
  "json_quote s = CHR 0x22 # concat (map json_escape s) @ [CHR 0x22]"

text \<open>\<open>sort_keys=True\<close>, at every depth.\<close>

fun sort_dicts :: "pyval \<Rightarrow> pyval" where
  "sort_dicts (PList vs) = PList (map sort_dicts vs)"
| "sort_dicts (PDict kvs) = PDict (sort_key fst (map (\<lambda>(k, v). (k, sort_dicts v)) kvs))"
| "sort_dicts v = v"

text \<open>
  The layout: \<open>indent=2\<close> breaks the line before every item and before the closing bracket, the
  compact form separates items by a comma and a blank.
\<close>

definition json_break :: "bool \<Rightarrow> nat \<Rightarrow> string" where
  "json_break indent level = (if indent then newline @ replicate (2 * level) (CHR '' '') else [])"

definition json_sep :: "bool \<Rightarrow> nat \<Rightarrow> string" where
  "json_sep indent level = CHR '','' # (if indent then json_break indent level else '' '')"

fun json_encode :: "bool \<Rightarrow> nat \<Rightarrow> pyval \<Rightarrow> string" where
  "json_encode indent level PNone = ''null''"
| "json_encode indent level (PBool b) = (if b then ''true'' else ''false'')"
| "json_encode indent level (PInt i) = int_str i"
| "json_encode indent level (PFloat x) = float_repr x"
| "json_encode indent level (PStr s) = json_quote s"
| "json_encode indent level (PList vs) =
     (if vs = [] then ''[]''
      else CHR ''['' # json_break indent (Suc level) @
        join (json_sep indent (Suc level)) (map (json_encode indent (Suc level)) vs) @
        json_break indent level @ '']'')"
| "json_encode indent level (PDict kvs) =
     (if kvs = [] then ''{}''
      else CHR ''{'' # json_break indent (Suc level) @
        join (json_sep indent (Suc level))
          (map (\<lambda>(k, v). json_quote k @ '': '' @ json_encode indent (Suc level) v) kvs) @
        json_break indent level @ ''}'')"

definition json_dumps :: "bool \<Rightarrow> pyval \<Rightarrow> string" where
  "json_dumps indent v = json_encode indent 0 (sort_dicts v)"

section \<open>Reading\<close>

abbreviation json_error :: "string \<Rightarrow> py_error" where
  "json_error m \<equiv> ValueError (''JSONDecodeError: '' @ m)"

definition json_space :: "char \<Rightarrow> bool" where
  "json_space c = (c \<in> {CHR '' '', CHR 0x09, CHR 0x0A, CHR 0x0D})"

definition json_skip :: "string \<Rightarrow> string" where
  "json_skip s = dropWhile json_space s"

definition hex_value :: "char \<Rightarrow> nat option" where
  "hex_value c = (let n = of_char c :: nat in
     if 48 \<le> n \<and> n \<le> 57 then Some (n - 48)
     else if 97 \<le> n \<and> n \<le> 102 then Some (n - 87)
     else if 65 \<le> n \<and> n \<le> 70 then Some (n - 55) else None)"

text \<open>The four hexadecimal digits after \<open>\u\<close>.\<close>

fun hex4 :: "string \<Rightarrow> nat option" where
  "hex4 (a # b # c # d # s) =
     (case (hex_value a, hex_value b, hex_value c, hex_value d) of
        (Some w, Some x, Some y, Some z) \<Rightarrow> Some (((w * 16 + x) * 16 + y) * 16 + z)
      | _ \<Rightarrow> None)"
| "hex4 _ = None"

definition json_unescape :: "char \<Rightarrow> char option" where
  "json_unescape e = dict_get e
     [(CHR 0x22, CHR 0x22), (CHR 0x5C, CHR 0x5C), (CHR ''/'', CHR ''/''), (CHR ''b'', CHR 0x08),
      (CHR ''f'', CHR 0x0C), (CHR ''n'', CHR 0x0A), (CHR ''r'', CHR 0x0D), (CHR ''t'', CHR 0x09)]"

definition add_char :: "char \<Rightarrow> (string \<times> string) res \<Rightarrow> (string \<times> string) res" where
  "add_char c m = bind m (\<lambda>(s, r). Inr (c # s, r))"

text \<open>What follows an opening quote: the string and the text after its closing quote.\<close>

fun scan_string :: "string \<Rightarrow> (string \<times> string) res" where
  "scan_string [] = Inl (json_error ''Unterminated string'')"
| "scan_string (c # s) =
     (if c = CHR 0x22 then Inr ([], s)
      else if c = CHR 0x5C then
        (case s of [] \<Rightarrow> Inl (json_error ''Unterminated string'')
         | e # t \<Rightarrow>
             if e = CHR ''u'' then
               (case hex4 t of None \<Rightarrow> Inl (json_error ''Invalid uXXXX escape'')
                | Some n \<Rightarrow> if n < 256 then add_char (char_of n) (scan_string (drop 4 t))
                    else Inl (NotImplementedErr ''code point''))
             else (case json_unescape e of None \<Rightarrow> Inl (json_error ''Invalid escape'')
                | Some d \<Rightarrow> add_char d (scan_string t)))
      else if (of_char c :: nat) < 32 then Inl (json_error ''Invalid control character at'')
      else add_char c (scan_string s))"

text \<open>A fraction or an exponent follows: the number is a float.\<close>

definition float_tail :: "string \<Rightarrow> bool" where
  "float_tail r = (case r of
       c # d # t \<Rightarrow> (c = CHR ''.'' \<and> is_digit d) \<or>
         (c \<in> set ''eE'' \<and> (is_digit d \<or> (d \<in> set ''+-'' \<and> t \<noteq> [] \<and> is_digit (hd t))))
     | _ \<Rightarrow> False)"

definition scan_digits :: "string \<Rightarrow> string" where
  "scan_digits t = (if t \<noteq> [] \<and> hd t = CHR ''0'' then ''0'' else takeWhile is_digit t)"

text \<open>The digits after the point, and the exponent.\<close>

definition scan_fraction :: "string \<Rightarrow> string \<times> string" where
  "scan_fraction r =
     (let fs = takeWhile is_digit (tl r) in
      if r \<noteq> [] \<and> hd r = CHR ''.'' \<and> fs \<noteq> [] then (fs, drop (Suc (length fs)) r) else ([], r))"

definition scan_exponent :: "string \<Rightarrow> int \<times> string" where
  "scan_exponent r =
     (let t = tl r; signed = (t \<noteq> [] \<and> hd t \<in> set ''+-''); u = (if signed then tl t else t);
          ds = takeWhile is_digit u; e = int (str_nat ds)
      in if r \<noteq> [] \<and> hd r \<in> set ''eE'' \<and> ds \<noteq> []
         then (if signed \<and> hd t = CHR ''-'' then - e else e, drop (length ds) u) else (0, r))"

definition scan_float :: "bool \<Rightarrow> string \<Rightarrow> string \<Rightarrow> (pyval \<times> string) res" where
  "scan_float neg ds r =
     (let (fs, r1) = scan_fraction r; (e, r2) = scan_exponent r1;
          x = to_double (of_int (int (str_nat (ds @ fs))) * 10 powi (e - int (length fs)))
      in if neg \<and> x = 0 then Inl (NotImplementedErr ''negative zero'')
         else if \<not> finite_double x then Inl (NotImplementedErr ''infinity'')
         else Inr (PFloat (if neg then - x else x), r2))"

definition scan_number :: "string \<Rightarrow> (pyval \<times> string) res" where
  "scan_number s =
     (let neg = (s \<noteq> [] \<and> hd s = CHR ''-''); t = (if neg then tl s else s);
          ds = scan_digits t; r = drop (length ds) t
      in if ds = [] then
           (if startswith t ''Infinity'' \<or> startswith s ''NaN'' then Inl (NotImplementedErr ''float'')
            else Inl (json_error ''Expecting value''))
         else if float_tail r then scan_float neg ds r
         else Inr (PInt (if neg then - int (str_nat ds) else int (str_nat ds)), r))"

definition scan_word :: "string \<Rightarrow> (pyval \<times> string) res" where
  "scan_word s =
     (if startswith s ''null'' then Inr (PNone, drop 4 s)
      else if startswith s ''true'' then Inr (PBool True, drop 4 s)
      else if startswith s ''false'' then Inr (PBool False, drop 5 s)
      else scan_number s)"

definition starts_char :: "char \<Rightarrow> string \<Rightarrow> bool" where
  "starts_char c s = (s \<noteq> [] \<and> hd s = c)"

text \<open>Values, the items after \<open>[\<close> and the members after an opening brace and its blanks.\<close>

fun scan_value :: "nat \<Rightarrow> string \<Rightarrow> (pyval \<times> string) res"
  and scan_items :: "nat \<Rightarrow> string \<Rightarrow> (pyval list \<times> string) res"
  and scan_members :: "nat \<Rightarrow> string \<Rightarrow> ((string \<times> pyval) list \<times> string) res" where
  "scan_value 0 s = Inl RecursionError"
| "scan_value (Suc n) s =
     (if starts_char (CHR 0x22) s then bind (scan_string (tl s)) (\<lambda>(x, r). Inr (PStr x, r))
      else if starts_char (CHR ''['') s then
        (let u = json_skip (tl s) in
         if starts_char (CHR '']'') u then Inr (PList [], tl u)
         else bind (scan_items n u) (\<lambda>(vs, r). Inr (PList vs, r)))
      else if starts_char (CHR ''{'') s then
        (let u = json_skip (tl s) in
         if starts_char (CHR ''}'') u then Inr (PDict [], tl u)
         else bind (scan_members n u) (\<lambda>(kvs, r). Inr (PDict (dict_merge [] kvs), r)))
      else scan_word s)"
| "scan_items 0 s = Inl RecursionError"
| "scan_items (Suc n) s =
     bind (scan_value n s) (\<lambda>(v, r).
     let u = json_skip r in
     if starts_char (CHR '']'') u then Inr ([v], tl u)
     else if starts_char (CHR '','') u then
       bind (scan_items n (json_skip (tl u))) (\<lambda>(vs, r'). Inr (v # vs, r'))
     else Inl (json_error ''Expecting , delimiter''))"
| "scan_members 0 s = Inl RecursionError"
| "scan_members (Suc n) s =
     (if \<not> starts_char (CHR 0x22) s
      then Inl (json_error ''Expecting property name enclosed in double quotes'') else
      bind (scan_string (tl s)) (\<lambda>(k, r).
      let u = json_skip r in
      if \<not> starts_char (CHR '':'') u then Inl (json_error ''Expecting : delimiter'') else
      bind (scan_value n (json_skip (tl u))) (\<lambda>(v, r').
      let w = json_skip r' in
      if starts_char (CHR ''}'') w then Inr ([(k, v)], tl w)
      else if starts_char (CHR '','') w then
        bind (scan_members n (json_skip (tl w))) (\<lambda>(kvs, r''). Inr ((k, v) # kvs, r''))
      else Inl (json_error ''Expecting , delimiter''))))"

definition json_loads :: "string \<Rightarrow> pyval res" where
  "json_loads s =
     bind (scan_value (Suc (2 * length s)) (json_skip s)) (\<lambda>(v, r).
     if json_skip r = [] then Inr v else Inl (json_error ''Extra data''))"

section \<open>Files\<close>

type_synonym store = "string \<Rightarrow> string option"

definition write_text :: "string \<Rightarrow> string \<Rightarrow> store \<Rightarrow> store" where
  "write_text path content st = st(path \<mapsto> content)"

definition read_text :: "string \<Rightarrow> store \<Rightarrow> string res" where
  "read_text path st = opt_res (FileNotFoundError path) (st path)"

text \<open>Iterating over a text file: the lines end at the (universal) newlines only.\<close>

function file_lines_acc :: "string \<Rightarrow> string \<Rightarrow> string list" where
  "file_lines_acc cur [] = (if cur = [] then [] else [rev cur])"
| "file_lines_acc cur (c # s) =
     (if c = CHR 0x0A then rev (c # cur) # file_lines_acc [] s
      else if c = CHR 0x0D then
        rev (CHR 0x0A # cur) # file_lines_acc [] (case s of d # s' \<Rightarrow> if d = CHR 0x0A then s' else s | [] \<Rightarrow> [])
      else file_lines_acc (c # cur) s)"
  by pat_completeness auto
termination
  by (relation "measure (\<lambda>(cur, s). length s)") (auto split: list.splits)

definition file_lines :: "string \<Rightarrow> string list" where
  "file_lines s = file_lines_acc [] s"

definition load_json :: "string \<Rightarrow> store \<Rightarrow> pyval res" where
  "load_json path st = bind (read_text path st) json_loads"

definition dump_json :: "string \<Rightarrow> pyval \<Rightarrow> store \<Rightarrow> store" where
  "dump_json path payload st = st(path \<mapsto> json_dumps True payload @ newline)"

definition dump_jsonl :: "string \<Rightarrow> pyval list \<Rightarrow> store \<Rightarrow> store" where
  "dump_jsonl path rows st = st(path \<mapsto> concat (map (\<lambda>row. json_dumps False row @ newline) rows))"

definition json_rows :: "string list \<Rightarrow> pyval list res" where
  "json_rows ls = map_res json_loads (filter (\<lambda>l. l \<noteq> []) (map strip ls))"

definition load_jsonl :: "string \<Rightarrow> store \<Rightarrow> pyval list res" where
  "load_jsonl path st = bind (read_text path st) (\<lambda>t. json_rows (file_lines t))"

section \<open>Strings read back\<close>

lemma hex_value_digit: "d < 16 \<Longrightarrow> hex_value (hex_digit d) = Some d"
  by (auto simp: hex_value_def hex_digit_def Let_def)

lemma hex_value_0: "hex_value (CHR ''0'') = Some 0"
  by code_simp

lemma escaped_chars:
  "char_of (34 :: nat) = CHR 0x22" "char_of (92 :: nat) = CHR 0x5C" "char_of (10 :: nat) = CHR 0x0A"
  "char_of (13 :: nat) = CHR 0x0D" "char_of (9 :: nat) = CHR 0x09" "char_of (12 :: nat) = CHR 0x0C"
  "char_of (8 :: nat) = CHR 0x08"
  by code_simp+

lemma scan_escape: "scan_string (json_escape c @ u) = add_char c (scan_string u)"
proof -
  define n where "n = (of_char c :: nat)"
  have c: "c = char_of n" by (simp add: n_def)
  have n: "n < 256" by (simp add: n_def)
  consider "n \<in> {34, 92, 10, 13, 9, 12, 8}" | "n < 32" "n \<notin> {10, 13, 9, 12, 8}" | "32 \<le> n" "n \<notin> {34, 92}"
    by fastforce
  then show ?thesis
  proof cases
    case 1
    then have "c \<in> {CHR 0x22, CHR 0x5C, CHR 0x0A, CHR 0x0D, CHR 0x09, CHR 0x0C, CHR 0x08}"
      unfolding c by (elim insertE emptyE) (simp_all add: escaped_chars)
    then show ?thesis
      by (elim insertE emptyE) (simp_all add: json_escape_def json_unescape_def dict_get_def)
  next
    case 2
    then have "((0 * 16 + 0) * 16 + n div 16) * 16 + n mod 16 = n" by simp
    then have "hex4 (CHR ''0'' # CHR ''0'' # hex_digit (n div 16) # hex_digit (n mod 16) # u) = Some n"
      using 2 by (simp add: hex_value_digit hex_value_0)
    with 2 n show ?thesis
      by (simp add: json_escape_def n_def [symmetric] Let_def c [symmetric] del: hex4.simps)
  next
    case 3
    then have "c \<noteq> CHR 0x22" "c \<noteq> CHR 0x5C" by (auto simp: n_def)
    with 3 show ?thesis
      by (simp add: json_escape_def n_def [symmetric] Let_def)
  qed
qed

lemma scan_quoted: "scan_string (concat (map json_escape s) @ CHR 0x22 # r) = Inr (s, r)"
  by (induction s) (simp_all add: scan_escape add_char_def del: scan_string.simps(2), simp add: scan_string.simps)

section \<open>Numbers read back\<close>

definition delimited :: "string \<Rightarrow> bool" where
  "delimited r \<longleftrightarrow> r = [] \<or> hd r \<notin> set ''0123456789.eE''"

lemma scan_digits_nat:
  assumes "delimited r"
  shows "scan_digits (nat_str n @ r) = nat_str n"
proof (cases "n = 0")
  case False
  have "takeWhile is_digit (nat_str n @ r) = nat_str n @ takeWhile is_digit r"
    using nat_str_digits by (simp add: list_all_iff)
  moreover have "takeWhile is_digit r = []"
    using assms by (cases r) (auto simp: delimited_def is_digit_def)
  ultimately show ?thesis using nat_str_lead [OF False] by (simp add: scan_digits_def)
qed (simp add: scan_digits_def nat_str_0)

lemma float_tail_delimited: "delimited r \<Longrightarrow> \<not> float_tail r"
  by (auto simp: delimited_def float_tail_def split: list.splits)

lemma scan_number_int:
  assumes "delimited r"
  shows "scan_number (int_str i @ r) = Inr (PInt i, r)"
proof (cases "i < 0")
  case True
  with assms show ?thesis
    by (simp add: scan_number_def int_str_def scan_digits_nat float_tail_delimited Let_def)
next
  case False
  have "hd (nat_str (nat i)) \<noteq> CHR ''-''" using hd_nat_str [of "nat i"] by (auto simp: is_digit_def)
  with False assms show ?thesis
    by (simp add: scan_number_def int_str_def scan_digits_nat float_tail_delimited Let_def)
qed

text \<open>A number text: sign, integer part, fraction and exponent.\<close>

lemma takeWhile_digits:
  assumes "list_all is_digit ds" "r = [] \<or> \<not> is_digit (hd r)"
  shows "takeWhile is_digit (ds @ r) = ds"
proof -
  have "takeWhile is_digit r = []" using assms(2) by (cases r) auto
  with assms(1) show ?thesis by (simp add: list_all_iff)
qed

lemma delimited_digit: "delimited r \<Longrightarrow> r = [] \<or> \<not> is_digit (hd r)"
  by (auto simp: delimited_def is_digit_def)

lemma scan_exponent_delimited [simp]: "delimited r \<Longrightarrow> scan_exponent r = (0, r)"
  by (auto simp: delimited_def scan_exponent_def)

lemma scan_fraction_point:
  assumes "list_all is_digit fs" "fs \<noteq> []" "r = [] \<or> \<not> is_digit (hd r)"
  shows "scan_fraction (CHR ''.'' # fs @ r) = (fs, r)"
  using takeWhile_digits [OF assms(1,3)] assms(2) by (simp add: scan_fraction_def)

lemma scan_exponent_digits:
  assumes "list_all is_digit ks" "ks \<noteq> []" "delimited r"
  shows "scan_exponent (CHR ''e'' # (if neg then ''-'' else ''+'') @ ks @ r) =
    (if neg then - int (str_nat ks) else int (str_nat ks), r)"
  using takeWhile_digits [OF assms(1) delimited_digit [OF assms(3)]] assms(2)
  by (simp add: scan_exponent_def)

lemma finite_digits: "\<lbrakk>to_double (digits_value ds p) = x; is_double x; 0 < x\<rbrakk> \<Longrightarrow>
    to_double (digits_value ds p) \<noteq> 0 \<and> finite_double (to_double (digits_value ds p))"
  by (auto simp: is_double_def)

text \<open>What \<open>layout_digits\<close> writes is scanned to the double nearest to its digits.\<close>

lemma scan_layout:
  assumes ds: "ds \<noteq> []" "list_all is_digit ds" "hd ds \<noteq> CHR ''0''"
    and x: "to_double (digits_value ds p) = x" "is_double x" "0 < x" and r: "delimited r"
  obtains ip t where "layout_digits ds p @ r = ip @ t" "scan_digits (ip @ t) = ip" "ip \<noteq> []" "float_tail t"
    "scan_float neg ip t = Inr (PFloat (if neg then - x else x), r)"
proof -
  note fin = finite_digits [OF x]
  note nodigit = delimited_digit [OF r]
  have digit0: "is_digit (CHR ''0'')" by (simp add: is_digit_def)
  have zeros: "list_all is_digit (replicate n (CHR ''0''))" for n by (simp add: list_all_iff digit0)
  have point: "\<not> is_digit (CHR ''.'')" "\<not> is_digit (CHR ''e'')" by (simp_all add: is_digit_def)
  have scan: "scan_digits (ip @ c # u) = ip"
    if "list_all is_digit ip" "ip \<noteq> []" "hd ip \<noteq> CHR ''0''" "\<not> is_digit c" for ip c u
    using takeWhile_digits [of ip "c # u"] that by (simp add: scan_digits_def)
  consider (small) "- 4 < p" "p \<le> 0" | (whole) "p \<le> 16" "0 < p" "int (length ds) \<le> p"
    | (inner) "p \<le> 16" "0 < p" "p < int (length ds)" | (exp) "p \<le> - 4 \<or> 16 < p" by linarith
  then show ?thesis
  proof cases
    case small
    let ?fs = "replicate (nat (- p)) (CHR ''0'') @ ds"
    have fs: "list_all is_digit ?fs" "?fs \<noteq> []" using ds zeros by simp_all
    have "digits_value (''0'' @ ?fs) 1 = digits_value ds p"
      using digits_value_zeros(1) [of "Suc (nat (- p))" ds 1] small by simp
    then have v: "of_int (int (str_nat (''0'' @ ?fs))) * 10 powi (0 - int (length ?fs)) = digits_value ds p"
      by (simp add: digits_value_def)
    have "hd (?fs @ r) = hd ?fs" "is_digit (hd ?fs)" using fs by (auto simp: list_all_iff hd_append)
    then have "float_tail (CHR ''.'' # ?fs @ r)" using fs(2) by (cases ?fs) (auto simp: float_tail_def)
    moreover have "scan_float neg ''0'' (CHR ''.'' # ?fs @ r) = Inr (PFloat (if neg then - x else x), r)"
      unfolding scan_float_def scan_fraction_point [OF fs nodigit] Let_def case_prod_conv
        scan_exponent_delimited [OF r] v using fin x(1) by simp
    moreover have "layout_digits ds p @ r = ''0'' @ CHR ''.'' # ?fs @ r"
      using small by (simp add: layout_digits_def)
    ultimately show ?thesis by (intro that [of "''0''"]) (simp_all add: scan_digits_def)
  next
    case whole
    let ?ip = "ds @ replicate (nat p - length ds) (CHR ''0'')"
    have v: "of_int (int (str_nat (?ip @ ''0''))) * 10 powi (0 - int (length ''0'')) = digits_value ds p"
    proof -
      have "digits_value (ds @ replicate (Suc (nat p - length ds)) (CHR ''0'')) p = digits_value ds p"
        by (rule digits_value_zeros)
      moreover have "p - int (length (ds @ replicate (Suc (nat p - length ds)) (CHR ''0''))) = 0 - int (length ''0'')"
        using whole by simp
      moreover have "ds @ replicate (Suc (nat p - length ds)) (CHR ''0'') = ?ip @ ''0''"
        by (simp add: replicate_append_same)
      ultimately show ?thesis unfolding digits_value_def by metis
    qed
    have frac: "scan_fraction (CHR ''.'' # ''0'' @ r) = (''0'', r)"
      by (rule scan_fraction_point [OF _ _ nodigit]) (simp_all add: digit0)
    have "scan_float neg ?ip (CHR ''.'' # ''0'' @ r) = Inr (PFloat (if neg then - x else x), r)"
      unfolding scan_float_def frac Let_def case_prod_conv
        scan_exponent_delimited [OF r] v using fin x(1) by simp
    moreover have "float_tail (CHR ''.'' # ''0'' @ r)" by (simp add: float_tail_def digit0)
    moreover have "layout_digits ds p @ r = ?ip @ CHR ''.'' # ''0'' @ r"
      using whole by (simp add: layout_digits_def)
    moreover have "scan_digits (?ip @ CHR ''.'' # ''0'' @ r) = ?ip"
      using ds zeros point by (intro scan) simp_all
    ultimately show ?thesis using ds(1) by (intro that [of ?ip]) simp_all
  next
    case inner
    let ?ip = "take (nat p) ds" and ?fs = "drop (nat p) ds"
    have parts: "list_all is_digit ?ip" "list_all is_digit ?fs" "?ip \<noteq> []" "?fs \<noteq> []" "hd ?ip \<noteq> CHR ''0''"
      using ds inner set_take_subset [of "nat p" ds] set_drop_subset [of "nat p" ds] by (auto simp: list_all_iff)
    have v: "of_int (int (str_nat (?ip @ ?fs))) * 10 powi (0 - int (length ?fs)) = digits_value ds p"
      using inner by (simp add: digits_value_def)
    have "hd (?fs @ r) = hd ?fs" "is_digit (hd ?fs)" using parts by (auto simp: list_all_iff hd_append)
    then have "float_tail (CHR ''.'' # ?fs @ r)" using parts(4) by (cases ?fs) (auto simp: float_tail_def)
    moreover have "scan_float neg ?ip (CHR ''.'' # ?fs @ r) = Inr (PFloat (if neg then - x else x), r)"
      unfolding scan_float_def scan_fraction_point [OF parts(2,4) nodigit] Let_def case_prod_conv
        scan_exponent_delimited [OF r] v using fin x(1) by simp
    moreover have "layout_digits ds p @ r = ?ip @ CHR ''.'' # ?fs @ r"
      using inner by (simp add: layout_digits_def)
    moreover have "scan_digits (?ip @ CHR ''.'' # ?fs @ r) = ?ip"
      using parts point by (intro scan) simp_all
    ultimately show ?thesis using parts by (intro that [of ?ip]) simp_all
  next
    case exp
    obtain d ts where dt: "ds = d # ts" using ds(1) by (cases ds) auto
    define k where "k = int_str \<bar>p - 1\<bar>"
    define ks where "ks = (if length k < 2 then CHR ''0'' # k else k)"
    define e where "e = CHR ''e'' # (if p - 1 < 0 then ''-'' else ''+'') @ ks @ r"
    have "list_all is_digit k" "k \<noteq> []" using int_str_digits [of "\<bar>p - 1\<bar>"] by (simp_all add: k_def)
    then have ks: "list_all is_digit ks" "ks \<noteq> []" by (auto simp: ks_def digit0)
    have "str_nat k = nat \<bar>p - 1\<bar>" by (simp add: k_def int_str_def)
    then have "int (str_nat ks) = \<bar>p - 1\<bar>" using str_nat_append [of "''0''" k] str_nat_zeros [of 1] by (simp add: ks_def)
    then have se: "scan_exponent e = (p - 1, r)"
      using scan_exponent_digits [OF ks r, of "p - 1 < 0"] by (auto simp: e_def)
    have sf: "scan_fraction ((if ts = [] then [] else CHR ''.'' # ts) @ e) = (ts, e)"
    proof (cases "ts = []")
      case False
      have "e = [] \<or> \<not> is_digit (hd e)" using point by (simp add: e_def)
      with False ds(2) show ?thesis by (simp add: dt scan_fraction_point)
    qed (simp add: scan_fraction_def e_def)
    have v: "of_int (int (str_nat ([d] @ ts))) * 10 powi (p - 1 - int (length ts)) = digits_value ds p"
      by (simp add: digits_value_def dt algebra_simps)
    have "scan_float neg [d] ((if ts = [] then [] else CHR ''.'' # ts) @ e) = Inr (PFloat (if neg then - x else x), r)"
      unfolding scan_float_def sf se Let_def case_prod_conv v using fin x(1) by simp
    moreover have "is_digit (hd ks)" using ks by (cases ks) auto
    then have "float_tail ((if ts = [] then [] else CHR ''.'' # ts) @ e)"
      using ds(2) ks(2) by (cases ts; cases ks) (auto simp: float_tail_def e_def dt)
    moreover have "layout_digits ds p @ r = [d] @ (if ts = [] then [] else CHR ''.'' # ts) @ e"
      using exp by (auto simp: layout_digits_def Let_def dt e_def ks_def k_def)
    moreover have "scan_digits ([d] @ (if ts = [] then [] else CHR ''.'' # ts) @ e) = [d]"
      using ds point scan [of "[d]"] by (auto simp: dt e_def)
    ultimately show ?thesis by (intro that [of "[d]"]) simp_all
  qed
qed

lemma scan_number_float:
  assumes "is_double x" "delimited r"
  shows "scan_number (float_repr x @ r) = Inr (PFloat x, r)"
proof -
  have pos: "scan_number ((if neg then ''-'' else []) @ pos_repr y @ r) = Inr (PFloat (if neg then - y else y), r)"
    if y: "is_double y" "0 < y" for neg y
  proof -
    obtain ds p where ds: "pos_repr y = layout_digits ds p" "ds \<noteq> []" "list_all is_digit ds" "hd ds \<noteq> CHR ''0''"
      "digits_value ds p = decimal_value (repr_decimal y)" using pos_repr_layout [OF y(2)] .
    have "to_double (digits_value ds p) = y" unfolding ds(5)
      by (rule repr_decimal_reads_back) (use y in \<open>simp_all add: is_double_def\<close>)
    from scan_layout [OF ds(2-4) this y assms(2)] obtain ip t where t: "layout_digits ds p @ r = ip @ t"
      "scan_digits (ip @ t) = ip" "ip \<noteq> []" "float_tail t"
      "scan_float neg ip t = Inr (PFloat (if neg then - y else y), r)" by metis
    have "is_digit (hd (layout_digits ds p))" "layout_digits ds p \<noteq> []" using layout_chars [OF ds(2,3)] by simp_all
    then have "hd (ip @ t) \<noteq> CHR ''-''" by (auto simp: t(1) [symmetric] is_digit_def)
    with t show ?thesis unfolding ds(1) by (cases neg) (simp_all add: scan_number_def Let_def)
  qed
  consider "x = 0" | "0 < x" | "0 < - x" by linarith
  then show ?thesis
  proof cases
    case 1
    have "scan_fraction (CHR ''.'' # ''0'' @ r) = (''0'', r)"
      using delimited_digit [OF assms(2)] by (intro scan_fraction_point) (simp_all add: is_digit_def)
    moreover have "str_nat ''00'' = 0" by code_simp
    ultimately have "scan_float False ''0'' (CHR ''.'' # ''0'' @ r) = Inr (PFloat 0, r)"
      using assms(2) by (simp add: scan_float_def finite_double_def)
    then show ?thesis using 1
      by (simp add: float_repr_def scan_number_def scan_digits_def float_tail_def is_digit_def Let_def)
  next
    case 2
    with pos [of x False] assms(1) show ?thesis by (simp add: float_repr_def)
  next
    case 3
    with pos [of "- x" True] assms(1) show ?thesis by (simp add: float_repr_def)
  qed
qed

section \<open>Documents read back\<close>

text \<open>No dictionary holds a key twice, at any depth (a Python dictionary cannot).\<close>

fun json_wf :: "pyval \<Rightarrow> bool" where
  "json_wf (PList vs) = list_all json_wf vs"
| "json_wf (PDict kvs) = (distinct (map fst kvs) \<and> list_all (\<lambda>(k, v). json_wf v) kvs)"
| "json_wf (PFloat x) = is_double x"
| "json_wf v = True"

lemma dict_set_fresh: "k \<notin> fst ` set d \<Longrightarrow> dict_set k v d = d @ [(k, v)]"
  by (induction d) (auto simp: dict_set_def)

lemma dict_merge_append: "distinct (map fst (d @ e)) \<Longrightarrow> dict_merge d e = d @ e"
proof (induction d e rule: dict_merge.induct)
  case (2 d k v e)
  have "dict_set k v d = d @ [(k, v)]"
    using "2.prems" by (auto simp: dict_set_fresh)
  with 2 show ?case by simp
qed simp

lemma json_skip_break [simp]: "json_skip (json_break indent l @ s) = json_skip s"
  by (auto simp: json_skip_def json_break_def json_space_def dropWhile_append)

lemma json_skip_id: "s = [] \<or> \<not> json_space (hd s) \<Longrightarrow> json_skip s = s"
  by (auto simp: json_skip_def dropWhile_id)

lemma json_skip_sep [simp]: "json_skip (tl (json_sep indent l @ s)) = json_skip s"
  by (auto simp: json_sep_def) (simp add: json_skip_def json_space_def)

lemma delimited_simps [simp]:
  "delimited (json_sep indent l @ s)" "delimited (json_break indent l @ CHR '']'' # s)"
  "delimited (json_break indent l @ CHR ''}'' # s)" "delimited newline" "delimited []"
  by (simp_all add: delimited_def json_sep_def json_break_def)

lemma starts_char_simps [simp]:
  "starts_char c (d # s) = (d = c)" "\<not> starts_char c []"
  by (simp_all add: starts_char_def)

text \<open>A document opens with one of these characters, never a blank or a closing bracket.\<close>

definition opener :: "string \<Rightarrow> bool" where
  "opener s \<longleftrightarrow> s \<noteq> [] \<and> hd s \<in> set (CHR 0x22 # ''[{ntf-0123456789'')"

lemma opener_append [simp]: "opener s \<Longrightarrow> opener (s @ t)"
  by (auto simp: opener_def)

lemma opener_skip [simp]: "opener s \<Longrightarrow> json_skip s = s"
  by (rule json_skip_id) (auto simp: opener_def json_space_def)

lemma opener_starts: "opener s \<Longrightarrow> c \<in> set ''],:}'' \<Longrightarrow> \<not> starts_char c s"
  by (cases s) (auto simp: opener_def)

lemma opener_encode [simp]: "opener (json_encode indent l v)"
proof (cases v)
  case (PInt i)
  have "hd (nat_str n) \<in> set ''0123456789''" for n using hd_nat_str [of n] by (simp add: is_digit_def)
  with PInt show ?thesis by (auto simp: opener_def int_str_def)
next
  case (PFloat x)
  have "is_digit c \<Longrightarrow> c \<in> set ''0123456789''" for c by (simp add: is_digit_def)
  with PFloat float_repr_chars(2) [of x] show ?thesis by (auto simp: opener_def)
qed (auto simp: opener_def json_quote_def)

lemma opener_quote [simp]: "opener (json_quote k)"
  by (simp add: opener_def json_quote_def)

lemma join_Cons2: "ws \<noteq> [] \<Longrightarrow> join sep (w # ws) = w @ sep @ join sep ws"
  by (cases ws) simp_all

lemma join_length: "w \<in> set ws \<Longrightarrow> length w \<le> length (join sep ws)"
  by (induction sep ws rule: join.induct) auto

lemma opener_join: "ws \<noteq> [] \<Longrightarrow> list_all opener ws \<Longrightarrow> opener (join sep ws)"
  by (cases ws) (auto simp: neq_Nil_conv, cases "tl ws", auto)

lemma scan_items_join:
  assumes "\<forall>v \<in> set vs. \<forall>n r. delimited r \<longrightarrow> length (enc v) \<le> n \<longrightarrow> scan_value n (enc v @ r) = Inr (v, r)"
    "list_all opener (map enc vs)" "vs \<noteq> []" "length (join (json_sep indent l) (map enc vs)) < n"
  shows "scan_items n (join (json_sep indent l) (map enc vs) @ json_break indent l' @ CHR '']'' # r) = Inr (vs, r)"
  using assms
proof (induction vs arbitrary: n)
  case (Cons v vs)
  obtain m where n: "n = Suc m" using Cons.prems(4) by (cases n) auto
  show ?case
  proof (cases vs)
    case Nil
    then show ?thesis using Cons.prems n by (simp add: json_skip_id json_space_def)
  next
    case (Cons w ws)
    let ?u = "join (json_sep indent l) (map enc vs) @ json_break indent l' @ CHR '']'' # r"
    have ne: "map enc vs \<noteq> []" "vs \<noteq> []" using Cons by auto
    have len: "length (enc v) \<le> m" "length (join (json_sep indent l) (map enc vs)) < m"
      using Cons.prems(4) n ne by (auto simp: join_Cons2 json_sep_def)
    have IH: "scan_items m ?u = Inr (vs, r)"
      using Cons.IH [of m] Cons.prems(1,2) ne len by simp
    have "opener ?u" using opener_join [OF ne(1)] Cons.prems(2) by simp
    then have "json_skip (tl (json_sep indent l @ ?u)) = ?u" by simp
    moreover have "starts_char (CHR '','') (json_sep indent l @ ?u)" "json_skip (json_sep indent l @ ?u) = json_sep indent l @ ?u"
      by (simp_all add: json_sep_def json_skip_def json_space_def)
    moreover have "\<not> starts_char (CHR '']'') (json_sep indent l @ ?u)" by (simp add: json_sep_def)
    moreover have "scan_value m (enc v @ json_sep indent l @ ?u) = Inr (v, json_sep indent l @ ?u)"
      using Cons.prems(1) len(1) by simp
    ultimately show ?thesis using IH ne by (simp add: n join_Cons2 Let_def)
  qed
qed simp

definition json_member :: "(pyval \<Rightarrow> string) \<Rightarrow> string \<times> pyval \<Rightarrow> string" where
  "json_member enc kv = (case kv of (k, v) \<Rightarrow> json_quote k @ '': '' @ enc v)"

lemma json_member_pair [simp]: "json_member enc (k, v) = json_quote k @ '': '' @ enc v"
  by (simp add: json_member_def)

lemma json_member_eq: "json_member enc = (\<lambda>(k, v). json_quote k @ '': '' @ enc v)"
  by (auto simp: json_member_def)

lemma json_encode_PDict: "kvs \<noteq> [] \<Longrightarrow> json_encode indent l (PDict kvs) =
    CHR ''{'' # json_break indent (Suc l) @
      join (json_sep indent (Suc l)) (map (json_member (json_encode indent (Suc l))) kvs) @ json_break indent l @ ''}''"
  by (simp add: json_member_eq)

lemma scan_members_one:
  assumes "scan_value n (x @ r) = Inr (v, r)" "opener x"
  shows "scan_members (Suc n) (json_quote k @ '': '' @ x @ r) =
    (let w = json_skip r in
      if starts_char (CHR ''}'') w then Inr ([(k, v)], tl w)
      else if starts_char (CHR '','') w then
        bind (scan_members n (json_skip (tl w))) (\<lambda>(kvs, r''). Inr ((k, v) # kvs, r''))
      else Inl (json_error ''Expecting , delimiter''))"
proof -
  have "json_skip (CHR '' '' # x @ r) = x @ r"
    using opener_skip [of "x @ r"] assms(2) by (simp add: json_skip_def json_space_def)
  moreover have "json_skip (CHR '':'' # y) = CHR '':'' # y" for y by (simp add: json_skip_def json_space_def)
  ultimately show ?thesis using assms(1) by (simp add: json_quote_def scan_quoted Let_def)
qed

lemma scan_members_join:
  assumes "\<forall>(k, v) \<in> set kvs. \<forall>n r. delimited r \<longrightarrow> length (enc v) \<le> n \<longrightarrow> scan_value n (enc v @ r) = Inr (v, r)"
    "list_all (\<lambda>(k, v). opener (enc v)) kvs" "kvs \<noteq> []"
    "length (join (json_sep indent l) (map (json_member enc) kvs)) < n"
  shows "scan_members n (join (json_sep indent l) (map (json_member enc) kvs) @ json_break indent l' @ CHR ''}'' # r)
    = Inr (kvs, r)"
  using assms
proof (induction kvs arbitrary: n)
  case (Cons kv kvs)
  obtain k v where kv: "kv = (k, v)" by fastforce
  obtain m where n: "n = Suc m" using Cons.prems(4) by (cases n) auto
  have op: "opener (enc v)" using Cons.prems(2) kv by simp
  have sv: "scan_value m (enc v @ q) = Inr (v, q)" if "delimited q" "length (enc v) \<le> m" for q
    using Cons.prems(1) that kv by simp
  show ?case
  proof (cases kvs)
    case Nil
    then have "length (enc v) \<le> m" using Cons.prems(4) n kv by simp
    then have "scan_value m (enc v @ json_break indent l' @ CHR ''}'' # r) = Inr (v, json_break indent l' @ CHR ''}'' # r)"
      by (simp add: sv)
    from scan_members_one [OF this op, of k] show ?thesis
      by (simp add: Nil n kv json_skip_id json_space_def Let_def)
  next
    case (Cons w ws)
    let ?u = "join (json_sep indent l) (map (json_member enc) kvs) @ json_break indent l' @ CHR ''}'' # r"
    have ne: "map (json_member enc) kvs \<noteq> []" "kvs \<noteq> []" using Cons by auto
    have len: "length (enc v) \<le> m" "length (join (json_sep indent l) (map (json_member enc) kvs)) < m"
      using Cons.prems(4) n ne kv by (auto simp: join_Cons2 json_sep_def)
    have IH: "scan_members m ?u = Inr (kvs, r)"
      using Cons.IH [of m] Cons.prems(1,2) ne len by simp
    have "list_all opener (map (json_member enc) kvs)"
      by (auto simp: list_all_iff)
    from opener_join [OF ne(1) this] have "json_skip (tl (json_sep indent l @ ?u)) = ?u" by simp
    moreover have "starts_char (CHR '','') (json_sep indent l @ ?u)" "json_skip (json_sep indent l @ ?u) = json_sep indent l @ ?u"
      by (simp_all add: json_sep_def json_skip_def json_space_def)
    moreover have "\<not> starts_char (CHR ''}'') (json_sep indent l @ ?u)" by (simp add: json_sep_def)
    moreover have "scan_value m (enc v @ json_sep indent l @ ?u) = Inr (v, json_sep indent l @ ?u)"
      using len(1) by (simp add: sv)
    ultimately show ?thesis
      using IH ne scan_members_one [of m "enc v" "json_sep indent l @ ?u" v k] op
      by (simp add: n kv join_Cons2 Let_def)
  qed
qed simp

theorem scan_encoded:
  "json_wf v \<Longrightarrow> delimited r \<Longrightarrow> length (json_encode indent l v) \<le> n \<Longrightarrow>
   scan_value n (json_encode indent l v @ r) = Inr (v, r)"
proof (induction indent l v arbitrary: n r rule: json_encode.induct)
  case (6 indent l vs)
  then obtain m where n: "n = Suc m" by (cases n) (auto split: if_splits)
  show ?case
  proof (cases "vs = []")
    case False
    let ?b = "join (json_sep indent (Suc l)) (map (json_encode indent (Suc l)) vs) @ json_break indent l @ CHR '']'' # r"
    have "opener (join (json_sep indent (Suc l)) (map (json_encode indent (Suc l)) vs))"
      using False by (intro opener_join) (auto simp: list_all_iff)
    then have "opener ?b" by simp
    then have "json_skip ?b = ?b" "\<not> starts_char (CHR '']'') ?b" using opener_starts by auto
    moreover have "scan_items m ?b = Inr (vs, r)"
      using 6 n False by (intro scan_items_join) (auto simp: list_all_iff)
    ultimately show ?thesis using False n by simp
  qed (simp add: n json_skip_def json_space_def)
next
  case (7 indent l kvs)
  then obtain m where n: "n = Suc m" by (cases n) (auto split: if_splits)
  show ?case
  proof (cases "kvs = []")
    case False
    let ?enc = "json_encode indent (Suc l)"
    let ?b = "join (json_sep indent (Suc l)) (map (json_member ?enc) kvs) @ json_break indent l @ CHR ''}'' # r"
    have "opener (join (json_sep indent (Suc l)) (map (json_member ?enc) kvs))"
      using False by (intro opener_join) (auto simp: list_all_iff)
    then have "opener ?b" by simp
    then have skip: "json_skip ?b = ?b" "\<not> starts_char (CHR ''}'') ?b" using opener_starts by auto
    have "length (join (json_sep indent (Suc l)) (map (json_member ?enc) kvs)) < m"
      using "7.prems"(3) [unfolded json_encode_PDict [OF False]] n by simp
    moreover have "\<forall>(k, v) \<in> set kvs. \<forall>n r. delimited r \<longrightarrow> length (?enc v) \<le> n \<longrightarrow> scan_value n (?enc v @ r) = Inr (v, r)"
      using "7.IH" False "7.prems"(1) by (fastforce simp: list_all_iff)
    ultimately have "scan_members m ?b = Inr (kvs, r)"
      using False by (intro scan_members_join) (auto simp: list_all_iff)
    moreover have "dict_merge [] kvs = kvs" using dict_merge_append [of "[]" kvs] "7.prems"(1) by simp
    ultimately show ?thesis using skip False n by (simp add: json_encode_PDict del: json_encode.simps)
  qed (simp add: n json_skip_def json_space_def)
next
  case (3 indent l i)
  then obtain m where n: "n = Suc m" by (cases n) (auto simp: int_str_def split: if_splits)
  have "is_digit c \<Longrightarrow> c \<notin> set ''[{ntf'' \<and> c \<noteq> CHR 0x22" for c by (auto simp: is_digit_def)
  then have "hd (int_str i) \<notin> set ''[{ntf'' \<and> hd (int_str i) \<noteq> CHR 0x22" "int_str i \<noteq> []"
    using hd_nat_str by (auto simp: int_str_def)
  then have "scan_value (Suc m) (int_str i @ r) = scan_number (int_str i @ r)"
    by (cases "int_str i") (auto simp: scan_word_def)
  with 3 show ?case by (simp add: n scan_number_int)
next
  case (4 indent l x)
  then obtain m where n: "n = Suc m" using float_repr_chars(2) [of x] by (cases n) auto
  have "is_digit c \<Longrightarrow> c \<notin> set ''[{ntf'' \<and> c \<noteq> CHR 0x22" for c by (auto simp: is_digit_def)
  then have "hd (float_repr x) \<notin> set ''[{ntf'' \<and> hd (float_repr x) \<noteq> CHR 0x22" "float_repr x \<noteq> []"
    using float_repr_chars(2) [of x] by auto
  then have "scan_value (Suc m) (float_repr x @ r) = scan_number (float_repr x @ r)"
    by (cases "float_repr x") (auto simp: scan_word_def)
  with 4 show ?case by (simp add: n scan_number_float)
next
  case (5 indent l s)
  then obtain m where n: "n = Suc m" by (cases n) (auto simp: json_quote_def)
  show ?case by (simp add: n json_quote_def scan_quoted)
qed (case_tac [!] n, auto simp: scan_word_def split: if_splits)

lemma json_wf_sort [simp]: "json_wf v \<Longrightarrow> json_wf (sort_dicts v)"
proof (induction v)
  case (PDict kvs)
  have keys: "map fst (map (\<lambda>(k, v). (k, sort_dicts v)) kvs) = map fst kvs" by auto
  moreover have "distinct (map fst (sort_key fst xs)) \<longleftrightarrow> distinct (map fst xs)" for xs :: "(string \<times> pyval) list"
    by (metis distinct_sort mset_map mset_sort mset_eq_imp_distinct_iff)
  ultimately have "distinct (map fst (sort_key fst (map (\<lambda>(k, v). (k, sort_dicts v)) kvs)))"
    using PDict.prems by (simp only: keys) simp
  with PDict show ?case by (fastforce simp: list_all_iff)
qed (auto simp: list_all_iff)

lemma json_loads_dumps_blank:
  assumes "json_wf v" "delimited r" "json_skip r = []"
  shows "json_loads (json_dumps indent v @ r) = Inr (sort_dicts v)"
proof -
  let ?t = "json_encode indent 0 (sort_dicts v)"
  have "scan_value (Suc (2 * length (?t @ r))) (?t @ r) = Inr (sort_dicts v, r)"
    using assms by (intro scan_encoded) auto
  moreover have "json_skip (?t @ r) = ?t @ r" by simp
  ultimately show ?thesis using assms(3) by (simp add: json_loads_def json_dumps_def)
qed

lemma json_loads_dumps [simp]: "json_wf v \<Longrightarrow> json_loads (json_dumps indent v) = Inr (sort_dicts v)"
  using json_loads_dumps_blank [of v "[]"] by (simp add: json_skip_def)

text \<open>Every recursive call has consumed a character: the fuel never runs out.\<close>

lemma json_skip_length: "length (json_skip s) \<le> length s"
  by (simp add: json_skip_def length_dropWhile_le)

lemma scan_string_shorter: "scan_string s = Inr (x, r) \<Longrightarrow> length r < length s"
proof (induction "length s" arbitrary: s x r rule: less_induct)
  case less
  have IH: "length t < length s \<Longrightarrow> scan_string t = Inr (y, r) \<Longrightarrow> length r < length t" for t y
    using less.hyps by blast
  show ?case
  proof (cases s)
    case (Cons c u)
    consider "u = r" | t y where "scan_string t = Inr (y, r)" "length t \<le> length u"
      using less.prems Cons
      by (fastforce simp: add_char_def elim!: bind_InrE split: if_splits list.splits option.splits)
    then show ?thesis
    proof cases
      case 2
      with IH [OF _ 2(1)] Cons show ?thesis by simp
    qed (simp add: Cons)
  qed (use less.prems in simp)
qed

lemma scan_float_shorter: "scan_float neg ds s = Inr (v, r) \<Longrightarrow> length r \<le> length s"
  by (auto simp: scan_float_def scan_fraction_def scan_exponent_def Let_def split: if_splits)

lemma scan_number_shorter: "scan_number s = Inr (v, r) \<Longrightarrow> length r < length s"
proof -
  assume a: "scan_number s = Inr (v, r)"
  define t where "t = (if s \<noteq> [] \<and> hd s = CHR ''-'' then tl s else s)"
  from a have ds: "scan_digits t \<noteq> []" "length r \<le> length (drop (length (scan_digits t)) t)"
    by (auto simp: scan_number_def Let_def t_def dest: scan_float_shorter split: if_splits)
  have "t \<noteq> []" using ds(1) by (auto simp: scan_digits_def)
  then have "0 < length t" "0 < length (scan_digits t)" using ds(1) by simp_all
  then have "length r < length t" using ds(2) unfolding length_drop by linarith
  also have "length t \<le> length s" by (simp add: t_def)
  finally show ?thesis .
qed

lemma scan_word_shorter: "scan_word s = Inr (v, r) \<Longrightarrow> length r < length s"
  by (auto simp: scan_word_def startswith_iff scan_number_shorter split: if_splits)

lemma scan_number_fuel: "scan_number s \<noteq> Inl RecursionError"
  by (simp add: scan_number_def scan_float_def Let_def case_prod_beta)

lemma scan_word_fuel: "scan_word s \<noteq> Inl RecursionError"
  by (simp add: scan_word_def scan_number_fuel)

lemma add_char_Inl: "add_char c m = Inl e \<longleftrightarrow> m = Inl e"
  by (cases m) (auto simp: add_char_def)

lemma scan_string_fuel: "scan_string s \<noteq> Inl RecursionError"
  by (induction s rule: scan_string.induct) (auto simp: add_char_Inl split: list.splits option.splits)

lemma starts_char_tl: "starts_char c s \<Longrightarrow> length (tl s) < length s"
  by (cases s) auto

lemma json_skip_tl: "starts_char c u \<Longrightarrow> u = json_skip s \<Longrightarrow> length (json_skip (tl u)) < length s"
  using starts_char_tl json_skip_length by (metis le_less_trans less_le_trans)

lemma scan_shorter:
  "(\<forall>s v r. scan_value n s = Inr (v, r) \<longrightarrow> length r < length s) \<and>
   (\<forall>s vs r. scan_items n s = Inr (vs, r) \<longrightarrow> length r < length s) \<and>
   (\<forall>s kvs r. scan_members n s = Inr (kvs, r) \<longrightarrow> length r < length s)"
proof (induction n)
  case (Suc n)
  then have IH: "scan_value n s = Inr (v, r) \<Longrightarrow> length r < length s"
    "scan_items n s = Inr (vs, r) \<Longrightarrow> length r < length s"
    "scan_members n s = Inr (kvs, r) \<Longrightarrow> length r < length s" for s v r vs kvs by blast+
  have tl: "starts_char c (json_skip s) \<Longrightarrow> length (tl (json_skip s)) < length s"
    "starts_char c (json_skip s) \<Longrightarrow> length (json_skip (tl (json_skip s))) < length s" for c s
    using json_skip_length [of s] starts_char_tl [of c "json_skip s"] json_skip_tl [of c _ s]
    by (fastforce, blast)
  have "length r < length s" if "scan_value (Suc n) s = Inr (v, r)" for s v r
  proof -
    have skip: "length (json_skip (tl s)) \<le> length (tl s)" by (rule json_skip_length)
    from that consider x where "scan_string (tl s) = Inr (x, r)" "starts_char (CHR 0x22) s"
      | "starts_char (CHR ''['') s \<or> starts_char (CHR ''{'') s" "r = tl (json_skip (tl s))"
      | vs where "starts_char (CHR ''['') s" "scan_items n (json_skip (tl s)) = Inr (vs, r)"
      | kvs where "starts_char (CHR ''{'') s" "scan_members n (json_skip (tl s)) = Inr (kvs, r)"
      | "scan_word s = Inr (v, r)"
      by (auto simp: Let_def elim!: bind_InrE split: if_splits)
    then show ?thesis
    proof cases
      case 1
      with scan_string_shorter [OF 1(1)] starts_char_tl [OF 1(2)] show ?thesis by simp
    next
      case 2
      then have "length (tl s) < length s" using starts_char_tl by blast
      with 2 skip show ?thesis by simp
    next
      case 3
      with IH(2) [OF 3(2)] skip starts_char_tl [OF 3(1)] show ?thesis by simp
    next
      case 4
      with IH(3) [OF 4(2)] skip starts_char_tl [OF 4(1)] show ?thesis by simp
    qed (rule scan_word_shorter)
  qed
  moreover have "length r < length s" if "scan_items (Suc n) s = Inr (vs, r)" for s vs r
  proof -
    from that obtain v q where v: "scan_value n s = Inr (v, q)" and
      r: "starts_char (CHR '']'') (json_skip q) \<and> r = tl (json_skip q) \<or>
        (\<exists>ws. starts_char (CHR '','') (json_skip q) \<and> scan_items n (json_skip (tl (json_skip q))) = Inr (ws, r))"
      by (auto simp: Let_def elim!: bind_InrE split: if_splits)
    have "length r < length q" using r tl IH(2) by (metis less_trans)
    with IH(1) [OF v] show ?thesis by simp
  qed
  moreover have "length r < length s" if m: "scan_members (Suc n) s = Inr (kvs, r)" for s kvs r
  proof -
    from m obtain k p v q where k: "starts_char (CHR 0x22) s" "scan_string (tl s) = Inr (k, p)"
      "starts_char (CHR '':'') (json_skip p)" and v: "scan_value n (json_skip (tl (json_skip p))) = Inr (v, q)" and
      r: "starts_char (CHR ''}'') (json_skip q) \<and> r = tl (json_skip q) \<or>
        (\<exists>ws. starts_char (CHR '','') (json_skip q) \<and> scan_members n (json_skip (tl (json_skip q))) = Inr (ws, r))"
      by (auto simp: Let_def elim!: bind_InrE split: if_splits)
    have "length r < length q" using r tl IH(3) by (metis less_trans)
    moreover have "length q < length p" using IH(1) [OF v] tl(2) [OF k(3)] by simp
    ultimately show ?thesis using scan_string_shorter [OF k(2)] starts_char_tl [OF k(1)] by simp
  qed
  ultimately show ?case by blast
qed simp

lemma bind_Inl_iff: "bind m f = Inl e \<longleftrightarrow> m = Inl e \<or> (\<exists>x. m = Inr x \<and> f x = Inl e)"
  by (cases m) auto

lemma scan_fuel:
  "(\<forall>s. 2 * length s < n \<longrightarrow> scan_value n s \<noteq> Inl RecursionError) \<and>
   (\<forall>s. 2 * length s + 1 < n \<longrightarrow> scan_items n s \<noteq> Inl RecursionError) \<and>
   (\<forall>s. 2 * length s + 1 < n \<longrightarrow> scan_members n s \<noteq> Inl RecursionError)"
proof (induction n)
  case (Suc n)
  have tl: "starts_char c (json_skip s) \<Longrightarrow> length (json_skip (tl (json_skip s))) < length s" for c s
    using json_skip_tl by blast
  have tl': "starts_char c s \<Longrightarrow> length (json_skip (tl s)) < length s" for c s
    using json_skip_length starts_char_tl by (rule le_less_trans)
  have short: "scan_value n s = Inr (v, r) \<Longrightarrow> length r < length s" for s v r using scan_shorter by blast
  have IH: "2 * length s < n \<Longrightarrow> scan_value n s \<noteq> Inl RecursionError"
    "2 * length s + 1 < n \<Longrightarrow> scan_items n s \<noteq> Inl RecursionError"
    "2 * length s + 1 < n \<Longrightarrow> scan_members n s \<noteq> Inl RecursionError" for s using Suc by blast+
  have "scan_value (Suc n) s \<noteq> Inl RecursionError" if "2 * length s < Suc n" for s
  proof -
    have "scan_items n (json_skip (tl s)) \<noteq> Inl RecursionError" if "starts_char (CHR ''['') s"
      using IH(2) [of "json_skip (tl s)"] tl' [OF that] \<open>2 * length s < Suc n\<close> by linarith
    moreover have "scan_members n (json_skip (tl s)) \<noteq> Inl RecursionError" if "starts_char (CHR ''{'') s"
      using IH(3) [of "json_skip (tl s)"] tl' [OF that] \<open>2 * length s < Suc n\<close> by linarith
    ultimately show ?thesis
      by (auto simp: Let_def bind_Inl_iff scan_string_fuel scan_word_fuel)
  qed
  moreover have "scan_items (Suc n) s \<noteq> Inl RecursionError" if len: "2 * length s + 1 < Suc n" for s
  proof -
    have "scan_items n (json_skip (tl (json_skip q))) \<noteq> Inl RecursionError"
      if "scan_value n s = Inr (v, q)" "starts_char c (json_skip q)" for v q c
      using IH(2) [of "json_skip (tl (json_skip q))"] tl [OF that(2)] short [OF that(1)] len by linarith
    with IH(1) [of s] len show ?thesis by (auto simp: Let_def bind_Inl_iff)
  qed
  moreover have "scan_members (Suc n) s \<noteq> Inl RecursionError" if len: "2 * length s + 1 < Suc n" for s
  proof -
    have p: "length p + 1 < length s" if "starts_char (CHR 0x22) s" "scan_string (tl s) = Inr (k, p)" for k p
      using scan_string_shorter [OF that(2)] starts_char_tl [OF that(1)] by linarith
    have v: "scan_value n (json_skip (tl (json_skip p))) \<noteq> Inl RecursionError"
      if "starts_char (CHR 0x22) s" "scan_string (tl s) = Inr (k, p)" "starts_char (CHR '':'') (json_skip p)" for k p
      using IH(1) [of "json_skip (tl (json_skip p))"] p [OF that(1,2)] tl [OF that(3)] len by linarith
    have "scan_members n (json_skip (tl (json_skip q))) \<noteq> Inl RecursionError"
      if "starts_char (CHR 0x22) s" "scan_string (tl s) = Inr (k, p)" "starts_char (CHR '':'') (json_skip p)"
        "scan_value n (json_skip (tl (json_skip p))) = Inr (w, q)" "starts_char c (json_skip q)" for k p w q c
      using IH(3) [of "json_skip (tl (json_skip q))"] tl [OF that(5)] short [OF that(4)] tl [OF that(3)] p [OF that(1,2)] len
      by linarith
    with v show ?thesis by (auto simp: Let_def bind_Inl_iff scan_string_fuel)
  qed
  ultimately show ?case by blast
qed simp

lemma json_loads_fuel: "json_loads s \<noteq> Inl RecursionError"
proof -
  have "scan_value (Suc (2 * length s)) (json_skip s) \<noteq> Inl RecursionError"
    using scan_fuel json_skip_length [of s] by (meson le_imp_less_Suc mult_le_mono2)
  then show ?thesis by (auto simp: json_loads_def bind_Inl_iff)
qed

text \<open>What is read has no key twice.\<close>

lemma dict_set_mem: "(k, v) \<in> set (dict_set k' v' d) \<Longrightarrow> (k, v) \<in> set d \<or> v = v'"
  by (induction d) (auto simp: dict_set_def split: if_splits)

lemma dict_merge_wf:
  "distinct (map fst d) \<Longrightarrow> list_all (\<lambda>(k, v). P v) d \<Longrightarrow> list_all (\<lambda>(k, v). P v) e \<Longrightarrow>
   distinct (map fst (dict_merge d e)) \<and> list_all (\<lambda>(k, v). P v) (dict_merge d e)"
proof (induction d e rule: dict_merge.induct)
  case (2 d k v e)
  have "distinct (map fst (dict_set k v d))"
    using distinct_dict_set [of d k v] "2.prems"(1) by (simp add: dict_keys_def)
  moreover have "list_all (\<lambda>(k, v). P v) (dict_set k v d)"
    using "2.prems" dict_set_mem [of _ _ k v d] by (fastforce simp: list_all_iff)
  ultimately show ?case using 2 by simp
qed simp

lemma scan_float_wf: "scan_float neg ds s = Inr (v, r) \<Longrightarrow> json_wf v"
  by (auto simp: scan_float_def Let_def case_prod_beta is_double_to_double split: if_splits)

lemma scan_wf:
  "(\<forall>s v r. scan_value n s = Inr (v, r) \<longrightarrow> json_wf v) \<and>
   (\<forall>s vs r. scan_items n s = Inr (vs, r) \<longrightarrow> list_all json_wf vs) \<and>
   (\<forall>s kvs r. scan_members n s = Inr (kvs, r) \<longrightarrow> list_all (\<lambda>(k, v). json_wf v) kvs)"
proof (induction n)
  case (Suc n)
  have "scan_number s = Inr (v, r) \<Longrightarrow> json_wf v" for s v r
    by (auto simp: scan_number_def Let_def dest: scan_float_wf split: if_splits)
  then have "scan_word s = Inr (v, r) \<Longrightarrow> json_wf v" for s v r
    by (auto simp: scan_word_def split: if_splits)
  moreover have "list_all (\<lambda>(k, v). json_wf v) kvs \<Longrightarrow> json_wf (PDict (dict_merge [] kvs))" for kvs
    using dict_merge_wf [of "[]" json_wf kvs] by simp
  moreover have IH: "scan_value n s = Inr (v, r) \<Longrightarrow> json_wf v" "scan_items n s = Inr (vs, r) \<Longrightarrow> list_all json_wf vs"
    "scan_members n s = Inr (kvs, r) \<Longrightarrow> list_all (\<lambda>(k, v). json_wf v) kvs" for s v vs kvs r
    using Suc by blast+
  ultimately have "json_wf v" if "scan_value (Suc n) s = Inr (v, r)" for s v r
  proof -
    from that consider x where "v = PStr x" | "v = PList [] \<or> v = PDict []"
      | vs u where "v = PList vs" "scan_items n u = Inr (vs, r)"
      | kvs u where "v = PDict (dict_merge [] kvs)" "scan_members n u = Inr (kvs, r)"
      | "scan_word s = Inr (v, r)"
      by (auto simp: Let_def elim!: bind_InrE split: if_splits)
    then show ?thesis
      using IH \<open>\<And>s v r. scan_word s = Inr (v, r) \<Longrightarrow> json_wf v\<close>
        \<open>\<And>kvs. list_all (\<lambda>(k, v). json_wf v) kvs \<Longrightarrow> json_wf (PDict (dict_merge [] kvs))\<close>
      by cases (auto simp del: json_wf.simps(2), simp)
  qed
  moreover have "list_all json_wf vs" if "scan_items (Suc n) s = Inr (vs, r)" for s vs r
  proof -
    from that obtain v q where "scan_value n s = Inr (v, q)"
      "vs = [v] \<or> (\<exists>ws u. vs = v # ws \<and> scan_items n u = Inr (ws, r))"
      by (auto simp: Let_def elim!: bind_InrE split: if_splits) blast+
    then show ?thesis using IH(1,2) by fastforce
  qed
  moreover have "list_all (\<lambda>(k, v). json_wf v) kvs" if "scan_members (Suc n) s = Inr (kvs, r)" for s kvs r
  proof -
    from that obtain k v p q where "scan_value n p = Inr (v, q)"
      "kvs = [(k, v)] \<or> (\<exists>ws u. kvs = (k, v) # ws \<and> scan_members n u = Inr (ws, r))"
      by (auto simp: Let_def elim!: bind_InrE split: if_splits) blast+
    then show ?thesis using IH(1,3) by fastforce
  qed
  ultimately show ?case by blast
qed simp

lemma json_loads_wf: "json_loads s = Inr v \<Longrightarrow> json_wf v"
proof -
  assume "json_loads s = Inr v"
  then obtain r where "scan_value (Suc (2 * length s)) (json_skip s) = Inr (v, r)"
    unfolding json_loads_def by (elim bind_InrE) (auto simp del: scan_value.simps split: if_splits)
  then show ?thesis using scan_wf by blast
qed

section \<open>Files read back\<close>

lemma load_dump_json: "json_wf v \<Longrightarrow> load_json path (dump_json path v st) = Inr (sort_dicts v)"
  by (simp add: load_json_def dump_json_def read_text_def opt_res_def json_loads_dumps_blank json_skip_def json_space_def)

lemma escape_printable: "c' \<in> set (json_escape c) \<Longrightarrow> (32 :: nat) \<le> of_char c'"
proof -
  have "(32 :: nat) \<le> of_char (hex_digit d)" if "d < 16" for d
    using that by (simp add: hex_digit_def)
  moreover have "(of_char c :: nat) < 32 \<Longrightarrow> of_char c div 16 < (16 :: nat)" by simp
  ultimately show "c' \<in> set (json_escape c) \<Longrightarrow> (32 :: nat) \<le> of_char c'"
    by (auto simp: json_escape_def Let_def split: if_splits)
qed

definition printable :: "string \<Rightarrow> bool" where
  "printable s \<longleftrightarrow> list_all (\<lambda>c. (32 :: nat) \<le> of_char c) s"

lemma printable_simps [simp]:
  "printable []" "printable (c # s) \<longleftrightarrow> (32 :: nat) \<le> of_char c \<and> printable s"
  "printable (s @ t) \<longleftrightarrow> printable s \<and> printable t"
  by (auto simp: printable_def)

lemma printable_quote [simp]: "printable (json_quote s)"
  using escape_printable by (auto simp: json_quote_def printable_def list_all_iff)

lemma printable_join: "printable sep \<Longrightarrow> list_all printable ws \<Longrightarrow> printable (join sep ws)"
  by (induction sep ws rule: join.induct) auto

lemma printable_digits [simp]: "printable (nat_str n)"
proof -
  have "printable ''0123456789''" by code_simp
  with nat_str_digits [of n] show ?thesis unfolding printable_def is_digit_def list_all_iff by blast
qed

lemma printable_float: "printable (float_repr x)"
proof -
  have "list_all (\<lambda>c. (32 :: nat) \<le> of_char c) (''.-+e'' @ ''0123456789'')" by code_simp
  then have "(32 :: nat) \<le> of_char c" if "is_digit c \<or> c \<in> set ''.-+e''" for c
    using that unfolding list_all_iff is_digit_def set_append by blast
  with float_repr_chars(1) [of x] show ?thesis unfolding printable_def list_all_iff by blast
qed

lemma printable_encode: "\<not> indent \<Longrightarrow> printable (json_encode indent l v)"
proof (induction indent l v rule: json_encode.induct)
  case (6 indent l vs)
  then have "list_all printable (map (json_encode indent (Suc l)) vs)"
    by (fastforce simp: list_all_iff)
  then have "printable (join (json_sep indent (Suc l)) (map (json_encode indent (Suc l)) vs))"
    using "6.prems" by (intro printable_join) (auto simp: json_sep_def)
  with "6.prems" show ?case by (simp add: json_break_def)
next
  case (7 indent l kvs)
  show ?case
  proof (cases "kvs = []")
    case False
    with 7 have "list_all printable (map (json_member (json_encode indent (Suc l))) kvs)"
      by (fastforce simp: list_all_iff)
    then have "printable (join (json_sep indent (Suc l)) (map (json_member (json_encode indent (Suc l))) kvs))"
      using "7.prems" by (intro printable_join) (auto simp: json_sep_def)
    with "7.prems" show ?thesis unfolding json_encode_PDict [OF False] by (simp add: json_break_def)
  qed simp
qed (auto simp: int_str_def printable_float)

lemma file_lines_rows:
  assumes "list_all printable rows"
  shows "file_lines (concat (map (\<lambda>row. row @ newline) rows)) = map (\<lambda>row. row @ newline) rows"
proof -
  have line: "file_lines_acc cur (s @ CHR 0x0A # t) = rev (CHR 0x0A # rev s @ cur) # file_lines_acc [] t"
    if "printable s" for cur s t
    using that
  proof (induction s arbitrary: cur)
    case (Cons c s)
    then have "c \<noteq> CHR 0x0A" "c \<noteq> CHR 0x0D" by auto
    with Cons show ?case by simp
  qed simp
  show ?thesis using assms unfolding file_lines_def by (induction rows) (simp_all add: line)
qed

text \<open>A document neither starts nor ends with a blank, so stripping its line gives it back.\<close>

lemma encode_last: "\<not> py_space (last (json_encode indent l v))"
proof -
  have "list_all (\<lambda>c. \<not> py_space c) (CHR 0x22 # CHR '']'' # CHR ''}'' # ''le.-+0123456789'')" by code_simp
  then have blank: "\<not> py_space c" if "c \<in> set (CHR 0x22 # CHR '']'' # CHR ''}'' # ''le.-+0123456789'')" for c
    using that unfolding list_all_iff by blast
  have "last (nat_str n) \<in> set ''0123456789''" for n
    using nat_str_digits [of n] unfolding list_all_iff is_digit_def by (metis last_in_set nat_str_ne)
  moreover have "last (float_repr x) \<in> set ''le.-+0123456789''" for x
  proof -
    have "is_digit c \<or> c \<in> set ''.-+e'' \<Longrightarrow> c \<in> set ''le.-+0123456789''" for c by (auto simp: is_digit_def)
    then show ?thesis using float_repr_chars [of x] last_in_set unfolding list_all_iff by blast
  qed
  ultimately show ?thesis by (cases v) (auto simp: int_str_def json_quote_def last_append intro!: blank)
qed

lemma encode_hd: "\<not> py_space (hd (json_encode indent l v))"
proof -
  have "list_all (\<lambda>c. \<not> py_space c) (CHR 0x22 # ''[{ntf-0123456789'')" by code_simp
  then show ?thesis using opener_encode [of indent l v] unfolding list_all_iff opener_def by blast
qed

lemma strip_line:
  assumes "s \<noteq> []" "\<not> py_space (hd s)" "\<not> py_space (last s)"
  shows "strip (s @ newline) = s"
proof -
  have "py_space (CHR 0x0A)" by code_simp
  moreover have "lstrip (s @ newline) = s @ newline"
    using assms(1,2) unfolding lstrip_def by (intro dropWhile_id) auto
  ultimately show ?thesis
    using assms by (simp add: strip_def rstrip_def dropWhile_id hd_rev)
qed

lemma load_dump_jsonl:
  assumes "list_all json_wf rows"
  shows "load_jsonl path (dump_jsonl path rows st) = Inr (map sort_dicts rows)"
proof -
  have strip: "strip (json_dumps False v @ newline) = json_dumps False v" "json_dumps False v \<noteq> []" for v
    using opener_encode [of False 0 "sort_dicts v"]
    by (auto simp: json_dumps_def opener_def intro!: strip_line encode_hd encode_last)
  have "list_all printable (map (json_dumps False) rows)"
    by (auto simp: list_all_iff json_dumps_def intro: printable_encode)
  from file_lines_rows [OF this]
  have "file_lines (concat (map (\<lambda>row. json_dumps False row @ newline) rows)) = map (\<lambda>row. json_dumps False row @ newline) rows"
    by (simp add: comp_def)
  moreover have "json_rows (map (\<lambda>row. json_dumps False row @ newline) rows) = map_res json_loads (map (json_dumps False) rows)"
    by (simp add: json_rows_def comp_def strip)
  moreover have "map_res json_loads (map (json_dumps False) rows) = Inr (map sort_dicts rows)"
    using assms by (induction rows) simp_all
  ultimately show ?thesis by (simp add: load_jsonl_def dump_jsonl_def read_text_def opt_res_def)
qed

lemma sort_dicts_get:
  assumes "json_wf v"
  shows "dict_get k (items (sort_dicts v)) = map_option sort_dicts (dict_get k (items v))"
proof (cases v)
  case (PDict kvs)
  let ?kvs = "map (\<lambda>(k, v). (k, sort_dicts v)) kvs"
  have "json_wf (sort_dicts v)" using assms by (rule json_wf_sort)
  then have "distinct (map fst (sort_key fst ?kvs))" by (simp add: PDict)
  moreover have "distinct (map fst ?kvs)" using assms PDict by (simp add: comp_def case_prod_beta)
  ultimately have "map_of (sort_key fst ?kvs) = map_of ?kvs" by (simp add: map_of_inject_set)
  then show ?thesis by (simp add: PDict dict_get_def map_of_map)
qed (simp_all add: dict_get_def)

text \<open>
  C19. What is stored is what is loaded: a document, its floats (at most seventeen digits each) included, or a list of rows written by \<open>dump_json\<close> or
  \<open>dump_jsonl\<close> is read back by \<open>load_json\<close> and \<open>load_jsonl\<close> as the same data with every dictionary
  in key order, under which each lookup gives what it gave before.
\<close>

theorem persisted_read_back:
  assumes "json_wf v" "list_all json_wf rows"
  shows "load_json path (dump_json path v st) = Inr (sort_dicts v) \<and>
    dict_get k (items (sort_dicts v)) = map_option sort_dicts (dict_get k (items v)) \<and>
    load_jsonl path (dump_jsonl path rows st) = Inr (map sort_dicts rows)"
  using assms by (simp add: load_dump_json load_dump_jsonl sort_dicts_get)

definition demo_document :: pyval where
  "demo_document = PDict [(''name'', PStr [CHR 0x22, CHR 0x0A, CHR 0x85]), (''args'', PList [PInt (- 12), PFloat (1 / 2), PDict []])]"

lemma persisted_read_back_witness:
  "load_jsonl ''f'' (dump_jsonl ''f'' [demo_document] Map.empty) =
     Inr [PDict [(''args'', PList [PInt (- 12), PFloat (1 / 2), PDict []]), (''name'', PStr [CHR 0x22, CHR 0x0A, CHR 0x85])]]"
proof -
  have wf: "json_wf demo_document" by code_simp
  have "sort_dicts demo_document =
      PDict [(''args'', PList [PInt (- 12), PFloat (1 / 2), PDict []]), (''name'', PStr [CHR 0x22, CHR 0x0A, CHR 0x85])]"
    by code_simp
  with persisted_read_back [OF wf, of "[demo_document]" "''f''" Map.empty undefined] wf show ?thesis by simp
qed

end
