(* ===== verification/Reduce.thy ===== *)
theory Reduce
  imports Preflight Verdicts Json
begin

text \<open>
  The reducer (\<open>tools/reduce_case.py\<close>): replaying a program, choosing the campaign case and its
  package, the recorded evidence a blocked reduction falls back to, and the greedy loop that drops
  calls one by one.

  The trial programs live in one temporary directory and are addressed by path, and the loop
  reads the current program back from its path, so the files are an explicit store (a map from
  paths to texts). Inspecting and mutating a program are the two Go tools; their documented
  behaviour is \<open>drop_law\<close>. Every replay takes one tick of the clock, which names its runs, so two
  replays of one program may differ.
\<close>

section \<open>Data\<close>

record info =
  in_program_id :: string
  in_call_count :: int
  in_full_syscall_list :: "string list"

record preflight_report =
  pp_program_id :: string
  pp_status :: string
  pp_reasons :: "string list"
  pp_trace_log_path :: string
  pp_sctrace_output_path :: string
  pp_replay_mode :: string
  pp_recovery_reason :: string

record case_runs =
  cs_reference :: run_result
  cs_candidate :: run_result
  cs_reference_canonical :: canon_trace
  cs_candidate_canonical :: canon_trace

record source_entry =
  so_program_id :: string
  so_comparison :: "comparison option"
  so_reference_runs :: "run_result list"
  so_candidate_run :: "run_result option"
  so_candidate_runs :: "run_result list"
  so_preflight_status :: "string option"
  so_rejection_reasons :: "string list option"
  so_trace_log_path :: "string option"
  so_sctrace_output_path :: "string option"
  so_package_dir :: "string option"
  so_package_slot :: "int option"

record red_env =
  rx_overlay :: bool
  rx_noise :: "string list"
  rx_runtime_syscalls :: "string list"
  rx_rerun_count :: int
  rx_divergence :: "pyval res"
  rx_inspect :: "string \<Rightarrow> info res"
  rx_drop :: "string \<Rightarrow> int \<Rightarrow> string res"
  rx_build :: "string \<Rightarrow> string \<Rightarrow> pyval res"
  rx_execute :: "run_request \<Rightarrow> run_result res"
  rx_batch :: "batch_case list \<Rightarrow> batch_outcome res"
  rx_trace_at :: "string \<Rightarrow> raw_trace option"
  rx_state_at :: "string \<Rightarrow> ext_state option"
  rx_canonical_at :: "string \<Rightarrow> canon_trace option"
  rx_json_at :: "string \<Rightarrow> pyval option"
  rx_sha_at :: "string \<Rightarrow> string option"
  rx_clock :: "nat \<Rightarrow> int"
  rx_taxonomy :: taxonomy
  rx_index :: manifest_index
  rx_strace :: "nat \<Rightarrow> string \<Rightarrow> process_run res"
  rx_sctrace :: "nat \<Rightarrow> string \<Rightarrow> process_run res"
  rx_report :: "string \<Rightarrow> string"

section \<open>Helpers of the selection\<close>

fun call_of_event :: "string list \<Rightarrow> nat \<Rightarrow> nat \<Rightarrow> canon_event list \<Rightarrow> nat option" where
  "call_of_event runtime event_index call_index [] = None"
| "call_of_event runtime event_index call_index (e # es) =
     (if ce_index e = event_index
      then (if ce_name e \<in> set runtime then None else Some call_index)
      else if ce_name e \<in> set runtime then call_of_event runtime event_index call_index es
      else call_of_event runtime event_index (Suc call_index) es)"

definition map_event_index_to_program_call :: "string list \<Rightarrow> canon_trace \<Rightarrow> nat option \<Rightarrow> nat option" where
  "map_event_index_to_program_call runtime t event_index =
     (case event_index of None \<Rightarrow> None | Some i \<Rightarrow> call_of_event runtime i 0 (ct_events t))"

definition select_scml_campaign_row :: "pyval list \<Rightarrow> string option \<Rightarrow> pyval res" where
  "select_scml_campaign_row campaign_results program_id =
     bind (if present program_id
           then bind (map_res (\<lambda>row. bind (py_item ''program_id'' row) (\<lambda>p. Inr (p, row))) campaign_results)
                  (\<lambda>ps. Inr (map snd (filter (\<lambda>(p, row). p = PStr (the program_id)) ps)))
           else Inr (filter (\<lambda>row. py_get ''scml_result_bucket'' PNone row = PStr ''passed_scml_and_diverged'')
                  campaign_results)) (\<lambda>rows.
     case rows of
       [] \<Rightarrow> Inl (SystemExit ''asterinas_scml reduce_case requires a passed_scml_and_diverged result'')
     | selected # _ \<Rightarrow>
         if py_get ''scml_preflight_status'' PNone selected \<noteq> PStr ''passed''
         then Inl (SystemExit ''selected campaign result is not SCML-passed'')
         else if py_get ''scml_result_bucket'' PNone selected \<noteq> PStr ''passed_scml_and_diverged''
         then Inl (SystemExit ''selected campaign result is not a passed_scml_and_diverged case'')
         else Inr selected)"

definition scml_reduction_invariants_hold :: "red_env \<Rightarrow> comparison \<Rightarrow> canon_trace \<Rightarrow> string \<Rightarrow> bool" where
  "scml_reduction_invariants_hold env cmp reference preflight_status =
     (if cmp_equivalent cmp then False
      else if preflight_status \<noteq> ''passed'' then False
      else map_event_index_to_program_call (rx_runtime_syscalls env) reference
             (cmp_first_divergence_index cmp) \<noteq> None)"

text \<open>The package directories in listing order, each with its manifest document if it has one.\<close>

definition package_matches :: "string \<Rightarrow> string \<Rightarrow> string \<times> pyval option \<Rightarrow> (string \<times> int) list res" where
  "package_matches program_id workflow = (\<lambda>(dir, doc). case doc of
       None \<Rightarrow> Inr []
     | Some payload \<Rightarrow>
         if py_get ''workflow'' PNone payload \<noteq> PStr workflow then Inr []
         else (case py_get ''cases'' (PList []) payload of
             PList cases \<Rightarrow> map_res (\<lambda>c. bind (bind (py_item ''slot'' c) py_int) (\<lambda>slot. Inr (dir, slot)))
               (filter (\<lambda>c. py_get ''program_id'' PNone c = PStr program_id) cases)
           | _ \<Rightarrow> Inr []))"

definition find_campaign_package_context ::
  "(string \<times> pyval option) list option \<Rightarrow> string \<Rightarrow> string \<Rightarrow> (string \<times> int) option res" where
  "find_campaign_package_context packages program_id workflow = (case packages of
       None \<Rightarrow> Inr None
     | Some dirs \<Rightarrow> bind (map_res (package_matches program_id workflow) dirs) (\<lambda>ms.
         case concat ms of
           [] \<Rightarrow> Inr None
         | [m] \<Rightarrow> Inr (Some m)
         | _ \<Rightarrow> Inl (SystemExit ''multiple campaign package matches found for reducer replay'')))"

definition or_value :: "pyval \<Rightarrow> pyval \<Rightarrow> pyval" where
  "or_value a b = (if truthy a then a else b)"

fun case_matches :: "red_env \<Rightarrow> int \<Rightarrow> string \<Rightarrow> pyval list \<Rightarrow> bool res" where
  "case_matches env slot digest [] = Inr False"
| "case_matches env slot digest (c # cs) =
     (if \<not> is_dict c then case_matches env slot digest cs
      else bind (py_int (py_get ''slot'' (PInt (- 1)) c)) (\<lambda>s.
        if s \<noteq> slot then case_matches env slot digest cs
        else case py_get ''binary_sha256'' PNone c of
          PStr expected \<Rightarrow> Inr (expected \<noteq> [] \<and> digest = expected)
        | _ \<Rightarrow> Inr False))"

definition package_binary_matches_current_build :: "red_env \<Rightarrow> string \<Rightarrow> int \<Rightarrow> pyval \<Rightarrow> bool res" where
  "package_binary_matches_current_build env package_dir slot build_result =
     (let binary = or_value (py_get ''candidate_testcase_bin'' PNone build_result)
            (py_get ''testcase_bin'' PNone build_result)
      in if \<not> truthy binary then Inr False
         else case rx_sha_at env (py_str binary) of
           None \<Rightarrow> Inr False
         | Some digest \<Rightarrow>
             (case rx_json_at env (package_dir @ ''/package-manifest.json'') of
                None \<Rightarrow> Inr False
              | Some manifest \<Rightarrow> (case py_get ''cases'' PNone manifest of
                    PList cases \<Rightarrow> case_matches env slot digest cases
                  | _ \<Rightarrow> Inr False)))"

section \<open>Replaying a program\<close>

definition rx_load :: "red_env \<Rightarrow> run_result \<Rightarrow> canon_trace res" where
  "rx_load env r =
     bind (opt_res (TypeError ''path'') (rr_trace_json_path r)) (\<lambda>tp.
     bind (opt_res (FileNotFoundError tp) (rx_trace_at env tp)) (\<lambda>raw.
     bind (opt_res (TypeError ''path'') (rr_external_state_path r)) (\<lambda>sp.
     bind (opt_res (FileNotFoundError sp) (rx_state_at env sp)) (\<lambda>st. canonicalize raw st))))"

definition rx_request :: "string \<Rightarrow> Side \<Rightarrow> string \<Rightarrow> pyval option \<Rightarrow> (string \<times> int) option \<Rightarrow> run_request" where
  "rx_request program_id side run_id inject package = \<lparr>rq_program_id = program_id, rq_side = side,
     rq_run_id = run_id, rq_inject = inject, rq_package = package\<rparr>"

definition reference_replay :: "red_env \<Rightarrow> string \<Rightarrow> string \<Rightarrow> (run_result \<times> canon_trace) res" where
  "reference_replay env program_id run_id =
     bind (rx_execute env (rx_request program_id REFERENCE run_id None None)) (\<lambda>r.
     bind (rx_load env r) (\<lambda>c. Inr (r, c)))"

text \<open>The first candidate run, with the package it ran in.\<close>

definition candidate_replay ::
  "red_env \<Rightarrow> string \<Rightarrow> string \<Rightarrow> pyval \<Rightarrow> (string \<times> int) option \<Rightarrow>
   (run_result \<times> (string option \<times> int option)) res" where
  "candidate_replay env program_id run_id build_result package =
     (if rx_overlay env then
        bind (case package of None \<Rightarrow> Inr None
              | Some (d, s) \<Rightarrow> bind (package_binary_matches_current_build env d s build_result)
                  (\<lambda>ok. Inr (if ok then package else None))) (\<lambda>package.
        case package of
          Some (d, s) \<Rightarrow>
            bind (rx_execute env (rx_request program_id CANDIDATE run_id None package)) (\<lambda>r.
            Inr (r, (Some d, Some s)))
        | None \<Rightarrow>
            bind (rx_batch env [\<lparr>bc_program_id = program_id, bc_run_id = run_id, bc_inject = None,
                    bc_prepared_case = PNone\<rparr>]) (\<lambda>batch.
            bind (opt_res (KeyError program_id) (dict_get program_id (bo_results batch))) (\<lambda>r.
            bind (opt_res (KeyError program_id) (dict_get program_id (bo_slots batch))) (\<lambda>slot.
            Inr (r, (bo_package_dir batch, Some slot))))))
      else bind (rx_divergence env) (\<lambda>spec.
        bind (rx_execute env (rx_request program_id CANDIDATE run_id (Some spec) None)) (\<lambda>r.
        Inr (r, (case package of None \<Rightarrow> (None, None) | Some (d, s) \<Rightarrow> (Some d, Some s))))))"

fun replay_triage ::
  "red_env \<Rightarrow> string \<Rightarrow> string \<Rightarrow> string option \<times> int option \<Rightarrow> nat list \<Rightarrow> comparison \<times> case_runs \<Rightarrow>
   (comparison \<times> case_runs) res" where
  "replay_triage env program_id run_id package [] s = Inr s"
| "replay_triage env program_id run_id package (attempt # attempts) s =
     bind (reference_replay env program_id (run_id @ ''-reference-triage'' @ nat_str attempt)) (\<lambda>(r, rc).
     case package of
       (Some d, Some slot) \<Rightarrow>
         bind (rx_execute env (rx_request program_id CANDIDATE (run_id @ ''-candidate-triage'' @ nat_str attempt)
                 None (Some (d, slot)))) (\<lambda>c.
         bind (rx_load env c) (\<lambda>cc.
         bind (compare_canonical (rx_noise env) rc cc) (\<lambda>cmp.
         replay_triage env program_id run_id package attempts
           (cmp, \<lparr>cs_reference = r, cs_candidate = c, cs_reference_canonical = rc, cs_candidate_canonical = cc\<rparr>))))
     | _ \<Rightarrow> Inl (SystemExit ''missing packaged candidate context for asterinas_scml reducer replay''))"

text \<open>\<open>run_case\<close> on the text at the path; \<open>tick\<close> is its reading of the clock.\<close>

definition run_case ::
  "red_env \<Rightarrow> nat \<Rightarrow> (string \<times> int) option \<Rightarrow> string \<Rightarrow> (info \<times> comparison \<times> case_runs) res" where
  "run_case env tick package program_text =
     bind (rx_inspect env program_text) (\<lambda>info.
     let program_id = in_program_id info in
     bind (rx_build env program_id program_text) (\<lambda>build_result.
     let run_id = ''reduce-'' @ take 12 program_id @ ''-'' @ int_str (rx_clock env tick) in
     bind (reference_replay env program_id (run_id @ ''-reference'')) (\<lambda>(r, rc).
     bind (candidate_replay env program_id (run_id @ ''-candidate'') build_result package) (\<lambda>(c, pkg).
     bind (rx_load env c) (\<lambda>cc.
     bind (compare_canonical (rx_noise env) rc cc) (\<lambda>cmp.
     let first = (cmp, \<lparr>cs_reference = r, cs_candidate = c, cs_reference_canonical = rc,
           cs_candidate_canonical = cc\<rparr>) in
     bind (if rx_overlay env \<and> (rr_status c \<noteq> ''ok'' \<or> \<not> cmp_equivalent cmp)
           then replay_triage env program_id run_id pkg [0..<nat (rx_rerun_count env)] first
           else Inr first) (\<lambda>(cmp, runs). Inr (info, cmp, runs))))))))"

section \<open>Preflight and recorded evidence\<close>

definition scml_preflight_for_program :: "red_env \<Rightarrow> nat \<Rightarrow> string \<Rightarrow> preflight_report res" where
  "scml_preflight_for_program env tick program_text =
     (let tax = rx_taxonomy env; reason = (\<lambda>k. opt_default k (dict_get k tax)) in
      bind (rx_inspect env program_text) (\<lambda>info.
      let program_id = in_program_id info;
          report = (\<lambda>reasons. \<lparr>pp_program_id = program_id,
            pp_status = (if reasons = [] then ''passed'' else ''rejected_by_scml''), pp_reasons = reasons,
            pp_trace_log_path = rx_report env (''minimized-preflight/'' @ program_id @ ''/preflight.strace.log''),
            pp_sctrace_output_path = rx_report env (''minimized-preflight/'' @ program_id @ ''/preflight.sctrace.txt''),
            pp_replay_mode = ''fresh_replay'', pp_recovery_reason = []\<rparr>) in
      bind (rx_build env program_id program_text) (\<lambda>build_result.
      bind (py_item ''status'' build_result) (\<lambda>build_status.
      if build_status \<noteq> PStr ''ok''
      then Inl (SystemExit ''failed to build minimized testcase for SCML preflight'')
      else bind (rx_strace env tick program_id) (\<lambda>strace_run.
      if pr_timed_out strace_run then Inr (report [reason ''preflight_runtime_timeout'']) else
      bind (rx_sctrace env tick program_id) (\<lambda>sctrace_run.
      if pr_timed_out sctrace_run then Inr (report [reason ''preflight_matcher_timeout'']) else
      bind (gate_reasons tax (rx_index env) (parse_sctrace_lines (pr_stdout sctrace_run) (pr_stderr sctrace_run))
             (base_syscalls (in_full_syscall_list info))) (\<lambda>reasons.
      Inr (report (uniq (filter (\<lambda>r. r \<noteq> [])
        (reasons @
         (if pr_returncode strace_run \<noteq> Some 0 then [reason ''preflight_runtime_failure''] else []) @
         (if pr_returncode sctrace_run \<noteq> Some 0 then [reason ''scml_parser_gap''] else []))))))))))))"

definition campaign_package_context :: "source_entry option \<Rightarrow> (string \<times> int) option" where
  "campaign_package_context source = (case source of None \<Rightarrow> None
     | Some e \<Rightarrow> if \<not> present (so_package_dir e) then None
         else map_option (Pair (the (so_package_dir e))) (so_package_slot e))"

definition latest_saved_candidate_run :: "source_entry \<Rightarrow> run_result option" where
  "latest_saved_candidate_run e = (case so_candidate_run e of Some r \<Rightarrow> Some r
     | None \<Rightarrow> if so_candidate_runs e = [] then None else Some (last (so_candidate_runs e)))"

definition latest_saved_reference_run :: "source_entry \<Rightarrow> run_result option" where
  "latest_saved_reference_run e =
     (if so_reference_runs e = [] then None else Some (last (so_reference_runs e)))"

definition load_saved_canonical_trace :: "red_env \<Rightarrow> run_result option \<Rightarrow> canon_trace option" where
  "load_saved_canonical_trace env run = (case run of None \<Rightarrow> None
     | Some r \<Rightarrow> if \<not> present (rr_trace_json_path r) then None
         else rx_canonical_at env (the (rr_trace_json_path r)))"

type_synonym evidence = "comparison \<times> case_runs \<times> preflight_report"

definition recorded_source_evidence :: "red_env \<Rightarrow> info \<Rightarrow> source_entry option \<Rightarrow> evidence option" where
  "recorded_source_evidence env info source = (case source of None \<Rightarrow> None
     | Some e \<Rightarrow> (case so_comparison e of None \<Rightarrow> None
       | Some cmp \<Rightarrow>
           (case (latest_saved_reference_run e, latest_saved_candidate_run e,
                  load_saved_canonical_trace env (latest_saved_reference_run e),
                  load_saved_canonical_trace env (latest_saved_candidate_run e)) of
              (Some r, Some c, Some rc, Some cc) \<Rightarrow>
                let preflight = \<lparr>pp_program_id = in_program_id info,
                      pp_status = opt_default ''unknown'' (so_preflight_status e),
                      pp_reasons = opt_default [] (so_rejection_reasons e),
                      pp_trace_log_path = opt_default [] (so_trace_log_path e),
                      pp_sctrace_output_path = opt_default [] (so_sctrace_output_path e),
                      pp_replay_mode = ''recovery_only'', pp_recovery_reason = []\<rparr>
                in if \<not> scml_reduction_invariants_hold env cmp rc (pp_status preflight) then None
                   else Some (cmp, \<lparr>cs_reference = r, cs_candidate = c, cs_reference_canonical = rc,
                                    cs_candidate_canonical = cc\<rparr>, preflight)
            | _ \<Rightarrow> None)))"

definition require_recorded_source_evidence ::
  "red_env \<Rightarrow> info \<Rightarrow> source_entry option \<Rightarrow> string \<Rightarrow> evidence res" where
  "require_recorded_source_evidence env info source reason =
     (case recorded_source_evidence env info source of
        None \<Rightarrow> Inl (SystemExit ''asterinas_scml reduce_case requires a passed_scml_and_diverged source testcase'')
      | Some (cmp, runs, preflight) \<Rightarrow>
          Inr (cmp, runs, preflight\<lparr>pp_replay_mode := ''recovery_only'', pp_recovery_reason := reason\<rparr>))"

section \<open>The greedy loop\<close>

record confirmation =
  cf_attempt :: nat
  cf_equivalent :: bool
  cf_first_divergence_index :: "nat option"
  cf_reference_status :: string
  cf_candidate_status :: string

fun is_system_exit :: "py_error \<Rightarrow> bool" where
  "is_system_exit (SystemExit m) = True"
| "is_system_exit _ = False"

text \<open>\<open>_confirm_divergence\<close>: the attempts of the loop, the runs so far, the tick; it returns
  whether all diverged, the runs and the next tick.\<close>

fun confirm_divergence ::
  "red_env \<Rightarrow> (string \<times> int) option \<Rightarrow> string \<Rightarrow> nat list \<Rightarrow> confirmation list \<Rightarrow> nat \<Rightarrow>
   (bool \<times> confirmation list \<times> nat) res" where
  "confirm_divergence env package program_text [] runs tick = Inr (True, runs, tick)"
| "confirm_divergence env package program_text (attempt # attempts) runs tick =
     (case run_case env tick package program_text of
        Inl e \<Rightarrow> if is_system_exit e then Inr (False, runs, Suc tick) else Inl e
      | Inr (info, cmp, cs) \<Rightarrow>
          let runs' = runs @ [\<lparr>cf_attempt = attempt, cf_equivalent = cmp_equivalent cmp,
                cf_first_divergence_index = cmp_first_divergence_index cmp,
                cf_reference_status = rr_status (cs_reference cs),
                cf_candidate_status = rr_status (cs_candidate cs)\<rparr>]
          in if cmp_equivalent cmp then Inr (False, runs', Suc tick)
             else confirm_divergence env package program_text attempts runs' (Suc tick))"

record reduction =
  rs_store :: store
  rs_program :: string
  rs_text :: string
  rs_info :: info
  rs_comparison :: comparison
  rs_runs :: case_runs
  rs_preflight :: "preflight_report option"
  rs_confirmations :: "confirmation list"
  rs_tick :: nat

definition trial_path :: "string \<Rightarrow> nat \<Rightarrow> string" where
  "trial_path tempdir drop_index = tempdir @ ''/drop-'' @ nat_str drop_index @ ''.syz''"

text \<open>
  The tests a trial has to pass: \<open>None\<close> is \<open>continue\<close>; the second component is the next tick. The
  preflight of the overlay is \<open>Some None\<close> when there is none to run.
\<close>

definition trial_preflight ::
  "red_env \<Rightarrow> nat \<Rightarrow> string \<Rightarrow> comparison \<Rightarrow> case_runs \<Rightarrow> preflight_report option option res" where
  "trial_preflight env tick t cmp runs =
     (if \<not> rx_overlay env then Inr (Some None)
      else case scml_preflight_for_program env tick t of
        Inl e \<Rightarrow> if is_system_exit e then Inr None else Inl e
      | Inr p \<Rightarrow> if \<not> scml_reduction_invariants_hold env cmp (cs_reference_canonical runs) (pp_status p)
                then Inr None else Inr (Some (Some p)))"

type_synonym trial = "info \<times> comparison \<times> case_runs \<times> preflight_report option \<times> confirmation list"

definition trial_verdict ::
  "red_env \<Rightarrow> (string \<times> int) option \<Rightarrow> nat \<Rightarrow> string \<Rightarrow> (trial option \<times> nat) res" where
  "trial_verdict env package tick t =
     (case run_case env tick None t of
        Inl e \<Rightarrow> if is_system_exit e then Inr (None, Suc tick) else Inl e
      | Inr (info, cmp, runs) \<Rightarrow>
          if cmp_equivalent cmp then Inr (None, Suc tick)
          else
            bind (trial_preflight env (Suc tick) t cmp runs) (\<lambda>preflight. case preflight of
              None \<Rightarrow> Inr (None, Suc (Suc tick))
            | Some pre \<Rightarrow>
                bind (confirm_divergence env (if rx_overlay env then package else None) t [0..<3] []
                       (Suc (Suc tick))) (\<lambda>(all_diverged, step_runs, tick').
                Inr (if all_diverged then Some (info, cmp, runs, pre, step_runs) else None, tick'))))"

text \<open>
  The body of the inner loop for one index: \<open>None\<close> in the second component is \<open>continue\<close>, \<open>Some\<close> the
  accepted state and \<open>break\<close>. The trial file is written in either case.
\<close>

definition try_drop ::
  "red_env \<Rightarrow> (string \<times> int) option \<Rightarrow> string \<Rightarrow> nat \<Rightarrow> reduction \<Rightarrow> (reduction \<times> reduction option) res" where
  "try_drop env package tempdir drop_index s =
     bind (read_text (rs_program s) (rs_store s)) (\<lambda>program_text.
     bind (rx_drop env program_text (int drop_index)) (\<lambda>trial_text.
     let path = trial_path tempdir drop_index;
         st = write_text path trial_text (rs_store s) in
     bind (trial_verdict env package (rs_tick s) trial_text) (\<lambda>(accepted, tick).
     let s1 = s\<lparr>rs_store := st, rs_tick := tick\<rparr> in
     case accepted of
       None \<Rightarrow> Inr (s1, None)
     | Some (info, cmp, runs, preflight, step_runs) \<Rightarrow>
         bind (read_text path st) (\<lambda>text.
         Inr (s1, Some (s1\<lparr>rs_text := text, rs_info := info, rs_comparison := cmp,
                rs_runs := runs, rs_preflight := preflight, rs_program := path,
                rs_confirmations := rs_confirmations s @ step_runs\<rparr>))))))"

text \<open>The \<open>for\<close> loop: \<open>True\<close> when a drop was accepted.\<close>

fun try_drops ::
  "red_env \<Rightarrow> (string \<times> int) option \<Rightarrow> string \<Rightarrow> nat list \<Rightarrow> reduction \<Rightarrow> (bool \<times> reduction) res" where
  "try_drops env package tempdir [] s = Inr (False, s)"
| "try_drops env package tempdir (i # is) s =
     bind (try_drop env package tempdir i s) (\<lambda>(s', accepted). case accepted of
       Some s'' \<Rightarrow> Inr (True, s'')
     | None \<Rightarrow> try_drops env package tempdir is s')"

definition drop_indexes :: "info \<Rightarrow> nat list" where
  "drop_indexes info = rev [0..<nat (in_call_count info)]"

text \<open>The \<open>while changed\<close> loop; \<open>None\<close> when the fuel runs out.\<close>

fun reduce_loop ::
  "red_env \<Rightarrow> (string \<times> int) option \<Rightarrow> string \<Rightarrow> nat \<Rightarrow> reduction \<Rightarrow> reduction res option" where
  "reduce_loop env package tempdir 0 s = None"
| "reduce_loop env package tempdir (Suc fuel) s =
     (case try_drops env package tempdir (drop_indexes (rs_info s)) s of
        Inl e \<Rightarrow> Some (Inl e)
      | Inr (changed, s') \<Rightarrow> if changed then reduce_loop env package tempdir fuel s' else Some (Inr s'))"

text \<open>
  What \<open>greedy_reduce\<close> does before the loop: the first replay, and the recorded evidence when it
  fails or no longer shows the divergence. The flag is \<open>reduction_blocked\<close>.
\<close>

definition start_reduction ::
  "red_env \<Rightarrow> source_entry option \<Rightarrow> string \<Rightarrow> store \<Rightarrow> (bool \<times> reduction) res" where
  "start_reduction env source program_path st =
     bind (read_text program_path st) (\<lambda>text.
     let package = campaign_package_context source;
         state = (\<lambda>info cmp runs preflight tick. \<lparr>rs_store = st, rs_program = program_path, rs_text = text,
            rs_info = info, rs_comparison = cmp, rs_runs = runs, rs_preflight = preflight,
            rs_confirmations = [], rs_tick = tick\<rparr>) in
     bind (case run_case env 0 package text of
             Inr (info, cmp, runs) \<Rightarrow> Inr (False, info, cmp, runs, None)
           | Inl e \<Rightarrow>
               if \<not> is_system_exit e \<or> \<not> rx_overlay env then Inl e
               else bind (rx_inspect env text) (\<lambda>info.
                    bind (require_recorded_source_evidence env info source ''fresh replay failed before reduction'')
                      (\<lambda>(cmp, runs, preflight). Inr (True, info, cmp, runs, Some preflight))))
       (\<lambda>(blocked, info, cmp, runs, preflight).
     if \<not> rx_overlay env then Inr (blocked, state info cmp runs preflight 1)
     else
       bind (case preflight of Some p \<Rightarrow> Inr (blocked, cmp, runs, p)
             | None \<Rightarrow>
                 (case scml_preflight_for_program env 1 text of
                    Inr p \<Rightarrow> Inr (blocked, cmp, runs, p)
                  | Inl e \<Rightarrow>
                      if \<not> is_system_exit e then Inl e
                      else bind (require_recorded_source_evidence env info source ''fresh replay preflight failed'')
                        (\<lambda>(cmp, runs, p). Inr (True, cmp, runs, p)))) (\<lambda>(blocked, cmp, runs, p).
       if scml_reduction_invariants_hold env cmp (cs_reference_canonical runs) (pp_status p)
       then Inr (blocked, state info cmp runs (Some p) 2)
       else bind (require_recorded_source_evidence env info source
                   ''fresh replay did not preserve the recorded divergence or SCML pass status'')
              (\<lambda>(cmp, runs, p). Inr (True, state info cmp runs (Some p) 2)))))"

text \<open>\<open>confirmed\<close> is the negation of the flag, and the fuel is one more than the call count.\<close>

definition greedy_reduce ::
  "red_env \<Rightarrow> source_entry option \<Rightarrow> string \<Rightarrow> string \<Rightarrow> store \<Rightarrow> (bool \<times> reduction) res option" where
  "greedy_reduce env source tempdir program_path st =
     (case start_reduction env source program_path st of
        Inl e \<Rightarrow> Some (Inl e)
      | Inr (blocked, s) \<Rightarrow>
          if blocked then Some (Inr (False, s))
          else map_option (map_sum id (Pair True))
                 (reduce_loop env (campaign_package_context source) tempdir
                    (Suc (nat (in_call_count (rs_info s)))) s))"

section \<open>What the reducer guarantees\<close>

text \<open>
  The documented behaviour of the two Go tools, for the number \<open>calls\<close> of calls of a program:
  inspection reports it, and a mutated program has fewer calls.
\<close>

definition drop_law :: "red_env \<Rightarrow> (string \<Rightarrow> nat) \<Rightarrow> bool" where
  "drop_law env calls \<longleftrightarrow>
     (\<forall>t info. rx_inspect env t = Inr info \<longrightarrow> in_call_count info = int (calls t)) \<and>
     (\<forall>t i t'. rx_drop env t i = Inr t' \<longrightarrow> calls t' < calls t)"

definition diverges :: "red_env \<Rightarrow> nat \<Rightarrow> (string \<times> int) option \<Rightarrow> string \<Rightarrow> bool" where
  "diverges env tick package t \<longleftrightarrow>
     (\<exists>info cmp runs. run_case env tick package t = Inr (info, cmp, runs) \<and> \<not> cmp_equivalent cmp)"

text \<open>The evidence an accepted state carries.\<close>

definition accepted_evidence :: "red_env \<Rightarrow> reduction \<Rightarrow> bool" where
  "accepted_evidence env s \<longleftrightarrow>
     (\<exists>tick. run_case env tick None (rs_text s) = Inr (rs_info s, rs_comparison s, rs_runs s)) \<and>
     \<not> cmp_equivalent (rs_comparison s) \<and>
     (rx_overlay env \<longrightarrow> (\<exists>p tick. rs_preflight s = Some p \<and>
        scml_preflight_for_program env tick (rs_text s) = Inr p \<and> pp_status p = ''passed'')) \<and>
     (\<exists>tick package. \<forall>j < 3. diverges env (tick + j) package (rs_text s))"

definition red_inv :: "red_env \<Rightarrow> (string \<Rightarrow> nat) \<Rightarrow> reduction \<Rightarrow> bool" where
  "red_inv env calls s \<longleftrightarrow> in_call_count (rs_info s) = int (calls (rs_text s)) \<and>
     (\<forall>t. rs_store s (rs_program s) = Some t \<longrightarrow> calls t \<le> calls (rs_text s))"

lemma run_case_info: "run_case env tick package t = Inr (info, cmp, runs) \<Longrightarrow> rx_inspect env t = Inr info"
  unfolding run_case_def Let_def by (elim bind_InrE) (auto elim!: bind_InrE split: prod.splits)

lemma confirm_divergence_all:
  "confirm_divergence env package t attempts runs tick = Inr (True, runs', tick') \<Longrightarrow>
     length runs' = length runs + length attempts \<and>
     (\<forall>j < length attempts. diverges env (tick + j) package t)"
proof (induction attempts arbitrary: runs tick)
  case (Cons k attempts)
  then obtain info cmp cs r1 where rc: "run_case env tick package t = Inr (info, cmp, cs)" "\<not> cmp_equivalent cmp"
    and rest: "confirm_divergence env package t attempts r1 (Suc tick) = Inr (True, runs', tick')"
    and len: "length r1 = Suc (length runs)"
    by (auto simp: Let_def split: sum.splits if_splits prod.splits)
  from Cons.IH [OF rest] len rc show ?case
    by (auto simp: diverges_def less_Suc_eq_0_disj)
qed simp

lemma trial_accepted:
  assumes "trial_verdict env package tick t = Inr (Some (info, cmp, runs, pre, step_runs), tick')"
  shows "run_case env tick None t = Inr (info, cmp, runs)" "\<not> cmp_equivalent cmp"
    "rx_overlay env \<longrightarrow> (\<exists>p tk. pre = Some p \<and> scml_preflight_for_program env tk t = Inr p \<and> pp_status p = ''passed'')"
    "\<exists>tk pkg. \<forall>j < 3. diverges env (tk + j) pkg t" "length step_runs = 3"
proof -
  show rc: "run_case env tick None t = Inr (info, cmp, runs)" "\<not> cmp_equivalent cmp"
    using assms unfolding trial_verdict_def
    by (auto simp: bind_eq_Inr split: sum.splits if_splits option.splits)
  then obtain pkg where pre: "trial_preflight env (Suc tick) t cmp runs = Inr (Some pre)"
    and conf: "confirm_divergence env pkg t [0..<3] [] (Suc (Suc tick)) = Inr (True, step_runs, tick')"
    using assms unfolding trial_verdict_def
    by (auto simp: bind_eq_Inr split: if_splits option.splits)
  note all = confirm_divergence_all [OF conf]
  then show "length step_runs = 3" by simp
  from all have "\<forall>j < 3. diverges env (Suc (Suc tick) + j) pkg t" by simp
  then show "\<exists>tk pkg. \<forall>j < 3. diverges env (tk + j) pkg t" by blast
  from pre show "rx_overlay env \<longrightarrow>
      (\<exists>p tk. pre = Some p \<and> scml_preflight_for_program env tk t = Inr p \<and> pp_status p = ''passed'')"
    by (auto simp: trial_preflight_def scml_reduction_invariants_hold_def split: sum.splits if_splits)
qed

lemma try_drop_cases:
  assumes "try_drop env package tempdir i s = Inr (s1, acc)"
  obtains t t' tick where "rs_store s (rs_program s) = Some t" "rx_drop env t (int i) = Inr t'"
    "s1 = s\<lparr>rs_store := (rs_store s)(trial_path tempdir i \<mapsto> t'), rs_tick := tick\<rparr>"
    "\<And>s2. acc = Some s2 \<Longrightarrow> accepted_evidence env s2 \<and> rs_text s2 = t' \<and> rx_inspect env t' = Inr (rs_info s2) \<and>
       rs_store s2 = rs_store s1 \<and> rs_program s2 = trial_path tempdir i \<and>
       length (rs_confirmations s2) = length (rs_confirmations s) + 3"
proof -
  let ?path = "trial_path tempdir i"
  from assms obtain t t' v tick where t: "rs_store s (rs_program s) = Some t" "rx_drop env t (int i) = Inr t'"
    and v: "trial_verdict env package (rs_tick s) t' = Inr (v, tick)"
    and s1: "s1 = s\<lparr>rs_store := (rs_store s)(?path \<mapsto> t'), rs_tick := tick\<rparr>"
    and acc: "acc = (case v of None \<Rightarrow> None | Some (info, cmp, runs, pre, step_runs) \<Rightarrow>
       Some (s1\<lparr>rs_text := t', rs_info := info, rs_comparison := cmp, rs_runs := runs, rs_preflight := pre,
         rs_program := ?path, rs_confirmations := rs_confirmations s @ step_runs\<rparr>))"
    unfolding try_drop_def read_text_def Let_def write_text_def
    by (auto simp: bind_eq_Inr split: option.splits)
  show thesis
  proof (rule that [OF t s1])
    fix s2 assume "acc = Some s2"
    with acc obtain info cmp runs pre step_runs where v': "v = Some (info, cmp, runs, pre, step_runs)"
      and s2: "s2 = s1\<lparr>rs_text := t', rs_info := info, rs_comparison := cmp, rs_runs := runs, rs_preflight := pre,
         rs_program := ?path, rs_confirmations := rs_confirmations s @ step_runs\<rparr>"
      by (auto split: option.splits)
    note ta = trial_accepted [OF v [unfolded v']]
    then show "accepted_evidence env s2 \<and> rs_text s2 = t' \<and> rx_inspect env t' = Inr (rs_info s2) \<and>
       rs_store s2 = rs_store s1 \<and> rs_program s2 = ?path \<and>
       length (rs_confirmations s2) = length (rs_confirmations s) + 3"
      using run_case_info [OF ta(1)] by (auto simp: s2 accepted_evidence_def)
  qed
qed

text \<open>What one pass of the loop and the whole loop keep.\<close>

lemma try_drop_inv:
  assumes "drop_law env calls" "red_inv env calls s" "try_drop env package tempdir i s = Inr (s1, acc)"
  shows "red_inv env calls s1 \<and> rs_text s1 = rs_text s \<and> rs_confirmations s1 = rs_confirmations s \<and> rs_info s1 = rs_info s"
    "acc = Some s2 \<Longrightarrow> red_inv env calls s2 \<and> accepted_evidence env s2 \<and> calls (rs_text s2) < calls (rs_text s) \<and>
       length (rs_confirmations s2) = length (rs_confirmations s) + 3"
proof -
  obtain t t' tick where t: "rs_store s (rs_program s) = Some t" "rx_drop env t (int i) = Inr t'"
    and s1: "s1 = s\<lparr>rs_store := (rs_store s)(trial_path tempdir i \<mapsto> t'), rs_tick := tick\<rparr>"
    and acc: "\<And>s2. acc = Some s2 \<Longrightarrow> accepted_evidence env s2 \<and> rs_text s2 = t' \<and>
       rx_inspect env t' = Inr (rs_info s2) \<and> rs_store s2 = rs_store s1 \<and>
       rs_program s2 = trial_path tempdir i \<and> length (rs_confirmations s2) = length (rs_confirmations s) + 3"
    using try_drop_cases [OF assms(3)] by metis
  have less: "calls t' < calls (rs_text s)"
    using assms(1,2) t by (fastforce simp: drop_law_def red_inv_def)
  then show "red_inv env calls s1 \<and> rs_text s1 = rs_text s \<and> rs_confirmations s1 = rs_confirmations s \<and> rs_info s1 = rs_info s"
    using assms(2) by (auto simp: s1 red_inv_def)
  show "acc = Some s2 \<Longrightarrow> red_inv env calls s2 \<and> accepted_evidence env s2 \<and> calls (rs_text s2) < calls (rs_text s) \<and>
       length (rs_confirmations s2) = length (rs_confirmations s) + 3"
    using acc less assms(1) by (auto simp: red_inv_def drop_law_def s1)
qed

lemma try_drops_inv:
  assumes "drop_law env calls" "red_inv env calls s" "try_drops env package tempdir is s = Inr (changed, s')"
  shows "red_inv env calls s' \<and>
    (if changed then accepted_evidence env s' \<and> calls (rs_text s') < calls (rs_text s) \<and>
       length (rs_confirmations s') = length (rs_confirmations s) + 3
     else rs_text s' = rs_text s \<and> rs_confirmations s' = rs_confirmations s \<and> rs_info s' = rs_info s)"
  using assms(2,3)
proof (induction "is" arbitrary: s)
  case (Cons i js)
  from Cons.prems(2) obtain s1 acc where td: "try_drop env package tempdir i s = Inr (s1, acc)"
    and rest: "(case acc of Some s'' \<Rightarrow> Inr (True, s'') | None \<Rightarrow> try_drops env package tempdir js s1) = Inr (changed, s')"
    by (auto simp: bind_eq_Inr)
  note step = try_drop_inv [OF assms(1) Cons.prems(1) td]
  show ?case
  proof (cases acc)
    case None
    with rest have "try_drops env package tempdir js s1 = Inr (changed, s')" by simp
    from Cons.IH [OF conjunct1 [OF step(1)] this] step(1) show ?thesis by (auto split: if_splits)
  next
    case (Some s2)
    with rest step(2) [OF Some] show ?thesis by auto
  qed
qed simp

text \<open>A state the loop may return: the text it started from, or an accepted smaller one with
  three confirmations for each accepted step.\<close>

definition reduced_from :: "red_env \<Rightarrow> (string \<Rightarrow> nat) \<Rightarrow> reduction \<Rightarrow> reduction \<Rightarrow> bool" where
  "reduced_from env calls s s' \<longleftrightarrow>
     (rs_text s' = rs_text s \<and> rs_confirmations s' = rs_confirmations s) \<or>
     (accepted_evidence env s' \<and> (\<exists>k > 0. calls (rs_text s') + k \<le> calls (rs_text s) \<and>
        length (rs_confirmations s') = length (rs_confirmations s) + 3 * k))"

lemma reduced_from_trans:
  assumes "calls (rs_text s1) < calls (rs_text s)" "accepted_evidence env s1"
    "length (rs_confirmations s1) = length (rs_confirmations s) + 3" "reduced_from env calls s1 s'"
    "rs_text s' = rs_text s1 \<and> rs_confirmations s' = rs_confirmations s1 \<longrightarrow> accepted_evidence env s'"
  shows "reduced_from env calls s s'"
  using assms(4) unfolding reduced_from_def
proof (elim disjE conjE exE)
  assume "rs_text s' = rs_text s1" "rs_confirmations s' = rs_confirmations s1"
  with assms show "rs_text s' = rs_text s \<and> rs_confirmations s' = rs_confirmations s \<or>
    accepted_evidence env s' \<and> (\<exists>k > 0. calls (rs_text s') + k \<le> calls (rs_text s) \<and>
      length (rs_confirmations s') = length (rs_confirmations s) + 3 * k)"
    by (intro disjI2 conjI exI [of _ 1]) auto
next
  fix k assume "accepted_evidence env s'" "0 < k" "calls (rs_text s') + k \<le> calls (rs_text s1)"
    "length (rs_confirmations s') = length (rs_confirmations s1) + 3 * k"
  with assms show "rs_text s' = rs_text s \<and> rs_confirmations s' = rs_confirmations s \<or>
    accepted_evidence env s' \<and> (\<exists>k > 0. calls (rs_text s') + k \<le> calls (rs_text s) \<and>
      length (rs_confirmations s') = length (rs_confirmations s) + 3 * k)"
    by (intro disjI2 conjI exI [of _ "Suc k"]) auto
qed

text \<open>A rejected pass changes the files and the tick only, so the evidence of the state stays.\<close>

lemma try_drops_rejected:
  "try_drops env package tempdir is s = Inr (False, s') \<Longrightarrow>
     \<exists>st tick. s' = s\<lparr>rs_store := st, rs_tick := tick\<rparr>"
proof (induction "is" arbitrary: s)
  case Nil
  then have "s' = s\<lparr>rs_store := rs_store s, rs_tick := rs_tick s\<rparr>" by simp
  then show ?case by blast
next
  case (Cons i js)
  from Cons.prems obtain s1 where td: "try_drop env package tempdir i s = Inr (s1, None)"
    and rest: "try_drops env package tempdir js s1 = Inr (False, s')"
    by (auto simp: bind_eq_Inr split: option.splits)
  from td obtain st tick where "s1 = s\<lparr>rs_store := st, rs_tick := tick\<rparr>"
    by (elim try_drop_cases) blast
  with Cons.IH [OF rest] show ?case by auto
qed

lemma accepted_evidence_update [simp]:
  "accepted_evidence env (s\<lparr>rs_store := st, rs_tick := tick\<rparr>) = accepted_evidence env s"
  by (simp add: accepted_evidence_def)

lemma reduce_loop_spec:
  assumes "drop_law env calls"
  shows "red_inv env calls s \<Longrightarrow> calls (rs_text s) < fuel \<Longrightarrow>
    \<exists>r. reduce_loop env package tempdir fuel s = Some r \<and>
      (\<forall>s'. r = Inr s' \<longrightarrow> reduced_from env calls s s' \<and>
        (rs_text s' = rs_text s \<and> rs_confirmations s' = rs_confirmations s \<longrightarrow> (\<exists>st tick. s' = s\<lparr>rs_store := st, rs_tick := tick\<rparr>)))"
proof (induction fuel arbitrary: s)
  case (Suc fuel)
  show ?case
  proof (cases "try_drops env package tempdir (drop_indexes (rs_info s)) s")
    case (Inr x)
    obtain changed s1 where x: "x = (changed, s1)" by fastforce
    note td = try_drops_inv [OF assms Suc.prems(1) Inr [unfolded x]]
    show ?thesis
    proof (cases changed)
      case True
      with td have s1: "red_inv env calls s1" "accepted_evidence env s1" "calls (rs_text s1) < calls (rs_text s)"
        "length (rs_confirmations s1) = length (rs_confirmations s) + 3" by auto
      with Suc.prems(2) have "calls (rs_text s1) < fuel" by simp
      from Suc.IH [OF s1(1) this] obtain r where r: "reduce_loop env package tempdir fuel s1 = Some r"
        "\<forall>s'. r = Inr s' \<longrightarrow> reduced_from env calls s1 s' \<and>
          (rs_text s' = rs_text s1 \<and> rs_confirmations s' = rs_confirmations s1 \<longrightarrow>
            (\<exists>st tick. s' = s1\<lparr>rs_store := st, rs_tick := tick\<rparr>))" by blast
      have "reduced_from env calls s s' \<and> rs_text s' \<noteq> rs_text s" if "r = Inr s'" for s'
      proof -
        from r(2) that have red: "reduced_from env calls s1 s'" and
          same: "rs_text s' = rs_text s1 \<and> rs_confirmations s' = rs_confirmations s1 \<longrightarrow> accepted_evidence env s'"
          using s1(2) by auto
        have "calls (rs_text s') < calls (rs_text s)" using red s1(3) by (auto simp: reduced_from_def)
        with reduced_from_trans [OF s1(3,2,4) red same] show ?thesis by auto
      qed
      with r(1) True x Inr show ?thesis by (intro exI [of _ r]) auto
    next
      case False
      with Inr x have "try_drops env package tempdir (drop_indexes (rs_info s)) s = Inr (False, s1)" by simp
      from try_drops_rejected [OF this] Inr x False td show ?thesis
        by (auto simp: reduced_from_def)
    qed
  qed simp
qed simp

lemma start_reduction_spec:
  assumes "start_reduction env source path st = Inr (blocked, s)"
  shows "st path = Some (rs_text s) \<and> rs_store s = st \<and> rs_program s = path \<and> rs_confirmations s = [] \<and>
    rx_inspect env (rs_text s) = Inr (rs_info s)"
proof -
  obtain t0 where t0: "st path = Some t0" using assms
    unfolding start_reduction_def read_text_def by (elim bind_InrE) simp
  have *: "rx_inspect env t0 = Inr info"
    if "run_case env 0 (campaign_package_context source) t0 = Inr (info, cmp, runs)" for info cmp runs
    using run_case_info that by blast
  show ?thesis
    using assms t0 unfolding start_reduction_def read_text_def Let_def
    by (auto elim!: bind_InrE dest!: * split: sum.splits if_splits option.splits prod.splits)
qed

text \<open>
  C35. The greedy loop ends: with tools that report the number of calls and drop at least one, the
  number of passes is bounded by the call count of the first program plus one, whatever the replays
  do, so \<open>greedy_reduce\<close> always returns a result or raises.
\<close>

theorem reduce_terminates:
  assumes "drop_law env calls"
  shows "greedy_reduce env source tempdir path st \<noteq> None"
proof (cases "start_reduction env source path st")
  case (Inr x)
  obtain blocked s where x: "x = (blocked, s)" by fastforce
  note start = start_reduction_spec [OF Inr [unfolded x]]
  have count: "in_call_count (rs_info s) = int (calls (rs_text s))" using assms start by (simp add: drop_law_def)
  with start have "red_inv env calls s" by (simp add: red_inv_def)
  moreover have "calls (rs_text s) < Suc (nat (in_call_count (rs_info s)))" using count by simp
  ultimately obtain r where "reduce_loop env (campaign_package_context source) tempdir
      (Suc (nat (in_call_count (rs_info s)))) s = Some r"
    using reduce_loop_spec [OF assms] by blast
  with Inr x show ?thesis by (simp add: greedy_reduce_def)
qed (simp add: greedy_reduce_def)

text \<open>
  C4. What the reducer returns is the program it was given or a strictly smaller one that was
  accepted on evidence: a replay of exactly the returned text gave the returned info, comparison
  and runs and diverged, three more replays in a row diverged, and under the overlay the preflight
  of this text passed; every accepted step dropped at least one call and left three confirmations.
\<close>

theorem reduce_sound:
  assumes "drop_law env calls" "greedy_reduce env source tempdir path st = Some (Inr (confirmed, s))"
  shows "\<exists>original. st path = Some original \<and>
    ((rs_text s = original \<and> rs_confirmations s = []) \<or>
     (confirmed \<and> accepted_evidence env s \<and>
      (\<exists>k > 0. calls (rs_text s) + k \<le> calls original \<and> length (rs_confirmations s) = 3 * k)))"
proof -
  from assms(2) obtain blocked s0 where s0: "start_reduction env source path st = Inr (blocked, s0)"
    and rest: "(if blocked then s = s0 \<and> \<not> confirmed
      else confirmed \<and> reduce_loop env (campaign_package_context source) tempdir
        (Suc (nat (in_call_count (rs_info s0)))) s0 = Some (Inr s))"
    by (cases "start_reduction env source path st")
      (auto simp: greedy_reduce_def map_sum_eq_Inr simp del: reduce_loop.simps split: prod.splits if_splits)
  note start = start_reduction_spec [OF s0]
  show ?thesis
  proof (cases blocked)
    case False
    have count: "in_call_count (rs_info s0) = int (calls (rs_text s0))" using assms(1) start by (simp add: drop_law_def)
    with start have "red_inv env calls s0" by (simp add: red_inv_def)
    moreover have "calls (rs_text s0) < Suc (nat (in_call_count (rs_info s0)))" using count by simp
    ultimately have "\<exists>r. reduce_loop env (campaign_package_context source) tempdir
        (Suc (nat (in_call_count (rs_info s0)))) s0 = Some r \<and> (\<forall>s'. r = Inr s' \<longrightarrow> reduced_from env calls s0 s')"
      using reduce_loop_spec [OF assms(1)] by blast
    then have "reduced_from env calls s0 s"
      using rest False by (simp del: reduce_loop.simps)
    with start rest False show ?thesis by (auto simp: reduced_from_def)
  qed (use rest start in auto)
qed

section \<open>A concrete reduction\<close>

text \<open>Programs are lists of one-letter calls; the candidate of the programs in \<open>bad\<close> fails.\<close>

definition demo_red_env :: "string list \<Rightarrow> red_env" where
  "demo_red_env bad = \<lparr>rx_overlay = False, rx_noise = [], rx_runtime_syscalls = [], rx_rerun_count = 2,
     rx_divergence = Inr PNone,
     rx_inspect = (\<lambda>t. Inr \<lparr>in_program_id = t, in_call_count = int (length t), in_full_syscall_list = []\<rparr>),
     rx_drop = (\<lambda>t i. if 0 \<le> i \<and> nat i < length t then Inr (take (nat i) t @ drop (Suc (nat i)) t)
                else Inl (RuntimeErr ''drop index out of range'')),
     rx_build = (\<lambda>p t. Inr (PDict [])),
     rx_execute = (\<lambda>q. Inr ((demo_run (side_str (rq_side q)))
        \<lparr>rr_trace_json_path := Some (side_str (rq_side q) @ '':'' @ rq_program_id q)\<rparr>)),
     rx_batch = (\<lambda>cs. Inl (RunnerError ''no batch'')),
     rx_trace_at = (\<lambda>p. if p \<in> set (map ((@) ''candidate:'') bad) then Some demo_failed else Some demo_trace),
     rx_state_at = (\<lambda>p. Some demo_state), rx_canonical_at = (\<lambda>p. None), rx_json_at = (\<lambda>p. None),
     rx_sha_at = (\<lambda>p. None), rx_clock = int, rx_taxonomy = [], rx_index = [],
     rx_strace = (\<lambda>n p. Inl (OSErr ''strace'')), rx_sctrace = (\<lambda>n p. Inl (OSErr ''sctrace'')),
     rx_report = id\<rparr>"

definition demo_reduce :: "string list \<Rightarrow> string \<Rightarrow> (bool \<times> reduction) res option" where
  "demo_reduce bad t = greedy_reduce (demo_red_env bad) None ''tmp'' ''p.syz'' (Map.empty(''p.syz'' \<mapsto> t))"

lemma demo_drop_law: "drop_law (demo_red_env bad) length"
  by (auto simp: drop_law_def demo_red_env_def split: if_splits)

lemma demo_reduce_ok:
  "map_option (map_sum id (\<lambda>(c, s). (c, rs_text s, length (rs_confirmations s)))) (demo_reduce [''abc'', ''ab'', ''a''] ''abc'') =
     Some (Inr (True, ''a'', 6))"
  by code_simp

lemma reduce_terminates_witness:
  "greedy_reduce (demo_red_env [''abc'', ''ab'', ''a'']) None ''tmp'' ''p.syz'' (Map.empty(''p.syz'' \<mapsto> ''abc'')) \<noteq> None"
  by (rule reduce_terminates [OF demo_drop_law])

lemma reduce_sound_witness:
  "\<exists>s. demo_reduce [''abc'', ''ab'', ''a''] ''abc'' = Some (Inr (True, s)) \<and> rs_text s = ''a'' \<and>
    accepted_evidence (demo_red_env [''abc'', ''ab'', ''a'']) s"
proof -
  obtain s where s: "demo_reduce [''abc'', ''ab'', ''a''] ''abc'' = Some (Inr (True, s))" "rs_text s = ''a''"
    using demo_reduce_ok
    by (cases "demo_reduce [''abc'', ''ab'', ''a''] ''abc''")
      (auto simp: map_sum_eq_Inr)
  from reduce_sound [OF demo_drop_law s(1) [unfolded demo_reduce_def]] s show ?thesis by auto
qed

text \<open>
  The result need not be minimal, even when every replay of a program behaves the same: a
  rejected trial of a later pass is written over the file of the accepted program, and the rest of
  the pass drops calls from the rejected one. Of the program \<open>abcd\<close> whose divergence needs \<open>a\<close> and
  \<open>d\<close>, the reducer returns \<open>abd\<close>, although dropping \<open>b\<close> from \<open>abd\<close> gives \<open>ad\<close>, which diverges in every replay.
\<close>

theorem reduce_not_minimal:
  "\<exists>s. demo_reduce [''abcd'', ''abd'', ''ad''] ''abcd'' = Some (Inr (True, s)) \<and> rs_text s = ''abd'' \<and>
    rx_drop (demo_red_env [''abcd'', ''abd'', ''ad'']) (rs_text s) 1 = Inr ''ad'' \<and>
    (\<forall>tick. diverges (demo_red_env [''abcd'', ''abd'', ''ad'']) tick None ''ad'')"
proof -
  let ?env = "demo_red_env [''abcd'', ''abd'', ''ad'']"
  have "map_option (map_sum id (\<lambda>(c, s). (c, rs_text s))) (demo_reduce [''abcd'', ''abd'', ''ad''] ''abcd'') =
      Some (Inr (True, ''abd''))" by code_simp
  then obtain s where s: "demo_reduce [''abcd'', ''abd'', ''ad''] ''abcd'' = Some (Inr (True, s))" "rs_text s = ''abd''"
    by (cases "demo_reduce [''abcd'', ''abd'', ''ad''] ''abcd''")
      (auto simp: map_sum_eq_Inr)
  moreover have "rx_drop ?env ''abd'' 1 = Inr ''ad''" by (simp add: demo_red_env_def)
  moreover have "diverges ?env tick None ''ad''" for tick
  proof -
    have "run_case ?env tick None ''ad'' = run_case ?env 0 None ''ad''"
      by (simp add: run_case_def reference_replay_def candidate_replay_def rx_request_def demo_red_env_def Let_def)
    moreover have "map_sum id (\<lambda>(i, c, r). cmp_equivalent c) (run_case ?env 0 None ''ad'') = Inr False"
      by code_simp
    ultimately show ?thesis
      by (cases "run_case ?env 0 None ''ad''") (auto simp: diverges_def)
  qed
  ultimately show ?thesis by auto
qed

end
