(* ===== verification/Merge.thy ===== *)
theory Merge
  imports PyPrelude
begin

text \<open>
  Merging rows by id, as the corpus tools do it: a dictionary filled row by row, a new id with the
  row made \<open>fresh\<close>, a known one with the two rows combined, its values sorted by id at the end. The
  locale \<open>keyed_merge\<close> states what the two operations owe; its lemmas describe the result, also
  that it does not depend on the order of the rows.
\<close>

definition merge_into ::
  "('r \<Rightarrow> string) \<Rightarrow> ('r \<Rightarrow> 'r) \<Rightarrow> ('r \<Rightarrow> 'r \<Rightarrow> 'r) \<Rightarrow> 'r \<Rightarrow> (string, 'r) dict \<Rightarrow> (string, 'r) dict" where
  "merge_into key fresh combine row merged = dict_set (key row)
     (case dict_get (key row) merged of None \<Rightarrow> fresh row | Some old \<Rightarrow> combine old row) merged"

definition merge_rows ::
  "('r \<Rightarrow> string) \<Rightarrow> ('r \<Rightarrow> 'r) \<Rightarrow> ('r \<Rightarrow> 'r \<Rightarrow> 'r) \<Rightarrow> 'r list \<Rightarrow> 'r list" where
  "merge_rows key fresh combine rows = sort_key key (map snd (fold (merge_into key fresh combine) rows []))"

lemma sorted_keys_unique:
  "distinct (map f xs) \<Longrightarrow> distinct (map f ys) \<Longrightarrow> sorted (map f xs) \<Longrightarrow> sorted (map f ys) \<Longrightarrow>
   f ` set xs = f ` set ys \<Longrightarrow> map f xs = map f ys"
  by (rule sorted_distinct_set_unique) simp_all

locale keyed_merge =
  fixes key :: "'r \<Rightarrow> string"
    and fresh :: "'r \<Rightarrow> 'r"
    and combine :: "'r \<Rightarrow> 'r \<Rightarrow> 'r"
    and view :: "'r \<Rightarrow> 'v set"
  assumes key_fresh: "key (fresh r) = key r"
    and key_combine: "key old = key r \<Longrightarrow> key (combine old r) = key r"
    and view_fresh: "view (fresh r) = view r"
    and view_combine: "view (combine old r) = view old \<union> view r"
begin

lemma fold_inv:
  "distinct (dict_keys (fold (merge_into key fresh combine) rows [])) \<and>
   set (dict_keys (fold (merge_into key fresh combine) rows [])) = key ` set rows \<and>
   (\<forall>k v. dict_get k (fold (merge_into key fresh combine) rows []) = Some v \<longrightarrow>
      key v = k \<and> view v = (\<Union>r \<in> {r \<in> set rows. key r = k}. view r))"
proof (induction rows rule: rev_induct)
  case Nil
  then show ?case by (simp add: dict_keys_def)
next
  case (snoc r rows)
  let ?m = "fold (merge_into key fresh combine) rows []"
  let ?new = "case dict_get (key r) ?m of None \<Rightarrow> fresh r | Some old \<Rightarrow> combine old r"
  have step: "fold (merge_into key fresh combine) (rows @ [r]) [] = dict_set (key r) ?new ?m"
    by (simp add: merge_into_def)
  have new: "key ?new = key r \<and> view ?new = (\<Union>x \<in> {x \<in> set (rows @ [r]). key x = key r}. view x)"
  proof (cases "dict_get (key r) ?m")
    case None
    with snoc.IH have "key r \<notin> key ` set rows" by (auto simp: dict_get_None_iff)
    then have "{x \<in> set (rows @ [r]). key x = key r} = {r}" by (auto simp: image_iff dest: sym)
    with None show ?thesis by (simp add: key_fresh view_fresh)
  next
    case (Some old)
    with snoc.IH have old: "key old = key r" "view old = (\<Union>x \<in> {x \<in> set rows. key x = key r}. view x)"
      by blast+
    have "{x \<in> set (rows @ [r]). key x = key r} = insert r {x \<in> set rows. key x = key r}" by auto
    with Some old show ?thesis by (auto simp: key_combine view_combine)
  qed
  show ?case
    unfolding step using snoc.IH new
    by (auto simp: dict_keys_set split: if_splits)
qed

lemma mem_snd: "v \<in> set (map snd (fold (merge_into key fresh combine) rows [])) \<longleftrightarrow>
    (\<exists>k. dict_get k (fold (merge_into key fresh combine) rows []) = Some v)"
proof -
  have "distinct (map fst (fold (merge_into key fresh combine) rows []))"
    using fold_inv by (simp add: dict_keys_def)
  then show ?thesis by (force simp: dict_get_def)
qed

lemma map_key_snd: "map key (map snd (fold (merge_into key fresh combine) rows [])) =
    dict_keys (fold (merge_into key fresh combine) rows [])"
proof -
  let ?m = "fold (merge_into key fresh combine) rows []"
  have d: "distinct (map fst ?m)" using fold_inv by (simp add: dict_keys_def)
  have "key (snd p) = fst p" if "p \<in> set ?m" for p
    using fold_inv [of rows] that d by (metis dict_get_def map_of_is_SomeI prod.collapse)
  then show ?thesis by (simp add: dict_keys_def comp_def)
qed

lemma merge_rows_keys:
  "sorted (map key (merge_rows key fresh combine rows))"
  "distinct (map key (merge_rows key fresh combine rows))"
  "set (map key (merge_rows key fresh combine rows)) = key ` set rows"
proof -
  let ?m = "fold (merge_into key fresh combine) rows []"
  show "sorted (map key (merge_rows key fresh combine rows))" by (simp add: merge_rows_def)
  have "mset (map key (merge_rows key fresh combine rows)) = image_mset key (mset (map snd ?m))"
    by (simp add: merge_rows_def)
  also have "\<dots> = mset (dict_keys ?m)" by (simp only: map_key_snd mset_map [symmetric])
  finally have "mset (map key (merge_rows key fresh combine rows)) = mset (dict_keys ?m)" .
  then show "distinct (map key (merge_rows key fresh combine rows))"
    "set (map key (merge_rows key fresh combine rows)) = key ` set rows"
    using fold_inv by (metis mset_eq_imp_distinct_iff, metis mset_eq_setD)
qed

lemma merge_rows_view:
  "v \<in> set (merge_rows key fresh combine rows) \<Longrightarrow>
     view v = (\<Union>r \<in> {r \<in> set rows. key r = key v}. view r)"
  using mem_snd fold_inv by (auto simp: merge_rows_def)

lemma merge_rows_order:
  assumes "set rows = set rows'"
  shows "map (\<lambda>v. (key v, view v)) (merge_rows key fresh combine rows) =
    map (\<lambda>v. (key v, view v)) (merge_rows key fresh combine rows')"
proof -
  let ?a = "merge_rows key fresh combine rows" and ?b = "merge_rows key fresh combine rows'"
  have keys: "map key ?a = map key ?b"
    by (rule sorted_keys_unique) (use merge_rows_keys assms in auto)
  then have len: "length ?a = length ?b" by (metis length_map)
  show ?thesis
  proof (rule nth_equalityI)
    fix i assume "i < length (map (\<lambda>v. (key v, view v)) ?a)"
    then have i: "i < length ?a" "i < length ?b" using len by simp_all
    then have "key (?a ! i) = key (?b ! i)" using keys by (metis nth_map)
    with merge_rows_view [OF nth_mem [OF i(1)]] merge_rows_view [OF nth_mem [OF i(2)]] assms i
    show "map (\<lambda>v. (key v, view v)) ?a ! i = map (\<lambda>v. (key v, view v)) ?b ! i" by simp
  qed (use len in simp)
qed

end

end
