(* ===== verification/Corpus.thy ===== *)
theory Corpus
  imports Scml Merge
begin

text \<open>
  Building the corpora: the static filter of the baseline (\<open>tools/filter_corpus.py\<close>), the corpus
  derived for Asterinas (\<open>tools/derive_asterinas_corpus.py\<close>) and the one derived from the SCML
  manifest (\<open>tools/derive_scml_allowed_sequences.py\<close>). \<open>file_at\<close> is the text of a readable file.
  The two regular expressions over program lines are written as the scanners they denote. The
  lemmas say exactly which programs have no rejection reason, and what the merge of two sources
  keeps.
\<close>

section \<open>Data\<close>

record meta =
  me_program_id :: string
  me_normalized_path :: "string option"
  me_uses_pseudo_syscalls :: bool
  me_uses_threading_sensitive_features :: bool
  me_syscall_list :: "string list"
  me_full_syscall_list :: "string list"
  me_call_count :: int

record allowlist =
  al_syscalls :: "string list"
  al_deny_prefixes :: "string list"
  al_deny_name_contains :: "string list"
  al_pseudo_prefix :: string
  al_threading_sensitive_prefixes :: "string list"

section \<open>The filter\<close>

definition base_syscall_name :: "string \<Rightarrow> string" where
  "base_syscall_name full_name = before_char CHR ''$'' full_name"

text \<open>\<open>r\<close> and the digits after it, with the rest of the line.\<close>

definition reg_at :: "string \<Rightarrow> (string \<times> string) option" where
  "reg_at s = (if s \<noteq> [] \<and> hd s = CHR ''r'' \<and> takeWhile digit (tl s) \<noteq> []
     then Some (CHR ''r'' # takeWhile digit (tl s), dropWhile digit (tl s)) else None)"

text \<open>The first \<open><rN=>\<close> of a text.\<close>

fun find_capture :: "string \<Rightarrow> string option" where
  "find_capture [] = None"
| "find_capture (c # s) =
     (case (if c = CHR ''<'' then reg_at s else None) of
        Some (fd, rest) \<Rightarrow> if startswith rest ''=>'' then Some fd else find_capture s
      | None \<Rightarrow> find_capture s)"

definition pipe_read_capture :: "string \<Rightarrow> string option" where
  "pipe_read_capture line =
     (let s = lstrip line in
      if startswith s ''pipe(&'' then find_capture (drop 6 s)
      else if startswith s ''pipe2(&'' then find_capture (drop 7 s) else None)"

definition pipe_read_use :: "string \<Rightarrow> string option" where
  "pipe_read_use line =
     (let s = lstrip line;
          args = (if startswith s ''read('' then Some (drop 5 s)
                  else if startswith s ''pread64('' then Some (drop 8 s) else None)
      in case args of None \<Rightarrow> None
         | Some a \<Rightarrow> (case reg_at a of
             Some (fd, rest) \<Rightarrow> if startswith rest '','' then Some fd else None
           | None \<Rightarrow> None))"

fun blocking_read :: "string list \<Rightarrow> string list \<Rightarrow> bool" where
  "blocking_read fds [] = False"
| "blocking_read fds (line # lines) =
     (case pipe_read_capture line of
        Some fd \<Rightarrow> blocking_read (fd # fds) lines
      | None \<Rightarrow> (case pipe_read_use line of
          Some fd \<Rightarrow> if fd \<in> set fds then True else blocking_read fds lines
        | None \<Rightarrow> blocking_read fds lines))"

definition has_likely_blocking_pipe_read :: "(string \<Rightarrow> string option) \<Rightarrow> meta \<Rightarrow> bool" where
  "has_likely_blocking_pipe_read file_at m = (case me_normalized_path m of
       None \<Rightarrow> False
     | Some p \<Rightarrow> if p = [] then False
         else (case file_at p of None \<Rightarrow> False | Some t \<Rightarrow> blocking_read [] (splitlines t)))"

definition PRIVILEGED_PREFIXES :: "string list" where
  "PRIVILEGED_PREFIXES = [''mount'', ''umount'', ''pivot_root'', ''setns'', ''unshare'']"

text \<open>The reasons the loop body appends for one call.\<close>

definition call_reasons :: "allowlist \<Rightarrow> string \<Rightarrow> string list" where
  "call_reasons cfg full_name =
     (let name = base_syscall_name full_name; allow = set (al_syscalls cfg) in
      (if startswith name (al_pseudo_prefix cfg) then [''pseudo_syscall''] else []) @
      (if name \<notin> allow then [''non_allowlisted_syscall''] else []) @
      (if full_name \<noteq> name \<and> full_name \<notin> allow then [''non_allowlisted_variant''] else []) @
      (if startswith_any name (al_deny_prefixes cfg)
       then (if startswith_any name PRIVILEGED_PREFIXES then [''privileged_or_mount_path'']
             else [''complex_network_path'']) else []) @
      (if startswith_any name (al_threading_sensitive_prefixes cfg) then [''threading_sensitive''] else []) @
      (if list_ex (contains full_name) (al_deny_name_contains cfg) then [''complex_network_path''] else []))"

definition classify_rejection :: "(string \<Rightarrow> string option) \<Rightarrow> allowlist \<Rightarrow> meta \<Rightarrow> string list" where
  "classify_rejection file_at cfg m = uniq
     ((if me_uses_pseudo_syscalls m then [''pseudo_syscall''] else []) @
      concat (map (call_reasons cfg) (me_full_syscall_list m)) @
      (if me_uses_threading_sensitive_features m then [''threading_sensitive''] else []) @
      (if has_likely_blocking_pipe_read file_at m then [''likely_blocking_pipe_read''] else []))"

text \<open>The loop of \<open>main\<close>: the eligible programs in id order, and the count of each reason.\<close>

definition filter_rows :: "(string \<Rightarrow> string option) \<Rightarrow> allowlist \<Rightarrow> meta list \<Rightarrow> meta list" where
  "filter_rows file_at cfg metas =
     sort_key me_program_id (filter (\<lambda>m. classify_rejection file_at cfg m = []) metas)"

definition count_reason :: "string \<Rightarrow> (string, nat) dict \<Rightarrow> (string, nat) dict" where
  "count_reason r counts = dict_set r (case dict_get r counts of None \<Rightarrow> 1 | Some n \<Rightarrow> Suc n) counts"

definition rejection_counts :: "(meta \<Rightarrow> string list) \<Rightarrow> meta list \<Rightarrow> (string, nat) dict" where
  "rejection_counts reasons metas = fold (\<lambda>m. fold count_reason (reasons m)) metas []"

section \<open>The derived corpora\<close>

record derivation =
  dv_allow :: "string list"
  dv_memory_management :: "string list"
  dv_process_control :: "string list"

definition asterinas_call_reason :: "derivation \<Rightarrow> string \<Rightarrow> string list" where
  "asterinas_call_reason cfg full_name =
     (let base = before_char CHR ''$'' full_name in
      if full_name \<noteq> base \<and> full_name \<notin> set (dv_allow cfg) then [''unsupported_variant'']
      else if base \<in> set (dv_allow cfg) then []
      else if base \<in> set (dv_memory_management cfg) then [''unsupported_memory_management'']
      else if base \<in> set (dv_process_control cfg) then [''unsupported_process_control'']
      else [''unsupported_syscall''])"

definition asterinas_derive_rejection :: "derivation \<Rightarrow> meta \<Rightarrow> string list" where
  "asterinas_derive_rejection cfg m = uniq (concat (map (asterinas_call_reason cfg) (me_full_syscall_list m)))"

definition scml_call_reason :: "manifest_index \<Rightarrow> taxonomy \<Rightarrow> string \<Rightarrow> string list res" where
  "scml_call_reason index tax full_name =
     (let base = before_char CHR ''$'' full_name; one = (\<lambda>k. bind (reason_of tax k) (\<lambda>r. Inr [r])) in
      if full_name \<noteq> base then one ''specialized_variant''
      else case dict_get base index of
        None \<Rightarrow> one ''syscall_not_in_manifest''
      | Some e \<Rightarrow>
          if \<not> truthy (py_get ''generation_enabled'' (PBool True) e)
          then (if truthy (py_get ''defer_reason'' PNone e) then one ''deferred_category''
                else one ''manifest_disabled'')
          else Inr [])"

definition sequence_bounds :: "pyval \<Rightarrow> (int \<times> int) res" where
  "sequence_bounds profile =
     bind (bind (py_item ''generation'' profile) (py_item ''sequence_length'')) (\<lambda>s.
     bind (bind (py_item ''min'' s) py_int) (\<lambda>lo. bind (bind (py_item ''max'' s) py_int) (\<lambda>hi. Inr (lo, hi))))"

definition scml_derive_rejection :: "manifest_index \<Rightarrow> pyval \<Rightarrow> taxonomy \<Rightarrow> meta \<Rightarrow> string list res" where
  "scml_derive_rejection index profile tax m =
     bind (sequence_bounds profile) (\<lambda>(lo, hi).
     bind (if me_call_count m < lo then bind (reason_of tax ''sequence_too_short'') (\<lambda>r. Inr [r]) else Inr []) (\<lambda>short.
     bind (if hi < me_call_count m then bind (reason_of tax ''sequence_too_long'') (\<lambda>r. Inr [r]) else Inr []) (\<lambda>long.
     bind (map_res (scml_call_reason index tax) (me_full_syscall_list m)) (\<lambda>rs.
     Inr (uniq (short @ long @ concat rs))))))"

section \<open>Merging sources\<close>

record source_row =
  sr_program_id :: string
  sr_fields :: "(string, pyval) dict"
  sr_source_modes :: "string list option"
  sr_covered_target_syscalls :: "string list option"

text \<open>
  A field that holds a list or is absent; \<open>combined.update(row)\<close> takes the newer of two, and when
  either is non-empty it becomes the sorted union.
\<close>

definition merge_names :: "string list option \<Rightarrow> string list option \<Rightarrow> string list option" where
  "merge_names old new =
     (let o' = (case old of None \<Rightarrow> [] | Some xs \<Rightarrow> xs); n' = (case new of None \<Rightarrow> [] | Some xs \<Rightarrow> xs)
      in if o' \<noteq> [] \<or> n' \<noteq> [] then Some (sorted_set (o' @ n'))
         else (case new of None \<Rightarrow> old | Some xs \<Rightarrow> Some xs))"

definition combine_rows :: "source_row \<Rightarrow> source_row \<Rightarrow> source_row" where
  "combine_rows old row =
     \<lparr>sr_program_id = sr_program_id row, sr_fields = dict_merge (sr_fields old) (sr_fields row),
      sr_source_modes = merge_names (sr_source_modes old) (sr_source_modes row),
      sr_covered_target_syscalls =
        merge_names (sr_covered_target_syscalls old) (sr_covered_target_syscalls row)\<rparr>"

definition merge_step :: "source_row \<Rightarrow> (string, source_row) dict \<Rightarrow> (string, source_row) dict" where
  "merge_step row merged = merge_into sr_program_id id combine_rows row merged"

definition merge_source_rows :: "source_row list list \<Rightarrow> source_row list" where
  "merge_source_rows groups = sort_key sr_program_id (map snd (fold merge_step (concat groups) []))"

abbreviation names_of :: "string list option \<Rightarrow> string set" where
  "names_of x \<equiv> (case x of None \<Rightarrow> {} | Some xs \<Rightarrow> set xs)"

lemma names_merge: "names_of (merge_names old new) = names_of old \<union> names_of new"
  by (auto simp: merge_names_def Let_def split: option.splits)

interpretation modes: keyed_merge sr_program_id id combine_rows "\<lambda>r. names_of (sr_source_modes r)"
  by unfold_locales (simp_all add: combine_rows_def names_merge)

interpretation covered: keyed_merge sr_program_id id combine_rows "\<lambda>r. names_of (sr_covered_target_syscalls r)"
  by unfold_locales (simp_all add: combine_rows_def names_merge)

lemma merge_source_rows_eq: "merge_source_rows groups = merge_rows sr_program_id id combine_rows (concat groups)"
proof -
  have "merge_step = merge_into sr_program_id id combine_rows" by (intro ext) (simp add: merge_step_def)
  then show ?thesis by (simp add: merge_source_rows_def merge_rows_def)
qed

section \<open>The loop of the derivations\<close>

record eligible_program =
  ep_program_id :: string
  ep_workflow :: string
  ep_reason :: "string list"
  ep_normalized_path :: string
  ep_meta_path :: string
  ep_source_workflow :: pyval
  ep_source_program_id :: string

record rejected_program =
  rp_program_id :: string
  rp_source_workflow :: pyval
  rp_meta_path :: string
  rp_normalized_path :: string
  rp_reasons :: "string list"
  rp_full_syscall_list :: "string list"

definition row_text :: "string \<Rightarrow> source_row \<Rightarrow> string res" where
  "row_text k row = (case dict_get k (sr_fields row) of
       Some (PStr s) \<Rightarrow> Inr s | Some _ \<Rightarrow> Inl (TypeError k) | None \<Rightarrow> Inl (KeyError k))"

definition source_workflow_of :: "source_row \<Rightarrow> pyval" where
  "source_workflow_of row =
     (case dict_get ''workflow'' (sr_fields row) of None \<Rightarrow> PStr ''baseline'' | Some w \<Rightarrow> w)"

definition derive_row ::
  "string \<Rightarrow> string list \<Rightarrow> (string \<Rightarrow> meta res) \<Rightarrow> (meta \<Rightarrow> string list res) \<Rightarrow> source_row \<Rightarrow>
   (rejected_program + eligible_program) res" where
  "derive_row workflow accept_reasons load_meta reasons_of row =
     bind (row_text ''meta_path'' row) (\<lambda>meta_path. bind (load_meta meta_path) (\<lambda>m.
     bind (reasons_of m) (\<lambda>reasons. bind (row_text ''normalized_path'' row) (\<lambda>path.
     Inr (if reasons \<noteq> [] then
            Inl \<lparr>rp_program_id = sr_program_id row, rp_source_workflow = source_workflow_of row,
              rp_meta_path = meta_path, rp_normalized_path = path, rp_reasons = reasons,
              rp_full_syscall_list = me_full_syscall_list m\<rparr>
          else
            Inr \<lparr>ep_program_id = sr_program_id row, ep_workflow = workflow, ep_reason = accept_reasons,
              ep_normalized_path = path, ep_meta_path = meta_path,
              ep_source_workflow = source_workflow_of row, ep_source_program_id = sr_program_id row\<rparr>)))))"

definition lefts :: "('a + 'b) list \<Rightarrow> 'a list" where
  "lefts xs = concat (map (\<lambda>x. case x of Inl a \<Rightarrow> [a] | Inr _ \<Rightarrow> []) xs)"

definition rights :: "('a + 'b) list \<Rightarrow> 'b list" where
  "rights xs = concat (map (\<lambda>x. case x of Inl _ \<Rightarrow> [] | Inr b \<Rightarrow> [b]) xs)"

record derived_corpus =
  dc_eligible :: "eligible_program list"
  dc_rejected :: "rejected_program list"
  dc_rejection_counts :: "(string, nat) dict"

definition derive_corpus ::
  "string \<Rightarrow> string list \<Rightarrow> (string \<Rightarrow> meta res) \<Rightarrow> (meta \<Rightarrow> string list res) \<Rightarrow> source_row list \<Rightarrow>
   derived_corpus res" where
  "derive_corpus workflow accept_reasons load_meta reasons_of rows =
     bind (map_res (derive_row workflow accept_reasons load_meta reasons_of) rows) (\<lambda>results.
     Inr \<lparr>dc_eligible = sort_key ep_program_id (rights results),
          dc_rejected = sort_key rp_program_id (lefts results),
          dc_rejection_counts = fold (\<lambda>r. fold count_reason (rp_reasons r)) (lefts results) []\<rparr>)"

definition derive_scml_corpus ::
  "pyval \<Rightarrow> pyval \<Rightarrow> taxonomy \<Rightarrow> string \<Rightarrow> string list \<Rightarrow> (string \<Rightarrow> meta res) \<Rightarrow> source_row list \<Rightarrow>
   source_row list \<Rightarrow> derived_corpus res" where
  "derive_scml_corpus manifest profile tax workflow accept_reasons load_meta base_rows generated_rows =
     bind (apply_generation_profile manifest profile) (\<lambda>index.
     derive_corpus workflow accept_reasons load_meta
       (\<lambda>m. scml_derive_rejection index profile tax m) (merge_source_rows [base_rows, generated_rows]))"

section \<open>Who is eligible\<close>

definition safe_call :: "allowlist \<Rightarrow> string \<Rightarrow> bool" where
  "safe_call cfg full_name \<longleftrightarrow>
     (let name = base_syscall_name full_name in
      name \<in> set (al_syscalls cfg) \<and> (full_name = name \<or> full_name \<in> set (al_syscalls cfg)) \<and>
      \<not> startswith name (al_pseudo_prefix cfg) \<and> \<not> startswith_any name (al_deny_prefixes cfg) \<and>
      \<not> startswith_any name (al_threading_sensitive_prefixes cfg) \<and>
      (\<forall>x \<in> set (al_deny_name_contains cfg). \<not> contains full_name x))"

lemma call_reasons_Nil: "call_reasons cfg full_name = [] \<longleftrightarrow> safe_call cfg full_name"
  by (auto simp: call_reasons_def safe_call_def Let_def list_ex_iff)

text \<open>
  C16. A program is eligible for the baseline exactly when it uses no pseudo syscalls and no
  threading-sensitive features, has no likely blocking pipe read, and each of its calls is safe:
  its base name is allowed, its variant too if it is one, and no pseudo, denied or threading prefix
  and no denied substring occurs. The eligible rows are exactly these programs, sorted by id.
\<close>

theorem baseline_eligible_iff:
  "(classify_rejection file_at cfg m = [] \<longleftrightarrow>
     \<not> me_uses_pseudo_syscalls m \<and> \<not> me_uses_threading_sensitive_features m \<and>
     \<not> has_likely_blocking_pipe_read file_at m \<and> list_all (safe_call cfg) (me_full_syscall_list m)) \<and>
   set (filter_rows file_at cfg metas) = {m \<in> set metas. classify_rejection file_at cfg m = []} \<and>
   sorted (map me_program_id (filter_rows file_at cfg metas))"
  by (auto simp: classify_rejection_def call_reasons_Nil list_all_iff filter_rows_def)

lemma asterinas_call_Nil:
  "asterinas_call_reason cfg f = [] \<longleftrightarrow>
     before_char CHR ''$'' f \<in> set (dv_allow cfg) \<and> (f = before_char CHR ''$'' f \<or> f \<in> set (dv_allow cfg))"
  by (auto simp: asterinas_call_reason_def Let_def)

lemma scml_call_Nil:
  "scml_call_reason index tax f = Inr rs \<Longrightarrow> rs = [] \<longleftrightarrow>
     CHR ''$'' \<notin> set f \<and> (\<exists>e. dict_get f index = Some e \<and> enabled_in e)"
proof -
  assume a: "scml_call_reason index tax f = Inr rs"
  show ?thesis
  proof (cases "before_char CHR ''$'' f = f")
    case True
    with a show ?thesis
      by (auto simp: scml_call_reason_def Let_def bind_eq_Inr enabled_in_def before_char_eq_iff
          split: option.splits if_splits)
  next
    case False
    with a show ?thesis by (auto simp: scml_call_reason_def Let_def bind_eq_Inr before_char_eq_iff)
  qed
qed

lemma scml_derive_Nil:
  assumes "scml_derive_rejection index profile tax m = Inr rs" "sequence_bounds profile = Inr (lo, hi)"
  shows "rs = [] \<longleftrightarrow> lo \<le> me_call_count m \<and> me_call_count m \<le> hi \<and>
    (\<forall>f \<in> set (me_full_syscall_list m). CHR ''$'' \<notin> set f \<and> (\<exists>e. dict_get f index = Some e \<and> enabled_in e))"
proof -
  from assms obtain short long rss where
    s: "short = [] \<longleftrightarrow> lo \<le> me_call_count m" and l: "long = [] \<longleftrightarrow> me_call_count m \<le> hi" and
    m: "map_res (scml_call_reason index tax) (me_full_syscall_list m) = Inr rss" and
    rs: "rs = uniq (short @ long @ concat rss)"
    unfolding scml_derive_rejection_def
    by (auto elim!: bind_InrE split: if_splits)
  have "concat rss = [] \<longleftrightarrow> (\<forall>f \<in> set (me_full_syscall_list m). CHR ''$'' \<notin> set f \<and>
      (\<exists>e. dict_get f index = Some e \<and> enabled_in e))"
    using m
  proof (induction "me_full_syscall_list m" arbitrary: rss m)
    case Nil
    then show ?case by simp
  next
    case (Cons f fs)
    from Cons.hyps(2) [symmetric] Cons.prems obtain r rss' where
      r: "scml_call_reason index tax f = Inr r" "map_res (scml_call_reason index tax) fs = Inr rss'" "rss = r # rss'"
      by (auto simp: bind_eq_Inr)
    have "concat rss' = [] \<longleftrightarrow> (\<forall>f \<in> set fs. CHR ''$'' \<notin> set f \<and> (\<exists>e. dict_get f index = Some e \<and> enabled_in e))"
      using Cons.hyps(1) [of "m\<lparr>me_full_syscall_list := fs\<rparr>"] r(2) by simp
    with scml_call_Nil [OF r(1)] r(3) Cons.hyps(2) [symmetric] show ?case by auto
  qed
  with s l rs show ?thesis by auto
qed

text \<open>
  What the SCML derivation accepts is generatable: when it gives no reason, the number of calls
  is within the bounds of the profile, and every call is a plain syscall (no variant) of the
  manifest whose category the profile enables and which it does not defer.
\<close>

theorem scml_derivation_accepts:
  assumes "apply_generation_profile manifest profile = Inr index"
    "scml_derive_rejection index profile tax m = Inr []"
  shows "\<exists>lo hi cats rows. sequence_bounds profile = Inr (lo, hi) \<and> lo \<le> me_call_count m \<and> me_call_count m \<le> hi \<and>
    category_syscalls manifest = Inr rows \<and>
    bind (py_item ''enabled_categories'' profile) str_items = Inr cats \<and>
    (\<forall>f \<in> set (me_full_syscall_list m). CHR ''$'' \<notin> set f \<and>
      f \<notin> set (map fst (items (py_get ''deferred_syscalls'' (PDict []) profile))) \<and>
      (\<exists>c \<in> set cats. \<exists>e. (c, f, e) \<in> set rows \<and> enabled_in e))"
proof -
  from assms(2) obtain lo hi where b: "sequence_bounds profile = Inr (lo, hi)"
    unfolding scml_derive_rejection_def by (elim bind_InrE) auto
  obtain cats rows where c: "bind (py_item ''enabled_categories'' profile) str_items = Inr cats"
    "category_syscalls manifest = Inr rows"
    using assms(1) unfolding apply_generation_profile_def by (elim bind_InrE) auto
  have "\<exists>c \<in> set cats. \<exists>e. (c, f, e) \<in> set rows \<and> enabled_in e \<and>
      f \<notin> set (map fst (items (py_get ''deferred_syscalls'' (PDict []) profile)))"
    if "dict_get f index = Some e'" "enabled_in e'" for f e'
    using profile_narrows_rows [OF assms(1) that] c by auto
  with scml_derive_Nil [OF assms(2) b] b c show ?thesis by fastforce
qed

lemma scml_derivation_accepts_witness:
  "\<exists>profile index.
     apply_generation_profile demo_manifest profile = Inr index \<and>
     (\<exists>lo hi cats rows. sequence_bounds profile = Inr (lo, hi) \<and> lo \<le> 2 \<and> 2 \<le> hi \<and>
       category_syscalls demo_manifest = Inr rows \<and>
       bind (py_item ''enabled_categories'' profile) str_items = Inr cats \<and>
       (\<exists>c \<in> set cats. \<exists>e. (c, ''openat'', e) \<in> set rows \<and> enabled_in e))"
proof -
  let ?p = "PDict [(''enabled_categories'', PList [PStr ''fs'']), (''generation'',
    PDict [(''sequence_length'', PDict [(''min'', PInt 1), (''max'', PInt 4)])])]"
  let ?m = "\<lparr>me_program_id = ''p'', me_normalized_path = None, me_uses_pseudo_syscalls = False,
    me_uses_threading_sensitive_features = False, me_syscall_list = [''openat''],
    me_full_syscall_list = [''openat'', ''openat''], me_call_count = 2\<rparr>"
  have "is_ok (bind (apply_generation_profile demo_manifest ?p) (\<lambda>index.
      bind (scml_derive_rejection index ?p [] ?m) (\<lambda>rs. require (rs = []) IndexError)))"
    by code_simp
  from is_ok_requireD [OF this] obtain index where i: "apply_generation_profile demo_manifest ?p = Inr index"
    "scml_derive_rejection index ?p [] ?m = Inr []" by (elim exE conjE) simp
  from scml_derivation_accepts [OF i] i(1) show ?thesis by force
qed

text \<open>
  Merging the sources gives one row per program id, sorted by id, for exactly the ids of the
  sources; its source modes and covered targets are the unions over all rows with the id, whatever
  the order of the sources.
\<close>

theorem merge_source_rows_spec:
  "sorted (map sr_program_id (merge_source_rows groups)) \<and>
   distinct (map sr_program_id (merge_source_rows groups)) \<and>
   sr_program_id ` set (merge_source_rows groups) = sr_program_id ` set (concat groups) \<and>
   (\<forall>v \<in> set (merge_source_rows groups).
      names_of (sr_source_modes v) =
        (\<Union>r \<in> {r \<in> set (concat groups). sr_program_id r = sr_program_id v}. names_of (sr_source_modes r)) \<and>
      names_of (sr_covered_target_syscalls v) =
        (\<Union>r \<in> {r \<in> set (concat groups). sr_program_id r = sr_program_id v}. names_of (sr_covered_target_syscalls r)))"
proof (intro conjI ballI)
  show "sorted (map sr_program_id (merge_source_rows groups))"
    and "distinct (map sr_program_id (merge_source_rows groups))"
    and "sr_program_id ` set (merge_source_rows groups) = sr_program_id ` set (concat groups)"
    using modes.merge_rows_keys [of "concat groups"] by (simp_all add: merge_source_rows_eq)
  fix v assume "v \<in> set (merge_source_rows groups)"
  then have v: "v \<in> set (merge_rows sr_program_id id combine_rows (concat groups))"
    by (simp add: merge_source_rows_eq)
  show "names_of (sr_source_modes v) = (\<Union>r \<in> {r \<in> set (concat groups). sr_program_id r = sr_program_id v}.
      names_of (sr_source_modes r))" by (rule modes.merge_rows_view [OF v])
  show "names_of (sr_covered_target_syscalls v) = (\<Union>r \<in> {r \<in> set (concat groups).
      sr_program_id r = sr_program_id v}. names_of (sr_covered_target_syscalls r))"
    by (rule covered.merge_rows_view [OF v])
qed

definition demo_row :: "string \<Rightarrow> string list \<Rightarrow> source_row" where
  "demo_row path modes = \<lparr>sr_program_id = ''p'',
     sr_fields = [(''meta_path'', PStr path), (''normalized_path'', PStr ''p.syz'')],
     sr_source_modes = Some modes, sr_covered_target_syscalls = None\<rparr>"

lemma merge_source_rows_spec_witness:
  "\<exists>v \<in> set (merge_source_rows [[demo_row ''m'' [''seed_templates'']], [demo_row ''m'' [''syz_generate'']]]).
     names_of (sr_source_modes v) = {''seed_templates'', ''syz_generate''}"
proof -
  let ?g = "[[demo_row ''m'' [''seed_templates'']], [demo_row ''m'' [''syz_generate'']]]"
  note spec = merge_source_rows_spec [of ?g, THEN conjunct2, THEN conjunct2]
  have "''p'' \<in> sr_program_id ` set (merge_source_rows ?g)"
    unfolding spec [THEN conjunct1] by (simp add: demo_row_def)
  then obtain v where v: "v \<in> set (merge_source_rows ?g)" "sr_program_id v = ''p''"
    by (rule imageE) (rule that, assumption, erule sym)
  from bspec [OF spec [THEN conjunct2] v(1), THEN conjunct1] have "names_of (sr_source_modes v) =
      (\<Union>r \<in> {r \<in> set (concat ?g). sr_program_id r = ''p''}. names_of (sr_source_modes r))" unfolding v(2) .
  also have "{r \<in> set (concat ?g). sr_program_id r = ''p''} = set (concat ?g)"
  proof -
    have "\<forall>r \<in> set (concat ?g). sr_program_id r = ''p''" by (simp add: demo_row_def)
    then show ?thesis by blast
  qed
  also have "(\<Union>r \<in> set (concat ?g). names_of (sr_source_modes r)) = {''seed_templates'', ''syz_generate''}"
    by (simp add: demo_row_def insert_commute)
  finally show ?thesis using v(1) by blast
qed

section \<open>The derived corpus\<close>

lemma mset_lefts_rights:
  "list_all2 (\<lambda>x y. (case y of Inl a \<Rightarrow> f a | Inr b \<Rightarrow> g b) = h x) xs ys \<Longrightarrow>
   mset (map f (lefts ys)) + mset (map g (rights ys)) = mset (map h xs)"
  by (induction rule: list_all2_induct) (auto simp: lefts_def rights_def split: sum.splits)

lemma set_lefts: "set (lefts xs) = {a. Inl a \<in> set xs}"
  and set_rights: "set (rights xs) = {b. Inr b \<in> set xs}"
  by (force simp: lefts_def rights_def split: sum.splits)+

lemma count_reason_get:
  "dict_get r (count_reason r' counts) =
     (if r = r' then Some (case dict_get r counts of None \<Rightarrow> 1 | Some n \<Rightarrow> Suc n) else dict_get r counts)"
  by (simp add: count_reason_def)

abbreviation counted :: "string \<Rightarrow> (string, nat) dict \<Rightarrow> nat" where
  "counted r counts \<equiv> (case dict_get r counts of None \<Rightarrow> 0 | Some n \<Rightarrow> n)"

lemma counted_fold:
  "distinct rs \<Longrightarrow> counted r (fold count_reason rs counts) = counted r counts + (if r \<in> set rs then 1 else 0)"
  by (induction rs arbitrary: counts) (auto simp: count_reason_get split: option.splits)

lemma counted_rows:
  "\<forall>x \<in> set xs. distinct (f x) \<Longrightarrow>
   counted r (fold (\<lambda>x. fold count_reason (f x)) xs counts) =
     counted r counts + length (filter (\<lambda>x. r \<in> set (f x)) xs)"
  by (induction xs arbitrary: counts) (simp_all add: counted_fold)

lemma derive_row_cases:
  assumes "derive_row w acc load_meta reasons_of row = Inr y"
  obtains m rs path where "row_text ''meta_path'' row = Inr path" "load_meta path = Inr m"
    "reasons_of m = Inr rs"
    "case y of Inl rp \<Rightarrow> rs \<noteq> [] \<and> rp_reasons rp = rs \<and> rp_program_id rp = sr_program_id row \<and> rp_meta_path rp = path
     | Inr ep \<Rightarrow> rs = [] \<and> ep_program_id ep = sr_program_id row \<and> ep_meta_path ep = path \<and> ep_workflow ep = w"
  using assms unfolding derive_row_def by (elim bind_InrE) (auto split: if_splits)

lemma map_res_list_all2: "map_res f xs = Inr ys \<Longrightarrow> list_all2 (\<lambda>x y. f x = Inr y) xs ys"
  by (induction xs arbitrary: ys) (auto simp: bind_eq_Inr)

lemma derive_corpus_spec:
  assumes "derive_corpus w acc load_meta reasons_of rows = Inr c"
    and d: "\<forall>m rs. reasons_of m = Inr rs \<longrightarrow> distinct rs"
  shows "mset (map ep_program_id (dc_eligible c)) + mset (map rp_program_id (dc_rejected c)) =
      mset (map sr_program_id rows)"
    and "\<forall>e \<in> set (dc_eligible c). \<exists>m. load_meta (ep_meta_path e) = Inr m \<and> reasons_of m = Inr []"
    and "\<forall>e \<in> set (dc_rejected c). \<exists>m. load_meta (rp_meta_path e) = Inr m \<and>
      reasons_of m = Inr (rp_reasons e) \<and> rp_reasons e \<noteq> []"
    and "counted r (dc_rejection_counts c) = length (filter (\<lambda>x. r \<in> set (rp_reasons x)) (dc_rejected c))"
proof -
  from assms(1) obtain ys where ys: "map_res (derive_row w acc load_meta reasons_of) rows = Inr ys"
    and c: "dc_eligible c = sort_key ep_program_id (rights ys)" "dc_rejected c = sort_key rp_program_id (lefts ys)"
      "dc_rejection_counts c = fold (\<lambda>r. fold count_reason (rp_reasons r)) (lefts ys) []"
    unfolding derive_corpus_def by (elim bind_InrE) auto
  have "list_all2 (\<lambda>x y. (case y of Inl a \<Rightarrow> rp_program_id a | Inr b \<Rightarrow> ep_program_id b) = sr_program_id x) rows ys"
    by (rule list_all2_mono [OF map_res_list_all2 [OF ys]]) (erule derive_row_cases, simp split: sum.splits)
  from mset_lefts_rights [OF this]
  show "mset (map ep_program_id (dc_eligible c)) + mset (map rp_program_id (dc_rejected c)) =
      mset (map sr_program_id rows)" by (simp add: c add.commute)
  have from_row: "\<exists>x \<in> set rows. derive_row w acc load_meta reasons_of x = Inr y" if "y \<in> set ys" for y
    by (rule map_res_mem [OF ys that])
  show "\<forall>e \<in> set (dc_eligible c). \<exists>m. load_meta (ep_meta_path e) = Inr m \<and> reasons_of m = Inr []"
  proof
    fix e assume "e \<in> set (dc_eligible c)"
    then obtain x where "derive_row w acc load_meta reasons_of x = Inr (Inr e)"
      using from_row by (auto simp: c set_rights)
    then show "\<exists>m. load_meta (ep_meta_path e) = Inr m \<and> reasons_of m = Inr []"
      by (rule derive_row_cases) auto
  qed
  show rej: "\<forall>e \<in> set (dc_rejected c). \<exists>m. load_meta (rp_meta_path e) = Inr m \<and>
      reasons_of m = Inr (rp_reasons e) \<and> rp_reasons e \<noteq> []"
  proof
    fix e assume "e \<in> set (dc_rejected c)"
    then obtain x where "derive_row w acc load_meta reasons_of x = Inr (Inl e)"
      using from_row by (auto simp: c set_lefts)
    then show "\<exists>m. load_meta (rp_meta_path e) = Inr m \<and> reasons_of m = Inr (rp_reasons e) \<and> rp_reasons e \<noteq> []"
      by (rule derive_row_cases) auto
  qed
  have "mset (filter (\<lambda>x. r \<in> set (rp_reasons x)) (dc_rejected c)) = mset (filter (\<lambda>x. r \<in> set (rp_reasons x)) (lefts ys))"
    by (simp add: c)
  then have len: "length (filter (\<lambda>x. r \<in> set (rp_reasons x)) (dc_rejected c)) =
      length (filter (\<lambda>x. r \<in> set (rp_reasons x)) (lefts ys))" by (rule mset_eq_length)
  have "\<forall>x \<in> set (lefts ys). distinct (rp_reasons x)" using rej d by (auto simp: c)
  from counted_rows [OF this]
  show "counted r (dc_rejection_counts c) = length (filter (\<lambda>x. r \<in> set (rp_reasons x)) (dc_rejected c))"
    unfolding len c(3) by simp
qed

lemma scml_derive_distinct: "scml_derive_rejection index profile tax m = Inr rs \<Longrightarrow> distinct rs"
  by (auto simp: scml_derive_rejection_def bind_eq_Inr)

text \<open>
  The derived corpus partitions the merged sources: every merged id is in exactly one of the
  eligible and the rejected rows, an eligible program has no rejection reason, a rejected one
  records its reasons and has some, and the count reported for a reason is the number of rejected
  programs that carry it.
\<close>

theorem derive_partition:
  assumes "apply_generation_profile manifest profile = Inr index"
    "derive_scml_corpus manifest profile tax w acc load_meta base generated = Inr c"
  shows "set (map ep_program_id (dc_eligible c)) \<union> set (map rp_program_id (dc_rejected c)) =
      sr_program_id ` (set base \<union> set generated) \<and>
    distinct (map ep_program_id (dc_eligible c) @ map rp_program_id (dc_rejected c)) \<and>
    (\<forall>e \<in> set (dc_eligible c). \<exists>m. load_meta (ep_meta_path e) = Inr m \<and>
       scml_derive_rejection index profile tax m = Inr []) \<and>
    (\<forall>e \<in> set (dc_rejected c). rp_reasons e \<noteq> [] \<and> (\<exists>m. load_meta (rp_meta_path e) = Inr m \<and>
       scml_derive_rejection index profile tax m = Inr (rp_reasons e))) \<and>
    (\<forall>r. counted r (dc_rejection_counts c) = length (filter (\<lambda>x. r \<in> set (rp_reasons x)) (dc_rejected c)))"
proof -
  let ?rows = "merge_source_rows [base, generated]"
  have c: "derive_corpus w acc load_meta (\<lambda>m. scml_derive_rejection index profile tax m) ?rows = Inr c"
    using assms by (simp add: derive_scml_corpus_def)
  have d: "\<forall>m rs. scml_derive_rejection index profile tax m = Inr rs \<longrightarrow> distinct rs"
    by (simp add: scml_derive_distinct)
  note spec = derive_corpus_spec [OF c d]
  have "mset (map ep_program_id (dc_eligible c) @ map rp_program_id (dc_rejected c)) = mset (map sr_program_id ?rows)"
    using spec(1) by simp
  then have "distinct (map ep_program_id (dc_eligible c) @ map rp_program_id (dc_rejected c))"
    and s: "set (map ep_program_id (dc_eligible c) @ map rp_program_id (dc_rejected c)) = set (map sr_program_id ?rows)"
    by (metis mset_eq_imp_distinct_iff merge_source_rows_eq modes.merge_rows_keys(2), metis mset_eq_setD)
  moreover have "set (map ep_program_id (dc_eligible c)) \<union> set (map rp_program_id (dc_rejected c)) =
      sr_program_id ` (set base \<union> set generated)"
    using s modes.merge_rows_keys(3) [of "concat [base, generated]"] by (simp add: merge_source_rows_eq)
  ultimately show ?thesis using spec(2,3,4) by blast
qed

lemma derive_partition_witness:
  "\<exists>profile load_meta c. derive_scml_corpus demo_manifest profile [] ''asterinas_scml'' [] load_meta
      [demo_row ''m'' [''existing_corpus'']] [] = Inr c \<and>
    ''p'' \<in> set (map ep_program_id (dc_eligible c)) \<union> set (map rp_program_id (dc_rejected c))"
proof -
  let ?p = "PDict [(''enabled_categories'', PList [PStr ''fs'']), (''generation'',
    PDict [(''sequence_length'', PDict [(''min'', PInt 1), (''max'', PInt 4)])])]"
  let ?m = "\<lparr>me_program_id = ''p'', me_normalized_path = None, me_uses_pseudo_syscalls = False,
    me_uses_threading_sensitive_features = False, me_syscall_list = [''openat''],
    me_full_syscall_list = [''openat'', ''openat''], me_call_count = 2\<rparr>"
  let ?run = "derive_scml_corpus demo_manifest ?p [] ''asterinas_scml'' [] (\<lambda>_. Inr ?m)
      [demo_row ''m'' [''existing_corpus'']] []"
  have "is_ok (bind (apply_generation_profile demo_manifest ?p) (\<lambda>index. ?run))" by code_simp
  then obtain index c where i: "apply_generation_profile demo_manifest ?p = Inr index" "?run = Inr c"
    by (elim is_ok_bindE) (auto simp only: is_ok_iff)
  have "''p'' \<in> set (map ep_program_id (dc_eligible c)) \<union> set (map rp_program_id (dc_rejected c))"
    using derive_partition [OF i] by (simp add: demo_row_def)
  with i(2) show ?thesis by blast
qed

end
