(* ===== verification/Generate.thy ===== *)
theory Generate
  imports Corpus
begin

text \<open>
  Candidate generation for the SCML targets, \<open>tools/generate_scml_candidates.py\<close>: the settings, the
  indexes over the existing corpus and the templates, one run of the generator for a target with
  the inspection of its programs, the batches, the merge and the summary. The files the tool writes
  are a store passed through every step (program texts, metadata, the staging directories that
  exist); the two binaries, the random part of \<open>mkdtemp\<close> and the seed hash are the environment.
  Batches are taken in the order in which the pool completes them, one at a time. Paths are
  resolved strings.
\<close>

section \<open>Paths\<close>

definition path_parts :: "string \<Rightarrow> string list" where
  "path_parts p = split_char CHR ''/'' p"

definition path_parent :: "string \<Rightarrow> string" where
  "path_parent p = join ''/'' (butlast (path_parts p))"

definition path_name :: "string \<Rightarrow> string" where
  "path_name p = last (path_parts p)"

definition under_path :: "string \<Rightarrow> string \<Rightarrow> bool" where
  "under_path base_dir p \<longleftrightarrow> take (length (path_parts base_dir)) (path_parts p) = path_parts base_dir"

section \<open>Data\<close>

record program_meta = meta +
  pm_source :: string
  pm_target_os :: string
  pm_arch :: string
  pm_resource_classes :: "string list"
  pm_original_path :: string
  pm_raw_path :: string
  pm_duplicate_inputs :: "string list"

record inspected =
  in_program_id :: string
  in_normalized_syz :: string
  in_target_os :: string
  in_arch :: string
  in_syscall_list :: "string list"
  in_full_syscall_list :: "string list"
  in_resource_classes :: "string list"
  in_uses_pseudo_syscalls :: bool
  in_uses_threading_sensitive_features :: bool
  in_call_count :: int

record cand =
  ca_program_id :: string
  ca_workflow :: string
  ca_source_mode :: string
  ca_source_modes :: "string list"
  ca_source_workflow :: string
  ca_source_program_id :: string
  ca_normalized_path :: string
  ca_meta_path :: string
  ca_covered :: "string list"

record corpus_row =
  cr_program_id :: string
  cr_workflow :: "string option"
  cr_normalized_path :: string
  cr_meta_path :: string

record gen_target =
  gt_syscall_name :: string
  gt_category :: string
  gt_support_tier :: string
  gt_generator_class :: string
  gt_generator_gap_reason :: "string option"

record gen_cfg =
  gc_workflow :: string
  gc_target_os :: string
  gc_arch :: string
  gc_raw_dir :: string
  gc_normalized_dir :: string
  gc_meta_dir :: string
  gc_temp_root :: string

record gen_store =
  gs_texts :: "(string, string) dict"
  gs_metas :: "(string, program_meta) dict"
  gs_staging :: "string list"

record gen_env =
  ge_binary :: string
  ge_binary_exists :: bool
  ge_mkdtemp :: "string list \<Rightarrow> string \<Rightarrow> string"
  ge_run :: "string list \<Rightarrow> int \<times> string \<times> string"
  ge_glob_syz :: "string \<Rightarrow> string list"
  ge_read :: "string \<Rightarrow> string res"
  ge_inspect :: "string \<Rightarrow> inspected res"
  ge_seed :: "string \<Rightarrow> int"

section \<open>Settings\<close>

record gen_args =
  ga_jobs :: "int option"
  ga_batch_size :: "int option"
  ga_per_target_budget :: "int option"
  ga_existing_corpus_source_file :: "string option"

record gen_settings =
  se_source_modes :: "string list"
  se_jobs :: int
  se_batch_size :: int
  se_per_target_budget :: int
  se_existing_corpus_limit :: int
  se_preferred_length :: int
  se_existing_corpus_source_file :: pyval
  se_template_dir :: pyval
  se_allow_variant_templates :: "string list"

definition DEFAULT_BATCH_SIZE :: int where "DEFAULT_BATCH_SIZE = 1"

definition DEFAULT_PER_TARGET_BUDGET :: int where "DEFAULT_PER_TARGET_BUDGET = 8"

definition DEFAULT_EXISTING_CORPUS_LIMIT :: int where "DEFAULT_EXISTING_CORPUS_LIMIT = 4"

definition GENERATED_STAGING_PREFIX :: string where "GENERATED_STAGING_PREFIX = ''scml-syzgen-''"

text \<open>\<open>a or b\<close>, \<open>dict(v)\<close> of a dictionary and an optional argument.\<close>

definition py_or :: "pyval \<Rightarrow> pyval \<Rightarrow> pyval" where
  "py_or a b = (if truthy a then a else b)"

definition py_dict :: "pyval \<Rightarrow> pyval res" where
  "py_dict v = (if is_dict v then Inr v else Inl (TypeError ''dict''))"

definition opt_int :: "int option \<Rightarrow> pyval" where
  "opt_int x = (case x of None \<Rightarrow> PNone | Some i \<Rightarrow> PInt i)"

definition generation_settings :: "pyval \<Rightarrow> pyval \<Rightarrow> gen_args \<Rightarrow> gen_settings res" where
  "generation_settings cfg profile args =
     bind (py_dict (py_get ''generation'' (PDict []) profile)) (\<lambda>generation.
     bind (py_dict (py_get ''sequence_length'' (PDict []) generation)) (\<lambda>sequence.
     bind (py_int (py_get ''min'' (PInt 1) sequence)) (\<lambda>min_len.
     bind (py_int (py_get ''max'' (PInt 4) sequence)) (\<lambda>max_len.
     bind (str_items (py_get ''source_modes'' (PList []) generation)) (\<lambda>modes.
     bind (py_int (py_or (opt_int (ga_jobs args)) (py_or (py_get ''jobs'' PNone generation)
       (py_get ''jobs'' (PInt 1) (py_get ''parallel'' (PDict []) cfg))))) (\<lambda>jobs.
     bind (py_int (py_or (opt_int (ga_batch_size args))
       (py_get ''batch_size'' (PInt DEFAULT_BATCH_SIZE) generation))) (\<lambda>batch_size.
     bind (py_int (py_or (opt_int (ga_per_target_budget args))
       (py_get ''per_target_budget'' (PInt DEFAULT_PER_TARGET_BUDGET) generation))) (\<lambda>budget.
     bind (py_int (py_get ''existing_corpus_limit'' (PInt DEFAULT_EXISTING_CORPUS_LIMIT) generation)) (\<lambda>limit.
     bind (str_items (py_get ''allow_variant_templates'' (PList []) generation)) (\<lambda>variants.
     Inr \<lparr>se_source_modes = modes, se_jobs = max 1 jobs, se_batch_size = max 1 batch_size,
       se_per_target_budget = max 1 budget, se_existing_corpus_limit = max 1 limit,
       se_preferred_length = min (max min_len 4) max_len,
       se_existing_corpus_source_file =
         py_or (case ga_existing_corpus_source_file args of None \<Rightarrow> PNone | Some f \<Rightarrow> PStr f)
           (py_or (py_get ''existing_corpus_source_file'' PNone generation)
             (py_get ''legacy_source_eligible_file'' PNone (py_get ''derivation'' (PDict []) cfg))),
       se_template_dir = py_get ''template_dir'' PNone generation,
       se_allow_variant_templates = variants\<rparr>))))))))))"

section \<open>Batches, coverage and merge\<close>

function target_batches :: "'a list \<Rightarrow> nat \<Rightarrow> 'a list list" where
  "target_batches rows batch_size =
     (if rows = [] \<or> batch_size = 0 then []
      else take batch_size rows # target_batches (drop batch_size rows) batch_size)"
  by pat_completeness auto
termination by (relation "measure (\<lambda>(rows, _). length rows)") auto

declare target_batches.simps [simp del]

definition target_syscall_set :: "gen_target list \<Rightarrow> string list" where
  "target_syscall_set rows = map gt_syscall_name rows"

definition candidate_target_coverage :: "string list \<Rightarrow> string list \<Rightarrow> string list" where
  "candidate_target_coverage syscalls targets = sorted_set (filter (\<lambda>s. s \<in> set targets) syscalls)"

definition candidate_row_from_existing :: "corpus_row \<Rightarrow> string \<Rightarrow> string list \<Rightarrow> string \<Rightarrow> cand" where
  "candidate_row_from_existing row workflow covered_targets source_mode =
     \<lparr>ca_program_id = cr_program_id row, ca_workflow = workflow, ca_source_mode = source_mode,
      ca_source_modes = [source_mode],
      ca_source_workflow = (case cr_workflow row of None \<Rightarrow> [] | Some w \<Rightarrow> w),
      ca_source_program_id = cr_program_id row, ca_normalized_path = cr_normalized_path row,
      ca_meta_path = cr_meta_path row, ca_covered = covered_targets\<rparr>"

definition fresh_candidate :: "cand \<Rightarrow> cand" where
  "fresh_candidate row = row\<lparr>ca_source_modes := sorted_set (ca_source_modes row),
     ca_covered := sorted_set (ca_covered row)\<rparr>"

definition combine_candidates :: "cand \<Rightarrow> cand \<Rightarrow> cand" where
  "combine_candidates old row = old\<lparr>ca_source_modes := sorted_set (ca_source_modes old @ ca_source_modes row),
     ca_covered := sorted_set (ca_covered old @ ca_covered row)\<rparr>"

definition merge_candidate_rows :: "cand list \<Rightarrow> cand list" where
  "merge_candidate_rows rows = merge_rows ca_program_id fresh_candidate combine_candidates rows"

interpretation cand_merge: keyed_merge ca_program_id fresh_candidate combine_candidates
    "\<lambda>r. Inl ` set (ca_source_modes r) \<union> Inr ` set (ca_covered r)"
  by unfold_locales (auto simp: fresh_candidate_def combine_candidates_def)

section \<open>The existing corpus\<close>

definition index_rows_of :: "string \<Rightarrow> (string, cand list) dict \<Rightarrow> cand list" where
  "index_rows_of name index = (case dict_get name index of None \<Rightarrow> [] | Some xs \<Rightarrow> xs)"

definition index_add ::
  "int \<Rightarrow> cand \<Rightarrow> string \<Rightarrow> (string, cand list) dict \<Rightarrow> (string, cand list) dict" where
  "index_add limit c name index =
     (let old = (case dict_get name index of None \<Rightarrow> [] | Some xs \<Rightarrow> xs)
      in dict_set name (if int (length old) \<ge> limit then old else old @ [c]) index)"

definition existing_index_step ::
  "string \<Rightarrow> string list \<Rightarrow> int \<Rightarrow> corpus_row \<Rightarrow> meta \<Rightarrow> bool \<Rightarrow>
   (string, cand list) dict \<Rightarrow> (string, cand list) dict" where
  "existing_index_step workflow targets limit row m valid index =
     (let covered = candidate_target_coverage (me_syscall_list m) targets in
      if \<not> valid then index else if covered = [] then index
      else fold (index_add limit (candidate_row_from_existing row workflow covered ''existing_corpus''))
             covered index)"

fun existing_rows ::
  "string \<Rightarrow> string list \<Rightarrow> int \<Rightarrow> (string \<Rightarrow> meta res) \<Rightarrow> (meta \<Rightarrow> bool res) option \<Rightarrow> corpus_row list \<Rightarrow>
   (string, cand list) dict \<Rightarrow> (string, cand list) dict res" where
  "existing_rows workflow targets limit load_meta validate [] index = Inr index"
| "existing_rows workflow targets limit load_meta validate (row # rows) index =
     bind (load_meta (cr_meta_path row)) (\<lambda>m.
     bind (case validate of None \<Rightarrow> Inr True | Some v \<Rightarrow> v m) (\<lambda>valid.
     existing_rows workflow targets limit load_meta validate rows
       (existing_index_step workflow targets limit row m valid index)))"

definition load_existing_corpus_index ::
  "string option \<Rightarrow> (string \<Rightarrow> corpus_row list option) \<Rightarrow> string \<Rightarrow> gen_target list \<Rightarrow> int \<Rightarrow>
   (string \<Rightarrow> meta res) \<Rightarrow> (meta \<Rightarrow> bool res) option \<Rightarrow> (string, cand list) dict res" where
  "load_existing_corpus_index source_file rows_of workflow target_rows limit load_meta validate =
     (case source_file of None \<Rightarrow> Inr []
      | Some f \<Rightarrow> if f = [] then Inr [] else (case rows_of f of None \<Rightarrow> Inr []
          | Some rows \<Rightarrow> existing_rows workflow (target_syscall_set target_rows) limit load_meta validate rows []))"

text \<open>What \<open>main\<close> passes: a program of the existing corpus must pass the SCML derivation.\<close>

definition validate_existing_meta :: "manifest_index \<Rightarrow> pyval \<Rightarrow> taxonomy \<Rightarrow> meta \<Rightarrow> bool res" where
  "validate_existing_meta index profile tax m =
     bind (scml_derive_rejection index profile tax m) (\<lambda>rs. Inr (rs = []))"

section \<open>Persisting an inspected program\<close>

definition persisted_meta :: "gen_cfg \<Rightarrow> string \<Rightarrow> string \<Rightarrow> inspected \<Rightarrow> program_meta" where
  "persisted_meta cfg source_mode program_path info =
     \<lparr>me_program_id = in_program_id info,
      me_normalized_path = Some (gc_normalized_dir cfg @ ''/'' @ in_program_id info @ ''.syz''),
      me_uses_pseudo_syscalls = in_uses_pseudo_syscalls info,
      me_uses_threading_sensitive_features = in_uses_threading_sensitive_features info,
      me_syscall_list = in_syscall_list info, me_full_syscall_list = in_full_syscall_list info,
      me_call_count = in_call_count info, pm_source = source_mode, pm_target_os = in_target_os info,
      pm_arch = in_arch info, pm_resource_classes = in_resource_classes info,
      pm_original_path = program_path,
      pm_raw_path = gc_raw_dir cfg @ ''/'' @ in_program_id info @ ''.syz'',
      pm_duplicate_inputs = []\<rparr>"

text \<open>\<open>if not path.exists(): write_text(path, ..)\<close>\<close>

definition write_if_absent :: "string \<Rightarrow> string \<Rightarrow> gen_store \<Rightarrow> gen_store" where
  "write_if_absent path content st =
     (if dict_get path (gs_texts st) = None then st\<lparr>gs_texts := dict_set path content (gs_texts st)\<rparr> else st)"

definition persisted_row :: "gen_cfg \<Rightarrow> string \<Rightarrow> inspected \<Rightarrow> cand" where
  "persisted_row cfg source_mode info =
     \<lparr>ca_program_id = in_program_id info, ca_workflow = gc_workflow cfg, ca_source_mode = source_mode,
      ca_source_modes = [source_mode], ca_source_workflow = gc_workflow cfg,
      ca_source_program_id = in_program_id info,
      ca_normalized_path = gc_normalized_dir cfg @ ''/'' @ in_program_id info @ ''.syz'',
      ca_meta_path = gc_meta_dir cfg @ ''/'' @ in_program_id info @ ''.json'', ca_covered = []\<rparr>"

definition ensure_raw :: "gen_env \<Rightarrow> string \<Rightarrow> string \<Rightarrow> gen_store \<Rightarrow> gen_store res" where
  "ensure_raw env raw_path program_path st =
     (if dict_get raw_path (gs_texts st) = None
      then bind (ge_read env program_path) (\<lambda>t. Inr (write_if_absent raw_path t st)) else Inr st)"

definition ensure_meta :: "string \<Rightarrow> program_meta \<Rightarrow> gen_store \<Rightarrow> gen_store \<times> program_meta" where
  "ensure_meta meta_path m st = (case dict_get meta_path (gs_metas st) of
       None \<Rightarrow> (st\<lparr>gs_metas := dict_set meta_path m (gs_metas st)\<rparr>, m)
     | Some old \<Rightarrow> (st, old))"

definition persist_inspected_program ::
  "gen_cfg \<Rightarrow> gen_env \<Rightarrow> string \<Rightarrow> string \<Rightarrow> gen_store \<Rightarrow> (gen_store \<times> cand \<times> program_meta) res" where
  "persist_inspected_program cfg env source_mode program_path st =
     bind (ge_inspect env program_path) (\<lambda>info.
     bind (ensure_raw env (gc_raw_dir cfg @ ''/'' @ in_program_id info @ ''.syz'') program_path st) (\<lambda>st1.
       let st2 = write_if_absent (gc_normalized_dir cfg @ ''/'' @ in_program_id info @ ''.syz'')
             (in_normalized_syz info) st1;
           (st3, m) = ensure_meta (gc_meta_dir cfg @ ''/'' @ in_program_id info @ ''.json'')
             (persisted_meta cfg source_mode program_path info) st2
       in Inr (st3, persisted_row cfg source_mode info, m)))"

section \<open>Templates\<close>

record template_files =
  tf_exists :: "string \<Rightarrow> bool"
  tf_rglob_syz :: "string \<Rightarrow> string list"
  tf_glob_syz :: "string \<Rightarrow> string \<Rightarrow> string list"

text \<open>Paths compare by their parts.\<close>

definition sort_paths :: "string list \<Rightarrow> string list" where
  "sort_paths ps = sort_key path_parts ps"

definition template_paths_for_target :: "template_files \<Rightarrow> string \<Rightarrow> string \<Rightarrow> string list" where
  "template_paths_for_target fs template_root syscall_name =
     (let direct = template_root @ ''/'' @ syscall_name @ ''.syz'';
          nested_root = template_root @ ''/'' @ syscall_name in
      uniq ((if tf_exists fs direct then [direct] else []) @
        (if tf_exists fs nested_root then sort_paths (tf_rglob_syz fs nested_root) else []) @
        sort_paths (tf_glob_syz fs template_root (syscall_name @ ''_''))))"

definition template_index_step ::
  "gen_settings \<Rightarrow> string list \<Rightarrow> string \<Rightarrow> cand \<Rightarrow> program_meta \<Rightarrow>
   (string, cand list) dict \<Rightarrow> (string, cand list) dict" where
  "template_index_step settings targets syscall_name row m index =
     (if list_ex (\<lambda>full_name. startswith full_name (syscall_name @ ''$'')) (me_full_syscall_list m) \<and>
         syscall_name \<notin> set (se_allow_variant_templates settings) then index
      else let covered = candidate_target_coverage (me_syscall_list m) targets in
        if syscall_name \<notin> set covered then index
        else dict_set syscall_name (index_rows_of syscall_name index @ [row\<lparr>ca_covered := covered\<rparr>]) index)"

fun template_rows ::
  "gen_cfg \<Rightarrow> gen_env \<Rightarrow> gen_settings \<Rightarrow> string list \<Rightarrow> string \<Rightarrow> string list \<Rightarrow>
   gen_store \<times> (string, cand list) dict \<Rightarrow> (gen_store \<times> (string, cand list) dict) res" where
  "template_rows cfg env settings targets syscall_name [] s = Inr s"
| "template_rows cfg env settings targets syscall_name (path # paths) (st, index) =
     bind (persist_inspected_program cfg env ''seed_templates'' path st) (\<lambda>(st', row, m).
       template_rows cfg env settings targets syscall_name paths
         (st', template_index_step settings targets syscall_name row m index))"

fun load_templates ::
  "gen_cfg \<Rightarrow> gen_env \<Rightarrow> gen_settings \<Rightarrow> template_files \<Rightarrow> string \<Rightarrow> string list \<Rightarrow> string list \<Rightarrow>
   gen_store \<times> (string, cand list) dict \<Rightarrow> (gen_store \<times> (string, cand list) dict) res" where
  "load_templates cfg env settings fs base_dir targets [] s = Inr s"
| "load_templates cfg env settings fs base_dir targets (name # names) s =
     bind (template_rows cfg env settings targets name (template_paths_for_target fs base_dir name) s)
       (load_templates cfg env settings fs base_dir targets names)"

definition load_template_index ::
  "gen_cfg \<Rightarrow> gen_env \<Rightarrow> gen_settings \<Rightarrow> template_files \<Rightarrow> gen_target list \<Rightarrow> gen_store \<Rightarrow>
   (gen_store \<times> (string, cand list) dict) res" where
  "load_template_index cfg env settings fs target_rows st =
     (if \<not> truthy (se_template_dir settings) then Inr (st, [])
      else let base_dir = py_str (se_template_dir settings); targets = target_syscall_set target_rows in
        if \<not> tf_exists fs base_dir then Inr (st, [])
        else load_templates cfg env settings fs base_dir targets targets (st, []))"

section \<open>One run of the generator\<close>

definition generate_command :: "gen_cfg \<Rightarrow> gen_env \<Rightarrow> string \<Rightarrow> int \<Rightarrow> int \<Rightarrow> int \<Rightarrow> string \<Rightarrow> string list" where
  "generate_command cfg env syscall_name budget preferred_length seed output_dir =
     [ge_binary env, ''-os'', gc_target_os cfg, ''-arch'', gc_arch cfg, ''-output-dir'', output_dir,
      ''-count'', int_str budget, ''-seed'', int_str seed, ''-length'', int_str preferred_length,
      ''-allow'', syscall_name]"

definition generator_error_message :: "string \<Rightarrow> int \<Rightarrow> string \<Rightarrow> string \<Rightarrow> string" where
  "generator_error_message syscall_name returncode out err =
     (let detail = (if strip err \<noteq> [] then strip err else if strip out \<noteq> [] then strip out
        else ''unknown generator failure'')
      in ''syzabi_generate failed for '' @ syscall_name @ '': returncode='' @ int_str returncode @ '': '' @ detail)"

text \<open>
  \<open>shutil.rmtree\<close> of a staging directory. A missing binary raises before anything is created; a
  failing run removes its directory, so the store is part of both outcomes.
\<close>

definition remove_dir :: "string \<Rightarrow> gen_store \<Rightarrow> gen_store" where
  "remove_dir d st = st\<lparr>gs_staging := filter (\<lambda>x. x \<noteq> d) (gs_staging st)\<rparr>"

definition run_syzabi_generate ::
  "gen_cfg \<Rightarrow> gen_env \<Rightarrow> string \<Rightarrow> int \<Rightarrow> int \<Rightarrow> int \<Rightarrow> gen_store \<Rightarrow> (gen_store \<times> string list res) res" where
  "run_syzabi_generate cfg env syscall_name budget preferred_length seed st =
     (if \<not> ge_binary_exists env
      then Inl (FileNotFoundError ''missing build/bin/syzabi_generate, run `make bootstrap` first'')
      else
        let output_dir = ge_mkdtemp env (gs_staging st)
              (gc_temp_root cfg @ ''/'' @ GENERATED_STAGING_PREFIX @ syscall_name @ ''-'');
            st1 = st\<lparr>gs_staging := output_dir # gs_staging st\<rparr>;
            (rc, out, err) = ge_run env
              (generate_command cfg env syscall_name budget preferred_length seed output_dir);
            generated_paths = sort_paths (ge_glob_syz env output_dir)
        in Inr (if rc = 0 \<or> rc = 2 \<and> generated_paths \<noteq> [] then (st1, Inr generated_paths)
             else (remove_dir output_dir st1,
               Inl (RuntimeErr (generator_error_message syscall_name rc out err)))))"

definition staging_parent :: "gen_cfg \<Rightarrow> string \<Rightarrow> bool" where
  "staging_parent cfg parent \<longleftrightarrow>
     under_path (gc_temp_root cfg) parent \<and> startswith (path_name parent) GENERATED_STAGING_PREFIX"

definition cleanup_generated_staging_dirs :: "gen_cfg \<Rightarrow> string list \<Rightarrow> gen_store \<Rightarrow> gen_store" where
  "cleanup_generated_staging_dirs cfg paths st =
     (if paths = [] then st
      else fold remove_dir (filter (staging_parent cfg) (uniq (map path_parent paths))) st)"

section \<open>The rows of a target\<close>

definition inspect_error_of :: "py_error \<Rightarrow> string option" where
  "inspect_error_of e = (case e of
       CalledProcessErr m \<Rightarrow> Some m | FileNotFoundError m \<Rightarrow> Some m | RuntimeErr m \<Rightarrow> Some m | _ \<Rightarrow> None)"

fun inspect_generated ::
  "gen_cfg \<Rightarrow> gen_env \<Rightarrow> string list \<Rightarrow> string \<Rightarrow> string list \<Rightarrow>
   gen_store \<times> cand list \<times> string option \<Rightarrow> (gen_store \<times> cand list \<times> string option) res" where
  "inspect_generated cfg env all_targets syscall_name [] s = Inr s"
| "inspect_generated cfg env all_targets syscall_name (path # paths) (st, rows, inspect_error) =
     (case persist_inspected_program cfg env ''syz_generate'' path st of
        Inl e \<Rightarrow> (case inspect_error_of e of
            None \<Rightarrow> Inl e
          | Some m \<Rightarrow> inspect_generated cfg env all_targets syscall_name paths (st, rows, Some m))
      | Inr (st', row, m) \<Rightarrow>
          (let covered = candidate_target_coverage (me_syscall_list m) all_targets in
           inspect_generated cfg env all_targets syscall_name paths
             (st', if syscall_name \<notin> set covered then rows else rows @ [row\<lparr>ca_covered := covered\<rparr>],
              inspect_error)))"

record coverage_row =
  co_syscall_name :: string
  co_generator_class :: string
  co_generator_gap_reason :: "string option"
  co_source_modes_attempted :: "string list"
  co_candidate_count :: nat
  co_generator_error :: "string option"
  co_inspect_error :: "string option"

record gap_row =
  ga_syscall_name :: string
  ga_category :: string
  ga_support_tier :: string
  ga_generator_class :: string
  ga_generator_gap_reason :: "string option"
  ga_source_modes_attempted :: "string list"
  ga_generator_error :: "string option"
  ga_inspect_error :: "string option"

definition modes_attempted :: "gen_settings \<Rightarrow> gen_target \<Rightarrow> string list" where
  "modes_attempted settings target =
     (if ''existing_corpus'' \<in> set (se_source_modes settings) then [''existing_corpus''] else []) @
     (if ''seed_templates'' \<in> set (se_source_modes settings) then [''seed_templates''] else []) @
     (if ''syz_generate'' \<in> set (se_source_modes settings) \<and> gt_generator_class target = ''base_only''
      then [''syz_generate''] else [])"

definition gap_reason_of :: "gen_target \<Rightarrow> string option \<Rightarrow> string option \<Rightarrow> string option" where
  "gap_reason_of target generator_error inspect_error =
     (if generator_error \<noteq> None then Some ''generator_failed''
      else if inspect_error \<noteq> None then Some ''inspect_failed''
      else if gt_generator_class target \<in> {''helper_only'', ''unavailable''} then gt_generator_gap_reason target
      else Some ''generation_exhausted'')"

text \<open>The part of the function that runs the generator, with the rows found so far.\<close>

definition generated_rows_of ::
  "gen_cfg \<Rightarrow> gen_env \<Rightarrow> gen_settings \<Rightarrow> string list \<Rightarrow> gen_target \<Rightarrow> cand list \<Rightarrow> gen_store \<Rightarrow>
   (gen_store \<times> cand list \<times> string option \<times> string option) res" where
  "generated_rows_of cfg env settings all_targets target rows st =
     (if \<not> (''syz_generate'' \<in> set (se_source_modes settings) \<and> gt_generator_class target = ''base_only'')
      then Inr (st, rows, None, None)
      else bind (run_syzabi_generate cfg env (gt_syscall_name target) (se_per_target_budget settings)
          (se_preferred_length settings) (ge_seed env (gc_workflow cfg @ '':'' @ gt_syscall_name target)) st)
        (\<lambda>(st1, outcome). case outcome of
           Inl (RuntimeErr m) \<Rightarrow> Inr (st1, rows, Some m, None)
         | Inl e \<Rightarrow> Inl e
         | Inr paths \<Rightarrow>
             bind (inspect_generated cfg env all_targets (gt_syscall_name target) paths (st1, rows, None))
               (\<lambda>(st2, rows', inspect_error).
                 Inr (cleanup_generated_staging_dirs cfg paths st2, rows', None, inspect_error))))"

definition target_rows_result ::
  "gen_settings \<Rightarrow> gen_target \<Rightarrow> cand list \<Rightarrow> string option \<Rightarrow> string option \<Rightarrow>
   cand list \<times> coverage_row \<times> gap_row option" where
  "target_rows_result settings target rows generator_error inspect_error =
     (let unique_rows = merge_candidate_rows rows;
          coverage = \<lparr>co_syscall_name = gt_syscall_name target,
            co_generator_class = gt_generator_class target,
            co_generator_gap_reason = gt_generator_gap_reason target,
            co_source_modes_attempted = modes_attempted settings target,
            co_candidate_count = length unique_rows, co_generator_error = generator_error,
            co_inspect_error = inspect_error\<rparr>
      in if unique_rows \<noteq> [] then (unique_rows, coverage, None)
         else ([], coverage, Some \<lparr>ga_syscall_name = gt_syscall_name target, ga_category = gt_category target,
           ga_support_tier = gt_support_tier target, ga_generator_class = gt_generator_class target,
           ga_generator_gap_reason = gap_reason_of target generator_error inspect_error,
           ga_source_modes_attempted = modes_attempted settings target,
           ga_generator_error = generator_error, ga_inspect_error = inspect_error\<rparr>))"

definition generate_rows_for_target ::
  "gen_cfg \<Rightarrow> gen_env \<Rightarrow> gen_settings \<Rightarrow> string list \<Rightarrow> (string, cand list) dict \<Rightarrow> (string, cand list) dict \<Rightarrow>
   gen_target \<Rightarrow> gen_store \<Rightarrow> (gen_store \<times> cand list \<times> coverage_row \<times> gap_row option) res" where
  "generate_rows_for_target cfg env settings all_targets existing_index template_index target st =
     (let rows = (if ''existing_corpus'' \<in> set (se_source_modes settings)
            then index_rows_of (gt_syscall_name target) existing_index else []) @
          (if ''seed_templates'' \<in> set (se_source_modes settings)
            then index_rows_of (gt_syscall_name target) template_index else [])
      in bind (generated_rows_of cfg env settings all_targets target rows st)
        (\<lambda>(st', rows', generator_error, inspect_error).
          Inr (st', target_rows_result settings target rows' generator_error inspect_error)))"

section \<open>Batches and the summary\<close>

record gen_result =
  gr_rows :: "cand list"
  gr_coverage :: "coverage_row list"
  gr_gaps :: "gap_row list"

text \<open>\<open>run_batch\<close> on the batches in completion order: the concatenation of its three lists.\<close>

fun run_batch ::
  "(gen_target \<Rightarrow> gen_store \<Rightarrow> (gen_store \<times> cand list \<times> coverage_row \<times> gap_row option) res) \<Rightarrow>
   gen_target list \<Rightarrow> gen_store \<times> gen_result \<Rightarrow> (gen_store \<times> gen_result) res" where
  "run_batch gen [] s = Inr s"
| "run_batch gen (target # batch) (st, r) =
     bind (gen target st) (\<lambda>(st', rows, coverage, gap).
       run_batch gen batch (st', \<lparr>gr_rows = gr_rows r @ rows, gr_coverage = gr_coverage r @ [coverage],
         gr_gaps = gr_gaps r @ (case gap of None \<Rightarrow> [] | Some g \<Rightarrow> [g])\<rparr>))"

fun run_batches ::
  "(gen_target \<Rightarrow> gen_store \<Rightarrow> (gen_store \<times> cand list \<times> coverage_row \<times> gap_row option) res) \<Rightarrow>
   gen_target list list \<Rightarrow> gen_store \<times> gen_result \<Rightarrow> (gen_store \<times> gen_result) res" where
  "run_batches gen [] s = Inr s"
| "run_batches gen (batch # batches) s = bind (run_batch gen batch s) (run_batches gen batches)"

definition finish_result :: "gen_result \<Rightarrow> gen_result" where
  "finish_result r = \<lparr>gr_rows = merge_candidate_rows (gr_rows r),
     gr_coverage = sort_key co_syscall_name (gr_coverage r),
     gr_gaps = sort_key ga_syscall_name (gr_gaps r)\<rparr>"

text \<open>
  \<open>completion\<close> is the order in which the pool completes the batches; with one job or one batch it
  is the order of the batches.
\<close>

definition generate_candidates ::
  "gen_cfg \<Rightarrow> gen_env \<Rightarrow> gen_settings \<Rightarrow> (string, cand list) dict \<Rightarrow> (string, cand list) dict \<Rightarrow>
   (gen_target list list \<Rightarrow> gen_target list list) \<Rightarrow> gen_target list \<Rightarrow> gen_store \<Rightarrow>
   (gen_store \<times> gen_result) res" where
  "generate_candidates cfg env settings existing_index template_index completion target_rows st =
     (let batches = target_batches target_rows (nat (se_batch_size settings));
          order = (if se_jobs settings \<le> 1 \<or> length batches \<le> 1 then batches else completion batches);
          gen = generate_rows_for_target cfg env settings (target_syscall_set target_rows)
            existing_index template_index
      in bind (run_batches gen order (st, \<lparr>gr_rows = [], gr_coverage = [], gr_gaps = []\<rparr>))
        (\<lambda>(st', r). Inr (st', finish_result r)))"

record gen_summary =
  gm_workflow :: string
  gm_profile_enabled_total :: nat
  gm_targets_with_candidates :: nat
  gm_targets_without_candidates :: int
  gm_unique_candidate_count :: nat
  gm_generator_failed_targets :: nat
  gm_generator_class_counts :: "(string, nat) dict"
  gm_source_mode_counts :: "(string, nat) dict"
  gm_gap_reason_counts :: "(string option, nat) dict"
  gm_generation_jobs :: int
  gm_generation_batch_size :: int
  gm_per_target_budget :: int

definition counter :: "'a list \<Rightarrow> ('a, nat) dict" where
  "counter xs = fold (\<lambda>x d. dict_set x (case dict_get x d of None \<Rightarrow> 1 | Some n \<Rightarrow> Suc n) d) xs []"

definition build_generation_summary ::
  "gen_cfg \<Rightarrow> gen_settings \<Rightarrow> gen_target list \<Rightarrow> gen_result \<Rightarrow> gen_summary" where
  "build_generation_summary cfg settings target_rows r =
     (let gap_reason_counts = counter (map ga_generator_gap_reason (gr_gaps r));
          covered_targets = length (filter (\<lambda>c. co_candidate_count c > 0) (gr_coverage r))
      in \<lparr>gm_workflow = gc_workflow cfg, gm_profile_enabled_total = length target_rows,
          gm_targets_with_candidates = covered_targets,
          gm_targets_without_candidates = int (length target_rows) - int covered_targets,
          gm_unique_candidate_count = length (gr_rows r),
          gm_generator_failed_targets = (case dict_get (Some ''generator_failed'') gap_reason_counts of
             None \<Rightarrow> 0 | Some n \<Rightarrow> n),
          gm_generator_class_counts = counter (map gt_generator_class target_rows),
          gm_source_mode_counts = counter (concat (map ca_source_modes (gr_rows r))),
          gm_gap_reason_counts = gap_reason_counts, gm_generation_jobs = se_jobs settings,
          gm_generation_batch_size = se_batch_size settings,
          gm_per_target_budget = se_per_target_budget settings\<rparr>)"

section \<open>Batches\<close>

lemma target_batches_concat: "0 < n \<Longrightarrow> concat (target_batches rows n) = rows"
  by (induction rows n rule: target_batches.induct) (subst target_batches.simps, auto)

lemma target_batches_sizes: "b \<in> set (target_batches rows n) \<Longrightarrow> b \<noteq> [] \<and> length b \<le> n"
  by (induction rows n arbitrary: b rule: target_batches.induct)
    (subst (asm) (2) target_batches.simps, auto split: if_splits)

section \<open>What a candidate covers\<close>

text \<open>
  The calls of a program, by its id: those its metadata lists, loaded for a row of the existing corpus
  that passes the validation, or stored in the workflow's own metadata file of the program.
\<close>

definition corpus_calls ::
  "string option \<Rightarrow> (string \<Rightarrow> corpus_row list option) \<Rightarrow> (string \<Rightarrow> meta res) \<Rightarrow> (meta \<Rightarrow> bool res) option \<Rightarrow>
   string \<Rightarrow> string list \<Rightarrow> bool" where
  "corpus_calls source_file rows_of load_meta validate pid calls \<longleftrightarrow>
     (\<exists>f rows row m. source_file = Some f \<and> rows_of f = Some rows \<and> row \<in> set rows \<and> cr_program_id row = pid \<and>
        load_meta (cr_meta_path row) = Inr m \<and> (\<forall>v. validate = Some v \<longrightarrow> v m = Inr True) \<and> me_syscall_list m = calls)"

definition stored_calls :: "gen_cfg \<Rightarrow> gen_store \<Rightarrow> string \<Rightarrow> string list \<Rightarrow> bool" where
  "stored_calls cfg st pid calls \<longleftrightarrow>
     (\<exists>m. dict_get (gc_meta_dir cfg @ ''/'' @ pid @ ''.json'') (gs_metas st) = Some m \<and> me_syscall_list m = calls)"

definition keeps_metas :: "gen_store \<Rightarrow> gen_store \<Rightarrow> bool" where
  "keeps_metas st st' \<longleftrightarrow> (\<forall>p m. dict_get p (gs_metas st) = Some m \<longrightarrow> dict_get p (gs_metas st') = Some m)"

text \<open>
  A candidate for a target: it covers exactly the targets among the calls of some programs of its id, and
  each of these calls the target.
\<close>

definition cand_ok :: "(string \<Rightarrow> string list \<Rightarrow> bool) \<Rightarrow> string list \<Rightarrow> string \<Rightarrow> cand \<Rightarrow> bool" where
  "cand_ok K targets name c \<longleftrightarrow> name \<in> set targets \<and> (\<exists>L. L \<noteq> {} \<and> (\<forall>calls \<in> L. K (ca_program_id c) calls \<and> name \<in> set calls) \<and>
     set (ca_covered c) = (\<Union>calls \<in> L. set calls) \<inter> set targets)"

definition index_ok :: "(string \<Rightarrow> string list \<Rightarrow> bool) \<Rightarrow> string list \<Rightarrow> (string, cand list) dict \<Rightarrow> bool" where
  "index_ok K targets index \<longleftrightarrow> (\<forall>name xs c. dict_get name index = Some xs \<longrightarrow> c \<in> set xs \<longrightarrow>
     cand_ok K targets name c)"

lemma set_coverage: "set (candidate_target_coverage syscalls targets) = set syscalls \<inter> set targets"
  by (auto simp: candidate_target_coverage_def)

lemma cand_ok_one:
  assumes "K (ca_program_id c) calls" "ca_covered c = candidate_target_coverage calls targets" "name \<in> set (ca_covered c)"
  shows "cand_ok K targets name c"
  using assms unfolding cand_ok_def by (intro conjI exI [of _ "{calls}"]) (simp_all add: set_coverage)

lemma cand_ok_mono:
  assumes "cand_ok K targets name c" "\<And>pid calls. K pid calls \<Longrightarrow> K' pid calls"
  shows "cand_ok K' targets name c"
proof -
  from assms(1) obtain L where "name \<in> set targets" "L \<noteq> {}" "\<forall>calls \<in> L. K (ca_program_id c) calls \<and> name \<in> set calls"
    "set (ca_covered c) = (\<Union>calls \<in> L. set calls) \<inter> set targets" unfolding cand_ok_def by (elim conjE exE) (rule that)
  with assms(2) show ?thesis unfolding cand_ok_def by (intro conjI exI [of _ L]) simp_all
qed

lemma index_ok_mono:
  assumes "index_ok K targets index" "\<And>pid calls. K pid calls \<Longrightarrow> K' pid calls"
  shows "index_ok K' targets index"
  unfolding index_ok_def
proof (intro allI impI)
  fix name xs c
  assume "dict_get name index = Some xs" "c \<in> set xs"
  with assms(1) have "cand_ok K targets name c" unfolding index_ok_def by blast
  then show "cand_ok K' targets name c" by (rule cand_ok_mono) (rule assms(2))
qed

lemma index_ok_Nil [simp]: "index_ok K targets []"
  by (simp add: index_ok_def)

lemma index_okD:
  "index_ok K targets index \<Longrightarrow> c \<in> set (index_rows_of name index) \<Longrightarrow>
   cand_ok K targets name c"
  by (cases "dict_get name index") (auto simp: index_ok_def index_rows_of_def)

lemma index_ok_set:
  assumes "index_ok K targets index"
    "\<forall>c \<in> set xs. cand_ok K targets name c"
  shows "index_ok K targets (dict_set name xs index)"
  using assms by (auto simp: index_ok_def)

lemma index_add_ok:
  assumes "index_ok K targets index" "cand_ok K targets name c"
  shows "index_ok K targets (index_add limit c name index)"
  using assms by (cases "dict_get name index") (auto simp: index_ok_def index_add_def Let_def split: if_splits)

lemma keeps_metas_refl [simp]: "keeps_metas st st"
  by (simp add: keeps_metas_def)

lemma keeps_metas_trans: "keeps_metas st st1 \<Longrightarrow> keeps_metas st1 st2 \<Longrightarrow> keeps_metas st st2"
  by (simp add: keeps_metas_def)

lemma keeps_metas_same: "gs_metas st' = gs_metas st \<Longrightarrow> keeps_metas st st'"
  by (simp add: keeps_metas_def)

lemma stored_calls_mono: "stored_calls cfg st pid calls \<Longrightarrow> keeps_metas st st' \<Longrightarrow> stored_calls cfg st' pid calls"
  unfolding stored_calls_def keeps_metas_def by blast

lemma write_metas [simp]: "gs_metas (write_if_absent path content st) = gs_metas st"
  by (simp add: write_if_absent_def)

lemma persist_metas:
  assumes "persist_inspected_program cfg env mode p st = Inr (st', row, m)"
  shows "keeps_metas st st'" "stored_calls cfg st' (ca_program_id row) (me_syscall_list m)"
proof -
  note run = assms [unfolded persist_inspected_program_def Let_def case_prod_beta]
  obtain info st1 where raw: "ensure_raw env (gc_raw_dir cfg @ ''/'' @ in_program_id info @ ''.syz'') p st = Inr st1"
    and e: "ensure_meta (gc_meta_dir cfg @ ''/'' @ in_program_id info @ ''.json'') (persisted_meta cfg mode p info)
       (write_if_absent (gc_normalized_dir cfg @ ''/'' @ in_program_id info @ ''.syz'') (in_normalized_syz info) st1) = (st', m)"
    and row: "row = persisted_row cfg mode info"
    using run by (elim bind_InrE) (simp only: sum.inject prod.inject prod_eq_iff fst_conv snd_conv)
  have "gs_metas st1 = gs_metas st" using raw by (auto simp: ensure_raw_def bind_eq_Inr split: if_splits)
  with e show "keeps_metas st st'" "stored_calls cfg st' (ca_program_id row) (me_syscall_list m)"
    by (auto simp: ensure_meta_def keeps_metas_def stored_calls_def row persisted_row_def split: option.splits)
qed

lemma index_add_bound:
  assumes "\<forall>n xs. dict_get n index = Some xs \<longrightarrow> int (length xs) \<le> limit" "0 < limit"
  shows "\<forall>n xs. dict_get n (index_add limit c name index) = Some xs \<longrightarrow> int (length xs) \<le> limit"
proof (cases "dict_get name index")
  case (Some old)
  with assms have "int (length old) \<le> limit" by blast
  with assms Some show ?thesis by (auto simp: index_add_def Let_def)
qed (use assms in \<open>auto simp: index_add_def Let_def\<close>)

lemma fold_index_add:
  assumes "index_ok K targets index" "\<forall>name \<in> set names. cand_ok K targets name c"
  shows "index_ok K targets (fold (index_add limit c) names index)"
  using assms by (induction names arbitrary: index) (simp_all add: index_add_ok)

lemma fold_index_bound:
  assumes "\<forall>n xs. dict_get n index = Some xs \<longrightarrow> int (length xs) \<le> limit" "0 < limit"
  shows "\<forall>n xs. dict_get n (fold (index_add limit c) names index) = Some xs \<longrightarrow> int (length xs) \<le> limit"
  using assms
proof (induction names arbitrary: index)
  case (Cons name names)
  show ?case using Cons.IH [OF index_add_bound [OF Cons.prems] Cons.prems(2)] by simp
qed simp

lemma existing_rows_inv:
  assumes "existing_rows w targets limit load_meta validate rows index = Inr index'" "P index"
    "\<forall>row m valid index. P index \<longrightarrow> P (existing_index_step w targets limit row m valid index)"
  shows "P index'"
  using assms(1,2)
proof (induction rows arbitrary: index)
  case (Cons row rows)
  from Cons.prems(1) obtain m valid where
    "existing_rows w targets limit load_meta validate rows
       (existing_index_step w targets limit row m valid index) = Inr index'"
    by (auto simp: bind_eq_Inr)
  with Cons.IH Cons.prems(2) assms(3) show ?case by blast
qed simp

lemma existing_rows_ok:
  assumes "existing_rows w targets limit load_meta validate rows index = Inr index'" "index_ok K targets index"
    and K: "\<And>row m. row \<in> set rows \<Longrightarrow> load_meta (cr_meta_path row) = Inr m \<Longrightarrow>
      \<forall>v. validate = Some v \<longrightarrow> v m = Inr True \<Longrightarrow> K (cr_program_id row) (me_syscall_list m)"
  shows "index_ok K targets index'"
  using assms
proof (induction rows arbitrary: index)
  case (Cons row rows)
  from Cons.prems(1) obtain m valid where m: "load_meta (cr_meta_path row) = Inr m"
    and valid: "(case validate of None \<Rightarrow> Inr True | Some v \<Rightarrow> v m) = Inr valid"
    and rest: "existing_rows w targets limit load_meta validate rows (existing_index_step w targets limit row m valid index) = Inr index'"
    by (auto simp: bind_eq_Inr)
  let ?cov = "candidate_target_coverage (me_syscall_list m) targets"
  have "index_ok K targets (existing_index_step w targets limit row m valid index)"
  proof (cases valid)
    case True
    then have "K (cr_program_id row) (me_syscall_list m)" using valid m by (intro Cons.prems(3)) auto
    then have "\<forall>name \<in> set ?cov. cand_ok K targets name (candidate_row_from_existing row w ?cov ''existing_corpus'')"
      by (auto intro!: cand_ok_one simp: candidate_row_from_existing_def)
    then show ?thesis using Cons.prems(2) by (simp add: existing_index_step_def Let_def fold_index_add)
  qed (use Cons.prems(2) in \<open>simp add: existing_index_step_def\<close>)
  from Cons.IH [OF rest this] Cons.prems(3) show ?case by simp
qed simp

lemma existing_rows_bound:
  assumes "existing_rows w targets limit load_meta validate rows [] = Inr index'" "0 < limit"
  shows "\<forall>n xs. dict_get n index' = Some xs \<longrightarrow> int (length xs) \<le> limit"
proof (rule existing_rows_inv [OF assms(1)])
  show "\<forall>row m valid index. (\<forall>n xs. dict_get n index = Some xs \<longrightarrow> int (length xs) \<le> limit) \<longrightarrow>
      (\<forall>n xs. dict_get n (existing_index_step w targets limit row m valid index) = Some xs \<longrightarrow> int (length xs) \<le> limit)"
    using fold_index_bound assms(2) by (simp add: existing_index_step_def Let_def)
qed simp

lemma template_rows_ok:
  assumes "template_rows cfg env settings targets name paths (st, index) = Inr (st', index')"
    "index_ok (stored_calls cfg st) targets index"
  shows "keeps_metas st st' \<and> index_ok (stored_calls cfg st') targets index'"
  using assms
proof (induction paths arbitrary: st index)
  case (Cons p ps)
  from Cons.prems(1) obtain st1 row m where p: "persist_inspected_program cfg env ''seed_templates'' p st = Inr (st1, row, m)"
    and e: "template_rows cfg env settings targets name ps
      (st1, template_index_step settings targets name row m index) = Inr (st', index')"
    by (auto simp: bind_eq_Inr)
  let ?cov = "candidate_target_coverage (me_syscall_list m) targets"
  have index: "index_ok (stored_calls cfg st1) targets index"
    by (rule index_ok_mono [OF Cons.prems(2)]) (rule stored_calls_mono [OF _ persist_metas(1) [OF p]])
  have "cand_ok (stored_calls cfg st1) targets name (row\<lparr>ca_covered := ?cov\<rparr>)" if "name \<in> set ?cov"
    by (rule cand_ok_one) (use persist_metas(2) [OF p] that in simp_all)
  with index have "index_ok (stored_calls cfg st1) targets (template_index_step settings targets name row m index)"
    by (auto intro!: index_ok_set simp: template_index_step_def Let_def dest: index_okD)
  from Cons.IH [OF e this] persist_metas(1) [OF p] show ?case using keeps_metas_trans by blast
qed simp

lemma load_templates_ok:
  "load_templates cfg env settings fs base_dir targets names (st, index) = Inr (st', index') \<Longrightarrow>
   index_ok (stored_calls cfg st) targets index \<Longrightarrow> index_ok (stored_calls cfg st') targets index'"
proof (induction names arbitrary: st index)
  case (Cons n ns)
  from Cons.prems(1) obtain st1 index1 where
    "template_rows cfg env settings targets n (template_paths_for_target fs base_dir n) (st, index) = Inr (st1, index1)"
    "load_templates cfg env settings fs base_dir targets ns (st1, index1) = Inr (st', index')"
    by (auto simp: bind_eq_Inr)
  with Cons.IH Cons.prems(2) template_rows_ok show ?case by blast
qed simp

lemma indexes_ok:
  "load_existing_corpus_index f rows_of w target_rows limit load_meta validate = Inr index \<Longrightarrow>
     index_ok (corpus_calls f rows_of load_meta validate) (target_syscall_set target_rows) index"
  "load_template_index cfg env settings fs target_rows st = Inr (st', index') \<Longrightarrow>
     index_ok (stored_calls cfg st') (target_syscall_set target_rows) index'"
proof -
  show "index_ok (corpus_calls f rows_of load_meta validate) (target_syscall_set target_rows) index"
    if "load_existing_corpus_index f rows_of w target_rows limit load_meta validate = Inr index"
    using that unfolding load_existing_corpus_index_def corpus_calls_def
    by (auto intro!: existing_rows_ok [OF _ index_ok_Nil] split: option.splits if_splits)
  show "index_ok (stored_calls cfg st') (target_syscall_set target_rows) index'"
    if "load_template_index cfg env settings fs target_rows st = Inr (st', index')"
    using that load_templates_ok [OF _ index_ok_Nil] unfolding load_template_index_def Let_def
    by (auto split: if_splits)
qed

section \<open>The rows of a target\<close>

lemma inspect_generated_covers:
  assumes "inspect_generated cfg env targets name paths (st, rows, e) = Inr (st', rows', e')"
    "\<forall>c \<in> set rows. cand_ok (\<lambda>pid calls. C pid calls \<or> stored_calls cfg st pid calls) targets name c"
  shows "keeps_metas st st' \<and> (\<forall>c \<in> set rows'. cand_ok (\<lambda>pid calls. C pid calls \<or> stored_calls cfg st' pid calls) targets name c)"
  using assms
proof (induction paths arbitrary: st rows e)
  case (Cons p ps)
  show ?case
  proof (cases "persist_inspected_program cfg env ''syz_generate'' p st")
    case (Inl err)
    with Cons.prems obtain m where "inspect_generated cfg env targets name ps (st, rows, Some m) = Inr (st', rows', e')"
      by (auto split: option.splits)
    then show ?thesis by (rule Cons.IH) (rule Cons.prems(2))
  next
    case (Inr r)
    obtain st1 row m where r: "r = (st1, row, m)" by (cases r)
    note p = Inr [unfolded r]
    let ?cov = "candidate_target_coverage (me_syscall_list m) targets"
    let ?K = "\<lambda>pid calls. C pid calls \<or> stored_calls cfg st1 pid calls"
    have rest: "inspect_generated cfg env targets name ps
        (st1, if name \<notin> set ?cov then rows else rows @ [row\<lparr>ca_covered := ?cov\<rparr>], e) = Inr (st', rows', e')"
      using Cons.prems(1) Inr r by (simp add: Let_def)
    have "cand_ok ?K targets name (row\<lparr>ca_covered := ?cov\<rparr>)" if "name \<in> set ?cov"
      by (rule cand_ok_one) (use persist_metas(2) [OF p] that in simp_all)
    moreover have "\<forall>c \<in> set rows. cand_ok ?K targets name c"
      using Cons.prems(2) stored_calls_mono [OF _ persist_metas(1) [OF p]] by (auto elim!: cand_ok_mono)
    ultimately have "\<forall>c \<in> set (if name \<notin> set ?cov then rows else rows @ [row\<lparr>ca_covered := ?cov\<rparr>]). cand_ok ?K targets name c" by auto
    from Cons.IH [OF rest this] keeps_metas_trans [OF persist_metas(1) [OF p]] show ?thesis by blast
  qed
qed simp

lemma generated_rows_outcome:
  assumes "generated_rows_of cfg env settings targets target rows st = Inr (st', rows', ge, ie)"
    "''syz_generate'' \<in> set (se_source_modes settings)" "gt_generator_class target = ''base_only''"
  obtains st1 outcome where "run_syzabi_generate cfg env (gt_syscall_name target) (se_per_target_budget settings)
      (se_preferred_length settings) (ge_seed env (gc_workflow cfg @ '':'' @ gt_syscall_name target)) st =
      Inr (st1, outcome)"
    "case outcome of Inl e \<Rightarrow> st' = st1 \<and> rows' = rows
     | Inr paths \<Rightarrow> (\<exists>st2. inspect_generated cfg env targets (gt_syscall_name target) paths (st1, rows, None) =
           Inr (st2, rows', ie) \<and> st' = cleanup_generated_staging_dirs cfg paths st2)"
proof -
  from assms obtain st1 outcome where r: "run_syzabi_generate cfg env (gt_syscall_name target) (se_per_target_budget settings)
      (se_preferred_length settings) (ge_seed env (gc_workflow cfg @ '':'' @ gt_syscall_name target)) st =
      Inr (st1, outcome)"
    by (auto simp: generated_rows_of_def bind_eq_Inr)
  with assms have o: "(case outcome of
           Inl (RuntimeErr m) \<Rightarrow> Inr (st1, rows, Some m, None)
         | Inl e \<Rightarrow> Inl e
         | Inr paths \<Rightarrow>
             bind (inspect_generated cfg env targets (gt_syscall_name target) paths (st1, rows, None))
               (\<lambda>(st2, rows', inspect_error).
                 Inr (cleanup_generated_staging_dirs cfg paths st2, rows', None, inspect_error))) =
      Inr (st', rows', ge, ie)"
    by (simp add: generated_rows_of_def)
  show ?thesis
  proof (rule that [OF r], cases outcome)
    case (Inl e)
    with o show "case outcome of Inl e \<Rightarrow> st' = st1 \<and> rows' = rows
     | Inr paths \<Rightarrow> (\<exists>st2. inspect_generated cfg env targets (gt_syscall_name target) paths (st1, rows, None) =
           Inr (st2, rows', ie) \<and> st' = cleanup_generated_staging_dirs cfg paths st2)"
      by (cases e) simp_all
  next
    case (Inr paths)
    with o show "case outcome of Inl e \<Rightarrow> st' = st1 \<and> rows' = rows
     | Inr paths \<Rightarrow> (\<exists>st2. inspect_generated cfg env targets (gt_syscall_name target) paths (st1, rows, None) =
           Inr (st2, rows', ie) \<and> st' = cleanup_generated_staging_dirs cfg paths st2)"
      by (auto simp: bind_eq_Inr simp del: inspect_generated.simps)
  qed
qed

lemma run_generate_metas:
  "run_syzabi_generate cfg env name budget len seed st = Inr (st', outcome) \<Longrightarrow> gs_metas st' = gs_metas st"
  by (auto simp: run_syzabi_generate_def remove_dir_def Let_def split: prod.splits if_splits)

lemma cleanup_metas: "gs_metas (cleanup_generated_staging_dirs cfg paths st) = gs_metas st"
proof -
  have "gs_metas (fold remove_dir ds st) = gs_metas st" for ds
    by (induction ds arbitrary: st) (simp_all add: remove_dir_def)
  then show ?thesis by (simp add: cleanup_generated_staging_dirs_def)
qed

lemma stored_calls_same: "gs_metas st' = gs_metas st \<Longrightarrow> stored_calls cfg st' = stored_calls cfg st"
  by (intro ext) (simp add: stored_calls_def)

lemma generated_rows_covers:
  assumes "generated_rows_of cfg env settings targets target rows st = Inr (st', rows', ge, ie)"
    "\<forall>c \<in> set rows. cand_ok (\<lambda>pid calls. C pid calls \<or> stored_calls cfg st pid calls) targets (gt_syscall_name target) c"
  shows "\<forall>c \<in> set rows'. cand_ok (\<lambda>pid calls. C pid calls \<or> stored_calls cfg st' pid calls) targets (gt_syscall_name target) c"
proof (cases "''syz_generate'' \<in> set (se_source_modes settings) \<and> gt_generator_class target = ''base_only''")
  case True
  show ?thesis
  proof (rule generated_rows_outcome [OF assms(1) True [THEN conjunct1] True [THEN conjunct2]])
    fix st1 outcome
    assume run: "run_syzabi_generate cfg env (gt_syscall_name target) (se_per_target_budget settings)
      (se_preferred_length settings) (ge_seed env (gc_workflow cfg @ '':'' @ gt_syscall_name target)) st = Inr (st1, outcome)"
      and o: "case outcome of Inl e \<Rightarrow> st' = st1 \<and> rows' = rows
     | Inr paths \<Rightarrow> (\<exists>st2. inspect_generated cfg env targets (gt_syscall_name target) paths (st1, rows, None) =
           Inr (st2, rows', ie) \<and> st' = cleanup_generated_staging_dirs cfg paths st2)"
    note same = stored_calls_same [OF run_generate_metas [OF run], of cfg]
    show ?thesis
    proof (cases outcome)
      case (Inl e)
      with o assms(2) same show ?thesis by simp
    next
      case (Inr paths)
      with o obtain st2 where
        i: "inspect_generated cfg env targets (gt_syscall_name target) paths (st1, rows, None) = Inr (st2, rows', ie)" and
        st': "st' = cleanup_generated_staging_dirs cfg paths st2"
        by auto
      from inspect_generated_covers [OF i, of C] assms(2) same
      show ?thesis by (simp add: st' stored_calls_same [OF cleanup_metas])
    qed
  qed
qed (use assms in \<open>simp add: generated_rows_of_def\<close>)

lemma Inr_vimage: "Inr -` (Inl ` A \<union> Inr ` B) = B"
  by auto

lemma merged_covered:
  assumes "v \<in> set (merge_candidate_rows rows)"
  shows "set (ca_covered v) = (\<Union>r \<in> {r \<in> set rows. ca_program_id r = ca_program_id v}. set (ca_covered r))"
proof -
  have v: "v \<in> set (merge_rows ca_program_id fresh_candidate combine_candidates rows)"
    using assms by (simp add: merge_candidate_rows_def)
  from arg_cong [OF cand_merge.merge_rows_view [OF v], of "vimage Inr"] show ?thesis
    by (simp only: vimage_UN Inr_vimage)
qed

lemma merge_candidates_ids:
  "sorted (map ca_program_id (merge_candidate_rows rows))"
  "distinct (map ca_program_id (merge_candidate_rows rows))"
  "ca_program_id ` set (merge_candidate_rows rows) = ca_program_id ` set rows"
  using cand_merge.merge_rows_keys [of rows] by (simp_all add: merge_candidate_rows_def)

lemma merge_candidates_covers:
  assumes rows: "\<forall>c \<in> set rows. cand_ok K targets name c" and v: "v \<in> set (merge_candidate_rows rows)"
  shows "cand_ok K targets name v"
proof -
  let ?R = "{r \<in> set rows. ca_program_id r = ca_program_id v}"
  have "ca_program_id v \<in> ca_program_id ` set rows"
    using merge_candidates_ids(3) [of rows] v by (metis image_eqI)
  then obtain r0 where r0: "r0 \<in> ?R" by force
  have "\<forall>r \<in> set rows. \<exists>L. L \<noteq> {} \<and> (\<forall>calls \<in> L. K (ca_program_id r) calls \<and> name \<in> set calls) \<and>
     set (ca_covered r) = (\<Union>calls \<in> L. set calls) \<inter> set targets" using rows unfolding cand_ok_def by blast
  then obtain L where L: "\<forall>r \<in> set rows. L r \<noteq> {} \<and> (\<forall>calls \<in> L r. K (ca_program_id r) calls \<and> name \<in> set calls) \<and>
     set (ca_covered r) = (\<Union>calls \<in> L r. set calls) \<inter> set targets" by (rule bchoice [THEN exE])
  have "set (ca_covered v) = (\<Union>calls \<in> (\<Union>r \<in> ?R. L r). set calls) \<inter> set targets"
    unfolding merged_covered [OF v] using L by auto
  moreover have "(\<Union>r \<in> ?R. L r) \<noteq> {}" "\<forall>calls \<in> (\<Union>r \<in> ?R. L r). K (ca_program_id v) calls \<and> name \<in> set calls"
    using L r0 by auto
  moreover have "name \<in> set targets" using rows r0 unfolding cand_ok_def by blast
  ultimately show ?thesis unfolding cand_ok_def by (intro conjI exI [of _ "\<Union>r \<in> ?R. L r"])
qed

lemma merge_candidates_Nil_iff: "merge_candidate_rows rows = [] \<longleftrightarrow> rows = []"
  using merge_candidates_ids(3) [of rows] by (metis image_is_empty set_empty)

lemma target_rows_result_spec:
  assumes "target_rows_result settings target rows ge ie = (us, coverage, gap)"
  shows "us = merge_candidate_rows rows \<and> co_syscall_name coverage = gt_syscall_name target \<and>
    co_candidate_count coverage = length us \<and>
    (case gap of None \<Rightarrow> us \<noteq> [] | Some g \<Rightarrow> us = [] \<and> ga_syscall_name g = gt_syscall_name target)"
  using assms by (cases "merge_candidate_rows rows = []") (auto simp: target_rows_result_def Let_def)

text \<open>
  C15. A candidate covers what its program calls. With the indexes built by the two loaders, each row
  generated for a target names a program whose metadata (of the existing corpus, or the metadata file
  the workflow stored) lists the target among its calls; the targets it is said to cover are exactly
  those that its program calls, by all the metadata merged into it. The rows have distinct ids, the
  coverage row counts them, and a gap is reported for the target exactly when there are none.
\<close>

theorem candidates_cover_target:
  assumes "load_existing_corpus_index f rows_of w target_rows limit load_meta validate = Inr existing_index"
    "load_template_index cfg env settings fs target_rows st0 = Inr (st, template_index)" "keeps_metas st st1"
    "generate_rows_for_target cfg env settings (target_syscall_set target_rows) existing_index template_index
       target st1 = Inr (st', rows, coverage, gap)"
  shows "(\<forall>c \<in> set rows. gt_syscall_name target \<in> gt_syscall_name ` set target_rows \<and> (\<exists>L. L \<noteq> {} \<and>
      (\<forall>calls \<in> L. (corpus_calls f rows_of load_meta validate (ca_program_id c) calls \<or> stored_calls cfg st' (ca_program_id c) calls) \<and>
        gt_syscall_name target \<in> set calls) \<and>
      set (ca_covered c) = (\<Union>calls \<in> L. set calls) \<inter> gt_syscall_name ` set target_rows)) \<and>
    distinct (map ca_program_id rows) \<and> co_candidate_count coverage = length rows \<and> (gap = None \<longleftrightarrow> rows \<noteq> [])"
proof -
  let ?T = "target_syscall_set target_rows" and ?C = "corpus_calls f rows_of load_meta validate"
  let ?K = "\<lambda>st pid calls. ?C pid calls \<or> stored_calls cfg st pid calls"
  let ?start = "(if ''existing_corpus'' \<in> set (se_source_modes settings)
            then index_rows_of (gt_syscall_name target) existing_index else []) @
          (if ''seed_templates'' \<in> set (se_source_modes settings)
            then index_rows_of (gt_syscall_name target) template_index else [])"
  obtain rows' ge ie where
    g: "generated_rows_of cfg env settings ?T target ?start st1 = Inr (st', rows', ge, ie)" and
    r: "target_rows_result settings target rows' ge ie = (rows, coverage, gap)"
    using assms(4) by (auto simp: generate_rows_for_target_def bind_eq_Inr)
  have e: "index_ok (?K st1) ?T existing_index" by (rule index_ok_mono [OF indexes_ok(1) [OF assms(1)]]) simp
  have t: "index_ok (?K st1) ?T template_index"
    by (rule index_ok_mono [OF indexes_ok(2) [OF assms(2)]]) (simp add: stored_calls_mono [OF _ assms(3)])
  have "\<forall>c \<in> set ?start. cand_ok (?K st1) ?T (gt_syscall_name target) c"
    using index_okD [OF e] index_okD [OF t] by (auto split: if_splits)
  note rows' = generated_rows_covers [OF g this]
  have "cand_ok (?K st') ?T (gt_syscall_name target) c" if "c \<in> set rows" for c
    using merge_candidates_covers [OF rows'] that target_rows_result_spec [OF r] by simp
  moreover have "set ?T = gt_syscall_name ` set target_rows" by (simp add: target_syscall_set_def)
  ultimately have "\<forall>c \<in> set rows. gt_syscall_name target \<in> gt_syscall_name ` set target_rows \<and> (\<exists>L. L \<noteq> {} \<and>
      (\<forall>calls \<in> L. ?K st' (ca_program_id c) calls \<and> gt_syscall_name target \<in> set calls) \<and>
      set (ca_covered c) = (\<Union>calls \<in> L. set calls) \<inter> gt_syscall_name ` set target_rows)"
    unfolding cand_ok_def by (simp only:) blast
  with target_rows_result_spec [OF r] merge_candidates_ids(2) [of rows'] show ?thesis by (cases gap) auto
qed

section \<open>Batches in any completion order\<close>

lemma run_batches_concat: "run_batches gen bs s = run_batch gen (concat bs) s"
proof -
  have append: "run_batch gen (ts @ us) s = bind (run_batch gen ts s) (run_batch gen us)" for ts us s
    by (induction gen ts s rule: run_batch.induct) (auto simp: bind_def split: sum.splits)
  show ?thesis by (induction bs arbitrary: s) (auto simp: append bind_def split: sum.splits)
qed

definition gaps_match :: "gen_result \<Rightarrow> bool" where
  "gaps_match r \<longleftrightarrow>
     map ga_syscall_name (gr_gaps r) = map co_syscall_name (filter (\<lambda>c. co_candidate_count c = 0) (gr_coverage r))"

lemma run_batch_spec:
  assumes "run_batch gen ts (st, r) = Inr (st', r')" "gaps_match r"
    and gen: "\<forall>t st st' rows cov gap. gen t st = Inr (st', rows, cov, gap) \<longrightarrow>
      co_syscall_name cov = gt_syscall_name t \<and> co_candidate_count cov = length rows \<and>
      (case gap of None \<Rightarrow> rows \<noteq> [] | Some g \<Rightarrow> rows = [] \<and> ga_syscall_name g = gt_syscall_name t)"
  shows "gaps_match r' \<and> map co_syscall_name (gr_coverage r') = map co_syscall_name (gr_coverage r) @ map gt_syscall_name ts"
  using assms(1,2)
proof (induction ts arbitrary: st r)
  case (Cons t ts)
  from Cons.prems(1) obtain st1 rows cov gap where g: "gen t st = Inr (st1, rows, cov, gap)"
    and rest: "run_batch gen ts (st1, \<lparr>gr_rows = gr_rows r @ rows, gr_coverage = gr_coverage r @ [cov],
         gr_gaps = gr_gaps r @ (case gap of None \<Rightarrow> [] | Some g \<Rightarrow> [g])\<rparr>) = Inr (st', r')"
    by (auto simp: bind_eq_Inr)
  note spec = gen [rule_format, OF g]
  have "gaps_match \<lparr>gr_rows = gr_rows r @ rows, gr_coverage = gr_coverage r @ [cov],
         gr_gaps = gr_gaps r @ (case gap of None \<Rightarrow> [] | Some g \<Rightarrow> [g])\<rparr>"
    using spec Cons.prems(2) by (cases gap) (simp_all add: gaps_match_def)
  from Cons.IH [OF rest this] spec show ?case by simp
qed simp

lemma generate_rows_spec:
  "generate_rows_for_target cfg env settings targets ei ti t st = Inr (st', rows, cov, gap) \<Longrightarrow>
     co_syscall_name cov = gt_syscall_name t \<and> co_candidate_count cov = length rows \<and>
     (case gap of None \<Rightarrow> rows \<noteq> [] | Some g \<Rightarrow> rows = [] \<and> ga_syscall_name g = gt_syscall_name t)"
  using target_rows_result_spec by (fastforce simp: generate_rows_for_target_def bind_eq_Inr)

lemma batches_mset:
  assumes "\<forall>bs. mset (completion bs) = mset (bs :: 'a list list)" "0 < n"
  shows "mset (concat (if c then target_batches rows n else completion (target_batches rows n))) = mset rows"
proof -
  have perm: "mset (concat xs) = mset (concat ys)" if "mset xs = mset ys" for xs ys :: "'a list list"
    using that by (metis mset_concat mset_map sum_mset_sum_list)
  show ?thesis
    using perm [OF assms(1) [rule_format], of "target_batches rows n"] target_batches_concat [OF assms(2), of rows]
    by (cases c) (simp_all only: if_True if_False)
qed

text \<open>
  C37. Whatever the order in which the batches complete, the coverage report has exactly one row per
  target, sorted by name; the gaps are exactly the targets whose row counts no candidate, in the
  same order; and the summary's number of targets without candidates is the number of gaps.
\<close>

theorem coverage_partition:
  assumes "generate_candidates cfg env settings ei ti completion target_rows st = Inr (st', r)"
    "\<forall>bs. mset (completion bs) = mset bs" "1 \<le> se_batch_size settings"
  shows "map co_syscall_name (gr_coverage r) = sort (map gt_syscall_name target_rows) \<and>
    map ga_syscall_name (gr_gaps r) =
      map co_syscall_name (filter (\<lambda>c. co_candidate_count c = 0) (gr_coverage r)) \<and>
    gm_targets_without_candidates (build_generation_summary cfg settings target_rows r) = int (length (gr_gaps r))"
proof -
  let ?gen = "generate_rows_for_target cfg env settings (target_syscall_set target_rows) ei ti"
  let ?bs = "target_batches target_rows (nat (se_batch_size settings))"
  let ?order = "if se_jobs settings \<le> 1 \<or> length ?bs \<le> 1 then ?bs else completion ?bs"
  from assms(1) obtain r0 where r0: "run_batch ?gen (concat ?order)
      (st, \<lparr>gr_rows = [], gr_coverage = [], gr_gaps = []\<rparr>) = Inr (st', r0)" and r: "r = finish_result r0"
    by (auto simp: generate_candidates_def Let_def bind_eq_Inr run_batches_concat)
  have spec: "gaps_match r0 \<and> map co_syscall_name (gr_coverage r0) = map gt_syscall_name (concat ?order)"
    using run_batch_spec [OF r0] generate_rows_spec by (auto simp: gaps_match_def)
  have perm: "mset (concat ?order) = mset target_rows"
    using batches_mset [OF assms(2)] assms(3) by simp
  have cov: "map co_syscall_name (gr_coverage r) = sort (map gt_syscall_name target_rows)"
    using spec perm by (metis finish_result_def gen_result.select_convs(2) map_sort_key mset_map r sorted_list_of_multiset_mset)
  have gaps: "map ga_syscall_name (gr_gaps r) =
      map co_syscall_name (filter (\<lambda>c. co_candidate_count c = 0) (gr_coverage r))"
    using spec by (simp add: r finish_result_def map_sort_key filter_sort gaps_match_def)
  have "length target_rows = length (filter (\<lambda>c. co_candidate_count c > 0) (gr_coverage r)) +
      length (filter (\<lambda>c. co_candidate_count c = 0) (gr_coverage r))"
    using arg_cong [OF cov, of length] sum_length_filter_compl [of "\<lambda>c. co_candidate_count c > 0" "gr_coverage r"]
    by simp
  moreover have "length (gr_gaps r) = length (filter (\<lambda>c. co_candidate_count c = 0) (gr_coverage r))"
    using arg_cong [OF gaps, of length] by simp
  ultimately have "gm_targets_without_candidates (build_generation_summary cfg settings target_rows r) =
      int (length (gr_gaps r))"
    by (simp add: build_generation_summary_def Let_def)
  with cov gaps show ?thesis by blast
qed

definition gap_list :: "cand list \<times> coverage_row \<times> gap_row option \<Rightarrow> gap_row list" where
  "gap_list v = (case snd (snd v) of None \<Rightarrow> [] | Some g \<Rightarrow> [g])"

definition raw_result :: "(gen_target \<Rightarrow> cand list \<times> coverage_row \<times> gap_row option) \<Rightarrow> gen_target list \<Rightarrow> gen_result" where
  "raw_result f ts = \<lparr>gr_rows = concat (map (\<lambda>t. fst (f t)) ts), gr_coverage = map (\<lambda>t. fst (snd (f t))) ts,
     gr_gaps = concat (map (\<lambda>t. gap_list (f t)) ts)\<rparr>"

lemma run_batch_values:
  assumes "\<forall>t \<in> set ts. \<forall>st. \<exists>st'. gen t st = Inr (st', f t)"
  shows "\<exists>st'. run_batch gen ts (st, r) = Inr (st', \<lparr>gr_rows = gr_rows r @ gr_rows (raw_result f ts),
      gr_coverage = gr_coverage r @ gr_coverage (raw_result f ts),
      gr_gaps = gr_gaps r @ gr_gaps (raw_result f ts)\<rparr>)"
  using assms
proof (induction ts arbitrary: st r)
  case (Cons t ts)
  obtain rows cov gap where f: "f t = (rows, cov, gap)" by (cases "f t")
  from Cons.prems obtain st1 where "gen t st = Inr (st1, f t)" by force
  with f Cons.IH [of st1 "\<lparr>gr_rows = gr_rows r @ rows, gr_coverage = gr_coverage r @ [cov],
         gr_gaps = gr_gaps r @ (case gap of None \<Rightarrow> [] | Some g \<Rightarrow> [g])\<rparr>"] Cons.prems
  show ?case by (simp add: raw_result_def gap_list_def)
qed (cases r, simp add: raw_result_def)

lemma sort_key_unique:
  assumes "mset xs = mset ys" "distinct (map f xs)"
  shows "sort_key f xs = sort_key f ys"
  by (rule sort_key_inj_key_eq) (use assms in \<open>simp_all add: distinct_map\<close>)

lemma sublist_keys_distinct:
  assumes "distinct (map k ts)" "\<forall>t \<in> set ts. \<forall>x \<in> set (g t). key x = k t \<and> g t = [x]"
  shows "distinct (map key (concat (map g ts)))"
  using assms
proof (induction ts)
  case (Cons t ts)
  have "key x \<noteq> k t" if "x \<in> set (concat (map g ts))" for x
    using that Cons.prems by (fastforce simp: image_iff)
  with Cons show ?case by (cases "g t") auto
qed simp

lemma finish_perm:
  assumes "mset ts = mset us" "distinct (map gt_syscall_name ts)"
    and spec: "\<forall>t \<in> set ts. co_syscall_name (fst (snd (f t))) = gt_syscall_name t \<and>
      (\<forall>x \<in> set (gap_list (f t)). ga_syscall_name x = gt_syscall_name t \<and> gap_list (f t) = [x])"
  shows "gr_coverage (finish_result (raw_result f ts)) = gr_coverage (finish_result (raw_result f us))"
    and "gr_gaps (finish_result (raw_result f ts)) = gr_gaps (finish_result (raw_result f us))"
    and "map (\<lambda>c. (ca_program_id c, Inl ` set (ca_source_modes c) \<union> Inr ` set (ca_covered c)))
        (gr_rows (finish_result (raw_result f ts))) =
      map (\<lambda>c. (ca_program_id c, Inl ` set (ca_source_modes c) \<union> Inr ` set (ca_covered c)))
        (gr_rows (finish_result (raw_result f us)))"
proof -
  have "map co_syscall_name (map (\<lambda>t. fst (snd (f t))) ts) = map gt_syscall_name ts" using spec by simp
  with assms(2) have d: "distinct (map co_syscall_name (map (\<lambda>t. fst (snd (f t))) ts))" by (simp only:)
  show "gr_coverage (finish_result (raw_result f ts)) = gr_coverage (finish_result (raw_result f us))"
    unfolding finish_result_def raw_result_def gen_result.select_convs
    by (rule sort_key_unique [OF _ d]) (simp add: assms(1))
  have d': "distinct (map ga_syscall_name (concat (map (\<lambda>t. gap_list (f t)) ts)))"
    by (rule sublist_keys_distinct [OF assms(2)]) (use spec in blast)
  have "mset (concat (map g ts)) = mset (concat (map g us))" for g :: "gen_target \<Rightarrow> gap_row list"
    by (metis assms(1) mset_concat mset_map sum_mset_sum_list)
  then show "gr_gaps (finish_result (raw_result f ts)) = gr_gaps (finish_result (raw_result f us))"
    unfolding finish_result_def raw_result_def gen_result.select_convs by (rule sort_key_unique [OF _ d'])
  have "set (concat (map (\<lambda>t. fst (f t)) ts)) = set (concat (map (\<lambda>t. fst (f t)) us))"
    using mset_eq_setD [OF assms(1)] by simp
  then show "map (\<lambda>c. (ca_program_id c, Inl ` set (ca_source_modes c) \<union> Inr ` set (ca_covered c)))
        (gr_rows (finish_result (raw_result f ts))) =
      map (\<lambda>c. (ca_program_id c, Inl ` set (ca_source_modes c) \<union> Inr ` set (ca_covered c)))
        (gr_rows (finish_result (raw_result f us)))"
    unfolding finish_result_def raw_result_def gen_result.select_convs merge_candidate_rows_def
    by (rule cand_merge.merge_rows_order)
qed

lemma generate_candidates_run:
  assumes "\<forall>t \<in> set target_rows. \<forall>st. \<exists>st'. generate_rows_for_target cfg env settings
      (target_syscall_set target_rows) ei ti t st = Inr (st', f t)"
    "1 \<le> se_batch_size settings" "\<forall>bs. mset (completion bs) = mset bs"
  shows "\<exists>s ts. mset ts = mset target_rows \<and>
    generate_candidates cfg env settings ei ti completion target_rows st = Inr (s, finish_result (raw_result f ts))"
proof -
  let ?bs = "target_batches target_rows (nat (se_batch_size settings))"
  define ts where "ts = concat (if se_jobs settings \<le> 1 \<or> length ?bs \<le> 1 then ?bs else completion ?bs)"
  have ms: "mset ts = mset target_rows"
    unfolding ts_def by (rule batches_mset [OF assms(3)]) (use assms(2) in simp)
  then have "set ts = set target_rows" by (rule mset_eq_setD)
  with assms(1) have v: "\<forall>t \<in> set ts. \<forall>st. \<exists>st'. generate_rows_for_target cfg env settings
      (target_syscall_set target_rows) ei ti t st = Inr (st', f t)" by simp
  from run_batch_values [OF v, of st "\<lparr>gr_rows = [], gr_coverage = [], gr_gaps = []\<rparr>"] obtain s where
    "run_batch (generate_rows_for_target cfg env settings (target_syscall_set target_rows) ei ti) ts
      (st, \<lparr>gr_rows = [], gr_coverage = [], gr_gaps = []\<rparr>) = Inr (s, raw_result f ts)" by auto
  then have "generate_candidates cfg env settings ei ti completion target_rows st = Inr (s, finish_result (raw_result f ts))"
    by (simp only: generate_candidates_def Let_def run_batches_concat ts_def bind_Inr prod.case)
  with ms show ?thesis by blast
qed

text \<open>
  The reports do not depend on scheduling: when what a target yields does not depend on the
  files other targets have written, two runs whose batches complete in different orders write the
  same coverage rows and the same gap rows, and the same candidates up to the fields that the
  merge takes from the first row of an id: the ids in the same order, each with the same source
  modes and covered targets.
\<close>

theorem completion_order_irrelevant:
  assumes "distinct (map gt_syscall_name target_rows)" "1 \<le> se_batch_size settings"
    and vals: "\<forall>t \<in> set target_rows. \<forall>st. \<exists>st'. generate_rows_for_target cfg env settings
      (target_syscall_set target_rows) ei ti t st = Inr (st', f t)"
    and perm: "\<forall>bs. mset (completion1 bs) = mset bs" "\<forall>bs. mset (completion2 bs) = mset bs"
  shows "\<exists>s1 r1 s2 r2.
    generate_candidates cfg env settings ei ti completion1 target_rows st = Inr (s1, r1) \<and>
    generate_candidates cfg env settings ei ti completion2 target_rows st = Inr (s2, r2) \<and>
    gr_coverage r1 = gr_coverage r2 \<and> gr_gaps r1 = gr_gaps r2 \<and>
    map (\<lambda>c. (ca_program_id c, Inl ` set (ca_source_modes c) \<union> Inr ` set (ca_covered c))) (gr_rows r1) =
    map (\<lambda>c. (ca_program_id c, Inl ` set (ca_source_modes c) \<union> Inr ` set (ca_covered c))) (gr_rows r2)"
proof -
  from generate_candidates_run [OF vals assms(2) perm(1)] obtain s1 ts1 where
    r1: "mset ts1 = mset target_rows"
    "generate_candidates cfg env settings ei ti completion1 target_rows st = Inr (s1, finish_result (raw_result f ts1))"
    by blast
  from generate_candidates_run [OF vals assms(2) perm(2)] obtain s2 ts2 where
    r2: "mset ts2 = mset target_rows"
    "generate_candidates cfg env settings ei ti completion2 target_rows st = Inr (s2, finish_result (raw_result f ts2))"
    by blast
  have same: "mset ts1 = mset ts2" using r1(1) r2(1) by simp
  have names: "distinct (map gt_syscall_name ts1)"
    using assms(1) r1(1) by (metis mset_eq_imp_distinct_iff mset_map)
  have "\<forall>t \<in> set ts1. co_syscall_name (fst (snd (f t))) = gt_syscall_name t \<and>
      (\<forall>x \<in> set (gap_list (f t)). ga_syscall_name x = gt_syscall_name t \<and> gap_list (f t) = [x])"
  proof
    fix t assume "t \<in> set ts1"
    then have "t \<in> set target_rows" using r1(1) by (metis mset_eq_setD)
    moreover obtain rows cov gap where f: "f t = (rows, cov, gap)" by (cases "f t")
    ultimately obtain st' where "generate_rows_for_target cfg env settings (target_syscall_set target_rows) ei ti t st =
        Inr (st', rows, cov, gap)" using vals by metis
    from generate_rows_spec [OF this] f
    show "co_syscall_name (fst (snd (f t))) = gt_syscall_name t \<and>
      (\<forall>x \<in> set (gap_list (f t)). ga_syscall_name x = gt_syscall_name t \<and> gap_list (f t) = [x])"
      by (cases gap) (simp_all add: gap_list_def)
  qed
  from finish_perm [OF same names this] r1(2) r2(2) show ?thesis by blast
qed

section \<open>Settings\<close>

text \<open>
  The settings are usable whatever the profile and the arguments say: jobs, batch size, budget
  and corpus limit are at least one, so the batches cover every target, and when the profile's
  sequence bounds are in order the preferred length is within the bounds the derivation enforces.
\<close>

theorem generation_settings_bounds:
  assumes "generation_settings cfg profile args = Inr s"
  shows "1 \<le> se_jobs s \<and> 1 \<le> se_batch_size s \<and> 1 \<le> se_per_target_budget s \<and> 1 \<le> se_existing_corpus_limit s \<and>
    concat (target_batches rows (nat (se_batch_size s))) = rows \<and>
    (\<forall>lo hi. sequence_bounds profile = Inr (lo, hi) \<longrightarrow> lo \<le> hi \<longrightarrow>
       lo \<le> se_preferred_length s \<and> se_preferred_length s \<le> hi)"
proof -
  from assms obtain g q lo hi where
    g: "py_dict (py_get ''generation'' (PDict []) profile) = Inr g"
    and q: "py_dict (py_get ''sequence_length'' (PDict []) g) = Inr q"
    and lo: "py_int (py_get ''min'' (PInt 1) q) = Inr lo" and hi: "py_int (py_get ''max'' (PInt 4) q) = Inr hi"
    and s: "1 \<le> se_jobs s" "1 \<le> se_batch_size s" "1 \<le> se_per_target_budget s" "1 \<le> se_existing_corpus_limit s"
      "se_preferred_length s = min (max lo 4) hi"
    unfolding generation_settings_def by (elim bind_InrE) auto
  have "lo' = lo \<and> hi' = hi" if "sequence_bounds profile = Inr (lo', hi')" for lo' hi'
    using that g q lo hi
    by (auto simp: sequence_bounds_def bind_eq_Inr py_item_ok py_dict_def py_get_def split: if_splits option.splits)
  with s target_batches_concat [of "nat (se_batch_size s)" rows] show ?thesis by auto
qed

section \<open>Staging directories\<close>

text \<open>
  What \<open>mkdtemp\<close> and \<open>glob\<close> promise: a new directory, below the temporary root and with the prefix
  asked for, and paths directly in the directory listed.
\<close>

definition env_stages :: "gen_cfg \<Rightarrow> gen_env \<Rightarrow> string \<Rightarrow> bool" where
  "env_stages cfg env name \<longleftrightarrow> (\<forall>dirs p. ge_mkdtemp env dirs p \<notin> set dirs) \<and>
     (\<forall>dirs. staging_parent cfg
        (ge_mkdtemp env dirs (gc_temp_root cfg @ ''/'' @ GENERATED_STAGING_PREFIX @ name @ ''-''))) \<and>
     (\<forall>d. \<forall>p \<in> set (ge_glob_syz env d). path_parent p = d)"

lemma write_staging [simp]: "gs_staging (write_if_absent path content st) = gs_staging st"
  by (simp add: write_if_absent_def)

lemma persist_staging:
  "persist_inspected_program cfg env mode path st = Inr (st', row, m) \<Longrightarrow> gs_staging st' = gs_staging st"
proof -
  have raw: "gs_staging s' = gs_staging s" if "ensure_raw env p q s = Inr s'" for p q s s'
    using that by (auto simp: ensure_raw_def bind_eq_Inr split: if_splits)
  have meta: "gs_staging (fst (ensure_meta p m s)) = gs_staging s" for p m s
    by (simp add: ensure_meta_def split: option.splits)
  assume "persist_inspected_program cfg env mode path st = Inr (st', row, m)"
  then obtain info st1 where "ensure_raw env (gc_raw_dir cfg @ ''/'' @ in_program_id info @ ''.syz'') path st = Inr st1"
    "st' = fst (ensure_meta (gc_meta_dir cfg @ ''/'' @ in_program_id info @ ''.json'')
       (persisted_meta cfg mode path info)
       (write_if_absent (gc_normalized_dir cfg @ ''/'' @ in_program_id info @ ''.syz'') (in_normalized_syz info) st1))"
    unfolding persist_inspected_program_def Let_def case_prod_unfold
    by (elim bind_InrE) (simp only: sum.inject prod.inject)
  with raw meta show ?thesis by (simp only: write_staging)
qed

lemma inspect_staging:
  "inspect_generated cfg env targets name paths (st, rows, e) = Inr (st', rows', e') \<Longrightarrow>
   gs_staging st' = gs_staging st"
proof (induction paths arbitrary: st rows e)
  case (Cons p ps)
  show ?case
  proof (cases "persist_inspected_program cfg env ''syz_generate'' p st")
    case (Inl err)
    with Cons.prems obtain m where "inspect_generated cfg env targets name ps (st, rows, Some m) = Inr (st', rows', e')"
      by (auto split: option.splits)
    then show ?thesis by (rule Cons.IH)
  next
    case (Inr r)
    obtain st1 row m where r: "r = (st1, row, m)" by (cases r)
    from Cons.prems Inr r obtain rs where
      "inspect_generated cfg env targets name ps (st1, rs, e) = Inr (st', rows', e')" by (simp add: Let_def)
    from Cons.IH [OF this] persist_staging [of cfg env _ p st st1 row m] Inr r show ?thesis by simp
  qed
qed simp

lemma sort_paths_Nil: "sort_paths ps = [] \<longleftrightarrow> ps = []"
  by (metis length_0_conv length_sort sort_paths_def)

lemma run_generate_cases:
  assumes "run_syzabi_generate cfg env name budget len seed st = Inr (st1, outcome)"
    "d = ge_mkdtemp env (gs_staging st) (gc_temp_root cfg @ ''/'' @ GENERATED_STAGING_PREFIX @ name @ ''-'')"
    "ge_run env (generate_command cfg env name budget len seed d) = (rc, out, err)"
  shows "if rc = 0 \<or> rc = 2 \<and> sort_paths (ge_glob_syz env d) \<noteq> []
    then st1 = st\<lparr>gs_staging := d # gs_staging st\<rparr> \<and> outcome = Inr (sort_paths (ge_glob_syz env d))
    else st1 = remove_dir d (st\<lparr>gs_staging := d # gs_staging st\<rparr>) \<and> (\<exists>e. outcome = Inl e)"
  using assms(1,3) unfolding run_syzabi_generate_def Let_def assms(2) [symmetric]
  by (cases "ge_binary_exists env"; cases "rc = 0 \<or> rc = 2 \<and> sort_paths (ge_glob_syz env d) \<noteq> []") auto

lemma generate_rows_run:
  assumes "generate_rows_for_target cfg env settings targets ei ti target st = Inr (st', v)"
  obtains rows0 rows' ge ie where
    "generated_rows_of cfg env settings targets target rows0 st = Inr (st', rows', ge, ie)"
    "v = target_rows_result settings target rows' ge ie"
proof -
  from assms obtain rows0 q where q: "generated_rows_of cfg env settings targets target rows0 st = Inr q"
    "(case q of (st', rows', ge, ie) \<Rightarrow> Inr (st', target_rows_result settings target rows' ge ie)) = (Inr (st', v) :: _ res)"
    unfolding generate_rows_for_target_def Let_def by (rule bind_InrE)
  then show ?thesis by (cases q) (auto intro: that)
qed

lemma remove_fresh: "d \<notin> set ds \<Longrightarrow> gs_staging s = d # ds \<Longrightarrow> gs_staging (remove_dir d s) = ds"
  by (auto simp: remove_dir_def intro!: filter_True)

lemma uniq_const: "paths \<noteq> [] \<Longrightarrow> \<forall>p \<in> set paths. f p = d \<Longrightarrow> uniq (map f paths) = [d]"
proof -
  assume "paths \<noteq> []" "\<forall>p \<in> set paths. f p = d"
  then have "set (uniq (map f paths)) = {d}" "distinct (uniq (map f paths))" by (cases paths) auto
  then show ?thesis by (metis distinct.simps(2) insert_not_empty list.set_cases list.set_intros(1) set_empty
    singletonD list.exhaust list.set_intros(2))
qed

lemma cleanup_one:
  assumes "paths \<noteq> []" "\<forall>p \<in> set paths. path_parent p = d" "staging_parent cfg d"
  shows "cleanup_generated_staging_dirs cfg paths st = remove_dir d st"
  unfolding cleanup_generated_staging_dirs_def uniq_const [OF assms(1,2)] using assms(1,3) by simp

text \<open>
  Staging directories are cleaned up, except after a generator run that succeeds with no
  program: then the directory of the run is left behind for good, because the clean-up learns the
  directory from the paths of the programs. A failing run and a run with programs, inspected or
  not, leave no directory.
\<close>

theorem staging_left_behind:
  assumes env: "env_stages cfg env (gt_syscall_name target)"
    and run: "generate_rows_for_target cfg env settings targets ei ti target st = Inr (st', rows, coverage, gap)"
    and modes: "''syz_generate'' \<in> set (se_source_modes settings)" "gt_generator_class target = ''base_only''"
  shows "\<exists>d rc out err. d \<notin> set (gs_staging st) \<and>
    ge_run env (generate_command cfg env (gt_syscall_name target) (se_per_target_budget settings)
      (se_preferred_length settings) (ge_seed env (gc_workflow cfg @ '':'' @ gt_syscall_name target)) d) = (rc, out, err) \<and>
    gs_staging st' = (if rc = 0 \<and> ge_glob_syz env d = [] then d # gs_staging st else gs_staging st)"
proof -
  let ?d = "ge_mkdtemp env (gs_staging st) (gc_temp_root cfg @ ''/'' @ GENERATED_STAGING_PREFIX @ gt_syscall_name target @ ''-'')"
  obtain rc out err where r: "ge_run env (generate_command cfg env (gt_syscall_name target) (se_per_target_budget settings)
      (se_preferred_length settings) (ge_seed env (gc_workflow cfg @ '':'' @ gt_syscall_name target)) ?d) = (rc, out, err)"
    by (cases "ge_run env (generate_command cfg env (gt_syscall_name target) (se_per_target_budget settings)
      (se_preferred_length settings) (ge_seed env (gc_workflow cfg @ '':'' @ gt_syscall_name target)) ?d)")
  have fresh: "?d \<notin> set (gs_staging st)" and parent: "staging_parent cfg ?d"
    and glob: "\<forall>p \<in> set (sort_paths (ge_glob_syz env ?d)). path_parent p = ?d"
    using env unfolding env_stages_def sort_paths_def set_sort by blast+
  have gone: "gs_staging (remove_dir ?d s) = gs_staging st" if "gs_staging s = ?d # gs_staging st" for s
    by (rule remove_fresh [OF fresh that])
  obtain rows0 rows' ge ie where
    g: "generated_rows_of cfg env settings targets target rows0 st = Inr (st', rows', ge, ie)"
    by (rule generate_rows_run [OF run])
  let ?paths = "sort_paths (ge_glob_syz env ?d)" and ?st1 = "st\<lparr>gs_staging := ?d # gs_staging st\<rparr>"
  have paths: "?paths = [] \<longleftrightarrow> ge_glob_syz env ?d = []" by (rule sort_paths_Nil)
  from generated_rows_outcome [OF g modes] obtain st1 outcome where
    run: "run_syzabi_generate cfg env (gt_syscall_name target) (se_per_target_budget settings)
      (se_preferred_length settings) (ge_seed env (gc_workflow cfg @ '':'' @ gt_syscall_name target)) st =
      Inr (st1, outcome)"
    and o: "case outcome of Inl e \<Rightarrow> st' = st1 \<and> rows' = rows0
     | Inr paths \<Rightarrow> (\<exists>st2. inspect_generated cfg env targets (gt_syscall_name target) paths (st1, rows0, None) =
           Inr (st2, rows', ie) \<and> st' = cleanup_generated_staging_dirs cfg paths st2)" .
  have run': "if rc = 0 \<or> rc = 2 \<and> ?paths \<noteq> [] then st1 = ?st1 \<and> outcome = Inr ?paths
      else st1 = remove_dir ?d ?st1 \<and> (\<exists>e. outcome = Inl e)"
    by (rule run_generate_cases [OF run refl r])
  have "gs_staging st' = (if rc = 0 \<and> ge_glob_syz env ?d = [] then ?d # gs_staging st else gs_staging st)"
  proof (cases "rc = 0 \<or> rc = 2 \<and> ?paths \<noteq> []")
    case False
    with run' o have "st' = remove_dir ?d ?st1" by auto
    with False gone [of ?st1] show ?thesis by auto
  next
    case True
    with run' o obtain st2 where
      i: "inspect_generated cfg env targets (gt_syscall_name target) ?paths (?st1, rows0, None) = Inr (st2, rows', ie)"
      and st': "st' = cleanup_generated_staging_dirs cfg ?paths st2" by auto
    have s2: "gs_staging st2 = ?d # gs_staging st" using inspect_staging [OF i] by simp
    show ?thesis
    proof (cases "?paths = []")
      case True
      with paths \<open>rc = 0 \<or> rc = 2 \<and> ?paths \<noteq> []\<close> s2 st' show ?thesis
        by (simp add: cleanup_generated_staging_dirs_def)
    next
      case False
      with paths cleanup_one [OF False glob parent, of st2] gone [OF s2] st' show ?thesis by simp
    qed
  qed
  with r fresh show ?thesis by blast
qed

section \<open>A concrete run\<close>

definition demo_gen_cfg :: gen_cfg where
  "demo_gen_cfg = \<lparr>gc_workflow = ''w'', gc_target_os = ''linux'', gc_arch = ''amd64'', gc_raw_dir = ''r'',
     gc_normalized_dir = ''n'', gc_meta_dir = ''m'', gc_temp_root = ''t''\<rparr>"

definition demo_gen_env :: gen_env where
  "demo_gen_env = \<lparr>ge_binary = ''g'', ge_binary_exists = True,
     ge_mkdtemp = (\<lambda>dirs p. p @ replicate (Suc (sum_list (map length dirs))) CHR ''x''),
     ge_run = (\<lambda>_. (0, [], [])), ge_glob_syz = (\<lambda>_. []), ge_read = (\<lambda>p. Inr p),
     ge_inspect = (\<lambda>p. Inl (RuntimeErr p)), ge_seed = (\<lambda>_. 7)\<rparr>"

definition demo_gen_target :: "string \<Rightarrow> gen_target" where
  "demo_gen_target name = \<lparr>gt_syscall_name = name, gt_category = ''fs'', gt_support_tier = ''full'',
     gt_generator_class = ''base_only'', gt_generator_gap_reason = None\<rparr>"

definition demo_gen_settings :: gen_settings where
  "demo_gen_settings = \<lparr>se_source_modes = [''existing_corpus'', ''syz_generate''], se_jobs = 2, se_batch_size = 1,
     se_per_target_budget = 8, se_existing_corpus_limit = 4, se_preferred_length = 4,
     se_existing_corpus_source_file = PNone, se_template_dir = PNone, se_allow_variant_templates = []\<rparr>"

definition demo_store :: gen_store where
  "demo_store = \<lparr>gs_texts = [], gs_metas = [], gs_staging = []\<rparr>"

definition demo_corpus_row :: corpus_row where
  "demo_corpus_row = \<lparr>cr_program_id = ''p'', cr_workflow = None, cr_normalized_path = ''p.syz'', cr_meta_path = ''p.json''\<rparr>"

definition demo_meta :: meta where
  "demo_meta = \<lparr>me_program_id = ''p'', me_normalized_path = None, me_uses_pseudo_syscalls = False,
     me_uses_threading_sensitive_features = False, me_syscall_list = [''open'', ''read''],
     me_full_syscall_list = [''open'', ''read''], me_call_count = 2\<rparr>"

lemma candidates_cover_target_witness:
  "\<exists>ei rows coverage gap st'.
    load_existing_corpus_index (Some ''f'') (\<lambda>_. Some [demo_corpus_row]) ''w'' [demo_gen_target ''open''] 4
      (\<lambda>_. Inr demo_meta) None = Inr ei \<and>
    generate_rows_for_target demo_gen_cfg demo_gen_env demo_gen_settings [''open''] ei [] (demo_gen_target ''open'')
      demo_store = Inr (st', rows, coverage, gap) \<and> rows \<noteq> [] \<and> (\<forall>c \<in> set rows. set (ca_covered c) = {''open''}) \<and> gap = None"
proof -
  let ?e = "load_existing_corpus_index (Some ''f'') (\<lambda>_. Some [demo_corpus_row]) ''w'' [demo_gen_target ''open''] 4
      (\<lambda>_. Inr demo_meta) None"
  have "is_ok (bind ?e (\<lambda>ei. bind (generate_rows_for_target demo_gen_cfg demo_gen_env demo_gen_settings [''open''] ei []
      (demo_gen_target ''open'') demo_store) (\<lambda>v. require (fst (snd v) \<noteq> []) IndexError)))" by code_simp
  from is_ok_requireD [OF this] obtain ei v where e: "?e = Inr ei"
    and v: "generate_rows_for_target demo_gen_cfg demo_gen_env demo_gen_settings [''open''] ei []
      (demo_gen_target ''open'') demo_store = Inr v" "fst (snd v) \<noteq> []"
    by (elim exE conjE) (rule that)
  obtain st' rows coverage gap where "v = (st', rows, coverage, gap)" by (cases v)
  with v have g: "generate_rows_for_target demo_gen_cfg demo_gen_env demo_gen_settings [''open''] ei []
      (demo_gen_target ''open'') demo_store = Inr (st', rows, coverage, gap)" and ne: "rows \<noteq> []"
    by (simp_all only: fst_conv snd_conv not_False_eq_True)
  have t: "load_template_index demo_gen_cfg demo_gen_env demo_gen_settings
      \<lparr>tf_exists = (\<lambda>_. False), tf_rglob_syz = (\<lambda>_. []), tf_glob_syz = (\<lambda>_ _. [])\<rparr> [demo_gen_target ''open''] demo_store =
      Inr (demo_store, [])"
    by (simp add: load_template_index_def demo_gen_settings_def)
  have names: "target_syscall_set [demo_gen_target ''open''] = [''open'']" "gt_syscall_name (demo_gen_target ''open'') = ''open''"
    by (simp_all add: target_syscall_set_def demo_gen_target_def)
  from candidates_cover_target [OF e t keeps_metas_refl, unfolded names, OF g] obtain
    all: "\<forall>c \<in> set rows. gt_syscall_name (demo_gen_target ''open'') \<in> gt_syscall_name ` set [demo_gen_target ''open''] \<and> (\<exists>L. L \<noteq> {} \<and>
      (\<forall>calls \<in> L. (corpus_calls (Some ''f'') (\<lambda>_. Some [demo_corpus_row]) (\<lambda>_. Inr demo_meta) None (ca_program_id c) calls \<or>
         stored_calls demo_gen_cfg st' (ca_program_id c) calls) \<and> ''open'' \<in> set calls) \<and>
      set (ca_covered c) = (\<Union>calls \<in> L. set calls) \<inter> gt_syscall_name ` set [demo_gen_target ''open''])" and gap: "gap = None"
    using ne names by auto
  have "\<forall>c \<in> set rows. set (ca_covered c) = {''open''}" using all names by auto
  with e g ne gap show ?thesis by blast
qed

lemma coverage_partition_witness:
  "\<exists>st' r. generate_candidates demo_gen_cfg demo_gen_env demo_gen_settings [] [] rev
      [demo_gen_target ''read'', demo_gen_target ''open''] demo_store = Inr (st', r) \<and>
    map co_syscall_name (gr_coverage r) = sort [''read'', ''open''] \<and>
    gm_targets_without_candidates (build_generation_summary demo_gen_cfg demo_gen_settings
      [demo_gen_target ''read'', demo_gen_target ''open''] r) = int (length (gr_gaps r))"
proof -
  let ?t = "[demo_gen_target ''read'', demo_gen_target ''open'']"
  have "is_ok (generate_candidates demo_gen_cfg demo_gen_env demo_gen_settings [] [] rev ?t demo_store)" by code_simp
  then obtain st' r where g: "generate_candidates demo_gen_cfg demo_gen_env demo_gen_settings [] [] rev ?t demo_store = Inr (st', r)"
    by (auto simp only: is_ok_iff split_paired_Ex)
  have "map gt_syscall_name ?t = [''read'', ''open'']" by (simp add: demo_gen_target_def)
  with coverage_partition [OF g] g show ?thesis by (auto simp: demo_gen_settings_def)
qed

lemma generation_settings_bounds_witness:
  "\<exists>s. generation_settings (PDict []) (PDict [(''generation'', PDict [(''batch_size'', PInt (- 3))])])
      \<lparr>ga_jobs = None, ga_batch_size = None, ga_per_target_budget = None, ga_existing_corpus_source_file = None\<rparr> = Inr s \<and>
    1 \<le> se_batch_size s"
proof -
  have "is_ok (generation_settings (PDict []) (PDict [(''generation'', PDict [(''batch_size'', PInt (- 3))])])
      \<lparr>ga_jobs = None, ga_batch_size = None, ga_per_target_budget = None, ga_existing_corpus_source_file = None\<rparr>)"
    by code_simp
  then obtain s where s: "generation_settings (PDict []) (PDict [(''generation'', PDict [(''batch_size'', PInt (- 3))])])
      \<lparr>ga_jobs = None, ga_batch_size = None, ga_per_target_budget = None, ga_existing_corpus_source_file = None\<rparr> = Inr s"
    by (auto simp only: is_ok_iff)
  from generation_settings_bounds [OF s] s show ?thesis by blast
qed

lemma split_char_notin: "d \<notin> set s \<Longrightarrow> split_char d s = [s]"
  by (induction s) auto

lemma demo_stages: "env_stages demo_gen_cfg demo_gen_env ''open''"
proof -
  have "length x \<le> sum_list (map length dirs)" if "x \<in> set dirs" for x :: string and dirs
    using that by (induction dirs) auto
  then have "p @ replicate (Suc (sum_list (map length dirs))) CHR ''x'' \<notin> set dirs" for p dirs
    by (metis add_leD2 length_append length_replicate not_less_eq_eq order_refl)
  moreover have "staging_parent demo_gen_cfg (''t/scml-syzgen-open-'' @ replicate n CHR ''x'')" for n
    by (simp add: staging_parent_def under_path_def path_parts_def path_name_def demo_gen_cfg_def
        GENERATED_STAGING_PREFIX_def split_char_notin)
  ultimately show ?thesis
    by (simp add: env_stages_def demo_gen_env_def demo_gen_cfg_def GENERATED_STAGING_PREFIX_def del: replicate_Suc)
qed

lemma staging_left_behind_witness:
  "\<exists>st' rows coverage gap. generate_rows_for_target demo_gen_cfg demo_gen_env demo_gen_settings [''open''] [] []
      (demo_gen_target ''open'') demo_store = Inr (st', rows, coverage, gap) \<and> gs_staging st' \<noteq> []"
proof -
  have "is_ok (generate_rows_for_target demo_gen_cfg demo_gen_env demo_gen_settings [''open''] [] []
      (demo_gen_target ''open'') demo_store)" by code_simp
  then obtain st' rows coverage gap where g: "generate_rows_for_target demo_gen_cfg demo_gen_env demo_gen_settings
      [''open''] [] [] (demo_gen_target ''open'') demo_store = Inr (st', rows, coverage, gap)"
    by (auto simp only: is_ok_iff split_paired_Ex)
  have "env_stages demo_gen_cfg demo_gen_env (gt_syscall_name (demo_gen_target ''open''))"
    using demo_stages by (simp add: demo_gen_target_def)
  from staging_left_behind [OF this g] have "gs_staging st' \<noteq> []"
    by (auto simp: demo_gen_settings_def demo_gen_target_def demo_gen_env_def)
  with g show ?thesis by blast
qed

lemma completion_order_irrelevant_witness:
  "\<exists>s1 r1 s2 r2.
    generate_candidates demo_gen_cfg demo_gen_env demo_gen_settings [] [] rev
      [demo_gen_target ''read'', demo_gen_target ''open''] demo_store = Inr (s1, r1) \<and>
    generate_candidates demo_gen_cfg demo_gen_env demo_gen_settings [] [] (\<lambda>bs. bs)
      [demo_gen_target ''read'', demo_gen_target ''open''] demo_store = Inr (s2, r2) \<and> gr_gaps r1 = gr_gaps r2"
proof -
  let ?t = "[demo_gen_target ''read'', demo_gen_target ''open'']"
  have "\<forall>t \<in> set ?t. \<forall>st. \<exists>st'. generate_rows_for_target demo_gen_cfg demo_gen_env demo_gen_settings
      (target_syscall_set ?t) [] [] t st = Inr (st', target_rows_result demo_gen_settings t [] None None)"
    by (simp add: generate_rows_for_target_def generated_rows_of_def run_syzabi_generate_def demo_gen_env_def
        demo_gen_settings_def demo_gen_target_def index_rows_of_def sort_paths_def Let_def)
  moreover have "distinct (map gt_syscall_name ?t)" by (simp add: demo_gen_target_def)
  ultimately show ?thesis
    using completion_order_irrelevant [of ?t demo_gen_settings demo_gen_cfg demo_gen_env "[]" "[]"
        "\<lambda>t. target_rows_result demo_gen_settings t [] None None" rev "\<lambda>bs. bs" demo_store]
    by (fastforce simp: demo_gen_settings_def)
qed

end
