(* ===== verification/Fat.thy ===== *)
theory Fat
  imports PyPrelude "HOL-Library.Word"
begin

unbundle bit_operations_syntax

text \<open>
  The FAT reader of \<open>targets/tgoskits_arceos/api.py\<close>: little-endian fields, the entries of the three
  table formats, cluster chains, directory walks and the state sampled from a disk image. An image
  is a list of bytes, names are lists of code points (a long name may hold any 16-bit unit). The
  walk recurses on directories as deep as Python allows (\<open>depth\<close>); a deeper tree, and a cycle,
  raises \<open>RecursionError\<close>, which the sampler turns into a read error like every exception. The
  digest is a parameter.
\<close>

type_synonym byte = "8 word"
type_synonym ustring = "nat list"

section \<open>Little-endian fields\<close>

fun from_le :: "byte list \<Rightarrow> nat" where
  "from_le [] = 0"
| "from_le (b # bs) = unat b + 256 * from_le bs"

definition byte_slice :: "nat \<Rightarrow> nat \<Rightarrow> byte list \<Rightarrow> byte list" where
  "byte_slice i j bs = take (j - i) (drop i bs)"

definition fat_u16 :: "byte list \<Rightarrow> nat \<Rightarrow> nat" where
  "fat_u16 payload offset = from_le (byte_slice offset (offset + 2) payload)"

definition fat_u32 :: "byte list \<Rightarrow> nat \<Rightarrow> nat" where
  "fat_u32 payload offset = from_le (byte_slice offset (offset + 4) payload)"

definition fat_u12 :: "byte list \<Rightarrow> nat \<Rightarrow> nat \<Rightarrow> nat" where
  "fat_u12 payload offset cluster =
     (let v = from_le (byte_slice offset (offset + 2) payload)
      in if odd cluster then drop_bit 4 v else v AND 0x0FFF)"

section \<open>The table\<close>

datatype fat_kind = FAT12 | FAT16 | FAT32

definition fat_type ::
  "byte list \<Rightarrow> nat \<Rightarrow> nat \<Rightarrow> nat \<Rightarrow> nat \<Rightarrow> (fat_kind \<times> nat \<times> nat \<times> nat) res" where
  "fat_type img bytes_per_sector sectors_per_cluster reserved_sectors fat_count =
     (let root_entry_count = fat_u16 img 17;
          total_sectors = (if fat_u16 img 19 \<noteq> 0 then fat_u16 img 19 else fat_u32 img 32);
          sectors_per_fat = (if fat_u16 img 22 \<noteq> 0 then fat_u16 img 22 else fat_u32 img 36)
      in if bytes_per_sector = 0 then Inl ZeroDivisionError
         else
          let root_dir_sectors = (root_entry_count * 32 + (bytes_per_sector - 1)) div bytes_per_sector;
              data_sectors = int total_sectors -
                (int reserved_sectors + int fat_count * int sectors_per_fat + int root_dir_sectors);
              cluster_count = (if sectors_per_cluster \<noteq> 0 then data_sectors div int sectors_per_cluster else 0)
          in Inr (if cluster_count < 4085 then FAT12 else if cluster_count < 65525 then FAT16 else FAT32,
               sectors_per_fat, root_entry_count, root_dir_sectors))"

definition fat_entry :: "byte list \<Rightarrow> nat \<Rightarrow> nat \<Rightarrow> fat_kind \<Rightarrow> nat" where
  "fat_entry img fat_offset cluster kind = (case kind of
       FAT12 \<Rightarrow> fat_u12 img (fat_offset + (cluster * 3) div 2) cluster
     | FAT16 \<Rightarrow> fat_u16 img (fat_offset + cluster * 2)
     | FAT32 \<Rightarrow> fat_u32 img (fat_offset + cluster * 4) AND 0x0FFFFFFF)"

definition fat_eof :: "fat_kind \<Rightarrow> nat" where
  "fat_eof kind = (case kind of FAT12 \<Rightarrow> 0x0FF8 | FAT16 \<Rightarrow> 0xFFF8 | FAT32 \<Rightarrow> 0x0FFFFFF8)"

text \<open>
  The loop keeps the clusters it has seen; it ends because there are finitely many below the end
  mark.
\<close>

function fat_chain_loop :: "byte list \<Rightarrow> nat \<Rightarrow> fat_kind \<Rightarrow> nat \<Rightarrow> nat list \<Rightarrow> nat list" where
  "fat_chain_loop img fat_offset kind cluster chain =
     (if cluster \<ge> 2 \<and> cluster < fat_eof kind \<and> cluster \<notin> set chain
      then fat_chain_loop img fat_offset kind (fat_entry img fat_offset cluster kind) (chain @ [cluster])
      else chain)"
  by pat_completeness auto
termination
proof (relation "measure (\<lambda>(img, off, kind, cluster, chain). card ({..<fat_eof kind} - set chain))")
  fix img :: "byte list" and fat_offset :: nat and kind cluster chain
  assume "2 \<le> cluster \<and> cluster < fat_eof kind \<and> cluster \<notin> set chain"
  then have "{..<fat_eof kind} - set (chain @ [cluster]) \<subset> {..<fat_eof kind} - set chain" by auto
  then have "card ({..<fat_eof kind} - set (chain @ [cluster])) < card ({..<fat_eof kind} - set chain)"
    by (intro psubset_card_mono) auto
  then show "((img, fat_offset, kind, fat_entry img fat_offset cluster kind, chain @ [cluster]),
      img, fat_offset, kind, cluster, chain) \<in>
      measure (\<lambda>(img, off, kind, cluster, chain). card ({..<fat_eof kind} - set chain))" by simp
qed simp

declare fat_chain_loop.simps [simp del]

definition fat_chain :: "byte list \<Rightarrow> nat \<Rightarrow> nat \<Rightarrow> fat_kind \<Rightarrow> nat list" where
  "fat_chain img fat_offset start_cluster kind =
     (if start_cluster < 2 then [] else fat_chain_loop img fat_offset kind start_cluster [])"

section \<open>Clusters\<close>

record fat_fs =
  ff_image :: "byte list"
  ff_kind :: fat_kind
  ff_fat_offset :: nat
  ff_bytes_per_sector :: nat
  ff_sectors_per_cluster :: nat
  ff_first_data_sector :: nat

definition fat_cluster_bytes :: "fat_fs \<Rightarrow> nat \<Rightarrow> byte list" where
  "fat_cluster_bytes fs cluster =
     (let cluster_offset = (ff_first_data_sector fs + (cluster - 2) * ff_sectors_per_cluster fs) * ff_bytes_per_sector fs;
          cluster_size = ff_bytes_per_sector fs * ff_sectors_per_cluster fs
      in byte_slice cluster_offset (cluster_offset + cluster_size) (ff_image fs))"

definition fat_read_chain :: "fat_fs \<Rightarrow> nat \<Rightarrow> byte list" where
  "fat_read_chain fs start_cluster =
     (if start_cluster < 2 then []
      else concat (map (fat_cluster_bytes fs)
             (fat_chain (ff_image fs) (ff_fat_offset fs) start_cluster (ff_kind fs))))"

section \<open>Directory entries\<close>

fun units16 :: "byte list \<Rightarrow> nat list" where
  "units16 (a # b # bs) = from_le [a, b] # units16 bs"
| "units16 [a] = [from_le [a]]"
| "units16 [] = []"

definition fat_decode_lfn_fragment :: "byte list \<Rightarrow> ustring" where
  "fat_decode_lfn_fragment entry =
     filter (\<lambda>u. u \<notin> {0x0000, 0xFFFF})
       (units16 (byte_slice 1 11 entry @ byte_slice 14 26 entry @ byte_slice 28 32 entry))"

text \<open>\<open>decode("ascii", errors="ignore").rstrip(" ")\<close>\<close>

definition ascii_field :: "byte list \<Rightarrow> ustring" where
  "ascii_field bs = rev (dropWhile (\<lambda>c. c = 32) (rev (filter (\<lambda>c. c < 128) (map unat bs))))"

definition fat_short_name :: "byte list \<Rightarrow> ustring" where
  "fat_short_name entry =
     (let stem = ascii_field (byte_slice 0 8 entry); ext = ascii_field (byte_slice 8 11 entry)
      in if ext \<noteq> [] then stem @ [46] @ ext else stem)"

text \<open>What one round of the loop over the entries does: stop, go on with the long-name parts,
  descend, or record a file.\<close>

datatype entry_action =
    StopWalk
  | NextEntry "ustring list"
  | SubDirectory ustring nat
  | FileEntry ustring nat nat

definition entry_name :: "ustring list \<Rightarrow> byte list \<Rightarrow> ustring" where
  "entry_name lfn_parts entry = (if lfn_parts \<noteq> [] then concat lfn_parts else fat_short_name entry)"

definition entry_cluster :: "fat_kind \<Rightarrow> byte list \<Rightarrow> nat" where
  "entry_cluster kind entry = (case kind of
       FAT32 \<Rightarrow> push_bit 16 (fat_u16 entry 20) OR fat_u16 entry 26
     | _ \<Rightarrow> fat_u16 entry 26)"

definition entry_step :: "fat_kind \<Rightarrow> ustring list \<Rightarrow> byte list \<Rightarrow> entry_action" where
  "entry_step kind lfn_parts entry =
     (if length entry < 32 then StopWalk
      else let first = unat (entry ! 0); attributes = unat (entry ! 11) in
       if first = 0x00 then StopWalk
       else if first = 0xE5 then NextEntry []
       else if attributes = 0x0F then NextEntry (fat_decode_lfn_fragment entry # lfn_parts)
       else if attributes AND 0x08 \<noteq> 0 then NextEntry []
       else let name = entry_name lfn_parts entry in
        if name \<in> {[], [46], [46, 46]} then NextEntry []
        else if attributes AND 0x10 \<noteq> 0
        then (if entry_cluster kind entry \<ge> 2 then SubDirectory name (entry_cluster kind entry) else NextEntry [])
        else FileEntry name (entry_cluster kind entry) (fat_u32 entry 28))"

definition dir_entries :: "byte list \<Rightarrow> byte list list" where
  "dir_entries directory = map (\<lambda>i. byte_slice (32 * i) (32 * i + 32) directory) [0..<(length directory + 31) div 32]"

record 'h fat_file =
  fl_path :: ustring
  fl_size :: nat
  fl_sha256 :: 'h

definition join_path :: "ustring \<Rightarrow> ustring \<Rightarrow> ustring" where
  "join_path prefix_path name = (if prefix_path \<noteq> [] then prefix_path @ [47] @ name else name)"

function walk_entries ::
  "(byte list \<Rightarrow> 'h) \<Rightarrow> fat_fs \<Rightarrow> nat \<Rightarrow> ustring \<Rightarrow> ustring list \<Rightarrow> byte list list \<Rightarrow> 'h fat_file list \<Rightarrow>
   'h fat_file list res" where
  "walk_entries digest fs depth path lfn_parts [] files = Inr files"
| "walk_entries digest fs depth path lfn_parts (entry # entries) files =
     (case entry_step (ff_kind fs) lfn_parts entry of
        StopWalk \<Rightarrow> Inr files
      | NextEntry lfn' \<Rightarrow> walk_entries digest fs depth path lfn' entries files
      | SubDirectory name cluster \<Rightarrow> (case depth of 0 \<Rightarrow> Inl RecursionError
          | Suc d \<Rightarrow> bind (walk_entries digest fs d (join_path path name) [] (dir_entries (fat_read_chain fs cluster)) files)
              (\<lambda>files'. walk_entries digest fs depth path [] entries files'))
      | FileEntry name cluster sz \<Rightarrow> walk_entries digest fs depth path [] entries
          (files @ [\<lparr>fl_path = join_path path name, fl_size = sz,
             fl_sha256 = digest (take sz (fat_read_chain fs cluster))\<rparr>]))"
  by pat_completeness auto
termination
  by (relation "measures [\<lambda>(_, _, d, _). d, \<lambda>(_, _, _, _, _, es, _). length es]") auto

section \<open>The sampled state and its difference\<close>

record 'h fat_state =
  fa_files :: "'h fat_file list"
  fa_read_error :: "py_error option"

definition fat_geometry :: "byte list \<Rightarrow> (fat_fs \<times> nat \<times> nat) res" where
  "fat_geometry img =
     bind (require (64 \<le> length img) (ValueError ''disk image is too small to contain a FAT boot sector'')) (\<lambda>_.
       let bytes_per_sector = fat_u16 img 11; sectors_per_cluster = unat (img ! 13);
           reserved_sectors = fat_u16 img 14; fat_count = unat (img ! 16) in
       bind (fat_type img bytes_per_sector sectors_per_cluster reserved_sectors fat_count)
         (\<lambda>(kind, sectors_per_fat, root_entry_count, root_dir_sectors).
           let first_root_dir_sector = reserved_sectors + fat_count * sectors_per_fat in
           Inr (\<lparr>ff_image = img, ff_kind = kind, ff_fat_offset = reserved_sectors * bytes_per_sector,
                  ff_bytes_per_sector = bytes_per_sector, ff_sectors_per_cluster = sectors_per_cluster,
                  ff_first_data_sector = first_root_dir_sector + root_dir_sectors\<rparr>,
                first_root_dir_sector, root_dir_sectors)))"

definition root_directory :: "fat_fs \<Rightarrow> nat \<Rightarrow> nat \<Rightarrow> byte list" where
  "root_directory fs first_root_dir_sector root_dir_sectors =
     (if ff_kind fs = FAT32 then fat_read_chain fs (fat_u32 (ff_image fs) 44)
      else byte_slice (first_root_dir_sector * ff_bytes_per_sector fs)
        ((first_root_dir_sector + root_dir_sectors) * ff_bytes_per_sector fs) (ff_image fs))"

definition sample_fat_external_state ::
  "(byte list \<Rightarrow> 'h) \<Rightarrow> nat \<Rightarrow> byte list res \<Rightarrow> 'h fat_state" where
  "sample_fat_external_state digest depth read =
     (case bind read (\<lambda>img. bind (fat_geometry img) (\<lambda>(fs, first_root, root_sectors).
         walk_entries digest fs depth [] [] (dir_entries (root_directory fs first_root root_sectors)) [])) of
        Inl e \<Rightarrow> \<lparr>fa_files = [], fa_read_error = Some e\<rparr>
      | Inr files \<Rightarrow> \<lparr>fa_files = sort_key fl_path files, fa_read_error = None\<rparr>)"

definition file_changed :: "(ustring, 'h fat_file) dict \<Rightarrow> 'h fat_file \<Rightarrow> bool" where
  "file_changed base_by_path item = (case dict_get (fl_path item) base_by_path of
       None \<Rightarrow> True
     | Some old \<Rightarrow> fl_sha256 old \<noteq> fl_sha256 item \<or> fl_size old \<noteq> fl_size item)"

definition diff_external_state :: "'h fat_state \<Rightarrow> 'h fat_state \<Rightarrow> 'h fat_state" where
  "diff_external_state base current =
     (if fa_read_error base \<noteq> None \<or> fa_read_error current \<noteq> None then current
      else \<lparr>fa_files = sort_key fl_path
               (filter (file_changed (fold (\<lambda>f. dict_set (fl_path f) f) (fa_files base) [])) (fa_files current)),
             fa_read_error = None\<rparr>)"

section \<open>Writing fields and tables\<close>

text \<open>The writer the reader is compared with: little-endian fields and the three table formats.\<close>

fun to_le :: "nat \<Rightarrow> nat \<Rightarrow> byte list" where
  "to_le 0 n = []"
| "to_le (Suc k) n = of_nat n # to_le k (n div 256)"

fun pack12 :: "nat list \<Rightarrow> byte list" where
  "pack12 (a # b # xs) = to_le 3 (a + 4096 * b) @ pack12 xs"
| "pack12 [a] = to_le 2 a"
| "pack12 [] = []"

definition encode_table :: "fat_kind \<Rightarrow> nat list \<Rightarrow> byte list" where
  "encode_table kind xs = (case kind of
       FAT12 \<Rightarrow> pack12 xs
     | FAT16 \<Rightarrow> concat (map (to_le 2) xs)
     | FAT32 \<Rightarrow> concat (map (to_le 4) xs))"

definition entry_limit :: "fat_kind \<Rightarrow> nat" where
  "entry_limit kind = (case kind of FAT12 \<Rightarrow> 2 ^ 12 | FAT16 \<Rightarrow> 2 ^ 16 | FAT32 \<Rightarrow> 2 ^ 28)"

lemma to_le_numeral: "to_le (numeral k) n = of_nat n # to_le (pred_numeral k) (n div 256)"
  unfolding numeral_eq_Suc [of k] by (rule to_le.simps)

lemma length_to_le [simp]: "length (to_le k n) = k"
  by (induction k arbitrary: n) auto

lemma from_to_le: "from_le (to_le k n) = n mod 256 ^ k"
proof (induction k arbitrary: n)
  case (Suc k)
  have "n mod 256 + 256 * (n div 256 mod 256 ^ k) = n mod (256 * 256 ^ k)"
    by (simp add: mod_mult2_eq add.commute)
  with Suc show ?case by (simp add: unat_of_nat)
qed simp

lemma from_le_bound: "from_le bs < 256 ^ length bs"
proof (induction bs)
  case (Cons b bs)
  have "unat b < 2 ^ LENGTH(8)" by (rule unsigned_less)
  then have "unat b < 256" by simp
  with Cons show ?case by simp
qed simp

lemma byte_slice_append [simp]: "byte_slice (length pre + i) (length pre + i + w) (pre @ bs) = byte_slice i (i + w) bs"
  by (simp add: byte_slice_def)

lemma fat_u_shift:
  "fat_u12 (pre @ bs) (length pre + i) c = fat_u12 bs i c"
  "fat_u16 (pre @ bs) (length pre + i) = fat_u16 bs i"
  "fat_u32 (pre @ bs) (length pre + i) = fat_u32 bs i"
  unfolding fat_u12_def fat_u16_def fat_u32_def byte_slice_append by (rule refl)+

lemma slice_chunk:
  assumes "\<And>x. length (f x) = w" "i < length xs"
  shows "byte_slice (i * w) (i * w + w) (concat (map f xs) @ post) = f (xs ! i)"
  using assms(2)
proof (induction xs arbitrary: i)
  case (Cons x xs)
  show ?case
  proof (cases i)
    case (Suc j)
    with Cons have IH: "byte_slice (j * w) (j * w + w) (concat (map f xs) @ post) = f (xs ! j)" by simp
    have "byte_slice (length (f x) + j * w) (length (f x) + j * w + w) (f x @ concat (map f xs) @ post) =
        byte_slice (j * w) (j * w + w) (concat (map f xs) @ post)" by (rule byte_slice_append)
    with IH Suc show ?thesis by (simp add: assms(1))
  qed (simp add: byte_slice_def assms(1))
qed simp

lemma and_low: "v AND (2 ^ n - 1) = v mod (2 ^ n :: nat)"
  using take_bit_eq_mask [of n v] by (simp add: mask_eq_exp_minus_1 take_bit_eq_mod)

lemma low12: "v AND 0x0FFF = v mod (4096 :: nat)"
  using and_low [of v 12] by simp

lemma low28: "v AND 0x0FFFFFFF = v mod (268435456 :: nat)"
  using and_low [of v 28] by simp

lemma div_4096_256: "(a + 4096 * b) div 256 mod 65536 div 16 = b mod (4096 :: nat)" if "a < 4096"
proof -
  have "(a + 4096 * b) div 256 div 16 = (a + 4096 * b) div 4096" by (simp add: div_mult2_eq [symmetric])
  also have "\<dots> = b" using that by simp
  finally have d: "(a + 4096 * b) div 256 div 16 = b" .
  have "x mod 65536 div 16 = x div 16 mod 4096" for x :: nat
    using mod_mult2_eq [of x 16 4096] by simp
  with d show ?thesis by simp
qed

lemma pack12_entry:
  assumes "i < length xs" "\<forall>x \<in> set xs. x < 4096"
  shows "fat_u12 (pack12 xs @ post) ((i * 3) div 2) i = xs ! i"
  using assms
proof (induction xs arbitrary: i rule: pack12.induct)
  case (1 a b xs)
  let ?v = "a + 4096 * b"
  have ab: "a < 4096" "b < 4096" using "1.prems" by auto
  consider "i = 0" | "i = 1" | j where "i = Suc (Suc j)" by (metis One_nat_def not0_implies_Suc)
  then show ?case
  proof cases
    case 1
    have "byte_slice 0 2 (to_le 3 ?v @ pack12 xs @ post) = to_le 2 ?v"
      by (simp add: byte_slice_def numeral_3_eq_3 numeral_2_eq_2)
    with 1 ab show ?thesis by (simp add: fat_u12_def from_to_le low12 mod_mod_cancel del: numeral_2_eq_2 flip: numeral_2_eq_2)
  next
    case 2
    have "byte_slice 1 3 (to_le 3 ?v @ pack12 xs @ post) = to_le 2 (?v div 256)"
      by (simp add: byte_slice_def numeral_3_eq_3 numeral_2_eq_2)
    with 2 ab show ?thesis by (simp add: fat_u12_def from_to_le drop_bit_eq_div div_4096_256 del: One_nat_def)
  next
    case 3
    have "byte_slice (length (to_le 3 ?v) + j * 3 div 2) (length (to_le 3 ?v) + j * 3 div 2 + 2)
        (to_le 3 ?v @ pack12 xs @ post) = byte_slice (j * 3 div 2) (j * 3 div 2 + 2) (pack12 xs @ post)"
      by (rule byte_slice_append)
    moreover have "i * 3 div 2 = 3 + j * 3 div 2" using 3 by simp
    ultimately have "fat_u12 (pack12 (a # b # xs) @ post) (i * 3 div 2) i = fat_u12 (pack12 xs @ post) (j * 3 div 2) j"
      using 3 by (simp add: fat_u12_def)
    with "1.IH" [of j] "1.prems" 3 show ?thesis by simp
  qed
next
  case (2 a)
  then show ?case by (simp add: fat_u12_def byte_slice_def from_to_le low12 mod_mod_cancel)
qed simp

lemma fat_table_entry:
  assumes "i < length xs" "\<forall>x \<in> set xs. x < entry_limit kind"
  shows "fat_entry (before @ encode_table kind xs @ post) (length before) i kind = xs ! i"
proof (cases kind)
  case FAT12
  with pack12_entry [OF assms(1), of post] assms(2) show ?thesis
    by (simp add: fat_entry_def encode_table_def entry_limit_def fat_u_shift)
next
  case FAT16
  have "fat_u16 (concat (map (to_le 2) xs) @ post) (i * 2) = from_le (to_le 2 (xs ! i))"
    unfolding fat_u16_def by (subst slice_chunk) (use assms(1) in simp_all)
  with FAT16 assms show ?thesis
    by (simp add: fat_entry_def encode_table_def entry_limit_def fat_u_shift from_to_le)
next
  case FAT32
  have "fat_u32 (concat (map (to_le 4) xs) @ post) (i * 4) = from_le (to_le 4 (xs ! i))"
    unfolding fat_u32_def by (subst slice_chunk) (use assms(1) in simp_all)
  with FAT32 assms show ?thesis
    by (simp add: fat_entry_def encode_table_def entry_limit_def fat_u_shift from_to_le low28 mod_mod_cancel)
qed

text \<open>
  C18. Reading an entry of a table gives back what was written, in each of the three formats and
  wherever the table stands in the image: entries that fit the format's width (12, 16 or 28 bits)
  survive the packing, also the 12-bit ones that share a byte with their neighbour.
\<close>

theorem fat_table_roundtrip:
  assumes "i < length xs" "\<forall>x \<in> set xs. x < entry_limit kind"
  shows "fat_entry (before @ encode_table kind xs @ post) (length before) i kind = xs ! i"
  using assms by (rule fat_table_entry)

lemma fat_table_roundtrip_witness:
  "fat_entry ([1, 2] @ encode_table FAT12 [0xFF8, 0xFFF, 0xABC] @ [9]) 2 1 FAT12 = 0xFFF"
proof -
  have "\<forall>x \<in> set [0xFF8, 0xFFF, 0xABC :: nat]. x < entry_limit FAT12" by (simp add: entry_limit_def)
  moreover have "length [1, 2 :: byte] = 2" by simp
  ultimately show ?thesis
    using fat_table_roundtrip [of 1 "[0xFF8, 0xFFF, 0xABC]" FAT12 "[1, 2]" "[9]"] by (metis One_nat_def length_Cons
      less_numeral_extra(1) nth_Cons_0 nth_Cons_Suc zero_less_Suc not_less_eq)
qed

section \<open>Chains\<close>

abbreviation usable :: "fat_kind \<Rightarrow> nat \<Rightarrow> bool" where
  "usable kind c \<equiv> 2 \<le> c \<and> c < fat_eof kind"

definition linked :: "byte list \<Rightarrow> nat \<Rightarrow> fat_kind \<Rightarrow> nat list \<Rightarrow> bool" where
  "linked img off kind cs \<longleftrightarrow> (\<forall>i. Suc i < length cs \<longrightarrow> cs ! Suc i = fat_entry img off (cs ! i) kind)"

lemma linked_snoc:
  assumes "linked img off kind cs" "cs \<noteq> [] \<Longrightarrow> c = fat_entry img off (last cs) kind"
  shows "linked img off kind (cs @ [c])"
  unfolding linked_def
proof (intro allI impI)
  fix i assume i: "Suc i < length (cs @ [c])"
  show "(cs @ [c]) ! Suc i = fat_entry img off ((cs @ [c]) ! i) kind"
  proof (cases "Suc i < length cs")
    case True
    with assms(1) show ?thesis by (simp add: linked_def nth_append)
  next
    case False
    with i have "Suc i = length cs" by simp
    then have "cs \<noteq> []" by auto
    with \<open>Suc i = length cs\<close> have "last cs = cs ! i" by (metis diff_Suc_1 last_conv_nth)
    with \<open>cs \<noteq> []\<close> assms(2) \<open>Suc i = length cs\<close> show ?thesis by (simp add: nth_append)
  qed
qed

lemma chain_loop_sound:
  assumes "distinct chain" "\<forall>c \<in> set chain. usable kind c" "linked img off kind chain"
    "chain = [] \<Longrightarrow> cluster = start"
    "chain \<noteq> [] \<Longrightarrow> hd chain = start \<and> cluster = fat_entry img off (last chain) kind"
  shows "let cs = fat_chain_loop img off kind cluster chain in
    distinct cs \<and> (\<forall>c \<in> set cs. usable kind c) \<and> linked img off kind cs \<and>
    (cs = [] \<longrightarrow> \<not> usable kind start) \<and>
    (cs \<noteq> [] \<longrightarrow> hd cs = start \<and> (let n = fat_entry img off (last cs) kind in \<not> usable kind n \<or> n \<in> set cs))"
  using assms
proof (induction img off kind cluster chain rule: fat_chain_loop.induct)
  case (1 img off kind cluster chain)
  show ?case
  proof (cases "usable kind cluster \<and> cluster \<notin> set chain")
    case True
    have link: "linked img off kind (chain @ [cluster])"
      by (rule linked_snoc) (use "1.prems" in auto)
    have hd: "hd (chain @ [cluster]) = start" using "1.prems" by (cases chain) auto
    have eq: "fat_chain_loop img off kind cluster chain =
        fat_chain_loop img off kind (fat_entry img off cluster kind) (chain @ [cluster])"
      by (subst fat_chain_loop.simps) (use True in simp)
    show ?thesis
      unfolding eq by (rule "1.IH") (use True "1.prems" link hd in simp_all)
  next
    case False
    then have "fat_chain_loop img off kind cluster chain = chain" by (subst fat_chain_loop.simps) auto
    with False "1.prems" show ?thesis by (auto simp: Let_def)
  qed
qed

text \<open>
  C36. Following a chain always ends, with a list of fewer clusters than the end mark that has no
  repetition, holds only cluster numbers between 2 and the end mark, starts at the start cluster
  and goes from each to the entry of the table; it stops only where the entry is no data cluster or
  has been visited, so a cyclic table is read once around.
\<close>

theorem fat_chain_sound:
  "let cs = fat_chain img off start kind in
    distinct cs \<and> (\<forall>c \<in> set cs. 2 \<le> c \<and> c < fat_eof kind) \<and> length cs < fat_eof kind \<and>
    (\<forall>i. Suc i < length cs \<longrightarrow> cs ! Suc i = fat_entry img off (cs ! i) kind) \<and>
    (cs = [] \<longleftrightarrow> start < 2 \<or> fat_eof kind \<le> start) \<and>
    (cs \<noteq> [] \<longrightarrow> hd cs = start \<and>
      (let n = fat_entry img off (last cs) kind in n < 2 \<or> fat_eof kind \<le> n \<or> n \<in> set cs))"
proof -
  let ?cs = "fat_chain img off start kind"
  have s: "distinct ?cs \<and> (\<forall>c \<in> set ?cs. usable kind c) \<and> linked img off kind ?cs \<and>
    (?cs = [] \<longrightarrow> \<not> usable kind start) \<and>
    (?cs \<noteq> [] \<longrightarrow> hd ?cs = start \<and> (let n = fat_entry img off (last ?cs) kind in \<not> usable kind n \<or> n \<in> set ?cs))"
  proof (cases "start < 2")
    case False
    have "linked img off kind []" by (simp add: linked_def)
    with chain_loop_sound [of "[]" kind img off start start] False show ?thesis by (simp add: fat_chain_def Let_def)
  qed (simp add: fat_chain_def linked_def)
  have "card (set ?cs) \<le> card {2..<fat_eof kind}" by (rule card_mono) (use s in auto)
  then have len: "length ?cs \<le> fat_eof kind - 2" using s by (simp add: distinct_card)
  have "0 < fat_eof kind" by (cases kind) (simp_all add: fat_eof_def)
  moreover have "?cs = [] \<longleftrightarrow> \<not> usable kind start" using s by (metis hd_in_set)
  ultimately show ?thesis using s len by (auto simp add: linked_def Let_def not_le not_less)
qed

lemma fat_chain_sound_witness:
  "distinct (fat_chain (encode_table FAT16 [0, 0, 3, 2]) 0 2 FAT16) \<and>
   length (fat_chain (encode_table FAT16 [0, 0, 3, 2]) 0 2 FAT16) < 0xFFF8"
  using fat_chain_sound [of "encode_table FAT16 [0, 0, 3, 2]" 0 2 FAT16] by (simp add: Let_def fat_eof_def)

lemma chain_loop_follows:
  assumes "distinct (chain @ cs)" "\<forall>c \<in> set cs. usable kind c" "linked img off kind cs" "cs \<noteq> []"
    "\<not> usable kind (fat_entry img off (last cs) kind)"
  shows "fat_chain_loop img off kind (hd cs) chain = chain @ cs"
  using assms
proof (induction cs arbitrary: chain)
  case (Cons c cs)
  have step: "fat_chain_loop img off kind c chain =
      fat_chain_loop img off kind (fat_entry img off c kind) (chain @ [c])"
    using Cons.prems by (subst fat_chain_loop.simps) simp
  show ?case
  proof (cases cs)
    case Nil
    with step Cons.prems show ?thesis by (subst (asm) (2) fat_chain_loop.simps) auto
  next
    case (Cons d ds)
    then have "fat_entry img off c kind = hd cs"
      using Cons.prems(3) by (fastforce simp: linked_def)
    moreover have "linked img off kind cs"
      using Cons.prems(3) unfolding linked_def by (metis Suc_less_eq length_Cons nth_Cons_Suc)
    ultimately have "fat_entry img off c kind = hd cs" "linked img off kind cs" .
    with Cons.IH [of "chain @ [c]"] Cons.prems step Cons show ?thesis by simp
  qed
qed simp

text \<open>
  C17. A file is read back whole: when the table holds the chain of its clusters (each entry the
  number of the next, the last an end mark), the reader returns the concatenation of exactly these
  clusters' bytes, in order. The abstract view is the list of clusters a file owns; the reader only
  sees the packed table.
\<close>

theorem fat_file_read_back:
  assumes img: "ff_image fs = before @ encode_table (ff_kind fs) xs @ post" "ff_fat_offset fs = length before"
    and xs: "\<forall>x \<in> set xs. x < entry_limit (ff_kind fs)"
    and cs: "cs \<noteq> []" "distinct cs" "\<forall>c \<in> set cs. 2 \<le> c \<and> c < fat_eof (ff_kind fs) \<and> c < length xs"
    and link: "\<forall>i. Suc i < length cs \<longrightarrow> xs ! (cs ! i) = cs ! Suc i"
    and stop: "fat_eof (ff_kind fs) \<le> xs ! last cs"
  shows "fat_read_chain fs (hd cs) = concat (map (fat_cluster_bytes fs) cs)"
proof -
  have entry: "fat_entry (ff_image fs) (ff_fat_offset fs) c (ff_kind fs) = xs ! c" if "c \<in> set cs" for c
    unfolding img by (rule fat_table_entry) (use that cs(3) xs in auto)
  have "linked (ff_image fs) (ff_fat_offset fs) (ff_kind fs) cs"
    unfolding linked_def using link entry by (metis Suc_lessD nth_mem)
  moreover have "\<not> usable (ff_kind fs) (fat_entry (ff_image fs) (ff_fat_offset fs) (last cs) (ff_kind fs))"
    using entry [OF last_in_set [OF cs(1)]] stop by simp
  ultimately have "fat_chain_loop (ff_image fs) (ff_fat_offset fs) (ff_kind fs) (hd cs) [] = cs"
    using chain_loop_follows [of "[]" cs "ff_kind fs"] cs by simp
  moreover have "2 \<le> hd cs" using cs by auto
  ultimately show ?thesis by (simp add: fat_read_chain_def fat_chain_def)
qed

lemma fat_file_read_back_witness:
  "fat_read_chain \<lparr>ff_image = encode_table FAT12 [0xFF8, 0xFFF, 4, 0xFFF, 3] @ [7, 8, 9], ff_kind = FAT12,
     ff_fat_offset = 0, ff_bytes_per_sector = 1, ff_sectors_per_cluster = 1, ff_first_data_sector = 8\<rparr> 2 = [7, 9, 8]"
proof -
  let ?fs = "\<lparr>ff_image = encode_table FAT12 [0xFF8, 0xFFF, 4, 0xFFF, 3] @ [7, 8, 9], ff_kind = FAT12,
     ff_fat_offset = 0, ff_bytes_per_sector = 1, ff_sectors_per_cluster = 1, ff_first_data_sector = 8\<rparr>"
  have "\<forall>i. Suc i < length [2, 4, 3 :: nat] \<longrightarrow> [0xFF8, 0xFFF, 4, 0xFFF, 3 :: nat] ! ([2, 4, 3] ! i) = [2, 4, 3] ! Suc i"
    by (auto simp: less_Suc_eq)
  then have "fat_read_chain ?fs (hd [2, 4, 3]) = concat (map (fat_cluster_bytes ?fs) [2, 4, 3])"
    by (intro fat_file_read_back [of ?fs "[]" "[0xFF8, 0xFFF, 4, 0xFFF, 3]" "[7, 8, 9]" "[2, 4, 3]"])
      (auto simp: entry_limit_def fat_eof_def)
  moreover have "concat (map (fat_cluster_bytes ?fs) [2, 4, 3]) = [7, 9, 8]"
    by (simp add: fat_cluster_bytes_def byte_slice_def encode_table_def to_le_numeral Let_def)
  ultimately show ?thesis by (simp only: list.sel)
qed

section \<open>The walk and the difference\<close>

text \<open>The depth only decides whether a tree is read: what is read does not depend on it.\<close>

lemma walk_depth_irrelevant:
  "walk_entries digest fs depth path lfn entries files = Inr files' \<Longrightarrow> depth \<le> depth' \<Longrightarrow>
   walk_entries digest fs depth' path lfn entries files = Inr files'"
proof (induction digest fs depth path lfn entries files arbitrary: depth' files' rule: walk_entries.induct)
  case (2 digest fs depth path lfn entry entries files)
  show ?case
  proof (cases "entry_step (ff_kind fs) lfn entry")
    case (SubDirectory name cluster)
    with "2.prems"(1) obtain d files1 where d: "depth = Suc d"
      and sub: "walk_entries digest fs d (join_path path name) [] (dir_entries (fat_read_chain fs cluster)) files = Inr files1"
      and rest: "walk_entries digest fs depth path [] entries files1 = Inr files'"
      by (auto simp: bind_eq_Inr split: nat.splits)
    obtain d' where d': "depth' = Suc d'" "d \<le> d'" using d "2.prems"(2) by (cases depth') auto
    from "2.IH"(2) [OF SubDirectory d sub d'(2)] "2.IH"(3) [OF SubDirectory d sub rest "2.prems"(2)] d' SubDirectory
    show ?thesis by simp
  next
    case (NextEntry lfn')
    with "2.prems"(1) have "walk_entries digest fs depth path lfn' entries files = Inr files'" by simp
    from "2.IH"(1) [OF NextEntry this "2.prems"(2)] NextEntry show ?thesis by simp
  next
    case (FileEntry name cluster sz)
    let ?files = "files @ [\<lparr>fl_path = join_path path name, fl_size = sz,
        fl_sha256 = digest (take sz (fat_read_chain fs cluster))\<rparr>]"
    from FileEntry "2.prems"(1) have "walk_entries digest fs depth path [] entries ?files = Inr files'" by simp
    from "2.IH"(4) [OF FileEntry this "2.prems"(2)] FileEntry show ?thesis by simp
  qed (use "2.prems" in simp)
qed simp

lemma unique_match:
  "x \<in> S \<Longrightarrow> p x = k \<Longrightarrow> (\<And>y. y \<in> S \<Longrightarrow> p y = k \<Longrightarrow> y = x) \<Longrightarrow> (\<exists>y \<in> S. p y = k \<and> Q y) \<longleftrightarrow> Q x"
  by blast

lemma dict_of_files:
  "distinct (map fl_path fs) \<Longrightarrow>
   dict_get p (fold (\<lambda>f. dict_set (fl_path f) f) fs []) = Some f \<longleftrightarrow> f \<in> set fs \<and> fl_path f = p"
  by (induction fs rule: rev_induct) (auto simp: image_iff)

text \<open>
  The state reported for a run is what it changed: when both images could be read, the files
  reported are exactly those of the image after the run that are not in the image before it with
  the same path, size and digest, sorted by path. When the image after the run could not be read,
  the report carries the error and no file.
\<close>

theorem external_state_diff:
  fixes before_run after_run :: "byte list res" and digest :: "byte list \<Rightarrow> 'h"
  assumes "b = sample_fat_external_state digest depth before_run" "a = sample_fat_external_state digest depth after_run"
    and "fa_read_error b = None"
    and "distinct (map fl_path (fa_files b))"
  shows "(fa_read_error a = None \<longrightarrow>
      set (fa_files (diff_external_state b a)) =
        {f \<in> set (fa_files a). \<not> (\<exists>old \<in> set (fa_files b).
           fl_path old = fl_path f \<and> fl_size old = fl_size f \<and> fl_sha256 old = fl_sha256 f)} \<and>
      sorted (map fl_path (fa_files (diff_external_state b a)))) \<and>
    (fa_read_error a \<noteq> None \<longrightarrow>
      diff_external_state b a = \<lparr>fa_files = [], fa_read_error = fa_read_error a\<rparr>)"
proof -
  let ?b = b and ?a = a
  let ?base = "fold (\<lambda>f. dict_set (fl_path f) f) (fa_files ?b) []"
  have changed: "file_changed ?base f \<longleftrightarrow> \<not> (\<exists>b \<in> set (fa_files ?b).
      fl_path b = fl_path f \<and> fl_size b = fl_size f \<and> fl_sha256 b = fl_sha256 f)" for f
  proof (cases "dict_get (fl_path f) ?base")
    case None
    then have "\<not> (\<exists>b \<in> set (fa_files ?b). fl_path b = fl_path f)"
      using dict_of_files [OF assms(4), of "fl_path f"] by auto
    with None show ?thesis by (auto simp: file_changed_def)
  next
    case (Some old)
    with dict_of_files [OF assms(4), of "fl_path f"] have b: "old \<in> set (fa_files ?b)" "fl_path old = fl_path f" by auto
    have "b' = old" if "b' \<in> set (fa_files ?b)" "fl_path b' = fl_path f" for b'
    proof -
      have "dict_get (fl_path f) ?base = Some b'" unfolding dict_of_files [OF assms(4)] using that by simp
      with Some show ?thesis by simp
    qed
    from unique_match [of old "set (fa_files b)" fl_path "fl_path f"
        "\<lambda>x. fl_size x = fl_size f \<and> fl_sha256 x = fl_sha256 f", OF b this] Some
    show ?thesis by (simp only: file_changed_def option.case simp_thms de_Morgan_conj disj_commute)
  qed
  have "fa_read_error a \<noteq> None \<Longrightarrow> fa_files a = []"
    by (auto simp: assms(2) sample_fat_external_state_def split: sum.splits)
  moreover have "fa_files a = [] \<Longrightarrow> a = \<lparr>fa_files = [], fa_read_error = fa_read_error a\<rparr>"
    by (cases a) (simp only: fat_state.select_convs)
  moreover have "fa_read_error a \<noteq> None \<Longrightarrow> diff_external_state b a = a"
    by (simp only: diff_external_state_def if_True simp_thms)
  ultimately have "fa_read_error a \<noteq> None \<Longrightarrow> diff_external_state b a = \<lparr>fa_files = [], fa_read_error = fa_read_error a\<rparr>"
    by metis
  moreover have "fa_read_error a = None \<Longrightarrow> diff_external_state b a =
      \<lparr>fa_files = sort_key fl_path (filter (file_changed ?base) (fa_files a)), fa_read_error = None\<rparr>"
    using assms(3) by (simp add: diff_external_state_def)
  ultimately show ?thesis using changed by simp
qed

definition demo_image :: "byte list" where
  "demo_image = replicate 11 0 @ to_le 2 32 @ [1] @ to_le 2 2 @ [0] @ to_le 2 1 @ to_le 2 8 @ replicate 43 0 @
     [0x41, 32, 32, 32, 32, 32, 32, 32, 32, 32, 32, 0x20] @ replicate 20 0"

lemma from_le_zero [simp]: "from_le (replicate n 0) = 0"
  by (induction n) simp_all

lemma demo_geometry: "fat_geometry demo_image = Inr (\<lparr>ff_image = demo_image, ff_kind = FAT12, ff_fat_offset = 64,
    ff_bytes_per_sector = 32, ff_sectors_per_cluster = 1, ff_first_data_sector = 3\<rparr>, 2, 1)"
  by (simp add: fat_geometry_def demo_image_def to_le_numeral fat_type_def fat_u16_def fat_u32_def byte_slice_def
      Let_def nth_append)

lemma demo_sample:
  "sample_fat_external_state id 9 (Inr demo_image) =
     \<lparr>fa_files = [\<lparr>fl_path = [0x41], fl_size = 0, fl_sha256 = []\<rparr>], fa_read_error = None\<rparr>"
proof -
  let ?fs = "\<lparr>ff_image = demo_image, ff_kind = FAT12, ff_fat_offset = 64,
    ff_bytes_per_sector = 32, ff_sectors_per_cluster = 1, ff_first_data_sector = 3\<rparr>"
  have "dir_entries (root_directory ?fs 2 1) = [[0x41, 32, 32, 32, 32, 32, 32, 32, 32, 32, 32, 0x20] @ replicate 20 0]"
    by (simp add: dir_entries_def root_directory_def demo_image_def byte_slice_def to_le_numeral)
  then show ?thesis
    by (simp add: sample_fat_external_state_def demo_geometry entry_step_def entry_name_def fat_short_name_def
        ascii_field_def byte_slice_def fat_u32_def fat_u16_def entry_cluster_def join_path_def fat_read_chain_def Let_def)
qed

lemma none_new: "{f \<in> S. \<not> (\<exists>old \<in> S. fl_path old = fl_path f \<and> fl_size old = fl_size f \<and> fl_sha256 old = fl_sha256 f)} = {}"
  by blast

lemma external_state_diff_witness:
  "set (fa_files (diff_external_state (sample_fat_external_state id 9 (Inr demo_image))
     (sample_fat_external_state id 9 (Inr demo_image)))) = {}"
proof -
  let ?s = "sample_fat_external_state id 9 (Inr demo_image)"
  have ok: "fa_read_error ?s = None" "distinct (map fl_path (fa_files ?s))" by (simp_all add: demo_sample)
  from external_state_diff [OF refl refl ok, THEN conjunct1, rule_format, OF ok(1), THEN conjunct1]
  show ?thesis unfolding none_new .
qed

end
