(* ===== verification/Instrument.thy ===== *)
theory Instrument
  imports PyValue Constants
begin

text \<open>
  The build step, \<open>tools/prog2c_wrap.py\<close>: the instrumentation of a generated C program (every raw
  \<open>syscall(..);\<close> becomes \<open>traced_syscall(..);\<close>), the compiler settings of a side, the cache of
  build results and the build of one program. Source text is ASCII. The compiler, \<open>syz-prog2c\<close>,
  \<open>git\<close> and the files are the environment.
\<close>

section \<open>Arguments and names\<close>

text \<open>The loop of \<open>split_args\<close>: the characters collected, the depth (an int, it may go below zero).\<close>

fun split_args_loop :: "string \<Rightarrow> int \<Rightarrow> string \<Rightarrow> string list" where
  "split_args_loop cur depth [] = (if cur \<noteq> [] then [strip cur] else [])"
| "split_args_loop cur depth (c # s) =
     (if c = CHR '','' \<and> depth = 0 then strip cur # split_args_loop [] depth s
      else split_args_loop (cur @ [c])
        (if c \<in> set ''([{'' then depth + 1 else if c \<in> set '')]}'' then depth - 1 else depth) s)"

definition split_args :: "string \<Rightarrow> string list" where
  "split_args body = split_args_loop [] 0 body"

definition nr_syscall_name :: "string \<Rightarrow> string" where
  "nr_syscall_name nr_expr =
     (if startswith nr_expr ''__NR_'' then drop 5 nr_expr
      else if startswith nr_expr ''SYS_'' then drop 4 nr_expr else nr_expr)"

definition last_include :: "string list \<Rightarrow> nat" where
  "last_include lines = fold (\<lambda>(i, line) spot. if startswith line ''#include'' then Suc i else spot)
     (enumerate 0 lines) 0"

definition inject_header :: "string \<Rightarrow> string" where
  "inject_header source =
     (let lines = splitlines source; spot = last_include lines
      in join newline (take spot lines @ [''#include '' @ [CHR 0x22] @ ''trace.h'' @ [CHR 0x22]] @ drop spot lines) @ newline)"

section \<open>Finding the calls\<close>

definition word_char :: "char \<Rightarrow> bool" where
  "word_char c = (let n = of_char c :: nat in
     48 \<le> n \<and> n \<le> 57 \<or> 65 \<le> n \<and> n \<le> 90 \<or> 97 \<le> n \<and> n \<le> 122 \<or> n = 95)"

text \<open>The characters the inner loop consumes to close \<open>depth\<close> parentheses.\<close>

fun skip_parens :: "nat \<Rightarrow> string \<Rightarrow> nat" where
  "skip_parens depth [] = 0"
| "skip_parens depth (c # s) =
     (if depth = 0 then 0
      else Suc (skip_parens (if c = CHR ''('' then Suc depth else if c = CHR '')'' then depth - 1 else depth) s))"

record call_site =
  cs_start :: nat
  cs_end :: nat
  cs_prefix :: string
  cs_body :: string

definition line_prefix :: "string \<Rightarrow> nat \<Rightarrow> string" where
  "line_prefix source start = rev (takeWhile (\<lambda>c. c \<noteq> CHR 0x0A) (rev (take start source)))"

definition call_close :: "string \<Rightarrow> nat \<Rightarrow> nat" where
  "call_close source start = start + 8 + skip_parens 1 (drop (start + 8) source)"

definition after_blanks :: "string \<Rightarrow> nat \<Rightarrow> nat" where
  "after_blanks source j = j + length (takeWhile (\<lambda>c. c = CHR '' '' \<or> c = CHR 0x09 \<or> c = CHR 0x0A) (drop j source))"

definition site_at :: "string \<Rightarrow> nat \<Rightarrow> call_site option" where
  "site_at source start =
     (let j = call_close source start; k = after_blanks source j
      in if k < length source \<and> source ! k = CHR '';''
         then Some \<lparr>cs_start = start, cs_end = Suc k, cs_prefix = line_prefix source start,
                cs_body = take (j - 1 - (start + 8)) (drop (start + 8) source)\<rparr>
         else None)"

lemma find_from_range: "find_from s ''syscall('' i = Some k \<Longrightarrow> i \<le> k \<and> k + 8 \<le> length s"
proof -
  assume a: "find_from s ''syscall('' i = Some k"
  then have "i \<le> length s" and f: "find_at i (drop i s) ''syscall('' = Some k"
    by (auto simp: find_from_def split: if_splits)
  from find_at_Some [OF f] have "i \<le> k" "startswith (drop (k - i) (drop i s)) ''syscall(''" by auto
  then have st: "startswith (drop k s) ''syscall(''" by simp
  then obtain r where "drop k s = ''syscall('' @ r" by (auto simp: startswith_iff)
  then have "length (drop k s) = 8 + length r" by simp
  with \<open>i \<le> k\<close> show ?thesis by simp
qed

lemma close_bounds: "start + 8 \<le> call_close source start"
  by (simp add: call_close_def)

function call_sites :: "string \<Rightarrow> nat \<Rightarrow> call_site list" where
  "call_sites source i =
     (if i < length source then
        (case find_from source ''syscall('' i of None \<Rightarrow> []
         | Some start \<Rightarrow>
             if start > 0 \<and> word_char (source ! (start - 1)) then call_sites source (Suc start)
             else (case site_at source start of
                 Some c \<Rightarrow> c # call_sites source (cs_end c)
               | None \<Rightarrow> call_sites source (call_close source start)))
      else [])"
  by pat_completeness auto
termination
proof (relation "measure (\<lambda>(source, i). length source - i)")
  fix source :: string and i start c
  assume "i < length source" and f: "find_from source ''syscall('' i = Some start"
  note r = find_from_range [OF f]
  show "((source, Suc start), source, i) \<in> measure (\<lambda>(source, i). length source - i)" using r by auto
  show "((source, call_close source start), source, i) \<in> measure (\<lambda>(source, i). length source - i)"
    using r close_bounds [of start source] by auto
  assume "site_at source start = Some c"
  then have "start + 8 \<le> cs_end c"
    using close_bounds [of start source] by (auto simp: site_at_def after_blanks_def Let_def split: if_splits)
  then show "((source, cs_end c), source, i) \<in> measure (\<lambda>(source, i). length source - i)" using r by auto
qed auto

declare call_sites.simps [simp del]

section \<open>Rewriting\<close>

definition traced_call :: "nat \<Rightarrow> string list \<Rightarrow> string res" where
  "traced_call idx args = (case args of
       [] \<Rightarrow> Inl IndexError
     | nr # rest \<Rightarrow>
         let call_args = rest @ replicate (6 - length rest) ''0'' in
         if length call_args > 6
         then Inl (ValueError (''unexpected syscall arity for '' @ nr @ '': '' @ nat_str (length call_args)))
         else Inr (''traced_syscall('' @ [CHR 0x22] @ nr_syscall_name nr @ [CHR 0x22] @ '', '' @ nr @ '', '' @ nat_str idx @ '', '' @
           join '', '' call_args @ '');''))"

fun rewrite_calls :: "string \<Rightarrow> nat \<Rightarrow> nat \<Rightarrow> call_site list \<Rightarrow> string res" where
  "rewrite_calls source last_end idx [] = Inr (drop last_end source)"
| "rewrite_calls source last_end idx (c # cs) =
     bind (traced_call idx (split_args (cs_body c))) (\<lambda>traced.
     bind (rewrite_calls source (cs_end c) (Suc idx) cs) (\<lambda>rest.
     Inr (take (cs_start c - last_end) (drop last_end source) @ cs_prefix c @ traced @ rest)))"

text \<open>A match of \<open>\bsyscall\s*\(\<close>; the flag tells whether a word character precedes.\<close>

fun raw_syscall_in :: "bool \<Rightarrow> string \<Rightarrow> bool" where
  "raw_syscall_in w [] = False"
| "raw_syscall_in w (c # s) =
     (\<not> w \<and> startswith (c # s) ''syscall'' \<and> startswith (dropWhile py_space (drop 7 (c # s))) ''(''
      \<or> raw_syscall_in (word_char c) s)"

definition instrument_source :: "string \<Rightarrow> (string \<times> nat) res" where
  "instrument_source original =
     (let source = inject_header original; calls = call_sites source 0 in
      bind (rewrite_calls source 0 0 calls) (\<lambda>instrumented.
      bind (require (\<not> raw_syscall_in False instrumented)
        (ValueError ''raw syscall invocation remains after instrumentation'')) (\<lambda>_.
      Inr (instrumented, length calls))))"

section \<open>Arguments read back\<close>

text \<open>An argument whose commas are all inside brackets, which are balanced.\<close>

fun flat_arg :: "int \<Rightarrow> string \<Rightarrow> bool" where
  "flat_arg depth [] \<longleftrightarrow> depth = 0"
| "flat_arg depth (c # s) \<longleftrightarrow> \<not> (c = CHR '','' \<and> depth = 0) \<and>
     flat_arg (if c \<in> set ''([{'' then depth + 1 else if c \<in> set '')]}'' then depth - 1 else depth) s"

lemma split_loop_arg:
  "flat_arg depth a \<Longrightarrow> split_args_loop cur depth (a @ CHR '','' # s) = strip (cur @ a) # split_args_loop [] 0 s"
  by (induction cur depth a rule: split_args_loop.induct) auto

lemma split_loop_last:
  "flat_arg depth a \<Longrightarrow> split_args_loop cur depth a = (if cur @ a \<noteq> [] then [strip (cur @ a)] else [])"
  by (induction cur depth a rule: split_args_loop.induct) auto

lemma strip_blank: "strip (CHR '' '' # a) = strip a"
  by (simp add: strip_def lstrip_def py_space_def)

lemma split_loop_join:
  assumes "\<forall>a \<in> set args. flat_arg 0 a" "args \<noteq> []"
  shows "split_args_loop [CHR '' ''] 0 (join '', '' args) = map strip args"
  using assms
proof (induction args rule: induct_list012)
  case (2 a)
  then show ?case by (simp add: split_loop_last strip_blank)
next
  case (3 a b args)
  from "3.IH"(2) "3.prems" have "split_args_loop [CHR '' ''] 0 (join '', '' (b # args)) = map strip (b # args)" by simp
  moreover have "split_args_loop [CHR '' ''] 0 (a @ CHR '','' # (CHR '' '' # join '', '' (b # args))) =
      strip (CHR '' '' # a) # split_args_loop [] 0 (CHR '' '' # join '', '' (b # args))"
    using split_loop_arg [of 0 a "[CHR '' '']"] "3.prems" by simp
  ultimately show ?case by (simp add: strip_blank)
qed simp

lemma split_joined:
  assumes "\<forall>a \<in> set args. flat_arg 0 a \<and> strip a = a" "args \<noteq> [[]]"
  shows "split_args (join '', '' args) = args"
proof -
  consider "args = []" | a where "args = [a]" | a b rest where "args = a # b # rest"
    by (metis list.exhaust)
  then show ?thesis
  proof cases
  case 1
  then show ?thesis by (simp add: split_args_def)
next
  case (2 a)
  with assms show ?thesis by (simp add: split_args_def split_loop_last)
next
  case (3 a b rest)
  have "split_args_loop [] 0 (a @ CHR '','' # (CHR '' '' # join '', '' (b # rest))) =
      a # split_args_loop [CHR '' ''] 0 (join '', '' (b # rest))"
    using split_loop_arg [of 0 a "[]"] assms(1) 3 by simp
  also have "split_args_loop [CHR '' ''] 0 (join '', '' (b # rest)) = map strip (b # rest)"
    by (rule split_loop_join) (use assms(1) 3 in simp_all)
  also have "map strip (b # rest) = b # rest" using assms(1) 3 by (intro map_idI) auto
  finally show ?thesis using 3 by (simp add: split_args_def)
  qed
qed

text \<open>
  C30. Splitting the arguments of a call gives back the arguments that were joined, whatever commas
  they have inside brackets: for stripped arguments with balanced brackets and no comma outside
  them, \<open>split_args\<close> of the text joined with \<open>", "\<close> is the list itself (a single empty argument is
  no argument).
\<close>

theorem split_args_roundtrip:
  assumes "\<forall>a \<in> set args. flat_arg 0 a \<and> strip a = a" "args \<noteq> [[]]"
  shows "split_args (join '', '' args) = args"
  using assms by (rule split_joined)

lemma split_args_roundtrip_witness:
  "split_args (join '', '' [''__NR_openat'', ''f(a, b)'', ''0x20000000ul'']) = [''__NR_openat'', ''f(a, b)'', ''0x20000000ul'']"
  by (rule split_args_roundtrip) code_simp+

section \<open>What the instrumentation does\<close>

fun sites_from :: "string \<Rightarrow> nat \<Rightarrow> call_site list \<Rightarrow> bool" where
  "sites_from source i [] \<longleftrightarrow> True"
| "sites_from source i (c # cs) \<longleftrightarrow>
     i \<le> cs_start c \<and> cs_start c + 8 < cs_end c \<and> cs_end c \<le> length source \<and>
     startswith (drop (cs_start c) source) ''syscall('' \<and>
     (cs_start c > 0 \<longrightarrow> \<not> word_char (source ! (cs_start c - 1))) \<and> source ! (cs_end c - 1) = CHR '';'' \<and>
     cs_prefix c = line_prefix source (cs_start c) \<and> sites_from source (cs_end c) cs"

lemma sites_from_mono: "sites_from source j cs \<Longrightarrow> i \<le> j \<Longrightarrow> sites_from source i cs"
  by (cases cs) auto

lemma site_at_spec:
  assumes "site_at source start = Some c"
  shows "cs_start c = start \<and> start + 8 < cs_end c \<and> cs_end c \<le> length source \<and>
    source ! (cs_end c - 1) = CHR '';'' \<and> cs_prefix c = line_prefix source start"
  using assms close_bounds [of start source]
  by (auto simp: site_at_def after_blanks_def Let_def split: if_splits)

lemma call_sites_ok: "sites_from source i (call_sites source i)"
proof (induction source i rule: call_sites.induct)
  case (1 source i)
  show ?case
  proof (cases "i < length source")
    case True
    show ?thesis
    proof (cases "find_from source ''syscall('' i")
      case (Some start)
      note r = find_from_range [OF Some]
      have st: "startswith (drop start source) ''syscall(''"
        using Some find_at_Some [of i "drop i source" "''syscall(''" start] r by (auto simp: find_from_def)
      show ?thesis
      proof (cases "start > 0 \<and> word_char (source ! (start - 1))")
        case word: True
        have eq: "call_sites source i = call_sites source (Suc start)"
          by (subst call_sites.simps) (use True Some word in simp)
        show ?thesis unfolding eq by (rule sites_from_mono [OF "1.IH"(1) [OF True Some word]]) (use r in simp)
      next
        case word: False
        show ?thesis
        proof (cases "site_at source start")
          case None
          have eq: "call_sites source i = call_sites source (call_close source start)"
            by (subst call_sites.simps) (use True Some word None in \<open>simp only: if_True if_False option.case\<close>)
          show ?thesis unfolding eq
            by (rule sites_from_mono [OF "1.IH"(2) [OF True Some word None]]) (use r close_bounds [of start source] in simp)
        next
          case site: (Some c)
          have eq: "call_sites source i = c # call_sites source (cs_end c)"
            by (subst call_sites.simps) (use True Some word site in \<open>simp only: if_True if_False option.case\<close>)
          from "1.IH"(3) [OF True Some word site] site_at_spec [OF site] r st word show ?thesis
            unfolding eq by auto
        qed
      qed
    qed (use True in \<open>simp add: call_sites.simps\<close>)
  qed (simp add: call_sites.simps)
qed

section \<open>A generated program\<close>

text \<open>
  A C program as \<open>syz-prog2c\<close> prints it, seen from outside the wrapper: its calls, each with the text
  above its line, the start of its line (an assignment, or blanks), the name of its number and its
  arguments; then the rest of the program.
\<close>

record c_call =
  cl_above :: string
  cl_line :: string
  cl_macro :: string
  cl_name :: string
  cl_args :: "string list"
  cl_blanks :: string

definition call_text :: "c_call \<Rightarrow> string" where
  "call_text c = ''syscall('' @ join '', '' ((cl_macro c @ cl_name c) # cl_args c) @ '')'' @ cl_blanks c @ '';''"

fun c_text :: "c_call list \<Rightarrow> string \<Rightarrow> string" where
  "c_text [] rest = rest"
| "c_text (c # cs) rest = cl_above c @ cl_line c @ call_text c @ c_text cs rest"

text \<open>What becomes of it: numbered calls of the tracer, with six arguments each.\<close>

fun c_traced :: "nat \<Rightarrow> c_call list \<Rightarrow> string \<Rightarrow> string" where
  "c_traced i [] rest = rest"
| "c_traced i (c # cs) rest = cl_above c @ cl_line c @ cl_line c @
     ''traced_syscall('' @ [CHR 0x22] @ cl_name c @ [CHR 0x22] @ '', '' @ cl_macro c @ cl_name c @ '', '' @ nat_str i @
     concat (map (\<lambda>a. '', '' @ a) (take 6 (cl_args c @ replicate 6 ''0''))) @ '');'' @ c_traced (Suc i) cs rest"

fun closed :: "nat \<Rightarrow> string \<Rightarrow> bool" where
  "closed depth [] \<longleftrightarrow> depth = 0"
| "closed depth (c # s) \<longleftrightarrow> (if c = CHR ''('' then closed (Suc depth) s
     else if c = CHR '')'' then 0 < depth \<and> closed (depth - 1) s else closed depth s)"

text \<open>A call alone on its line, with at most six arguments, whose brackets are balanced.\<close>

definition call_ok :: "c_call \<Rightarrow> bool" where
  "call_ok c \<longleftrightarrow> cl_above c \<noteq> [] \<and> last (cl_above c) = CHR 0x0A \<and> CHR 0x0A \<notin> set (cl_line c) \<and>
     (cl_line c = [] \<or> \<not> word_char (last (cl_line c))) \<and> \<not> contains (cl_above c @ cl_line c) ''syscall('' \<and>
     cl_macro c \<in> set [''__NR_'', ''SYS_''] \<and> length (cl_args c) \<le> 6 \<and>
     list_all (\<lambda>a. flat_arg 0 a \<and> strip a = a \<and> closed 0 a) ((cl_macro c @ cl_name c) # cl_args c) \<and>
     list_all (\<lambda>c. c \<in> set [CHR '' '', CHR 0x09, CHR 0x0A]) (cl_blanks c)"

definition unlines :: "string list \<Rightarrow> string" where
  "unlines ls = concat (map (\<lambda>l. l @ newline) ls)"

section \<open>The header\<close>

lemma lines_of_unlines:
  assumes "list_all (list_all (\<lambda>c. \<not> line_end c)) ls"
  shows "splitlines (unlines ls) = ls"
  using assms by (induction ls) (simp_all add: splitlines_def unlines_def splitlines_acc_line)

lemma join_unlines: "ls \<noteq> [] \<Longrightarrow> join newline ls @ newline = unlines ls"
  by (induction ls rule: induct_list012) (simp_all add: unlines_def)

lemma last_include_before:
  assumes "\<forall>l \<in> set ls. \<not> startswith l ''#include''"
  shows "fold (\<lambda>(i, line) spot. if startswith line ''#include'' then Suc i else spot) (enumerate n ls) k = k"
  using assms by (induction ls arbitrary: n) simp_all

lemma last_include_at:
  assumes "startswith inc ''#include''" "\<forall>l \<in> set lines. \<not> startswith l ''#include''"
  shows "last_include (hdr @ inc # lines) = Suc (length hdr)"
  using assms last_include_before [OF assms(2)] by (simp add: last_include_def enumerate_append_eq)

lemma inject_header_lines:
  assumes "list_all (list_all (\<lambda>c. \<not> line_end c)) (hdr @ inc # lines)" "startswith inc ''#include''"
    "\<forall>l \<in> set lines. \<not> startswith l ''#include''"
  shows "inject_header (unlines (hdr @ inc # lines)) =
    unlines (hdr @ inc # (''#include '' @ [CHR 0x22] @ ''trace.h'' @ [CHR 0x22]) # lines)"
  unfolding inject_header_def Let_def lines_of_unlines [OF assms(1)] last_include_at [OF assms(2,3)]
  by (subst join_unlines) simp_all

section \<open>The calls are found and rewritten\<close>

lemma skip_closed: "closed d s \<Longrightarrow> skip_parens (Suc d) (s @ CHR '')'' # t) = Suc (length s)"
proof (induction d s rule: closed.induct)
  case (1 d)
  then show ?case by (cases t) simp_all
next
  case (2 d c s)
  then show ?case by (cases "c = CHR '')''") (auto split: if_splits)
qed

lemma closed_append: "closed d a \<Longrightarrow> closed 0 b \<Longrightarrow> closed d (a @ b)"
  by (induction d a rule: closed.induct) (auto split: if_splits)

lemma closed_join: "list_all (closed 0) ws \<Longrightarrow> closed 0 (join '', '' ws)"
proof (induction ws rule: induct_list012)
  case (3 a b ws)
  then have "closed 0 ('', '' @ join '', '' (b # ws))" by simp
  from closed_append [OF _ this, of 0 a] "3.prems" show ?case by simp
qed simp_all

lemma first_occurrence:
  assumes "\<not> contains t ''syscall(''"
  shows "find_at i (t @ ''syscall('' @ r) ''syscall('' = Some (i + length t)"
  using assms
proof (induction t arbitrary: i)
  case (Cons c t)
  have "\<not> contains t ''syscall(''" using Cons.prems unfolding contains_iff by (metis append_Cons)
  note IH = Cons.IH [OF this, of "Suc i"]
  have starts: "startswith s ''syscall('' \<longleftrightarrow> take 8 s = ''syscall(''" for s by (subst startswith_take) (simp add: eval_nat_numeral)
  have "\<not> startswith ((c # t) @ ''syscall('' @ r) ''syscall(''"
  proof
    assume "startswith ((c # t) @ ''syscall('' @ r) ''syscall(''"
    then have eq: "take 8 ((c # t) @ ''syscall('' @ r) = ''syscall(''" unfolding starts .
    show False
    proof (cases "8 \<le> length (c # t)")
      case True
      with eq have "startswith (c # t) ''syscall(''" unfolding starts by (simp only: take_append diff_is_0_eq [THEN iffD2] take_0 append_Nil2)
      with Cons.prems show False by (simp add: contains_def)
    next
      case False
      then consider "length t = 0" | "length t = 1" | "length t = 2" | "length t = 3" | "length t = 4" | "length t = 5" | "length t = 6"
        by (simp only: list.size) arith
      then show False by cases (use eq in \<open>auto simp: length_Suc_conv eval_nat_numeral\<close>)
    qed
  qed
  with IH show ?case by simp
qed simp

lemma find_call:
  assumes "\<not> contains t ''syscall(''"
  shows "find_from (pre @ t @ ''syscall('' @ r) ''syscall('' (length pre) = Some (length pre + length t)"
  using first_occurrence [OF assms, of "length pre" r] by (simp add: find_from_def)

lemma find_no_call: "\<not> contains t ''syscall('' \<Longrightarrow> find_from (pre @ t) ''syscall('' (length pre) = None"
proof -
  have "find_at i t s = None \<longleftrightarrow> find_at j t s = None" for i j and s :: string
    by (induction t arbitrary: i j) (auto split: if_splits)
  then show "\<not> contains t ''syscall('' \<Longrightarrow> find_from (pre @ t) ''syscall('' (length pre) = None"
    by (simp add: find_from_def contains_def) blast
qed

definition site_of :: "nat \<Rightarrow> c_call \<Rightarrow> call_site" where
  "site_of i c = \<lparr>cs_start = i + length (cl_above c @ cl_line c),
     cs_end = i + length (cl_above c @ cl_line c @ call_text c), cs_prefix = cl_line c,
     cs_body = join '', '' ((cl_macro c @ cl_name c) # cl_args c)\<rparr>"

lemma line_prefix_call:
  assumes "call_ok c"
  shows "line_prefix (pre @ cl_above c @ cl_line c @ r) (length pre + length (cl_above c @ cl_line c)) = cl_line c"
proof -
  obtain a where a: "cl_above c = a @ newline" using assms by (metis append_butlast_last_id call_ok_def)
  have "takeWhile (\<lambda>c. c \<noteq> CHR 0x0A) (rev (cl_line c) @ CHR 0x0A # s) = rev (cl_line c)" for s
    using assms by (subst takeWhile_append2) (auto simp: call_ok_def)
  then show ?thesis by (simp add: line_prefix_def a)
qed

lemma call_site_at:
  assumes "call_ok c"
  shows "site_at (pre @ cl_above c @ cl_line c @ call_text c @ r) (length pre + length (cl_above c @ cl_line c)) = Some (site_of (length pre) c)"
proof -
  let ?body = "join '', '' ((cl_macro c @ cl_name c) # cl_args c)" and ?i = "length pre + length (cl_above c @ cl_line c)"
  let ?s = "pre @ cl_above c @ cl_line c @ call_text c @ r"
  have closed: "closed 0 ?body" using assms by (intro closed_join) (simp add: call_ok_def list_all_iff)
  have d8: "drop (?i + 8) ?s = ?body @ CHR '')'' # cl_blanks c @ CHR '';'' # r"
    by (simp add: call_text_def del: join.simps)
  then have close: "call_close ?s ?i = ?i + 8 + Suc (length ?body)"
    using skip_closed [OF closed] by (simp add: call_close_def)
  have "drop (length p) (p @ q) = q" for p q :: string by simp
  note dropped = this [of "pre @ cl_above c @ cl_line c @ ''syscall('' @ ?body @ '')''" "cl_blanks c @ CHR '';'' # r"]
  have split: "?s = (pre @ cl_above c @ cl_line c @ ''syscall('' @ ?body @ '')'') @ cl_blanks c @ CHR '';'' # r"
    by (simp add: call_text_def del: join.simps)
  have len: "call_close ?s ?i = length (pre @ cl_above c @ cl_line c @ ''syscall('' @ ?body @ '')'')"
    unfolding close by (simp del: join.simps)
  have rest: "drop (call_close ?s ?i) ?s = cl_blanks c @ CHR '';'' # r"
    unfolding len by (subst split) (rule dropped)
  have "takeWhile (\<lambda>c. c = CHR '' '' \<or> c = CHR 0x09 \<or> c = CHR 0x0A) (cl_blanks c @ CHR '';'' # r) = cl_blanks c"
    using assms by (subst takeWhile_append2) (auto simp: call_ok_def list_all_iff)
  then have after: "after_blanks ?s (call_close ?s ?i) = call_close ?s ?i + length (cl_blanks c)"
    unfolding after_blanks_def rest by simp
  have semi: "call_close ?s ?i + length (cl_blanks c) < length ?s" "?s ! (call_close ?s ?i + length (cl_blanks c)) = CHR '';''"
  proof -
    have "drop (j + n) t = drop n (drop j t)" for j n and t :: string by (simp only: drop_drop add.commute)
    then have "drop (call_close ?s ?i + length (cl_blanks c)) ?s = drop (length (cl_blanks c)) (cl_blanks c @ CHR '';'' # r)"
      unfolding rest [symmetric] .
    then have d: "drop (call_close ?s ?i + length (cl_blanks c)) ?s = CHR '';'' # r"
      by (simp only: drop_append drop_all le_refl diff_self_eq_0 drop_0 append_Nil)
    then show "call_close ?s ?i + length (cl_blanks c) < length ?s" by (metis drop_eq_Nil linorder_not_le list.distinct(1))
    with d show "?s ! (call_close ?s ?i + length (cl_blanks c)) = CHR '';''" by (metis hd_drop_conv_nth list.sel(1))
  qed
  have "take (call_close ?s ?i - 1 - (?i + 8)) (drop (?i + 8) ?s) = ?body" unfolding d8 close by simp
  moreover have "Suc (call_close ?s ?i + length (cl_blanks c)) = length pre + length (cl_above c @ cl_line c @ call_text c)"
    unfolding close by (simp add: call_text_def del: join.simps)
  ultimately show ?thesis
    using semi line_prefix_call [OF assms, of pre "call_text c @ r"]
    unfolding site_at_def Let_def after site_of_def by (simp del: length_append)
qed

fun sites_of :: "nat \<Rightarrow> c_call list \<Rightarrow> call_site list" where
  "sites_of i [] = []"
| "sites_of i (c # cs) = site_of i c # sites_of (cs_end (site_of i c)) cs"

lemma call_sites_program:
  assumes "\<forall>c \<in> set cs. call_ok c" "\<not> contains rest ''syscall(''"
  shows "call_sites (pre @ c_text cs rest) (length pre) = sites_of (length pre) cs"
  using assms(1)
proof (induction cs arbitrary: pre)
  case Nil
  show ?case by (subst call_sites.simps) (simp add: find_no_call [OF assms(2)])
next
  case (Cons c cs)
  have ok: "call_ok c" using Cons.prems by simp
  let ?s = "pre @ c_text (c # cs) rest" and ?i = "length pre + length (cl_above c @ cl_line c)"
  have no: "\<not> contains (cl_above c @ cl_line c) ''syscall(''" using ok by (simp add: call_ok_def)
  have find: "find_from ?s ''syscall('' (length pre) = Some ?i"
    using find_call [OF no, of pre "join '', '' ((cl_macro c @ cl_name c) # cl_args c) @ '')'' @ cl_blanks c @ '';'' @ c_text cs rest"]
    by (simp add: call_text_def del: join.simps)
  have site: "site_at ?s ?i = Some (site_of (length pre) c)" using call_site_at [OF ok, of pre "c_text cs rest"] by simp
  have "?s ! (?i - 1) = last (pre @ cl_above c @ cl_line c)"
  proof -
    have "pre @ cl_above c @ cl_line c \<noteq> []" using ok by (simp add: call_ok_def)
    then have "last (pre @ cl_above c @ cl_line c) = (pre @ cl_above c @ cl_line c) ! (?i - 1)"
      by (simp add: last_conv_nth del: append_is_Nil_conv)
    also have "\<dots> = ((pre @ cl_above c @ cl_line c) @ call_text c @ c_text cs rest) ! (?i - 1)"
      using \<open>pre @ cl_above c @ cl_line c \<noteq> []\<close> by (intro nth_append_left [symmetric]) (simp add: call_ok_def length_greater_0_conv [symmetric] del: length_greater_0_conv)
    finally show ?thesis by simp
  qed
  moreover have "\<not> word_char (last (pre @ cl_above c @ cl_line c))"
  proof (cases "cl_line c = []")
    case True
    have "\<not> word_char (CHR 0x0A)" by code_simp
    then show ?thesis using True ok by (simp add: call_ok_def)
  qed (use ok in \<open>simp add: call_ok_def\<close>)
  ultimately have word: "\<not> (?i > 0 \<and> word_char (?s ! (?i - 1)))" by simp
  have lt: "length pre < length ?s" using ok by (simp add: call_ok_def)
  have "call_sites ?s (length pre) = site_of (length pre) c # call_sites ?s (cs_end (site_of (length pre) c))"
    by (subst call_sites.simps) (use lt find site word in \<open>simp only: if_True if_False option.case\<close>)
  moreover have "call_sites ?s (cs_end (site_of (length pre) c)) = sites_of (cs_end (site_of (length pre) c)) cs"
    using Cons.IH [of "pre @ cl_above c @ cl_line c @ call_text c"] Cons.prems by (simp add: site_of_def add.assoc)
  ultimately show ?case by simp
qed

lemma nr_name:
  assumes "macro \<in> set [''__NR_'', ''SYS_'']"
  shows "nr_syscall_name (macro @ name) = name"
  using assms by (auto simp: nr_syscall_name_def)

lemma join_concat: "concat (map (\<lambda>a. '', '' @ a) ws) = (if ws = [] then [] else '', '' @ join '', '' ws)"
  by (induction ws rule: induct_list012) simp_all

lemma traced_call_ok:
  assumes "call_ok c"
  shows "traced_call i (split_args (join '', '' ((cl_macro c @ cl_name c) # cl_args c))) =
    Inr (''traced_syscall('' @ [CHR 0x22] @ cl_name c @ [CHR 0x22] @ '', '' @ cl_macro c @ cl_name c @ '', '' @ nat_str i @
     concat (map (\<lambda>a. '', '' @ a) (take 6 (cl_args c @ replicate 6 ''0''))) @ '');'')"
proof -
  let ?args = "(cl_macro c @ cl_name c) # cl_args c" and ?six = "cl_args c @ replicate (6 - length (cl_args c)) ''0''"
  have "\<forall>a \<in> set ?args. flat_arg 0 a \<and> strip a = a" using assms by (simp add: call_ok_def list_all_iff)
  moreover have "?args \<noteq> [[]]" using assms by (auto simp: call_ok_def)
  ultimately have split: "split_args (join '', '' ?args) = ?args" by (rule split_joined)
  have len: "length ?six = 6" "length (cl_args c) \<le> 6" using assms by (simp_all add: call_ok_def)
  have six: "take 6 (cl_args c @ replicate 6 ''0'') = ?six" using len(2) by (simp add: take_replicate min_def)
  have "?six \<noteq> []" using len(1) by (metis list.size(3) zero_neq_numeral)
  then have "concat (map (\<lambda>a. '', '' @ a) ?six) = '', '' @ join '', '' ?six" unfolding join_concat by simp
  moreover have "nr_syscall_name (cl_macro c @ cl_name c) = cl_name c" by (rule nr_name) (use assms in \<open>simp add: call_ok_def\<close>)
  ultimately show ?thesis unfolding split six traced_call_def list.case Let_def using len(1) by simp
qed

lemma rewrite_program:
  assumes "\<forall>c \<in> set cs. call_ok c"
  shows "rewrite_calls (pre @ c_text cs rest) (length pre) i (sites_of (length pre) cs) = Inr (c_traced i cs rest)"
  using assms
proof (induction cs arbitrary: pre i)
  case (Cons c cs)
  have ok: "call_ok c" using Cons.prems by simp
  let ?pre = "pre @ cl_above c @ cl_line c @ call_text c"
  have IH: "rewrite_calls (?pre @ c_text cs rest) (length ?pre) (Suc i) (sites_of (length ?pre) cs) = Inr (c_traced (Suc i) cs rest)"
    using Cons.IH [of ?pre "Suc i"] Cons.prems by simp
  have site: "cs_end (site_of (length pre) c) = length ?pre" "cs_prefix (site_of (length pre) c) = cl_line c"
    "cs_body (site_of (length pre) c) = join '', '' ((cl_macro c @ cl_name c) # cl_args c)"
    by (simp_all add: site_of_def del: join.simps)
  have before: "take (cs_start (site_of (length pre) c) - length pre) (drop (length pre) (?pre @ c_text cs rest)) = cl_above c @ cl_line c"
    by (simp add: site_of_def)
  have source: "pre @ c_text (c # cs) rest = ?pre @ c_text cs rest" by simp
  show ?case
    unfolding source sites_of.simps rewrite_calls.simps before site traced_call_ok [OF ok] bind_Inr IH c_traced.simps
    by (simp only: append_assoc)
qed simp

section \<open>No raw call is left\<close>

lemma blanks_then_paren:
  "startswith (dropWhile py_space s) ''('' \<longleftrightarrow> (\<exists>b r. s = b @ CHR ''('' # r \<and> list_all py_space b)"
proof
  assume "startswith (dropWhile py_space s) ''(''"
  then obtain r where "dropWhile py_space s = CHR ''('' # r" by (auto simp: startswith_iff)
  then have "s = takeWhile py_space s @ CHR ''('' # r" by (metis takeWhile_dropWhile_id)
  moreover have "list_all py_space (takeWhile py_space s)" by (auto simp: list_all_iff dest: set_takeWhileD)
  ultimately show "\<exists>b r. s = b @ CHR ''('' # r \<and> list_all py_space b" by blast
next
  assume "\<exists>b r. s = b @ CHR ''('' # r \<and> list_all py_space b"
  then obtain b r where s: "s = b @ CHR ''('' # r" "\<forall>c \<in> set b. py_space c" by (auto simp: list_all_iff)
  have "\<not> py_space (CHR ''('')" by code_simp
  then have "dropWhile py_space s = CHR ''('' # r" using s by (simp add: dropWhile_append2)
  then show "startswith (dropWhile py_space s) ''(''" by simp
qed

lemma raw_syscall_iff:
  "raw_syscall_in w s \<longleftrightarrow> (\<exists>l b r. s = l @ ''syscall'' @ b @ ''('' @ r \<and> list_all py_space b \<and>
     (if l = [] then \<not> w else \<not> word_char (last l)))"
proof (induction w s rule: raw_syscall_in.induct)
  case (2 w c s)
  let ?P = "\<lambda>w s l. \<exists>b r. s = l @ ''syscall'' @ b @ ''('' @ r \<and> list_all py_space b \<and> (if l = [] then \<not> w else \<not> word_char (last l))"
  have here: "(startswith (c # s) ''syscall'' \<and> startswith (dropWhile py_space (drop 7 (c # s))) ''('') \<longleftrightarrow>
      (\<exists>b r. c # s = ''syscall'' @ b @ ''('' @ r \<and> list_all py_space b)"
  proof
    assume a: "startswith (c # s) ''syscall'' \<and> startswith (dropWhile py_space (drop 7 (c # s))) ''(''"
    then obtain t where t: "c # s = ''syscall'' @ t" by (auto simp only: startswith_iff)
    have "drop 7 (c # s) = t" unfolding t by simp
    with a obtain b r where "t = b @ CHR ''('' # r" "list_all py_space b" using blanks_then_paren [of t] by auto
    with t show "\<exists>b r. c # s = ''syscall'' @ b @ ''('' @ r \<and> list_all py_space b" by (intro exI [of _ b] exI [of _ r]) simp
  next
    assume "\<exists>b r. c # s = ''syscall'' @ b @ ''('' @ r \<and> list_all py_space b"
    then obtain b r where t: "c # s = ''syscall'' @ b @ ''('' @ r" and b: "list_all py_space b" by blast
    have "drop 7 (c # s) = b @ CHR ''('' # r" unfolding t by simp
    with b have "startswith (dropWhile py_space (drop 7 (c # s))) ''(''" unfolding blanks_then_paren by blast
    moreover have "startswith (c # s) ''syscall''" unfolding t by (rule startswith_append)
    ultimately show "startswith (c # s) ''syscall'' \<and> startswith (dropWhile py_space (drop 7 (c # s))) ''(''" by (rule conjI [rotated])
  qed
  have later: "?P w (c # s) (d # l) \<longleftrightarrow> d = c \<and> ?P (word_char c) s l" for d l
    by (cases "l = []") (auto simp only: append_Cons list.inject last.simps if_True if_False list.distinct simp_thms)
  have first: "?P w (c # s) [] \<longleftrightarrow> \<not> w \<and> (\<exists>b r. c # s = ''syscall'' @ b @ ''('' @ r \<and> list_all py_space b)"
    by (simp only: append_Nil refl if_True ex_simps simp_thms) iprover
  have split: "(\<exists>l. Q l) \<longleftrightarrow> Q [] \<or> (\<exists>d l. Q (d # l))" for Q :: "string \<Rightarrow> bool" by (metis list.exhaust)
  show ?case
    unfolding raw_syscall_in.simps "2.IH" split [of "?P w (c # s)"] later first here by iprover
qed simp

lemma raw_call_iff:
  "raw_syscall_in False s \<longleftrightarrow>
   (\<exists>l b r. s = l @ ''syscall'' @ b @ ''('' @ r \<and> list_all py_space b \<and> (l = [] \<or> \<not> word_char (last l)))"
  unfolding raw_syscall_iff by (metis (full_types))

text \<open>
  C31. Instrumentation rewrites exactly the calls. For a program printed one call to a line, with at
  most six arguments each (expressions with any balanced brackets), the result is the program with
  the tracer's header after its last include, where the k-th call \<open>syscall(__NR_name, a, ..)\<close> has become
  \<open>traced_syscall("name", __NR_name, k, a, .., 0);\<close> with six arguments in their order, and the count is
  the number of calls; what stands before a call on its line comes twice, everything else is kept. It is
  refused exactly when the result still holds the word \<open>syscall\<close> before a parenthesis.
\<close>

theorem instrument_source_spec:
  assumes "list_all (list_all (\<lambda>c. \<not> line_end c)) (hdr @ inc # lines)" "startswith inc ''#include''"
    "\<forall>l \<in> set lines. \<not> startswith l ''#include''"
    "unlines (hdr @ inc # (''#include '' @ [CHR 0x22] @ ''trace.h'' @ [CHR 0x22]) # lines) = c_text cs rest"
    "\<forall>c \<in> set cs. call_ok c" "\<not> contains rest ''syscall(''"
  shows "instrument_source (unlines (hdr @ inc # lines)) =
    (if \<exists>l b r. c_traced 0 cs rest = l @ ''syscall'' @ b @ ''('' @ r \<and> list_all py_space b \<and> (l = [] \<or> \<not> word_char (last l))
     then Inl (ValueError ''raw syscall invocation remains after instrumentation'')
     else Inr (c_traced 0 cs rest, length cs))"
proof -
  have source: "inject_header (unlines (hdr @ inc # lines)) = c_text cs rest"
    using inject_header_lines [OF assms(1-3)] assms(4) by simp
  have calls: "call_sites (c_text cs rest) 0 = sites_of 0 cs" using call_sites_program [OF assms(5,6), of "[]"] by simp
  have rewritten: "rewrite_calls (c_text cs rest) 0 0 (sites_of 0 cs) = Inr (c_traced 0 cs rest)"
    using rewrite_program [OF assms(5), of "[]" rest 0] by simp
  have number: "length (sites_of i cs) = length cs" for i by (induction cs arbitrary: i) simp_all
  show ?thesis
    unfolding instrument_source_def source Let_def calls rewritten bind_Inr raw_call_iff number by (simp add: require_def)
qed

text \<open>The program of the tool's own test, with a blank before the semicolon of its second call.\<close>

definition demo_c_calls :: "c_call list" where
  "demo_c_calls =
     [\<lparr>cl_above = unlines [''#include <sys/syscall.h>'', ''#include '' @ [CHR 0x22] @ ''trace.h'' @ [CHR 0x22], ''int main(void) {''],
       cl_line = [CHR 0x09], cl_macro = ''__NR_'', cl_name = ''openat'', cl_args = [''f(a, b)'', ''2''], cl_blanks = []\<rparr>,
      \<lparr>cl_above = newline, cl_line = [CHR 0x09] @ ''res = '', cl_macro = ''__NR_'', cl_name = ''close'', cl_args = [''5''],
       cl_blanks = '' ''\<rparr>]"

lemma instrument_source_spec_witness:
  "instrument_source (unlines [''#include <sys/syscall.h>'', ''int main(void) {'', [CHR 0x09] @ ''syscall(__NR_openat, f(a, b), 2);'',
     [CHR 0x09] @ ''res = syscall(__NR_close, 5) ;'', ''}'']) =
   Inr (unlines [''#include <sys/syscall.h>'', ''#include '' @ [CHR 0x22] @ ''trace.h'' @ [CHR 0x22], ''int main(void) {'',
     [CHR 0x09, CHR 0x09] @ ''traced_syscall('' @ [CHR 0x22] @ ''openat'' @ [CHR 0x22] @ '', __NR_openat, 0, f(a, b), 2, 0, 0, 0, 0);'',
     [CHR 0x09] @ ''res = '' @ [CHR 0x09] @ ''res = traced_syscall('' @ [CHR 0x22] @ ''close'' @ [CHR 0x22] @
       '', __NR_close, 1, 5, 0, 0, 0, 0, 0);'', ''}''], 2)"
proof -
  let ?lines = "[''int main(void) {'', [CHR 0x09] @ ''syscall(__NR_openat, f(a, b), 2);'', [CHR 0x09] @ ''res = syscall(__NR_close, 5) ;'', ''}'']"
  let ?rest = "newline @ ''}'' @ newline"
  have ends: "list_all (list_all (\<lambda>c. \<not> line_end c)) ([] @ ''#include <sys/syscall.h>'' # ?lines)" by code_simp
  have inc: "startswith ''#include <sys/syscall.h>'' ''#include''" "\<forall>l \<in> set ?lines. \<not> startswith l ''#include''" by code_simp+
  have prog: "unlines ([] @ ''#include <sys/syscall.h>'' # (''#include '' @ [CHR 0x22] @ ''trace.h'' @ [CHR 0x22]) # ?lines) =
      c_text demo_c_calls ?rest" by code_simp
  have ok: "\<forall>c \<in> set demo_c_calls. call_ok c" "\<not> contains ?rest ''syscall(''" by code_simp+
  have "\<not> raw_syscall_in False (c_traced 0 demo_c_calls ?rest)" by code_simp
  then have none: "\<not> (\<exists>l b r. c_traced 0 demo_c_calls ?rest = l @ ''syscall'' @ b @ ''('' @ r \<and> list_all py_space b \<and>
      (l = [] \<or> \<not> word_char (last l)))" unfolding raw_call_iff .
  have out: "c_traced 0 demo_c_calls ?rest = unlines [''#include <sys/syscall.h>'', ''#include '' @ [CHR 0x22] @ ''trace.h'' @ [CHR 0x22],
     ''int main(void) {'',
     [CHR 0x09, CHR 0x09] @ ''traced_syscall('' @ [CHR 0x22] @ ''openat'' @ [CHR 0x22] @ '', __NR_openat, 0, f(a, b), 2, 0, 0, 0, 0);'',
     [CHR 0x09] @ ''res = '' @ [CHR 0x09] @ ''res = traced_syscall('' @ [CHR 0x22] @ ''close'' @ [CHR 0x22] @
       '', __NR_close, 1, 5, 0, 0, 0, 0, 0);'', ''}'']" by code_simp
  have count: "length demo_c_calls = 2" by code_simp
  note run = trans [OF instrument_source_spec [OF ends inc prog ok] if_not_P [OF none]]
  show ?thesis using run unfolding out count append_Nil .
qed

text \<open>
  The text before a call on its line is written twice: with a single call, the source up to the
  call already ends with the line's prefix, and the replacement starts with the prefix again. A
  call that stands alone on its line only gets wider blanks; a call whose value is used, say
  \<open>long r = syscall(..);\<close>, turns into \<open>long r = long r = traced_syscall(..);\<close>.
\<close>

theorem line_prefix_doubled:
  assumes "instrument_source src = Inr (out, n)" "call_sites (inject_header src) 0 = [c]"
  shows "\<exists>l traced. CHR 0x0A \<notin> set (cs_prefix c) \<and> traced_call 0 (split_args (cs_body c)) = Inr traced \<and>
    inject_header src = l @ cs_prefix c @ drop (cs_start c) (inject_header src) \<and>
    out = l @ cs_prefix c @ cs_prefix c @ traced @ drop (cs_end c) (inject_header src)"
proof -
  let ?s = "inject_header src"
  from assms obtain traced where t: "traced_call 0 (split_args (cs_body c)) = Inr traced"
    and out: "out = take (cs_start c) ?s @ cs_prefix c @ traced @ drop (cs_end c) ?s"
    by (auto simp: instrument_source_def Let_def bind_eq_Inr)
  have p: "cs_prefix c = line_prefix ?s (cs_start c)" using call_sites_ok [of ?s 0] assms(2) by simp
  let ?l = "rev (dropWhile (\<lambda>c. c \<noteq> CHR 0x0A) (rev (take (cs_start c) ?s)))"
  have "rev (takeWhile (\<lambda>c. c \<noteq> CHR 0x0A) (rev (take (cs_start c) ?s)) @ dropWhile (\<lambda>c. c \<noteq> CHR 0x0A) (rev (take (cs_start c) ?s))) =
      take (cs_start c) ?s" by simp
  then have split: "take (cs_start c) ?s = ?l @ cs_prefix c" unfolding p line_prefix_def rev_append by simp
  then have "?s = ?l @ cs_prefix c @ drop (cs_start c) ?s" by (metis append.assoc append_take_drop_id)
  moreover have "CHR 0x0A \<notin> set (cs_prefix c)" unfolding p line_prefix_def by (auto dest: set_takeWhileD)
  ultimately show ?thesis using t out split by auto
qed

lemma line_prefix_doubled_witness:
  "\<exists>out l r. instrument_source ''long r = syscall(__NR_dup, 3);'' = Inr (out, 1) \<and>
     out = l @ ''long r = long r = '' @ r"
proof -
  let ?src = "''long r = syscall(__NR_dup, 3);''"
  have "is_ok (bind (instrument_source ?src) (\<lambda>r. require (snd r = 1) IndexError))" by code_simp
  then obtain out where out: "instrument_source ?src = Inr (out, 1)"
    by (elim is_ok_bindE) (auto simp: is_ok_iff)
  have c: "call_sites (inject_header ?src) 0 =
      [\<lparr>cs_start = 28, cs_end = 49, cs_prefix = ''long r = '', cs_body = ''__NR_dup, 3''\<rparr>]" by code_simp
  from line_prefix_doubled [OF out c] out show ?thesis by fastforce
qed

end
