(* ===== verification/Build.thy ===== *)
theory Build
  imports Instrument
begin

text \<open>
  The build of one program, \<open>build_one\<close> of \<open>tools/prog2c_wrap.py\<close>: the compiler and flags of a side,
  the inputs and their fingerprints, the cached result and the stages of a new build. The
  environment answers for files (existence, modification time, digest), \<open>syz-prog2c\<close>, the compiler
  and \<open>git\<close>; the digest type is a parameter.
\<close>

section \<open>Settings of a side\<close>

definition build_side_config :: "pyval \<Rightarrow> string \<Rightarrow> pyval" where
  "build_side_config cfg side =
     (let build_cfg = py_get ''build'' (PDict []) cfg in
      if \<not> is_dict build_cfg then PDict []
      else let side_cfg = py_get side (PDict []) build_cfg in if \<not> is_dict side_cfg then PDict [] else side_cfg)"

text \<open>A non-empty string, as the code tests it.\<close>

definition text_value :: "pyval \<Rightarrow> string option" where
  "text_value v = (case v of PStr s \<Rightarrow> if s \<noteq> [] then Some s else None | _ \<Rightarrow> None)"

definition runner_source_for_side :: "pyval \<Rightarrow> string \<Rightarrow> string" where
  "runner_source_for_side cfg side =
     (case text_value (py_get ''runner_source'' PNone (build_side_config cfg side)) of
        Some s \<Rightarrow> s
      | None \<Rightarrow> if side = ''candidate'' \<and> py_str (py_get ''target'' (PStr []) cfg) = ''asterinas''
          then ''agent/asterinas/runner.c'' else ''agent/linux/runner.c'')"

definition list_items :: "pyval \<Rightarrow> pyval list" where
  "list_items v = (case v of PList vs \<Rightarrow> vs | _ \<Rightarrow> [])"

definition compiler_for_side :: "pyval \<Rightarrow> string \<Rightarrow> string res" where
  "compiler_for_side cfg side =
     (let build_cfg = py_get ''build'' (PDict []) cfg; side_cfg = build_side_config cfg side;
          arch = py_str (py_get ''arch'' (PStr ''amd64'') cfg);
          supported = list_items (py_get ''supported_arches'' PNone side_cfg);
          by_arch = py_get ''compiler_by_arch'' PNone side_cfg
      in if supported \<noteq> [] \<and> arch \<notin> set (map py_str supported)
         then Inl (ValueError (side @ '' build does not support arch='' @ arch))
         else if is_dict by_arch \<and> truthy by_arch
         then (case text_value (py_get arch PNone by_arch) of
             None \<Rightarrow> Inl (ValueError (side @ '' build is missing compiler_by_arch entry for arch='' @ arch))
           | Some c \<Rightarrow> Inr c)
         else (case text_value (py_get ''compiler'' PNone side_cfg) of
             Some c \<Rightarrow> Inr c
           | None \<Rightarrow> (case if is_dict build_cfg then text_value (py_get ''compiler'' PNone build_cfg) else None of
               Some c \<Rightarrow> Inr c | None \<Rightarrow> Inr ''gcc'')))"

definition cflags_for_side :: "pyval \<Rightarrow> string \<Rightarrow> string list" where
  "cflags_for_side cfg side =
     (let build_cfg = py_get ''build'' (PDict []) cfg in
      map py_str ((if is_dict build_cfg then list_items (py_get ''cflags'' (PList []) build_cfg) else []) @
        list_items (py_get ''cflags'' (PList []) (build_side_config cfg side))))"

definition should_build_candidate_binary :: "pyval \<Rightarrow> bool" where
  "should_build_candidate_binary candidate_profile \<longleftrightarrow>
     py_str (py_get ''binary_name'' (PStr ''testcase.bin'') candidate_profile) \<noteq> ''testcase.bin'' \<or>
     py_get ''kind'' PNone candidate_profile = PStr ''command''"

section \<open>The environment\<close>

record completed =
  cp_returncode :: int
  cp_stdout :: string
  cp_stderr :: string

record 'h build_env =
  be_exists :: "string \<Rightarrow> bool"
  be_mtime :: "string \<Rightarrow> int"
  be_digest :: "string \<Rightarrow> 'h res"
  be_resolve :: "string \<Rightarrow> string"
  be_compiler_path :: "string \<Rightarrow> string option"
  be_compile :: "string list \<Rightarrow> completed"
  be_prog2c :: "string \<Rightarrow> completed res"
  be_git_head :: "(int \<times> string) option"
  be_digest_text :: "string \<Rightarrow> 'h"
  be_config_path :: string
  be_wrapper_path :: string

definition compile_command :: "pyval \<Rightarrow> string \<Rightarrow> string \<Rightarrow> string \<Rightarrow> string \<Rightarrow> string list" where
  "compile_command cfg side compiler instrumented_path binary_path =
     [compiler, ''-O2'', ''-std=gnu11'', ''-Wall'', ''-Wextra'', ''-Wno-unused-result'', ''-Wno-unused-function''] @
     cflags_for_side cfg side @
     [''-I'', ''agent/linux'', instrumented_path, ''agent/linux/trace.c'', runner_source_for_side cfg side, ''-o'', binary_path]"

definition compile_testcase :: "'h build_env \<Rightarrow> pyval \<Rightarrow> string \<Rightarrow> string \<Rightarrow> string \<Rightarrow> completed res" where
  "compile_testcase env cfg side instrumented_path binary_path =
     bind (compiler_for_side cfg side) (\<lambda>compiler.
     Inr (case be_compiler_path env compiler of
         None \<Rightarrow> \<lparr>cp_returncode = 127, cp_stdout = [],
           cp_stderr = ''missing compiler for '' @ side @ '' build: '' @ compiler\<rparr>
       | Some resolved \<Rightarrow> be_compile env (compile_command cfg side resolved instrumented_path binary_path)))"

section \<open>Inputs and fingerprints\<close>

definition build_input_paths :: "'h build_env \<Rightarrow> pyval \<Rightarrow> string \<Rightarrow> bool \<Rightarrow> string list res" where
  "build_input_paths env cfg normalized_path should_build_candidate =
     bind (bind (py_item ''paths'' cfg) (py_item ''syzkaller_dir'')) (\<lambda>syzkaller_dir.
       let first_paths =
             [normalized_path, be_wrapper_path env, be_resolve env ''orchestrator/syzkaller.py'', be_config_path env,
              be_resolve env (py_str (py_get ''runner_profiles_path'' (PStr ''configs/runner_profiles.json'') cfg)),
              be_resolve env (py_str syzkaller_dir) @ ''/bin/syz-prog2c'', be_resolve env ''agent/linux/trace.c''];
           sources = [be_resolve env (runner_source_for_side cfg ''reference'')] @
             (if should_build_candidate then [be_resolve env (runner_source_for_side cfg ''candidate'')] else []);
           extra = filter (\<lambda>p. p \<notin> set first_paths) (uniq sources);
           compiler = (if should_build_candidate
             then text_value (py_get ''compiler'' PNone (build_side_config cfg ''candidate'')) else None)
       in Inr (first_paths @ extra @
            (case compiler of None \<Rightarrow> []
             | Some c \<Rightarrow> if startswith c ''/'' \<or> be_exists env c then [c] else [])))"

type_synonym 'h fingerprint = "string \<times> 'h"

definition input_fingerprints :: "'h build_env \<Rightarrow> string list \<Rightarrow> 'h fingerprint list \<Rightarrow> 'h fingerprint list res" where
  "input_fingerprints env paths extra_entries =
     bind (map_res (\<lambda>p. bind (be_digest env p) (\<lambda>d. Inr (p, d))) paths) (\<lambda>fps. Inr (fps @ extra_entries))"

definition syzkaller_revision_fingerprint :: "'h build_env \<Rightarrow> string \<Rightarrow> 'h fingerprint option" where
  "syzkaller_revision_fingerprint env syzkaller_root = (case be_git_head env of
       None \<Rightarrow> None
     | Some (rc, out) \<Rightarrow> if rc \<noteq> 0 \<or> strip out = [] then None
         else Some (syzkaller_root @ ''::git-revision'', be_digest_text env (strip out)))"

definition build_input_fingerprints ::
  "'h build_env \<Rightarrow> string \<Rightarrow> string list \<Rightarrow> 'h fingerprint list res" where
  "build_input_fingerprints env syzkaller_root input_paths =
     input_fingerprints env input_paths
       (case syzkaller_revision_fingerprint env syzkaller_root of None \<Rightarrow> [] | Some f \<Rightarrow> [f])"

section \<open>Results and the cache\<close>

record 'h build_result =
  br_program_id :: string
  br_status :: string
  br_stage :: string
  br_returncode :: int
  br_wrapped_syscalls :: nat
  br_testcase_c :: string
  br_instrumented_c :: string
  br_testcase_bin :: string
  br_candidate_bin :: "string option"
  br_input_fingerprints :: "'h fingerprint list"

text \<open>
  A result of the stage \<open>prog2c\<close> has only the first four fields in the JSON; the others are filled in here.
  \<open>saved\<close> is the JSON at \<open>build-result.json\<close>: absent, undecodable (\<open>Some None\<close>) or a result. The
  code reads the status first, so a failed result needs no other field.
\<close>

definition output_paths :: "'h build_result \<Rightarrow> bool \<Rightarrow> string list option" where
  "output_paths cached should_build_candidate =
     (if \<not> should_build_candidate
      then Some [br_testcase_c cached, br_instrumented_c cached, br_testcase_bin cached]
      else (case br_candidate_bin cached of
          None \<Rightarrow> None
        | Some b \<Rightarrow> if b = [] then None
            else Some [br_testcase_c cached, br_instrumented_c cached, br_testcase_bin cached, b]))"

definition load_cached_build_result ::
  "'h build_env \<Rightarrow> string \<Rightarrow> 'h build_result option option \<Rightarrow> string list \<Rightarrow> bool \<Rightarrow> 'h fingerprint list \<Rightarrow>
   'h build_result option" where
  "load_cached_build_result env build_root saved input_paths should_build_candidate fingerprints =
     (case saved of
        Some (Some cached) \<Rightarrow>
          if br_status cached \<noteq> ''ok'' then None
          else (case output_paths cached should_build_candidate of
              None \<Rightarrow> None
            | Some outputs \<Rightarrow>
                if \<not> list_all (be_exists env) outputs then None
                else if \<not> list_all (be_exists env) input_paths then None
                else if br_input_fingerprints cached \<noteq> fingerprints then None
                else if Min (set (map (be_mtime env) ((build_root @ ''/build-result.json'') # outputs))) <
                        Max (set (map (be_mtime env) input_paths)) then None
                else Some cached)
      | _ \<Rightarrow> None)"

section \<open>One build\<close>

definition result_paths :: "string \<Rightarrow> string \<times> string \<times> string \<times> string" where
  "result_paths build_root = (build_root @ ''/testcase.c'', build_root @ ''/testcase.instrumented.c'',
     build_root @ ''/testcase.bin'', build_root @ ''/testcase.candidate.bin'')"

text \<open>The two compilations; a \<open>ValueError\<close> of either is caught by the caller.\<close>

definition compile_sides ::
  "'h build_env \<Rightarrow> pyval \<Rightarrow> string \<Rightarrow> bool \<Rightarrow> (completed \<times> completed option) res" where
  "compile_sides env cfg build_root should_build_candidate =
     (let (_, instrumented, testcase_bin, candidate_bin) = result_paths build_root in
      bind (compile_testcase env cfg ''reference'' instrumented testcase_bin) (\<lambda>reference.
      if should_build_candidate
      then bind (compile_testcase env cfg ''candidate'' instrumented candidate_bin) (\<lambda>candidate.
        Inr (reference, Some candidate))
      else Inr (reference, None)))"

definition compiled_status :: "completed \<Rightarrow> completed option \<Rightarrow> string" where
  "compiled_status reference candidate =
     (let status = (if cp_returncode reference = 0 then ''ok'' else ''build_failure'') in
      case candidate of None \<Rightarrow> status | Some c \<Rightarrow> if cp_returncode c \<noteq> 0 then ''build_failure'' else status)"

definition compiled_returncode :: "completed \<Rightarrow> completed option \<Rightarrow> int" where
  "compiled_returncode reference candidate = (case candidate of
       None \<Rightarrow> cp_returncode reference
     | Some c \<Rightarrow> if compiled_status reference candidate = ''ok'' then cp_returncode reference else cp_returncode c)"

definition fresh_build ::
  "'h build_env \<Rightarrow> pyval \<Rightarrow> string \<Rightarrow> string \<Rightarrow> string \<Rightarrow> bool \<Rightarrow> 'h fingerprint list \<Rightarrow> 'h build_result res" where
  "fresh_build env cfg program_id normalized_path build_root should_build_candidate fingerprints =
     bind (be_prog2c env normalized_path) (\<lambda>prog2c.
       let (testcase_c, instrumented, testcase_bin, candidate_bin) = result_paths build_root;
           failed = (\<lambda>stage rc n. \<lparr>br_program_id = program_id, br_status = ''build_failure'', br_stage = stage,
             br_returncode = rc, br_wrapped_syscalls = n, br_testcase_c = testcase_c,
             br_instrumented_c = instrumented, br_testcase_bin = testcase_bin,
             br_candidate_bin = (if should_build_candidate then Some candidate_bin else None),
             br_input_fingerprints = fingerprints\<rparr>)
       in if cp_returncode prog2c \<noteq> 0 then Inr (failed ''prog2c'' (cp_returncode prog2c) 0)
       else bind (instrument_source (cp_stdout prog2c)) (\<lambda>(_, wrapped_count).
         case compile_sides env cfg build_root should_build_candidate of
           Inl (ValueError _) \<Rightarrow> Inr (failed ''compile'' 1 wrapped_count)
         | Inl e \<Rightarrow> Inl e
         | Inr (reference, candidate) \<Rightarrow>
             Inr \<lparr>br_program_id = program_id, br_status = compiled_status reference candidate,
               br_stage = (if compiled_status reference candidate \<noteq> ''ok'' then ''compile'' else ''done''),
               br_returncode = compiled_returncode reference candidate, br_wrapped_syscalls = wrapped_count,
               br_testcase_c = testcase_c, br_instrumented_c = instrumented, br_testcase_bin = testcase_bin,
               br_candidate_bin = map_option (\<lambda>_. candidate_bin) candidate,
               br_input_fingerprints = fingerprints\<rparr>))"

definition build_one ::
  "'h build_env \<Rightarrow> pyval \<Rightarrow> pyval \<Rightarrow> string \<Rightarrow> string \<Rightarrow> string \<Rightarrow> 'h build_result option option \<Rightarrow>
   'h build_result res" where
  "build_one env cfg candidate_profile build_root program_id normalized_path saved =
     (let should_build_candidate = should_build_candidate_binary candidate_profile in
      bind (build_input_paths env cfg normalized_path should_build_candidate) (\<lambda>inputs.
      bind (bind (py_item ''paths'' cfg) (py_item ''syzkaller_dir'')) (\<lambda>syzkaller_dir.
      bind (build_input_fingerprints env (be_resolve env (py_str syzkaller_dir)) inputs) (\<lambda>fingerprints.
      case load_cached_build_result env build_root saved inputs should_build_candidate fingerprints of
        Some cached \<Rightarrow> Inr cached
      | None \<Rightarrow> fresh_build env cfg program_id normalized_path build_root should_build_candidate fingerprints))))"

record build_entry =
  bn_program_id :: string
  bn_normalized_path :: string

definition wrap_selected_entries :: "build_entry list \<Rightarrow> string option \<Rightarrow> nat option \<Rightarrow> build_entry list" where
  "wrap_selected_entries rows program_id limit =
     (let chosen = (case program_id of None \<Rightarrow> rows
            | Some p \<Rightarrow> if p = [] then rows else filter (\<lambda>r. bn_program_id r = p) rows)
      in case limit of None \<Rightarrow> chosen | Some n \<Rightarrow> take n chosen)"

definition build_totals :: "'h build_result list \<Rightarrow> nat \<times> nat \<times> nat" where
  "build_totals results = (length results, length (filter (\<lambda>r. br_status r = ''ok'') results),
     length (filter (\<lambda>r. br_status r \<noteq> ''ok'') results))"

section \<open>What a result promises\<close>

lemma cached_sound:
  assumes "load_cached_build_result env build_root saved inputs sbc fps = Some r"
  shows "saved = Some (Some r) \<and> br_status r = ''ok'' \<and> br_input_fingerprints r = fps \<and>
    list_all (be_exists env) inputs \<and>
    (\<exists>outputs. output_paths r sbc = Some outputs \<and> list_all (be_exists env) outputs \<and>
      (\<forall>p \<in> set inputs. \<forall>q \<in> set outputs. be_mtime env p \<le> be_mtime env q))"
proof -
  from assms obtain outputs where o: "saved = Some (Some r)" "br_status r = ''ok''" "br_input_fingerprints r = fps"
    "list_all (be_exists env) inputs" "output_paths r sbc = Some outputs" "list_all (be_exists env) outputs"
    "\<not> Min (set (map (be_mtime env) ((build_root @ ''/build-result.json'') # outputs))) < Max (set (map (be_mtime env) inputs))"
    by (auto simp: load_cached_build_result_def split: option.splits if_splits)
  have "be_mtime env p \<le> be_mtime env q" if "p \<in> set inputs" "q \<in> set outputs" for p q
  proof -
    have "be_mtime env p \<le> Max (set (map (be_mtime env) inputs))" by (rule Max_ge) (use that in auto)
    also have "\<dots> \<le> Min (set (map (be_mtime env) ((build_root @ ''/build-result.json'') # outputs)))" using o(7) by (simp only: not_less)
    also have "\<dots> \<le> be_mtime env q" by (rule Min_le) (use that in auto)
    finally show ?thesis .
  qed
  with o show ?thesis by blast
qed

definition built_from :: "'h build_env \<Rightarrow> pyval \<Rightarrow> string \<Rightarrow> string \<Rightarrow> bool \<Rightarrow> 'h build_result \<Rightarrow> bool" where
  "built_from env cfg normalized_path build_root sbc r \<longleftrightarrow>
     (\<exists>prog2c src reference candidate. be_prog2c env normalized_path = Inr prog2c \<and> cp_returncode prog2c = 0 \<and>
        instrument_source (cp_stdout prog2c) = Inr (src, br_wrapped_syscalls r) \<and>
        compile_sides env cfg build_root sbc = Inr (reference, candidate) \<and> cp_returncode reference = 0 \<and>
        (case candidate of None \<Rightarrow> \<not> sbc | Some c \<Rightarrow> cp_returncode c = 0))"

lemma compile_sides_candidate:
  "compile_sides env cfg build_root sbc = Inr (reference, candidate) \<Longrightarrow> candidate = None \<longleftrightarrow> \<not> sbc"
  by (auto simp: compile_sides_def bind_eq_Inr split: prod.splits if_splits)

lemma compiled_status_ok:
  "compiled_status reference candidate = ''ok'' \<longleftrightarrow>
     cp_returncode reference = 0 \<and> (case candidate of None \<Rightarrow> True | Some c \<Rightarrow> cp_returncode c = 0)"
  by (auto simp: compiled_status_def Let_def split: option.splits)

lemma fresh_build_ok:
  assumes "fresh_build env cfg program_id normalized_path build_root sbc fps = Inr r" "br_status r = ''ok''"
  shows "built_from env cfg normalized_path build_root sbc r \<and> br_input_fingerprints r = fps"
proof -
  obtain p1 p2 p3 p4 where paths: "result_paths build_root = (p1, p2, p3, p4)" by (cases "result_paths build_root")
  from assms(1) obtain prog2c where p: "be_prog2c env normalized_path = Inr prog2c"
    by (auto simp: fresh_build_def bind_eq_Inr)
  have rc: "cp_returncode prog2c = 0"
  proof (rule ccontr)
    assume "cp_returncode prog2c \<noteq> 0"
    with assms p paths show False by (auto simp: fresh_build_def)
  qed
  from assms(1) p paths rc obtain src n where i: "instrument_source (cp_stdout prog2c) = Inr (src, n)"
    by (auto simp: fresh_build_def bind_eq_Inr)
  show ?thesis
  proof (cases "compile_sides env cfg build_root sbc")
    case (Inl e)
    with assms p paths rc i show ?thesis by (cases e) (auto simp: fresh_build_def)
  next
    case (Inr v)
    obtain reference candidate where v: "v = (reference, candidate)" by (cases v)
    with assms p paths rc i Inr have "br_wrapped_syscalls r = n" "compiled_status reference candidate = ''ok''"
      "br_input_fingerprints r = fps"
      by (auto simp: fresh_build_def)
    with p rc i Inr v compile_sides_candidate [of env cfg build_root sbc reference candidate]
    show ?thesis by (auto simp: built_from_def compiled_status_ok split: option.splits)
  qed
qed

text \<open>
  C14. A build reported ok is one: either it is the saved result, every file it names and every
  input exists, its fingerprints are those of the present inputs and no output is older than an
  input; or \<open>syz-prog2c\<close> succeeded, its output was instrumented, the reference compiled and, where a
  candidate binary is wanted, the candidate too.
\<close>

theorem build_ok_sound:
  assumes "build_one env cfg profile build_root program_id normalized_path saved = Inr r" "br_status r = ''ok''"
  shows "\<exists>inputs base_dir fps. build_input_paths env cfg normalized_path (should_build_candidate_binary profile) = Inr inputs \<and>
    build_input_fingerprints env base_dir inputs = Inr fps \<and> br_input_fingerprints r = fps \<and>
    (saved = Some (Some r) \<and> list_all (be_exists env) inputs \<and>
      (\<exists>outputs. output_paths r (should_build_candidate_binary profile) = Some outputs \<and>
        list_all (be_exists env) outputs \<and> (\<forall>p \<in> set inputs. \<forall>q \<in> set outputs. be_mtime env p \<le> be_mtime env q)) \<or>
     built_from env cfg normalized_path build_root (should_build_candidate_binary profile) r)"
proof -
  let ?sbc = "should_build_candidate_binary profile"
  from assms(1) obtain inputs dir fps where i: "build_input_paths env cfg normalized_path ?sbc = Inr inputs"
    "build_input_fingerprints env (be_resolve env (py_str dir)) inputs = Inr fps" and
    r: "(case load_cached_build_result env build_root saved inputs ?sbc fps of
        Some cached \<Rightarrow> Inr cached
      | None \<Rightarrow> fresh_build env cfg program_id normalized_path build_root ?sbc fps) = Inr r"
    by (auto simp: build_one_def Let_def bind_eq_Inr)
  show ?thesis
  proof (cases "load_cached_build_result env build_root saved inputs ?sbc fps")
    case None
    with r fresh_build_ok [of env cfg program_id normalized_path build_root ?sbc fps r] assms(2) i show ?thesis by auto
  next
    case (Some cached)
    with r have "cached = r" by simp
    with cached_sound [OF Some] i show ?thesis by blast
  qed
qed

definition demo_build_env :: "int \<Rightarrow> nat build_env" where
  "demo_build_env reference_rc = \<lparr>be_exists = (\<lambda>_. True), be_mtime = (\<lambda>_. 0), be_digest = (\<lambda>p. Inr (length p)),
     be_resolve = id, be_compiler_path = (\<lambda>c. Some c),
     be_compile = (\<lambda>cmd. \<lparr>cp_returncode = (if ''testcase.bin'' = last cmd then reference_rc else 0), cp_stdout = [], cp_stderr = []\<rparr>),
     be_prog2c = (\<lambda>_. Inr \<lparr>cp_returncode = 0, cp_stdout = ''syscall(1);'', cp_stderr = []\<rparr>), be_git_head = None,
     be_digest_text = length, be_config_path = ''c'', be_wrapper_path = ''w''\<rparr>"

definition demo_build_cfg :: pyval where
  "demo_build_cfg = PDict [(''paths'', PDict [(''syzkaller_dir'', PStr ''syz'')])]"

lemma build_ok_sound_witness:
  "\<exists>r. build_one (demo_build_env 0) demo_build_cfg (PDict []) ''b'' ''p'' ''n'' None = Inr r \<and>
     built_from (demo_build_env 0) demo_build_cfg ''n'' ''b'' False r"
proof -
  have "is_ok (bind (build_one (demo_build_env 0) demo_build_cfg (PDict []) ''b'' ''p'' ''n'' None)
      (\<lambda>r. require (br_status r = ''ok'') IndexError))" by code_simp
  then obtain r where r: "build_one (demo_build_env 0) demo_build_cfg (PDict []) ''b'' ''p'' ''n'' None = Inr r"
    "br_status r = ''ok''" by (elim is_ok_bindE) (auto simp: is_ok_iff)
  have "\<not> should_build_candidate_binary (PDict [])" by code_simp
  with build_ok_sound [OF r] r(1) show ?thesis by auto
qed

text \<open>
  A failed build may report return code zero: when the reference does not compile and the
  candidate does, the status is a build failure but the return code recorded is the candidate's.
\<close>

theorem failed_build_reports_zero:
  assumes "be_prog2c env normalized_path = Inr prog2c" "cp_returncode prog2c = 0"
    "instrument_source (cp_stdout prog2c) = Inr (src, n)"
    "compile_sides env cfg build_root True = Inr (reference, Some candidate)"
    "cp_returncode reference \<noteq> 0" "cp_returncode candidate = 0"
  shows "\<exists>r. fresh_build env cfg program_id normalized_path build_root True fps = Inr r \<and>
    br_status r = ''build_failure'' \<and> br_returncode r = 0"
  using assms by (cases "result_paths build_root")
    (simp add: fresh_build_def compiled_status_def compiled_returncode_def)

lemma failed_build_reports_zero_witness:
  "\<exists>r. fresh_build (demo_build_env 1\<lparr>be_compile := \<lambda>cmd. \<lparr>cp_returncode =
       (if last cmd = ''b/testcase.bin'' then 1 else 0), cp_stdout = [], cp_stderr = []\<rparr>\<rparr>)
     demo_build_cfg ''p'' ''n'' ''b'' True [] = Inr r \<and> br_status r = ''build_failure'' \<and> br_returncode r = 0"
proof -
  let ?env = "demo_build_env 1\<lparr>be_compile := \<lambda>cmd. \<lparr>cp_returncode =
       (if last cmd = ''b/testcase.bin'' then 1 else 0), cp_stdout = [], cp_stderr = []\<rparr>\<rparr>"
  have p: "be_prog2c ?env ''n'' = Inr \<lparr>cp_returncode = 0, cp_stdout = ''syscall(1);'', cp_stderr = []\<rparr>"
    by (simp add: demo_build_env_def)
  have "is_ok (instrument_source ''syscall(1);'')" by code_simp
  then obtain src n where i: "instrument_source ''syscall(1);'' = Inr (src, n)" by (auto simp: is_ok_iff)
  have c: "compile_sides ?env demo_build_cfg ''b'' True = Inr (\<lparr>cp_returncode = 1, cp_stdout = [], cp_stderr = []\<rparr>,
      Some \<lparr>cp_returncode = 0, cp_stdout = [], cp_stderr = []\<rparr>)" by code_simp
  show ?thesis by (rule failed_build_reports_zero [OF p _ _ c]) (simp_all add: i)
qed

end
