(* ===== verification/Contract.thy ===== *)
theory Contract
  imports Json Targets
begin

text \<open>
  The configuration of a run: path resolution (\<open>core/paths.py\<close>), the workflow contract
  (\<open>core/workflow_contract.py\<close>), the runner profiles and \<open>config()\<close> (\<open>orchestrator/common.py\<close>,
  \<open>orchestrator/legacy_compat.py\<close>).

  Paths are the strings of POSIX paths; \<open>pathlib\<close>'s own normalisation of doubled slashes and dots
  is not modelled. The deprecation notes on standard error are left out, and so are the cached
  environment variables beyond the two the functions read.
\<close>

section \<open>Paths\<close>

definition pjoin :: "string \<Rightarrow> string \<Rightarrow> string" where
  "pjoin a b = a @ ''/'' @ b"

definition resolve_repo_path :: "string \<Rightarrow> string \<Rightarrow> string" where
  "resolve_repo_path base_dir p = (if startswith p ''/'' then p else pjoin base_dir p)"

definition relative_to :: "string \<Rightarrow> string \<Rightarrow> string res" where
  "relative_to base_dir p =
     (if p = base_dir then Inr ''.''
      else if startswith p (base_dir @ ''/'') then Inr (drop (length base_dir + 1) p)
      else Inl (ValueError ''not in the subpath''))"

definition path_name :: "string \<Rightarrow> string" where
  "path_name p = last (split_char (CHR ''/'') p)"

definition parent_name :: "string \<Rightarrow> string" where
  "parent_name p = (case rev (split_char (CHR ''/'') p) of _ # d # _ \<Rightarrow> d | _ \<Rightarrow> [])"

definition as_dict :: "pyval \<Rightarrow> (string \<times> pyval) list res" where
  "as_dict v = (case v of PDict kvs \<Rightarrow> Inr kvs | _ \<Rightarrow> Inl (TypeError ''not a mapping''))"

definition workflow_name :: "pyval \<Rightarrow> string" where
  "workflow_name cfg = py_str (py_get ''workflow'' (PStr ''baseline'') cfg)"

definition target_name :: "pyval \<Rightarrow> string" where
  "target_name cfg = py_str (py_get ''target'' (PStr ''linux'') cfg)"

definition cfg_paths :: "pyval \<Rightarrow> pyval" where
  "cfg_paths cfg = (let p = py_get ''paths'' (PDict []) cfg in if is_dict p then p else PDict [])"

definition resolved :: "string \<Rightarrow> pyval \<Rightarrow> string \<Rightarrow> pyval \<Rightarrow> string res" where
  "resolved base_dir cfg key dflt = (case py_get key dflt (cfg_paths cfg) of
       PNone \<Rightarrow> Inl (KeyError (''missing path config for '' @ key))
     | PStr s \<Rightarrow> Inr (resolve_repo_path base_dir s)
     | _ \<Rightarrow> Inl (TypeError ''path''))"

definition target_workflow :: "pyval \<Rightarrow> string" where
  "target_workflow cfg = target_name cfg @ ''/'' @ workflow_name cfg"

definition canonical_build_dir :: "string \<Rightarrow> pyval \<Rightarrow> string" where
  "canonical_build_dir base_dir cfg = resolve_repo_path base_dir (''build/targets/'' @ target_workflow cfg @ ''/testcases'')"

definition canonical_artifacts_dir :: "string \<Rightarrow> pyval \<Rightarrow> string" where
  "canonical_artifacts_dir base_dir cfg = resolve_repo_path base_dir (''artifacts/runs/targets/'' @ target_workflow cfg)"

definition canonical_reports_dir :: "string \<Rightarrow> pyval \<Rightarrow> string" where
  "canonical_reports_dir base_dir cfg = resolve_repo_path base_dir (''reports/targets/'' @ target_workflow cfg)"

definition canonical_eligible_root :: "string \<Rightarrow> pyval \<Rightarrow> string" where
  "canonical_eligible_root base_dir cfg = resolve_repo_path base_dir (''eligible_programs/targets/'' @ target_workflow cfg)"

definition canonical_generated_root :: "string \<Rightarrow> pyval \<Rightarrow> string" where
  "canonical_generated_root base_dir cfg = resolve_repo_path base_dir (''artifacts/generated/targets/'' @ target_workflow cfg)"

definition canonical_preflight_artifact_dir :: "string \<Rightarrow> pyval \<Rightarrow> string" where
  "canonical_preflight_artifact_dir base_dir cfg =
     resolve_repo_path base_dir (''artifacts/preflight/targets/'' @ target_workflow cfg)"

definition canonical_build_info_path :: "string \<Rightarrow> pyval \<Rightarrow> string" where
  "canonical_build_info_path base_dir cfg =
     resolve_repo_path base_dir (''artifacts/targets/'' @ target_name cfg @ ''/build-info.json'')"

definition candidate_initramfs_packages_dir :: "string \<Rightarrow> pyval \<Rightarrow> string res" where
  "candidate_initramfs_packages_dir base_dir cfg =
     (if dict_get ''candidate_initramfs_packages_dir'' (items (cfg_paths cfg)) \<noteq> None
      then resolved base_dir cfg ''candidate_initramfs_packages_dir'' PNone
      else Inr (resolve_repo_path base_dir (''artifacts/targets/'' @ target_name cfg @ ''/initramfs-packages'')))"

definition runner_profiles_path :: "string \<Rightarrow> pyval \<Rightarrow> string res" where
  "runner_profiles_path base_dir cfg =
     (case py_get ''runner_profiles_path'' (PStr ''configs/runner_profiles.json'') cfg of
        PStr s \<Rightarrow> Inr (resolve_repo_path base_dir s) | _ \<Rightarrow> Inl (TypeError ''path''))"

section \<open>The workflow contract\<close>

definition REQUIRED_PATH_KEYS :: "string list" where
  "REQUIRED_PATH_KEYS = [''artifacts_dir'', ''build_dir'', ''eligible_file'', ''reports_dir'', ''temp_dir'']"

definition REQUIRED_TOP_LEVEL_MAPPING_KEYS :: "string list" where
  "REQUIRED_TOP_LEVEL_MAPPING_KEYS = [''capabilities'', ''presentation'', ''stability'', ''thresholds'']"

definition ALLOWED_TOP_LEVEL_KEYS :: "string list" where
  "ALLOWED_TOP_LEVEL_KEYS =
     [''allowlist'', ''arch'', ''build'', ''capabilities'', ''classification'', ''compat_manifest_path'',
      ''derivation'', ''external_state_limits'', ''generation_profile_path'', ''normalization'', ''parallel'',
      ''paths'', ''preflight'', ''presentation'', ''runner_profiles_path'', ''schema_version'', ''stability'',
      ''syzkaller'', ''target'', ''target_config_path'', ''target_os'', ''thresholds'', ''trace'', ''workflow'']"

definition TARGET_REQUIRED_CONFIG_KEYS :: "(string, string list) dict" where
  "TARGET_REQUIRED_CONFIG_KEYS =
     [(''asterinas'', [''base_initramfs_path'', ''build_info_path'', ''build_timeout_sec'', ''default_mode'',
         ''docker_image'', ''repo_dir'', ''revision'', ''run_timeout_sec'']),
      (''tgoskits_starryos'', [''default_mode'', ''revision'', ''repo_dir_env'', ''supported_arches'',
         ''toolchain_probes'', ''workspace_subdir'', ''disk_image_path'', ''guest_binary_path'',
         ''shell_prompt'', ''shell_launch_command'', ''healthcheck_shell_command'', ''prepare_commands'',
         ''trace_marker_prefix'', ''feature_flag_env'']),
      (''tgoskits_arceos'', [''default_mode'', ''revision'', ''repo_dir_env'', ''supported_targets'',
         ''toolchain_probes'', ''prepare_commands'', ''healthcheck_command'', ''feature_flag_env''])]"

definition is_repo_owned_canonical_workflow :: "string \<Rightarrow> string \<Rightarrow> bool" where
  "is_repo_owned_canonical_workflow resolved_path base_dir =
     is_ok (relative_to (pjoin (pjoin base_dir ''configs'') ''workflows'') resolved_path)"

definition ALLOWED_TRACE_EVENT_TRANSPORTS :: "string list" where
  "ALLOWED_TRACE_EVENT_TRANSPORTS = [''file'', ''stdout'']"

definition trace_events_transport :: "pyval \<Rightarrow> string res" where
  "trace_events_transport cfg =
     (let trace_cfg = py_get ''trace'' (PDict []) cfg in
      if \<not> is_dict trace_cfg then Inr ''file'' else
      let v = py_get ''events_transport'' (PStr ''file'') trace_cfg;
          transport = py_str (if truthy v then v else PStr ''file'') in
      if transport \<notin> set ALLOWED_TRACE_EVENT_TRANSPORTS
      then Inl (ContractError ''unsupported trace.events_transport'') else Inr transport)"

definition require_non_empty_str :: "(string \<times> pyval) list \<Rightarrow> string \<Rightarrow> string res" where
  "require_non_empty_str payload key = (case dict_get key payload of
       Some (PStr s) \<Rightarrow> if s = [] then Inl (ContractError (''missing required workflow field: '' @ key)) else Inr s
     | _ \<Rightarrow> Inl (ContractError (''missing required workflow field: '' @ key)))"

definition require_path :: "(string \<times> pyval) list \<Rightarrow> string \<Rightarrow> string res" where
  "require_path paths key = (case dict_get key paths of
       Some (PStr s) \<Rightarrow> if s = [] then Inl (ContractError (''workflow paths missing required key: '' @ key)) else Inr s
     | _ \<Rightarrow> Inl (ContractError (''workflow paths missing required key: '' @ key)))"

definition require_paths :: "(string \<times> pyval) list \<Rightarrow> string list res" where
  "require_paths payload = (case dict_get ''paths'' payload of
       Some (PDict paths) \<Rightarrow> map_res (require_path paths) REQUIRED_PATH_KEYS
     | _ \<Rightarrow> Inl (ContractError ''workflow paths must be a mapping''))"

definition require_mapping :: "(string \<times> pyval) list \<Rightarrow> string \<Rightarrow> unit res" where
  "require_mapping payload key = (case dict_get key payload of
       Some (PDict _) \<Rightarrow> Inr ()
     | _ \<Rightarrow> Inl (ContractError (''workflow field '' @ key @ '' must be a mapping'')))"

record workflow_contract =
  wc_workflow :: string
  wc_target :: string
  wc_arch :: string
  wc_runner_profiles_path :: string
  wc_target_config_path :: string
  wc_trace_events_transport :: string
  wc_paths :: "(string \<times> string) list"

definition contract_from_payload :: "(string \<times> pyval) list \<Rightarrow> workflow_contract res" where
  "contract_from_payload payload =
     bind (require_non_empty_str payload ''workflow'') (\<lambda>workflow.
     bind (require_non_empty_str payload ''target'') (\<lambda>target.
     bind (require_non_empty_str payload ''arch'') (\<lambda>arch.
     bind (require_non_empty_str payload ''runner_profiles_path'') (\<lambda>profiles.
     bind (require_non_empty_str payload ''target_config_path'') (\<lambda>target_config_path.
     bind (require_paths payload) (\<lambda>paths.
     bind (map_res (require_mapping payload) REQUIRED_TOP_LEVEL_MAPPING_KEYS) (\<lambda>_.
     bind (trace_events_transport (PDict payload)) (\<lambda>transport.
     Inr \<lparr>wc_workflow = workflow, wc_target = target, wc_arch = arch, wc_runner_profiles_path = profiles,
          wc_target_config_path = target_config_path, wc_trace_events_transport = transport,
          wc_paths = zip REQUIRED_PATH_KEYS paths\<rparr>))))))))"

definition reject_unknown_top_level_keys :: "(string \<times> pyval) list \<Rightarrow> unit res" where
  "reject_unknown_top_level_keys payload =
     require (list_all (\<lambda>k. k \<in> set ALLOWED_TOP_LEVEL_KEYS) (dict_keys payload))
       (ContractError ''repo-owned workflow contains unknown top-level keys'')"

definition validate_repo_workflow_payload ::
  "(string \<times> pyval) list \<Rightarrow> string \<Rightarrow> string \<Rightarrow> workflow_contract option res" where
  "validate_repo_workflow_payload payload resolved_path base_dir =
     (if \<not> is_repo_owned_canonical_workflow resolved_path base_dir then Inr None
      else bind (reject_unknown_top_level_keys payload) (\<lambda>_.
           bind (contract_from_payload payload) (\<lambda>c. Inr (Some c))))"

text \<open>\<open>{str(item) for item in v}\<close>.\<close>

fun iter_strs :: "pyval \<Rightarrow> string list res" where
  "iter_strs (PList vs) = Inr (map py_str vs)"
| "iter_strs (PStr s) = Inr (map (\<lambda>c. [c]) s)"
| "iter_strs (PDict kvs) = Inr (map fst kvs)"
| "iter_strs _ = Inl (TypeError ''object is not iterable'')"

definition require_target_key :: "(string \<times> pyval) list \<Rightarrow> string \<Rightarrow> string \<Rightarrow> unit res" where
  "require_target_key target_config target key =
     require (dict_get key target_config \<notin> {None, Some PNone, Some (PStr [])})
       (ContractError (''target_config for '' @ target @ '' is missing required key: '' @ key))"

definition validate_target_config_payload :: "pyval \<Rightarrow> pyval \<Rightarrow> unit res" where
  "validate_target_config_payload target_config payload =
     (let target = py_str (py_get ''target'' (PStr []) payload);
          required = (case dict_get target TARGET_REQUIRED_CONFIG_KEYS of None \<Rightarrow> [] | Some ks \<Rightarrow> ks) in
      bind (if required = [] then Inr (items target_config) else as_dict target_config) (\<lambda>tc.
      bind (map_res (require_target_key tc target) required) (\<lambda>_.
      if target = ''tgoskits_starryos'' then
        bind (iter_strs (py_get ''supported_arches'' (PList []) target_config)) (\<lambda>arches.
        require (py_str (py_get ''arch'' (PStr []) payload) \<in> set arches)
          (ContractError ''workflow arch is not listed in target_config.supported_arches''))
      else Inr ())))"

section \<open>Runner profiles\<close>

definition available_runner_kinds :: "string list" where
  "available_runner_kinds = sorted_set [''command'', ''local'']"

definition validate_profile :: "pyval \<Rightarrow> string \<Rightarrow> unit res" where
  "validate_profile payload role = (case py_get role PNone payload of
       PDict profile \<Rightarrow>
         (case py_get ''kind'' (PStr ''local'') (PDict profile) of
            PStr kind \<Rightarrow>
              if kind = [] then Inl (ContractError ''missing a non-empty kind'')
              else require (kind \<in> set available_runner_kinds) (ContractError ''unsupported kind'')
          | _ \<Rightarrow> Inl (ContractError ''missing a non-empty kind''))
     | _ \<Rightarrow> Inl (ContractError (''runner profiles missing required section: '' @ role)))"

definition validate_batching :: "pyval \<Rightarrow> unit res" where
  "validate_batching candidate =
     (let batching_mode = py_get ''command_batching_mode'' PNone candidate;
          mode = canonical_execution_mode (if batching_mode = PNone then None else Some (py_str batching_mode)) in
      if batching_mode \<notin> {PNone, PStr (mode_str PACKAGED_PER_CASE), PStr (mode_str SHARED_RUNTIME_BATCH),
           PStr LEGACY_SHARED_GUEST_SHELL}
      then Inl (ContractError ''unsupported candidate command_batching_mode'')
      else require (\<not> (mode = Some (mode_str SHARED_RUNTIME_BATCH) \<and> \<not> truthy (py_get ''batch_command'' PNone candidate)))
        (ContractError ''shared runtime batching must define batch_command''))"

definition validate_runner_profiles_payload :: "pyval \<Rightarrow> string \<Rightarrow> string \<Rightarrow> unit res" where
  "validate_runner_profiles_payload payload resolved_path base_dir =
     (if \<not> is_ok (relative_to (resolve_repo_path base_dir ''configs'') resolved_path) then Inr ()
      else bind (map_res (validate_profile payload) [side_str REFERENCE, side_str CANDIDATE]) (\<lambda>_.
        validate_batching (py_get ''candidate'' (PDict []) payload)))"

section \<open>Loading the configuration\<close>

text \<open>The two environment variables and the repository root.\<close>

record os_env =
  oe_root :: string
  oe_workflow :: "string option"
  oe_config_path :: "string option"

definition runtime_workflow :: "os_env \<Rightarrow> string" where
  "runtime_workflow oe = (case oe_workflow oe of None \<Rightarrow> ''baseline'' | Some w \<Rightarrow> w)"

definition opt_or :: "string option \<Rightarrow> string option \<Rightarrow> string option" where
  "opt_or a b = (case a of Some s \<Rightarrow> if s \<noteq> [] then a else b | None \<Rightarrow> b)"

definition workflow_file :: "os_env \<Rightarrow> store \<Rightarrow> string \<Rightarrow> string res" where
  "workflow_file oe st selected_workflow =
     (let canonical = resolve_repo_path (oe_root oe) (''configs/workflows/'' @ selected_workflow @ ''.json'');
          candidate = resolve_repo_path (oe_root oe) (''configs/'' @ selected_workflow @ ''_rules.json'') in
      if st canonical \<noteq> None then Inr canonical
      else if st candidate \<noteq> None then Inr candidate
      else if selected_workflow \<noteq> ''baseline''
      then Inl (FileNotFoundError (''missing config for workflow '' @ selected_workflow))
      else Inr (resolve_repo_path (oe_root oe) ''configs/baseline_rules.json''))"

definition resolved_config_path :: "os_env \<Rightarrow> store \<Rightarrow> string option \<Rightarrow> string option \<Rightarrow> string res" where
  "resolved_config_path oe st workflow config_path =
     (case opt_or config_path (oe_config_path oe) of
        Some (c # p) \<Rightarrow> Inr (resolve_repo_path (oe_root oe) (c # p))
      | _ \<Rightarrow> workflow_file oe st (opt_default (runtime_workflow oe) (opt_or workflow None)))"

definition infer_legacy_target :: "(string \<times> pyval) list \<Rightarrow> string \<Rightarrow> string" where
  "infer_legacy_target payload workflow =
     (if startswith (py_str (py_get ''workflow'' (PStr workflow) (PDict payload))) ''asterinas''
      then ''asterinas'' else ''linux'')"

definition default_presentation :: "string \<Rightarrow> store \<Rightarrow> string \<Rightarrow> pyval res" where
  "default_presentation base_dir st workflow =
     (let canonical_path = resolve_repo_path base_dir (''configs/workflows/'' @ workflow @ ''.json'');
          fallback = (if workflow = ''baseline''
            then PDict [(''reference_label'', PStr ''Linux(reference)''), (''candidate_label'', PStr ''Linux(candidate)'')]
            else PDict [(''reference_label'', PStr ''Reference''), (''candidate_label'', PStr ''Candidate'')]) in
      if st canonical_path = None then Inr fallback else
      bind (load_json canonical_path st) (\<lambda>doc.
      bind (as_dict doc) (\<lambda>payload.
      let presentation = py_get ''presentation'' PNone (PDict payload) in
      case (py_get ''reference_label'' PNone presentation, py_get ''candidate_label'' PNone presentation) of
        (PStr r, PStr c) \<Rightarrow> if is_dict presentation
          then Inr (PDict [(''reference_label'', PStr r), (''candidate_label'', PStr c)]) else Inr fallback
      | _ \<Rightarrow> Inr fallback)))"

definition with_target :: "os_env \<Rightarrow> string option \<Rightarrow> string \<Rightarrow> (string \<times> pyval) list \<Rightarrow> string \<times> (string \<times> pyval) list" where
  "with_target oe workflow resolved_path payload =
     (case dict_get ''target'' payload of
        Some (PStr (c # s)) \<Rightarrow> (c # s, payload)
      | _ \<Rightarrow>
          (let t = (if endswith (path_name resolved_path) ''_rules.json''
                    then infer_legacy_target payload (opt_default (runtime_workflow oe) (opt_or workflow None))
                    else ''linux'')
           in (t, dict_set ''target'' (PStr t) payload)))"

definition with_target_config ::
  "string \<Rightarrow> store \<Rightarrow> string \<Rightarrow> (string \<times> pyval) list \<Rightarrow> (string \<times> pyval) list res" where
  "with_target_config base_dir st target payload =
     (let path = py_get ''target_config_path'' PNone (PDict payload) in
      if \<not> truthy path then Inr payload else
      case path of
        PStr p \<Rightarrow>
          bind (load_json (resolve_repo_path base_dir p) st) (\<lambda>target_config.
          bind (validate_target_config_payload target_config (PDict payload)) (\<lambda>_.
          let payload' = dict_set ''target_config'' target_config payload in
          Inr (if dict_get target payload' = None then dict_set target target_config payload' else payload')))
      | _ \<Rightarrow> Inl (TypeError ''path''))"

definition with_presentation ::
  "os_env \<Rightarrow> store \<Rightarrow> string option \<Rightarrow> (string \<times> pyval) list \<Rightarrow> (string \<times> pyval) list res" where
  "with_presentation oe st workflow payload =
     (if is_dict (py_get ''presentation'' PNone (PDict payload)) then Inr payload else
      bind (default_presentation (oe_root oe) st
        (py_str (py_get ''workflow'' (PStr (opt_default (runtime_workflow oe) (opt_or workflow None))) (PDict payload))))
      (\<lambda>pr. Inr (dict_set ''presentation'' pr payload)))"

definition set_str :: "string \<Rightarrow> string \<Rightarrow> (string \<times> pyval) list \<Rightarrow> (string \<times> pyval) list" where
  "set_str k v d = dict_set k (PStr v) d"

text \<open>
  The paths of a canonical workflow, in the order \<open>config\<close> assigns them. The resolver is given
  the same \<open>paths\<close> dictionary that is being filled; of its methods only
  \<open>candidate_initramfs_packages_dir\<close> reads it, at a key that is not assigned before.
\<close>

definition base_paths :: "string \<Rightarrow> pyval \<Rightarrow> (string \<times> pyval) list \<Rightarrow> (string \<times> pyval) list res" where
  "base_paths base_dir cfg paths =
     bind (relative_to base_dir (canonical_build_dir base_dir cfg)) (\<lambda>build.
     bind (relative_to base_dir (canonical_artifacts_dir base_dir cfg)) (\<lambda>artifacts.
     bind (relative_to base_dir (canonical_reports_dir base_dir cfg)) (\<lambda>reports.
     bind (relative_to base_dir (pjoin (canonical_eligible_root base_dir cfg) ''default.jsonl'')) (\<lambda>eligible.
     Inr (set_str ''eligible_file'' eligible (set_str ''reports_dir'' reports
       (set_str ''artifacts_dir'' artifacts (set_str ''build_dir'' build paths))))))))"

definition batch_paths :: "string \<Rightarrow> pyval \<Rightarrow> (string \<times> pyval) list \<Rightarrow> (string \<times> pyval) list res" where
  "batch_paths base_dir cfg paths =
     bind (candidate_initramfs_packages_dir base_dir cfg) (\<lambda>d.
     bind (relative_to base_dir d) (\<lambda>r. Inr (set_str ''candidate_initramfs_packages_dir'' r paths)))"

definition preflight_paths :: "string \<Rightarrow> pyval \<Rightarrow> (string \<times> pyval) list \<Rightarrow> (string \<times> pyval) list res" where
  "preflight_paths base_dir cfg paths =
     bind (map_res (\<lambda>(k, p). bind (relative_to base_dir p) (\<lambda>r. Inr (k, r)))
       [(''targets_file'', pjoin (canonical_eligible_root base_dir cfg) ''targets.jsonl''),
        (''generated_file'', pjoin (canonical_eligible_root base_dir cfg) ''generated.jsonl''),
        (''static_eligible_file'', pjoin (canonical_eligible_root base_dir cfg) ''static.jsonl''),
        (''generated_raw_dir'', pjoin (canonical_generated_root base_dir cfg) ''raw''),
        (''generated_normalized_dir'', pjoin (canonical_generated_root base_dir cfg) ''normalized''),
        (''generated_meta_dir'', pjoin (canonical_generated_root base_dir cfg) ''meta'')])
     (\<lambda>kvs. Inr (foldl (\<lambda>d (k, r). set_str k r d) paths kvs))"

definition preflight_sections ::
  "string \<Rightarrow> pyval \<Rightarrow> (string \<times> pyval) list \<Rightarrow> (string \<times> pyval) list \<Rightarrow> (string \<times> pyval) list res" where
  "preflight_sections base_dir cfg paths payload =
     bind (as_dict (py_get ''preflight'' (PDict []) (PDict payload))) (\<lambda>preflight.
     bind (relative_to base_dir (canonical_preflight_artifact_dir base_dir cfg)) (\<lambda>dir.
     bind (as_dict (py_get ''derivation'' (PDict []) (PDict payload))) (\<lambda>derivation.
     Inr (dict_set ''derivation''
            (PDict (dict_set ''generated_source_eligible_file'' (py_get ''generated_file'' PNone (PDict paths)) derivation))
         (dict_set ''preflight''
            (PDict (dict_set ''source_eligible_file'' (py_get ''static_eligible_file'' PNone (PDict paths))
              (set_str ''artifact_dir'' dir preflight))) payload)))))"

definition with_build_info ::
  "string \<Rightarrow> pyval \<Rightarrow> string \<Rightarrow> (string \<times> pyval) list \<Rightarrow> (string \<times> pyval) list res" where
  "with_build_info base_dir cfg target payload =
     bind (as_dict (py_get ''target_config'' (PDict []) (PDict payload))) (\<lambda>target_config.
     if target_config = [] then Inr payload else
     bind (relative_to base_dir (canonical_build_info_path base_dir cfg)) (\<lambda>info.
     let tc = PDict (set_str ''build_info_path'' info target_config) in
     Inr (dict_set target tc (dict_set ''target_config'' tc payload))))"

definition canonical_payload :: "string \<Rightarrow> string \<Rightarrow> (string \<times> pyval) list \<Rightarrow> (string \<times> pyval) list res" where
  "canonical_payload base_dir target payload =
     bind (as_dict (py_get ''paths'' (PDict []) (PDict payload))) (\<lambda>paths0.
     let cfg = PDict (dict_set ''paths'' (PDict paths0) payload) in
     bind (base_paths base_dir cfg paths0) (\<lambda>paths1.
     bind (as_dict (py_get ''capabilities'' (PDict []) cfg)) (\<lambda>capabilities.
     bind (if truthy (py_get ''supports_batch_execution'' PNone (PDict capabilities))
           then batch_paths base_dir cfg paths1 else Inr paths1) (\<lambda>paths2.
     let preflight = truthy (py_get ''supports_preflight'' PNone (PDict capabilities)) in
     bind (if preflight then preflight_paths base_dir cfg paths2 else Inr paths2) (\<lambda>paths3.
     let payload1 = dict_set ''paths'' (PDict paths3) payload in
     bind (if preflight then preflight_sections base_dir cfg paths3 payload1 else Inr payload1)
       (with_build_info base_dir cfg target))))))"

definition config :: "os_env \<Rightarrow> store \<Rightarrow> string option \<Rightarrow> string option \<Rightarrow> pyval res" where
  "config oe st workflow config_path =
     bind (resolved_config_path oe st workflow config_path) (\<lambda>resolved_path.
     bind (load_json resolved_path st) (\<lambda>doc.
     bind (as_dict doc) (\<lambda>payload.
     bind (validate_repo_workflow_payload payload resolved_path (oe_root oe)) (\<lambda>_.
     case with_target oe workflow resolved_path payload of (target, payload1) \<Rightarrow>
     bind (with_target_config (oe_root oe) st target payload1) (\<lambda>payload2.
     bind (with_presentation oe st workflow payload2) (\<lambda>payload3.
     bind (if parent_name resolved_path = ''workflows'' then canonical_payload (oe_root oe) target payload3
           else Inr payload3) (\<lambda>payload4. Inr (PDict payload4))))))))"

definition runner_profiles :: "os_env \<Rightarrow> store \<Rightarrow> string option \<Rightarrow> string option \<Rightarrow> pyval res" where
  "runner_profiles oe st workflow config_path =
     bind (config oe st workflow config_path) (\<lambda>cfg.
     bind (runner_profiles_path (oe_root oe) cfg) (\<lambda>path.
     bind (load_json path st) (\<lambda>payload.
     bind (validate_runner_profiles_payload payload path (oe_root oe)) (\<lambda>_. Inr payload))))"

section \<open>What an accepted workflow holds\<close>

definition str_at :: "string \<Rightarrow> (string \<times> pyval) list \<Rightarrow> bool" where
  "str_at k d \<longleftrightarrow> (case dict_get k d of Some (PStr s) \<Rightarrow> s \<noteq> [] | _ \<Rightarrow> False)"

definition dict_at :: "string \<Rightarrow> (string \<times> pyval) list \<Rightarrow> bool" where
  "dict_at k d \<longleftrightarrow> (case dict_get k d of Some (PDict _) \<Rightarrow> True | _ \<Rightarrow> False)"

definition contract_keys :: "string list" where
  "contract_keys = [''workflow'', ''target'', ''arch'', ''runner_profiles_path'', ''target_config_path'', ''paths'',
     ''capabilities'', ''presentation'', ''stability'', ''thresholds'', ''trace'']"

definition contract_typed :: "pyval \<Rightarrow> bool" where
  "contract_typed cfg \<longleftrightarrow>
     list_all (\<lambda>k. str_at k (items cfg)) [''workflow'', ''target'', ''arch'', ''runner_profiles_path'', ''target_config_path''] \<and>
     list_all (\<lambda>k. dict_at k (items cfg)) (''paths'' # REQUIRED_TOP_LEVEL_MAPPING_KEYS) \<and>
     list_all (\<lambda>k. str_at k (items (cfg_paths cfg))) REQUIRED_PATH_KEYS \<and>
     (\<exists>t \<in> set ALLOWED_TRACE_EVENT_TRANSPORTS. trace_events_transport cfg = Inr t)"

lemma require_non_empty_ok: "require_non_empty_str d k = Inr s \<Longrightarrow> str_at k d"
  by (auto simp: require_non_empty_str_def str_at_def split: option.splits pyval.splits if_splits)

lemma require_path_ok: "require_path d k = Inr s \<Longrightarrow> str_at k d"
  by (auto simp: require_path_def str_at_def split: option.splits pyval.splits if_splits)

lemma require_mapping_ok: "require_mapping d k = Inr u \<Longrightarrow> dict_at k d"
  by (auto simp: require_mapping_def dict_at_def split: option.splits pyval.splits)

lemma transport_allowed: "trace_events_transport cfg = Inr t \<Longrightarrow> t \<in> set ALLOWED_TRACE_EVENT_TRANSPORTS"
  by (auto simp: trace_events_transport_def Let_def ALLOWED_TRACE_EVENT_TRANSPORTS_def split: if_splits)

lemma require_paths_ok:
  assumes "require_paths d = Inr ps"
  shows "dict_at ''paths'' d" "list_all (\<lambda>k. str_at k (items (cfg_paths (PDict d)))) REQUIRED_PATH_KEYS"
proof -
  from assms obtain paths where p: "dict_get ''paths'' d = Some (PDict paths)"
    "map_res (require_path paths) REQUIRED_PATH_KEYS = Inr ps"
    by (auto simp: require_paths_def split: option.splits pyval.splits)
  then show "dict_at ''paths'' d" by (simp add: dict_at_def)
  have "list_all (\<lambda>k. str_at k paths) REQUIRED_PATH_KEYS"
    unfolding list_all_iff using map_res_set [OF p(2)] require_path_ok by blast
  with p(1) show "list_all (\<lambda>k. str_at k (items (cfg_paths (PDict d)))) REQUIRED_PATH_KEYS"
    by (simp add: cfg_paths_def py_get_def)
qed

lemma contract_from_payload_typed:
  assumes "contract_from_payload d = Inr c"
  shows "contract_typed (PDict d)"
proof -
  from assms obtain s1 s2 s3 s4 s5 ps us t where
    "require_non_empty_str d ''workflow'' = Inr s1" "require_non_empty_str d ''target'' = Inr s2"
    "require_non_empty_str d ''arch'' = Inr s3" "require_non_empty_str d ''runner_profiles_path'' = Inr s4"
    "require_non_empty_str d ''target_config_path'' = Inr s5" and
    paths: "require_paths d = Inr ps" and maps: "map_res (require_mapping d) REQUIRED_TOP_LEVEL_MAPPING_KEYS = Inr us" and
    t: "trace_events_transport (PDict d) = Inr t"
    unfolding contract_from_payload_def by (elim bind_InrE) blast
  then have "list_all (\<lambda>k. str_at k d) [''workflow'', ''target'', ''arch'', ''runner_profiles_path'', ''target_config_path'']"
    by (auto intro: require_non_empty_ok)
  moreover have "list_all (\<lambda>k. dict_at k d) REQUIRED_TOP_LEVEL_MAPPING_KEYS"
    unfolding list_all_iff using map_res_set [OF maps] require_mapping_ok by blast
  ultimately show ?thesis
    using require_paths_ok [OF paths] t transport_allowed [OF t] by (simp add: contract_typed_def)
qed

text \<open>The contract depends on its own keys only.\<close>

lemma contract_typed_agree:
  assumes "contract_typed (PDict d)" "\<And>k. k \<in> set contract_keys \<Longrightarrow> dict_get k d' = dict_get k d"
  shows "contract_typed (PDict d')"
proof -
  have "py_get k v (PDict d') = py_get k v (PDict d)" "str_at k d' = str_at k d" "dict_at k d' = dict_at k d"
    if "k \<in> set contract_keys" for k v
    using assms(2) [OF that] by (simp_all add: py_get_def str_at_def dict_at_def)
  then have "cfg_paths (PDict d') = cfg_paths (PDict d)"
    "trace_events_transport (PDict d') = trace_events_transport (PDict d)"
    "\<And>k. k \<in> set contract_keys \<Longrightarrow> str_at k d' = str_at k d" "\<And>k. k \<in> set contract_keys \<Longrightarrow> dict_at k d' = dict_at k d"
    by (simp_all add: cfg_paths_def trace_events_transport_def contract_keys_def)
  with assms(1) show ?thesis
    by (simp add: contract_typed_def contract_keys_def REQUIRED_TOP_LEVEL_MAPPING_KEYS_def)
qed

lemma relative_resolve:
  assumes "s \<noteq> []" "hd s \<noteq> CHR ''/''"
  shows "relative_to base_dir (resolve_repo_path base_dir s) = Inr s"
proof -
  have "\<not> startswith s ''/''" using assms by (cases s) auto
  moreover have "startswith (base_dir @ ''/'' @ s) (base_dir @ ''/'')" by (simp add: startswith_iff)
  ultimately show ?thesis by (simp add: relative_to_def resolve_repo_path_def pjoin_def)
qed

lemma relative_canonical [simp]:
  "relative_to base_dir (canonical_build_dir base_dir cfg) = Inr (''build/targets/'' @ target_workflow cfg @ ''/testcases'')"
  "relative_to base_dir (canonical_artifacts_dir base_dir cfg) = Inr (''artifacts/runs/targets/'' @ target_workflow cfg)"
  "relative_to base_dir (canonical_reports_dir base_dir cfg) = Inr (''reports/targets/'' @ target_workflow cfg)"
  "relative_to base_dir (canonical_preflight_artifact_dir base_dir cfg) = Inr (''artifacts/preflight/targets/'' @ target_workflow cfg)"
  "relative_to base_dir (canonical_build_info_path base_dir cfg) = Inr (''artifacts/targets/'' @ target_name cfg @ ''/build-info.json'')"
  unfolding canonical_build_dir_def canonical_artifacts_dir_def canonical_reports_dir_def
    canonical_preflight_artifact_dir_def canonical_build_info_path_def
  by (simp_all add: relative_resolve)

lemma pjoin_resolve: "s \<noteq> [] \<Longrightarrow> hd s \<noteq> CHR ''/'' \<Longrightarrow> pjoin (resolve_repo_path base_dir s) n = resolve_repo_path base_dir (s @ ''/'' @ n)"
  by (cases s) (auto simp: pjoin_def resolve_repo_path_def)

lemma relative_eligible [simp]:
  "relative_to base_dir (pjoin (canonical_eligible_root base_dir cfg) n) = Inr (''eligible_programs/targets/'' @ target_workflow cfg @ ''/'' @ n)"
  "relative_to base_dir (pjoin (canonical_generated_root base_dir cfg) n) = Inr (''artifacts/generated/targets/'' @ target_workflow cfg @ ''/'' @ n)"
  by (simp_all add: canonical_eligible_root_def canonical_generated_root_def pjoin_resolve relative_resolve)

text \<open>The paths a canonical workflow is given: a function of its target and its name.\<close>

definition canonical_path :: "string \<Rightarrow> string \<Rightarrow> string option" where
  "canonical_path tw k = dict_get k
     [(''eligible_file'', ''eligible_programs/targets/'' @ tw @ ''/default.jsonl''),
      (''reports_dir'', ''reports/targets/'' @ tw),
      (''artifacts_dir'', ''artifacts/runs/targets/'' @ tw),
      (''build_dir'', ''build/targets/'' @ tw @ ''/testcases'')]"

lemma dict_set4_get: "dict_get k (dict_set a (f A) (dict_set b (f B) (dict_set c (f C) (dict_set d (f D) p)))) =
    (case dict_get k [(a, A), (b, B), (c, C), (d, D)] of Some v \<Rightarrow> Some (f v) | None \<Rightarrow> dict_get k p)"
  by (auto simp: dict_get_Cons)

lemma base_paths_get:
  assumes "base_paths base_dir cfg paths = Inr paths'"
  shows "dict_get k paths' = (case canonical_path (target_workflow cfg) k of Some s \<Rightarrow> Some (PStr s) | None \<Rightarrow> dict_get k paths)"
proof -
  let ?tw = "target_workflow cfg"
  have p: "paths' = dict_set ''eligible_file'' (PStr (''eligible_programs/targets/'' @ ?tw @ ''/'' @ ''default.jsonl''))
      (dict_set ''reports_dir'' (PStr (''reports/targets/'' @ ?tw))
      (dict_set ''artifacts_dir'' (PStr (''artifacts/runs/targets/'' @ ?tw))
      (dict_set ''build_dir'' (PStr (''build/targets/'' @ ?tw @ ''/testcases'')) paths)))"
    using assms unfolding base_paths_def relative_canonical relative_eligible bind_Inr set_str_def by (rule Inr_inject [symmetric])
  show ?thesis unfolding p canonical_path_def dict_set4_get by simp
qed

lemma batch_paths_get:
  "batch_paths base_dir cfg paths = Inr paths' \<Longrightarrow> k \<noteq> ''candidate_initramfs_packages_dir'' \<Longrightarrow>
   dict_get k paths' = dict_get k paths"
  unfolding batch_paths_def set_str_def by (elim bind_InrE) auto

lemma set_strs_get: "k \<notin> fst ` set kvs \<Longrightarrow> dict_get k (foldl (\<lambda>d (k, r). set_str k r d) paths kvs) = dict_get k paths"
  by (induction kvs arbitrary: paths) (auto simp: set_str_def)

lemma keyed_map_res: "map_res (\<lambda>(k, p). bind (g p) (\<lambda>r. Inr (k, r))) xs = Inr kvs \<Longrightarrow> map fst kvs = map fst xs"
  by (induction xs arbitrary: kvs) (auto simp: bind_eq_Inr)

lemma preflight_paths_get:
  assumes "preflight_paths base_dir cfg paths = Inr paths'" "k \<in> set REQUIRED_PATH_KEYS"
  shows "dict_get k paths' = dict_get k paths"
proof -
  from assms(1) obtain kvs where kvs: "map fst kvs = [''targets_file'', ''generated_file'', ''static_eligible_file'',
      ''generated_raw_dir'', ''generated_normalized_dir'', ''generated_meta_dir'']" and
    p: "paths' = foldl (\<lambda>d (k, r). set_str k r d) paths kvs"
    unfolding preflight_paths_def by (elim bind_InrE) (drule keyed_map_res, simp)
  have "k \<notin> set (map fst kvs)" unfolding kvs using assms(2) by (auto simp: REQUIRED_PATH_KEYS_def)
  then show ?thesis unfolding p by (intro set_strs_get) simp
qed

lemma preflight_sections_get:
  "preflight_sections base_dir cfg paths payload = Inr payload' \<Longrightarrow> k \<notin> {''preflight'', ''derivation''} \<Longrightarrow>
   dict_get k payload' = dict_get k payload"
  unfolding preflight_sections_def by (elim bind_InrE) auto

definition build_info_rel :: "pyval \<Rightarrow> string" where
  "build_info_rel cfg = ''artifacts/targets/'' @ target_name cfg @ ''/build-info.json''"

lemma build_info_rel:
  "relative_to base_dir (canonical_build_info_path base_dir cfg) = Inr (build_info_rel cfg)" "build_info_rel cfg \<noteq> []"
  by (simp_all add: build_info_rel_def)

lemma with_build_info_cases:
  assumes "with_build_info base_dir cfg target payload = Inr payload'"
  obtains d where "as_dict (py_get ''target_config'' (PDict []) (PDict payload)) = Inr d"
    "payload' = payload \<or>
     payload' = dict_set target (PDict (set_str ''build_info_path'' (build_info_rel cfg) d))
       (dict_set ''target_config'' (PDict (set_str ''build_info_path'' (build_info_rel cfg) d)) payload)"
  using assms unfolding with_build_info_def Let_def build_info_rel bind_Inr
  by (elim bind_InrE) (metis Inr_inject)

lemma canonical_payload_spec:
  assumes "canonical_payload base_dir target payload = Inr payload'" "target \<notin> set (''target_config'' # ALLOWED_TOP_LEVEL_KEYS)"
  obtains paths0 paths3 where "py_get ''paths'' (PDict []) (PDict payload) = PDict paths0"
    "dict_get ''paths'' payload' = Some (PDict paths3)"
    "\<And>k. k \<in> set REQUIRED_PATH_KEYS \<Longrightarrow> dict_get k paths3 =
       (case canonical_path (target_workflow (PDict payload)) k of Some s \<Rightarrow> Some (PStr s) | None \<Rightarrow> dict_get k paths0)"
    "\<And>k. k \<notin> {''paths'', ''preflight'', ''derivation'', ''target_config'', target} \<Longrightarrow> dict_get k payload' = dict_get k payload"
proof -
  let ?cfg = "\<lambda>p. PDict (dict_set ''paths'' (PDict p) payload)"
  from assms(1) obtain paths0 paths1 paths2 paths3 payload2 b pf where
    p0: "as_dict (py_get ''paths'' (PDict []) (PDict payload)) = Inr paths0" and
    p1: "base_paths base_dir (?cfg paths0) paths0 = Inr paths1" and
    p2: "(if b then batch_paths base_dir (?cfg paths0) paths1 else Inr paths1) = Inr paths2" and
    p3: "(if pf then preflight_paths base_dir (?cfg paths0) paths2 else Inr paths2) = Inr paths3" and
    q: "(if pf then preflight_sections base_dir (?cfg paths0) paths3 (dict_set ''paths'' (PDict paths3) payload)
         else Inr (dict_set ''paths'' (PDict paths3) payload)) = Inr payload2" and
    w: "with_build_info base_dir (?cfg paths0) target payload2 = Inr payload'"
    unfolding canonical_payload_def Let_def by (elim bind_InrE) blast
  from w obtain tcv where
    r: "payload' = payload2 \<or> payload' = dict_set target tcv (dict_set ''target_config'' tcv payload2)"
    by (elim with_build_info_cases) auto
  have tw: "target_workflow (?cfg paths0) = target_workflow (PDict payload)"
    by (simp add: target_workflow_def target_name_def workflow_name_def py_get_def)
  have t: "target \<noteq> ''paths''" "target \<noteq> ''target_config''" using assms(2) by (auto simp: ALLOWED_TOP_LEVEL_KEYS_def)
  have q2: "dict_get k payload2 = dict_get k (dict_set ''paths'' (PDict paths3) payload)"
    if "k \<notin> {''preflight'', ''derivation''}" for k
    using q preflight_sections_get that by (auto split: if_splits)
  show thesis
  proof (rule that)
    show "py_get ''paths'' (PDict []) (PDict payload) = PDict paths0"
      using p0 by (auto simp: as_dict_def split: pyval.splits)
    show "dict_get ''paths'' payload' = Some (PDict paths3)"
      using r t q2 [of "''paths''"] by auto
    show "dict_get k payload' = dict_get k payload"
      if "k \<notin> {''paths'', ''preflight'', ''derivation'', ''target_config'', target}" for k
      using r q2 [of k] that by auto
  next
    fix k assume k: "k \<in> set REQUIRED_PATH_KEYS"
    then have k2: "k \<noteq> ''candidate_initramfs_packages_dir''" by (auto simp: REQUIRED_PATH_KEYS_def)
    have "dict_get k paths3 = dict_get k paths2" using p3 preflight_paths_get [OF _ k] by (auto split: if_splits)
    also have "\<dots> = dict_get k paths1" using p2 batch_paths_get [OF _ k2] by (auto split: if_splits)
    finally show "dict_get k paths3 =
      (case canonical_path (target_workflow (PDict payload)) k of Some s \<Rightarrow> Some (PStr s) | None \<Rightarrow> dict_get k paths0)"
      using base_paths_get [OF p1, of k] tw by simp
  qed
qed

lemma str_at_cong: "dict_get k d' = dict_get k d \<Longrightarrow> str_at k d' = str_at k d"
  by (simp add: str_at_def)

lemma canonical_payload_typed:
  assumes "canonical_payload base_dir target payload = Inr payload'" "target \<notin> set (''target_config'' # ALLOWED_TOP_LEVEL_KEYS)"
    "contract_typed (PDict payload)"
  shows "contract_typed (PDict payload') \<and>
    (\<forall>k s. canonical_path (target_workflow (PDict payload)) k = Some s \<longrightarrow>
      dict_get k (items (cfg_paths (PDict payload'))) = Some (PStr s))"
proof -
  obtain paths0 paths3 where
    p0: "py_get ''paths'' (PDict []) (PDict payload) = PDict paths0" and
    p: "dict_get ''paths'' payload' = Some (PDict paths3)"
      "\<And>k. k \<in> set REQUIRED_PATH_KEYS \<Longrightarrow> dict_get k paths3 =
         (case canonical_path (target_workflow (PDict payload)) k of Some s \<Rightarrow> Some (PStr s) | None \<Rightarrow> dict_get k paths0)"
      "\<And>k. k \<notin> {''paths'', ''preflight'', ''derivation'', ''target_config'', target} \<Longrightarrow> dict_get k payload' = dict_get k payload"
    using canonical_payload_spec [OF assms(1,2)] by metis
  have agree: "dict_get k payload' = dict_get k (dict_set ''paths'' (PDict paths3) payload)" if "k \<in> set contract_keys" for k
  proof (cases "k = ''paths''")
    case False
    have "set contract_keys \<subseteq> set ALLOWED_TOP_LEVEL_KEYS" "set contract_keys \<inter> {''preflight'', ''derivation'', ''target_config''} = {}"
      by (simp_all add: contract_keys_def ALLOWED_TOP_LEVEL_KEYS_def)
    then show ?thesis using that False assms(2) p(3) [of k] by auto
  qed (simp add: p(1))
  have paths: "cfg_paths (PDict (dict_set ''paths'' (PDict paths3) payload)) = PDict paths3"
    by (simp add: cfg_paths_def py_get_def)
  have ne: "canonical_path tw k = Some s \<Longrightarrow> s \<noteq> [] \<and> k \<in> set REQUIRED_PATH_KEYS" for tw k s
    by (auto simp: canonical_path_def dict_get_Cons REQUIRED_PATH_KEYS_def split: if_splits)
  have "str_at k paths3" if k: "k \<in> set REQUIRED_PATH_KEYS" for k
  proof (cases "canonical_path (target_workflow (PDict payload)) k")
    case None
    with p(2) [OF k] have "str_at k paths3 = str_at k paths0" by (simp add: str_at_def)
    then show ?thesis using assms(3) k p0 by (simp add: contract_typed_def cfg_paths_def list_all_iff)
  next
    case (Some s)
    then show ?thesis using p(2) [OF k] ne [OF Some] by (simp add: str_at_def)
  qed
  then have "contract_typed (PDict (dict_set ''paths'' (PDict paths3) payload))"
    using assms(3) paths
    by (simp add: contract_typed_def list_all_iff str_at_def dict_at_def REQUIRED_TOP_LEVEL_MAPPING_KEYS_def
      trace_events_transport_def py_get_def)
  from contract_typed_agree [OF this agree] have "contract_typed (PDict payload')" by simp
  moreover have "cfg_paths (PDict payload') = PDict paths3" using p(1) by (simp add: cfg_paths_def py_get_def)
  then have "\<forall>k s. canonical_path (target_workflow (PDict payload)) k = Some s \<longrightarrow>
      dict_get k (items (cfg_paths (PDict payload'))) = Some (PStr s)"
    using p(2) ne by fastforce
  ultimately show ?thesis by blast
qed

definition target_config_typed :: "string \<Rightarrow> pyval \<Rightarrow> bool" where
  "target_config_typed target tc \<longleftrightarrow>
     list_all (\<lambda>k. dict_get k (items tc) \<notin> {None, Some PNone, Some (PStr [])})
       (opt_default [] (dict_get target TARGET_REQUIRED_CONFIG_KEYS))"

lemma validate_target_config_typed:
  assumes "validate_target_config_payload tc payload = Inr u"
  shows "target_config_typed (py_str (py_get ''target'' (PStr []) payload)) tc"
proof -
  let ?t = "py_str (py_get ''target'' (PStr []) payload)"
  let ?req = "opt_default [] (dict_get ?t TARGET_REQUIRED_CONFIG_KEYS)"
  have req: "(case dict_get ?t TARGET_REQUIRED_CONFIG_KEYS of None \<Rightarrow> [] | Some ks \<Rightarrow> ks) = ?req"
    by (simp add: opt_default_def)
  from assms obtain d us where d: "(if ?req = [] then Inr (items tc) else as_dict tc) = Inr d"
    and us: "map_res (require_target_key d ?t) ?req = Inr us"
    unfolding validate_target_config_payload_def Let_def req by (elim bind_InrE) blast
  from d have "?req \<noteq> [] \<Longrightarrow> d = items tc" by (auto simp: as_dict_def split: pyval.splits)
  moreover have "k \<in> set ?req \<Longrightarrow> dict_get k d \<notin> {None, Some PNone, Some (PStr [])}" for k
    using map_res_set [OF us, of k] by (auto simp: require_target_key_def)
  ultimately show ?thesis unfolding target_config_typed_def list_all_iff by fastforce
qed

lemma canonical_payload_target_config:
  assumes "canonical_payload base_dir target payload = Inr payload'" "dict_get ''target_config'' payload = Some tc"
    "target_config_typed t tc" "target \<noteq> ''target_config''"
  shows "\<exists>tc'. dict_get ''target_config'' payload' = Some tc' \<and> target_config_typed t tc'"
proof -
  from assms(1) obtain pf p q paths3 payload2 cfg where
    q: "(if pf then preflight_sections base_dir cfg paths3 (dict_set ''paths'' (PDict paths3) payload)
         else Inr (dict_set ''paths'' (PDict paths3) payload)) = Inr payload2" and
    w: "with_build_info base_dir cfg target payload2 = Inr payload'"
    unfolding canonical_payload_def Let_def by (elim bind_InrE) blast
  have tc2: "dict_get ''target_config'' payload2 = Some tc"
    using q preflight_sections_get [of base_dir cfg paths3 _ payload2 "''target_config''"] assms(2) by (auto split: if_splits)
  from w obtain d where d: "as_dict (py_get ''target_config'' (PDict []) (PDict payload2)) = Inr d" and
    r: "payload' = payload2 \<or> payload' = dict_set target (PDict (set_str ''build_info_path'' (build_info_rel cfg) d))
       (dict_set ''target_config'' (PDict (set_str ''build_info_path'' (build_info_rel cfg) d)) payload2)"
    by (elim with_build_info_cases)
  have "tc = PDict d" using d tc2 by (auto simp: as_dict_def py_get_def split: pyval.splits)
  then have "target_config_typed t (PDict (set_str ''build_info_path'' (build_info_rel cfg) d))"
    using assms(3) build_info_rel(2) by (auto simp: target_config_typed_def list_all_iff set_str_def)
  with r tc2 assms(3,4) show ?thesis by auto
qed

lemma config_steps:
  assumes "config oe st workflow config_path = Inr cfg" "resolved_config_path oe st workflow config_path = Inr p"
  obtains payload c payload1 t payload2 payload3 payload4 where
    "load_json p st = Inr (PDict payload)" "validate_repo_workflow_payload payload p (oe_root oe) = Inr c"
    "with_target oe workflow p payload = (t, payload1)"
    "with_target_config (oe_root oe) st t payload1 = Inr payload2"
    "with_presentation oe st workflow payload2 = Inr payload3"
    "(if parent_name p = ''workflows'' then canonical_payload (oe_root oe) t payload3 else Inr payload3) = Inr payload4"
    "cfg = PDict payload4"
proof -
  obtain t payload1 doc payload c payload2 payload3 payload4 where
    "load_json p st = Inr doc" "as_dict doc = Inr payload" "validate_repo_workflow_payload payload p (oe_root oe) = Inr c"
    "with_target oe workflow p payload = (t, payload1)"
    "with_target_config (oe_root oe) st t payload1 = Inr payload2"
    "with_presentation oe st workflow payload2 = Inr payload3"
    "(if parent_name p = ''workflows'' then canonical_payload (oe_root oe) t payload3 else Inr payload3) = Inr payload4"
    "cfg = PDict payload4"
    using assms(1) unfolding config_def assms(2) bind_Inr case_prod_beta
    by (elim bind_InrE) (metis Inr_inject prod.collapse)
  moreover from this(2) have "doc = PDict payload" by (auto simp: as_dict_def split: pyval.splits)
  ultimately show thesis using that by blast
qed

text \<open>
  C12. A configuration loaded from a workflow of the repository is well-typed: the fields the
  pipeline reads are non-empty strings, its sections are mappings, every required path is a
  non-empty string, the event transport is one of the two, and the target configuration has every
  key its target requires. If the file lies in \<open>configs/workflows\<close>, its four work paths are
  the canonical ones of its target and name, whatever the file says. (The target must not be named
  like a key of the configuration: \<open>config\<close> stores the target configuration under that name.)
\<close>

theorem config_contract:
  assumes "config oe st workflow config_path = Inr cfg" "resolved_config_path oe st workflow config_path = Inr p"
    "is_repo_owned_canonical_workflow p (oe_root oe)" "load_json p st = Inr doc"
    "target_name doc \<notin> set (''target_config'' # ALLOWED_TOP_LEVEL_KEYS)"
  shows "contract_typed cfg \<and>
    (\<exists>tc. dict_get ''target_config'' (items cfg) = Some tc \<and> target_config_typed (target_name doc) tc) \<and>
    (parent_name p = ''workflows'' \<longrightarrow> (\<forall>k s. canonical_path (target_workflow doc) k = Some s \<longrightarrow>
      dict_get k (items (cfg_paths cfg)) = Some (PStr s)))"
proof -
  obtain payload c payload1 t payload2 payload3 payload4 where
    doc: "load_json p st = Inr (PDict payload)" and c: "validate_repo_workflow_payload payload p (oe_root oe) = Inr c" and
    t: "with_target oe workflow p payload = (t, payload1)" and
    tc: "with_target_config (oe_root oe) st t payload1 = Inr payload2" and
    pr: "with_presentation oe st workflow payload2 = Inr payload3" and
    can: "(if parent_name p = ''workflows'' then canonical_payload (oe_root oe) t payload3 else Inr payload3) = Inr payload4" and
    cfg: "cfg = PDict payload4"
    using config_steps [OF assms(1,2)] by metis
  have d: "doc = PDict payload" using doc assms(4) by simp
  from c assms(3) obtain c' where "contract_from_payload payload = Inr c'"
    unfolding validate_repo_workflow_payload_def by (auto elim!: bind_InrE)
  then have typed: "contract_typed (PDict payload)" by (rule contract_from_payload_typed)
  then have strs: "str_at ''target'' payload" "str_at ''target_config_path'' payload" and pres: "dict_at ''presentation'' payload"
    by (simp_all add: contract_typed_def REQUIRED_TOP_LEVEL_MAPPING_KEYS_def)
  from strs(1) obtain tn where tn: "dict_get ''target'' payload = Some (PStr tn)" "tn \<noteq> []"
    by (auto simp: str_at_def split: option.splits pyval.splits)
  then have t': "t = tn" "payload1 = payload" "target_name doc = tn"
    using t by (auto simp: with_target_def target_name_def py_get_def d neq_Nil_conv)
  have ta: "t \<notin> set (''target_config'' # ALLOWED_TOP_LEVEL_KEYS)" using assms(5) t' by simp
  have ts: "t \<notin> set contract_keys" "''target_config'' \<notin> set contract_keys" "t \<noteq> ''target_config''"
    using ta by (auto simp: contract_keys_def ALLOWED_TOP_LEVEL_KEYS_def)
  have "truthy (py_get ''target_config_path'' PNone (PDict payload))"
    using strs(2) by (auto simp: str_at_def py_get_def split: option.splits pyval.splits)
  then obtain tcv u where tcv: "validate_target_config_payload tcv (PDict payload) = Inr u"
    "dict_get ''target_config'' payload2 = Some tcv"
    "\<And>k. k \<notin> {''target_config'', t} \<Longrightarrow> dict_get k payload2 = dict_get k payload"
    using tc ts(3) unfolding t' with_target_config_def Let_def
    by (auto elim!: bind_InrE split: pyval.splits if_splits)
  have ty: "target_config_typed (target_name doc) tcv"
    using validate_target_config_typed [OF tcv(1)] tn t' by (simp add: py_get_def)
  have agree: "k \<in> set contract_keys \<Longrightarrow> dict_get k payload2 = dict_get k payload" for k
    using tcv(3) [of k] ts(1,2) by blast
  have typed2: "contract_typed (PDict payload2)" by (rule contract_typed_agree [OF typed agree])
  have "dict_at ''presentation'' payload2" using typed2 by (simp add: contract_typed_def REQUIRED_TOP_LEVEL_MAPPING_KEYS_def)
  then have p3: "payload3 = payload2"
    using pr by (auto simp: with_presentation_def dict_at_def py_get_def split: option.splits pyval.splits)
  have tw: "target_workflow (PDict payload2) = target_workflow doc"
    using agree by (simp add: target_workflow_def target_name_def workflow_name_def py_get_def d contract_keys_def)
  show ?thesis
  proof (cases "parent_name p = ''workflows''")
    case True
    then have "canonical_payload (oe_root oe) t payload2 = Inr payload4" using can p3 by simp
    from canonical_payload_typed [OF this ta typed2] canonical_payload_target_config [OF this tcv(2) ty ts(3)]
    show ?thesis using cfg tw by simp
  next
    case False
    then show ?thesis using can p3 typed2 tcv(2) ty cfg by simp
  qed
qed

definition demo_workflow :: pyval where
  "demo_workflow = PDict
     [(''workflow'', PStr ''baseline''), (''target'', PStr ''linux''), (''arch'', PStr ''x86_64''),
      (''runner_profiles_path'', PStr ''p.json''), (''target_config_path'', PStr ''t.json''),
      (''paths'', PDict [(''artifacts_dir'', PStr ''a''), (''build_dir'', PStr ''b''), (''eligible_file'', PStr ''e''),
         (''reports_dir'', PStr ''r''), (''temp_dir'', PStr ''t'')]),
      (''capabilities'', PDict []), (''presentation'', PDict []), (''stability'', PDict []), (''thresholds'', PDict [])]"

definition demo_store :: store where
  "demo_store = dump_json ''/r/t.json'' (PDict [(''k'', PStr ''v'')])
     (dump_json ''/r/configs/workflows/baseline.json'' demo_workflow Map.empty)"

lemma config_contract_witness:
  "\<exists>cfg. config \<lparr>oe_root = ''/r'', oe_workflow = None, oe_config_path = None\<rparr> demo_store None None = Inr cfg \<and>
     contract_typed cfg \<and>
     dict_get ''build_dir'' (items (cfg_paths cfg)) = Some (PStr ''build/targets/linux/baseline/testcases'')"
proof -
  let ?oe = "\<lparr>oe_root = ''/r'', oe_workflow = None, oe_config_path = None\<rparr>"
  have "is_ok (config ?oe demo_store None None)" by code_simp
  then obtain cfg where c: "config ?oe demo_store None None = Inr cfg" by (auto simp: is_ok_iff)
  have p: "resolved_config_path ?oe demo_store None None = Inr ''/r/configs/workflows/baseline.json''" by code_simp
  have o: "is_repo_owned_canonical_workflow ''/r/configs/workflows/baseline.json'' (oe_root ?oe)" by code_simp
  have l: "load_json ''/r/configs/workflows/baseline.json'' demo_store = Inr (sort_dicts demo_workflow)" by code_simp
  have t: "target_name (sort_dicts demo_workflow) \<notin> set (''target_config'' # ALLOWED_TOP_LEVEL_KEYS)" by code_simp
  have "parent_name ''/r/configs/workflows/baseline.json'' = ''workflows''"
    "canonical_path (target_workflow (sort_dicts demo_workflow)) ''build_dir'' = Some ''build/targets/linux/baseline/testcases''"
    by code_simp+
  with config_contract [OF c p o l t] c show ?thesis by blast
qed

end
