(* ===== verification/VmRunner.thy ===== *)
theory VmRunner
  imports Contract Trace
begin

text \<open>
  Running one program on one side (\<open>runners/command.py\<close>, \<open>runners/factory.py\<close>,
  \<open>orchestrator/execution_context.py\<close>, \<open>orchestrator/vm_runner.py\<close>): the command runner and its
  classification of exit codes, the clean slate a case starts from, the command line, the merge of
  the process outcome with the runner's own result file, the recovery of trace events from files and
  framed output, and the artifacts a run leaves.

  Files are the store of \<open>Json\<close>. The process is the environment: it maps the command, its
  directory, variables and time limit and the store it finds to an outcome and the store it leaves.
  Files the runner copies or writes never fail; the bytes of a partial output are decoded by a
  parameter. The limiter that bounds concurrent runs is the theory \<open>Limiter\<close>.
\<close>

section \<open>The command runner\<close>

text \<open>\<open>subprocess\<close> under \<open>text=True\<close>; the output of an expired process may still be bytes.\<close>

datatype stream = Str string | Bytes string

datatype proc_outcome =
    Exited int string string
  | Expired "string option" "string option" "stream option" "stream option"
  | Refused string

record runner_execution =
  ex_returncode :: "int option"
  ex_stdout :: stream
  ex_stderr :: stream
  ex_timed_out :: bool
  ex_os_error :: "string option"
  ex_status :: "string option"

definition panic_indicators :: "string list" where
  "panic_indicators = [''panicked at'', ''Printing stack trace:'', ''kernel panic'', ''Kernel panic'',
     ''segfault'', ''SIGSEGV'', ''SIGILL'', ''SIGABRT'']"

definition classify_returncode :: "int option \<Rightarrow> string \<Rightarrow> string \<Rightarrow> ExecutionStatus" where
  "classify_returncode returncode stdout stderr =
     (case returncode of
        Some rc \<Rightarrow>
          if rc = 0 then OK
          else if list_ex (contains (stdout @ stderr)) panic_indicators then CANDIDATE_BUG
          else INFRA_ERROR
      | None \<Rightarrow> INFRA_ERROR)"

text \<open>\<open>a or b or ""\<close> on captured streams.\<close>

definition stream_or :: "string option \<Rightarrow> stream option \<Rightarrow> stream" where
  "stream_or a b =
     (if a \<noteq> None \<and> a \<noteq> Some [] then Str (the a)
      else case b of Some x \<Rightarrow> if x = Bytes [] then Str [] else x | None \<Rightarrow> Str [])"

definition command_run_case :: "proc_outcome \<Rightarrow> runner_execution" where
  "command_run_case p = (case p of
       Exited rc out err \<Rightarrow>
         \<lparr>ex_returncode = Some rc, ex_stdout = Str out, ex_stderr = Str err, ex_timed_out = False,
          ex_os_error = None, ex_status = Some (status_str (classify_returncode (Some rc) out err))\<rparr>
     | Expired out err exc_out exc_err \<Rightarrow>
         \<lparr>ex_returncode = None, ex_stdout = stream_or out exc_out, ex_stderr = stream_or err exc_err,
          ex_timed_out = True, ex_os_error = None, ex_status = None\<rparr>
     | Refused e \<Rightarrow>
         \<lparr>ex_returncode = None, ex_stdout = Str [], ex_stderr = Str e, ex_timed_out = False,
          ex_os_error = Some e, ex_status = None\<rparr>)"

text \<open>Both registered kinds build a \<open>CommandRunner\<close>.\<close>

definition build_runner :: "pyval \<Rightarrow> unit res" where
  "build_runner profile =
     (let v = py_get ''kind'' PNone profile; kind = py_str (if truthy v then v else PStr ''local'') in
      require (kind \<in> set available_runner_kinds) (ValueError (''unsupported runner kind: '' @ kind)))"

section \<open>The execution context and the command line\<close>

record execution_context =
  ec_program_id :: string
  ec_side :: string
  ec_run_id :: string
  ec_timeout_sec :: int
  ec_sandbox_root :: string
  ec_artifact_root :: string
  ec_binary_path :: string
  ec_stdout_path :: string
  ec_stderr_path :: string
  ec_console_path :: string
  ec_events_path :: string
  ec_raw_trace_path :: string
  ec_external_state_path :: string
  ec_runner_result_path :: string
  ec_batch_manifest_path :: "string option"

definition to_command_context :: "string \<Rightarrow> execution_context \<Rightarrow> (string, string) dict" where
  "to_command_context base_dir c =
     [(''program_id'', ec_program_id c), (''side'', ec_side c), (''run_id'', ec_run_id c),
      (''repo_root'', base_dir), (''timeout_sec'', int_str (ec_timeout_sec c)),
      (''sandbox_root'', ec_sandbox_root c), (''artifact_root'', ec_artifact_root c),
      (''binary_path'', ec_binary_path c), (''stdout_path'', ec_stdout_path c),
      (''stderr_path'', ec_stderr_path c), (''console_path'', ec_console_path c),
      (''events_path'', ec_events_path c), (''raw_trace_path'', ec_raw_trace_path c),
      (''external_state_path'', ec_external_state_path c),
      (''runner_result_path'', ec_runner_result_path c),
      (''batch_manifest_path'', opt_default [] (ec_batch_manifest_path c))]"

text \<open>
  \<open>str.format\<close> with named fields: doubled braces stand for themselves. Attributes, indexes,
  conversions and format specifications are not modelled.
\<close>

function py_format :: "(string, string) dict \<Rightarrow> string \<Rightarrow> string res" where
  "py_format vars [] = Inr []"
| "py_format vars (c # s) =
     (if c = CHR ''{'' then
        (if s = [] then Inl (ValueError ''Single { encountered in format string'')
         else if hd s = CHR ''{'' then bind (py_format vars (tl s)) (\<lambda>r. Inr (CHR ''{'' # r))
         else if CHR ''}'' \<notin> set s then Inl (ValueError ''expected } before end of string'')
         else (let name = takeWhile (\<lambda>x. x \<noteq> CHR ''}'') s in
           if list_ex (\<lambda>x. x \<in> set ''.[!:{'') name then Inl (NotImplementedErr ''format specification'')
           else if name = [] \<or> list_all is_digit name then Inl IndexError
           else bind (opt_res (KeyError name) (dict_get name vars)) (\<lambda>v.
                bind (py_format vars (tl (dropWhile (\<lambda>x. x \<noteq> CHR ''}'') s))) (\<lambda>r. Inr (v @ r)))))
      else if c = CHR ''}'' then
        (if s \<noteq> [] \<and> hd s = CHR ''}'' then bind (py_format vars (tl s)) (\<lambda>r. Inr (CHR ''}'' # r))
         else Inl (ValueError ''Single } encountered in format string''))
      else bind (py_format vars s) (\<lambda>r. Inr (c # r)))"
  by pat_completeness auto
termination
  by (relation "measure (\<lambda>(vars, s). length s)")
    (auto simp: length_dropWhile_le le_imp_less_Suc less_imp_diff_less)

definition shell_space :: "char \<Rightarrow> bool" where
  "shell_space c = (c \<in> {CHR '' '', CHR 0x09, CHR 0x0D, CHR 0x0A})"

text \<open>\<open>shlex.split\<close>: the open quote, the word being read (\<open>None\<close> between words), the text.\<close>

fun shlex_loop :: "char option \<Rightarrow> string option \<Rightarrow> string \<Rightarrow> string list res" where
  "shlex_loop None cur [] = Inr (case cur of None \<Rightarrow> [] | Some w \<Rightarrow> [w])"
| "shlex_loop (Some q) cur [] = Inl (ValueError ''No closing quotation'')"
| "shlex_loop None cur (c # s) =
     (if shell_space c then
        bind (shlex_loop None None s) (\<lambda>ws. Inr (case cur of None \<Rightarrow> ws | Some w \<Rightarrow> w # ws))
      else if c = CHR 0x5C then
        (case s of [] \<Rightarrow> Inl (ValueError ''No escaped character'')
         | d # t \<Rightarrow> shlex_loop None (Some (opt_default [] cur @ [d])) t)
      else if c = CHR 0x22 \<or> c = CHR 0x27 then shlex_loop (Some c) (Some (opt_default [] cur)) s
      else shlex_loop None (Some (opt_default [] cur @ [c])) s)"
| "shlex_loop (Some q) cur (c # s) =
     (if c = q then shlex_loop None cur s
      else if c = CHR 0x5C \<and> q = CHR 0x22 then
        (case s of [] \<Rightarrow> Inl (ValueError ''No escaped character'')
         | d # t \<Rightarrow> shlex_loop (Some q)
             (Some (opt_default [] cur @ (if d = CHR 0x5C \<or> d = q then [d] else [CHR 0x5C, d]))) t)
      else shlex_loop (Some q) (Some (opt_default [] cur @ [c])) s)"

definition shlex_split :: "string \<Rightarrow> string list res" where
  "shlex_split s = shlex_loop None None s"

definition resolve_command :: "pyval \<Rightarrow> (string, string) dict \<Rightarrow> string \<Rightarrow> string list res" where
  "resolve_command profile vars key =
     (let command = py_get key PNone profile in
      if \<not> truthy command then Inl (ValueError (''command runner profile is missing `'' @ key @ ''`''))
      else case command of
        PStr s \<Rightarrow> bind (shlex_split s) (map_res (py_format vars))
      | PList vs \<Rightarrow> map_res (\<lambda>v. py_format vars (py_str v)) vs
      | _ \<Rightarrow> Inl (TypeError ''unsupported command profile type''))"

section \<open>Merging the outcome\<close>

record case_outcome =
  oc_status :: string
  oc_exit_code :: pyval
  oc_stdout :: string
  oc_stderr :: string
  oc_status_detail :: pyval
  oc_kernel_build :: string

definition classify_process_returncode :: "int \<Rightarrow> string" where
  "classify_process_returncode returncode = (if returncode < 0 then ''crash'' else ''ok'')"

definition opt_int :: "int option \<Rightarrow> pyval" where
  "opt_int x = (case x of None \<Rightarrow> PNone | Some i \<Rightarrow> PInt i)"

definition opt_str :: "string option \<Rightarrow> pyval" where
  "opt_str x = (case x of None \<Rightarrow> PNone | Some s \<Rightarrow> PStr s)"

definition process_status :: "string \<Rightarrow> int option \<Rightarrow> string option \<Rightarrow> string" where
  "process_status profile_kind completed_returncode execution_status =
     (case execution_status of
        Some s \<Rightarrow> s
      | None \<Rightarrow>
          if profile_kind = ''command'' then (if completed_returncode = Some 0 then ''ok'' else ''infra_error'')
          else classify_process_returncode (opt_default 0 completed_returncode))"

definition finalize_process_result ::
  "string \<Rightarrow> int option \<Rightarrow> string option \<Rightarrow> pyval option \<Rightarrow> string \<Rightarrow>
   (string \<times> pyval \<times> pyval \<times> string) res" where
  "finalize_process_result profile_kind completed_returncode execution_status runner_result fallback_kernel_build =
     (let status = process_status profile_kind completed_returncode execution_status;
          exit_code = opt_int completed_returncode in
      case runner_result of
        None \<Rightarrow> Inr (status, exit_code, PNone, fallback_kernel_build)
      | Some r \<Rightarrow>
          if \<not> truthy r then Inr (status, exit_code, PNone, fallback_kernel_build)
          else bind (as_dict r) (\<lambda>d.
            let detail = py_get ''status_detail'' PNone r in
            Inr (py_str (py_get ''status'' (PStr status) r), py_get ''exit_code'' exit_code r,
                 if truthy detail then detail else py_get ''detail'' PNone r,
                 py_str (py_get ''kernel_build'' (PStr fallback_kernel_build) r))))"

definition load_runner_result :: "string \<Rightarrow> store \<Rightarrow> pyval option res" where
  "load_runner_result path st =
     (case st path of None \<Rightarrow> Inr None | Some t \<Rightarrow> bind (json_loads t) (\<lambda>v. Inr (Some v)))"

text \<open>What \<open>rglob\<close> lists, in its sorted order; \<open>None\<close> where the system refuses.\<close>

record sandbox_entry =
  sb_relative :: string
  sb_is_file :: "bool option"
  sb_size :: "nat option"
  sb_content :: "string option"

record vm_call =
  vc_command :: "string list"
  vc_cwd :: string
  vc_env :: "(string, string) dict"
  vc_timeout_sec :: int

record vm_env =
  ve_run :: "vm_call \<Rightarrow> store \<Rightarrow> proc_outcome \<times> store"
  ve_decode :: "string \<Rightarrow> string"
  ve_kernel_build :: "string \<Rightarrow> string res"
  ve_elapsed_ms :: int
  ve_root :: string
  ve_environ :: "(string, string) dict"
  ve_sandbox :: "string \<Rightarrow> store \<Rightarrow> sandbox_entry list"
  ve_sha256 :: "string \<Rightarrow> string"

definition safe_kernel_build :: "vm_env \<Rightarrow> string \<Rightarrow> string" where
  "safe_kernel_build env command = (case ve_kernel_build env command of Inr s \<Rightarrow> s | Inl _ \<Rightarrow> ''unknown'')"

definition decode_stream :: "vm_env \<Rightarrow> stream \<Rightarrow> string" where
  "decode_stream env s = (case s of Str t \<Rightarrow> t | Bytes b \<Rightarrow> ve_decode env b)"

text \<open>
  The whole of one case: the result file is read even when the process expired or never started,
  and an unreadable one is not caught. An expired or refused process overrides what it says, but
  for the exit code.
\<close>

definition run_case_core ::
  "vm_env \<Rightarrow> vm_call \<Rightarrow> string \<Rightarrow> string \<Rightarrow> string \<Rightarrow> store \<Rightarrow> (case_outcome \<times> store) res" where
  "run_case_core env call kernel_build_command profile_kind runner_result_path st =
     (case ve_run env call st of (p, st') \<Rightarrow>
      let execution = command_run_case p; kernel_build = safe_kernel_build env kernel_build_command in
      bind (load_runner_result runner_result_path st') (\<lambda>runner_result.
      bind (finalize_process_result profile_kind (ex_returncode execution) (ex_status execution)
              runner_result kernel_build) (\<lambda>(status, exit_code, detail, kb).
      let stdout = decode_stream env (ex_stdout execution); stderr = decode_stream env (ex_stderr execution) in
      Inr (if ex_timed_out execution then
             \<lparr>oc_status = status_str TIMEOUT, oc_exit_code = exit_code, oc_stdout = stdout, oc_stderr = stderr,
              oc_status_detail = PNone, oc_kernel_build = kernel_build\<rparr>
           else (case ex_os_error execution of
             Some m \<Rightarrow>
               \<lparr>oc_status = status_str INFRA_ERROR, oc_exit_code = exit_code, oc_stdout = [], oc_stderr = m,
                oc_status_detail = PStr m, oc_kernel_build = kernel_build\<rparr>
           | None \<Rightarrow>
               \<lparr>oc_status = status, oc_exit_code = exit_code, oc_stdout = stdout, oc_stderr = stderr,
                oc_status_detail = detail, oc_kernel_build = kb\<rparr>), st'))))"

section \<open>Trace events\<close>

definition TRACE_EVENT_STDOUT_PREFIX :: string where
  "TRACE_EVENT_STDOUT_PREFIX = ''__SYZABI_TRACE_EVENT__ ''"

definition parse_events :: "string \<Rightarrow> store \<Rightarrow> pyval list res" where
  "parse_events path st =
     (case st path of None \<Rightarrow> Inr []
      | Some t \<Rightarrow> map_res json_loads (filter (\<lambda>l. l \<noteq> []) (map strip (splitlines t))))"

text \<open>Leading colour sequences are dropped; an unfinished one ends the loop.\<close>

function drop_ansi :: "string \<Rightarrow> string" where
  "drop_ansi s =
     (if startswith s [CHR 0x1B, CHR ''[''] \<and> CHR ''m'' \<in> set (drop 2 s)
      then drop_ansi (tl (dropWhile (\<lambda>c. c \<noteq> CHR ''m'') (drop 2 s))) else s)"
  by pat_completeness auto
termination
proof (relation "measure length")
  fix s :: string
  assume "startswith s [CHR 0x1B, CHR ''[''] \<and> CHR ''m'' \<in> set (drop 2 s)"
  then have "drop 2 s \<noteq> []" by auto
  moreover have "length (dropWhile (\<lambda>c. c \<noteq> CHR ''m'') (drop 2 s)) \<le> length (drop 2 s)" by (rule length_dropWhile_le)
  ultimately have "length (tl (dropWhile (\<lambda>c. c \<noteq> CHR ''m'') (drop 2 s))) < length s"
    by (cases s; cases "tl s") auto
  then show "(tl (dropWhile (\<lambda>c. c \<noteq> CHR ''m'') (drop 2 s)), s) \<in> measure length" by simp
qed simp

declare drop_ansi.simps [simp del]

definition frame_payload :: "string \<Rightarrow> string option" where
  "frame_payload raw_line =
     (let cleaned = drop_ansi raw_line in
      if \<not> startswith cleaned TRACE_EVENT_STDOUT_PREFIX then None
      else let payload = strip (drop (length TRACE_EVENT_STDOUT_PREFIX) cleaned) in
        if payload = [] then None else Some payload)"

definition extract_framed_events :: "string \<Rightarrow> pyval list res" where
  "extract_framed_events t = map_res json_loads (List.map_filter frame_payload (splitlines t))"

text \<open>\<open>if digest in seen: continue\<close>; the digest of an event is its compact sorted text.\<close>

fun dedup_events :: "string list \<Rightarrow> pyval list \<Rightarrow> pyval list" where
  "dedup_events seen [] = []"
| "dedup_events seen (e # es) =
     (let digest = json_dumps False e in
      if digest \<in> set seen then dedup_events seen es else e # dedup_events (digest # seen) es)"

text \<open>Only \<open>JSONDecodeError\<close> is caught, from the file of events; not from the framed ones.\<close>

definition file_events :: "string \<Rightarrow> store \<Rightarrow> pyval list res" where
  "file_events events_path st =
     (case parse_events events_path st of Inl (ValueError _) \<Rightarrow> Inr [] | r \<Rightarrow> r)"

definition persisted_trace_events ::
  "pyval \<Rightarrow> string \<Rightarrow> string \<Rightarrow> string \<Rightarrow> string \<Rightarrow> store \<Rightarrow> (pyval list \<times> store) res" where
  "persisted_trace_events cfg events_path stdout_text stderr_text console_path st =
     bind (file_events events_path st) (\<lambda>evs.
     if evs \<noteq> [] then Inr (evs, st) else
     bind (trace_events_transport cfg) (\<lambda>transport.
     if transport \<noteq> ''stdout'' then Inr ([], st) else
     bind (map_res extract_framed_events
            ([stdout_text, stderr_text] @ (case st console_path of None \<Rightarrow> [] | Some c \<Rightarrow> [c]))) (\<lambda>ess.
     let extracted = dedup_events [] (concat ess) in
     Inr (extracted,
       if extracted \<noteq> [] \<and> st events_path = None
       then st(events_path \<mapsto> concat (map (\<lambda>e. json_dumps False e @ newline) extracted)) else st))))"

definition trace_events_destination :: "pyval \<Rightarrow> string \<Rightarrow> string res" where
  "trace_events_destination cfg events_path =
     bind (trace_events_transport cfg) (\<lambda>transport.
     Inr (if transport = ''stdout'' then ''stdout'' else events_path))"

section \<open>The raw trace of a case\<close>

definition RAW_TRACE_REQUIRED :: "string list" where
  "RAW_TRACE_REQUIRED = [''program_id'', ''side'', ''run_id'', ''status'', ''events'', ''process_exit'']"

fun check_event_indexes :: "int \<Rightarrow> pyval list \<Rightarrow> unit res" where
  "check_event_indexes previous [] = Inr ()"
| "check_event_indexes previous (e # es) =
     bind (py_item ''event_index'' e) (\<lambda>v.
     bind (if is_int v then py_int v else Inl (TypeError ''event_index'')) (\<lambda>i.
     if i \<le> previous then Inl (ValueError ''raw trace event indexes are not strictly increasing'')
     else check_event_indexes i es))"

text \<open>\<open>validate_raw_trace\<close> on the loaded document.\<close>

definition validate_raw_document :: "pyval \<Rightarrow> unit res" where
  "validate_raw_document payload =
     bind (as_dict payload) (\<lambda>d.
     if \<not> list_all (\<lambda>k. dict_get k d \<noteq> None) RAW_TRACE_REQUIRED
     then Inl (ValueError ''raw trace missing fields'')
     else case dict_get ''events'' d of
       Some (PList es) \<Rightarrow> check_event_indexes (- 1) es
     | v \<Rightarrow> require (v \<in> {Some (PDict []), Some (PStr [])}) (TypeError ''events''))"

definition raw_trace_payload :: "string \<Rightarrow> string \<Rightarrow> string \<Rightarrow> string \<Rightarrow> pyval \<Rightarrow> pyval list \<Rightarrow> pyval" where
  "raw_trace_payload program_id side run_id status exit_code events =
     PDict [(''program_id'', PStr program_id), (''side'', PStr side), (''run_id'', PStr run_id),
       (''status'', PStr status), (''events'', PList events),
       (''process_exit'', PDict [(''status'', PStr status), (''exit_code'', exit_code),
          (''timed_out'', PBool (status = status_str TIMEOUT))])]"

record artifact_paths =
  ap_stdout :: string
  ap_stderr :: string
  ap_console :: string
  ap_events :: string
  ap_raw_trace :: string
  ap_external_state :: string
  ap_runner_result :: string
  ap_binary :: string
  ap_run_result :: string

definition artifact_files :: "string \<Rightarrow> string \<Rightarrow> artifact_paths" where
  "artifact_files artifact_root binary_name =
     \<lparr>ap_stdout = pjoin artifact_root ''stdout.txt'', ap_stderr = pjoin artifact_root ''stderr.txt'',
      ap_console = pjoin artifact_root ''console.log'',
      ap_events = pjoin artifact_root ''raw-trace.events.jsonl'',
      ap_raw_trace = pjoin artifact_root ''raw-trace.json'',
      ap_external_state = pjoin artifact_root ''external-state.json'',
      ap_runner_result = pjoin artifact_root ''runner-result.json'',
      ap_binary = pjoin artifact_root binary_name, ap_run_result = pjoin artifact_root ''run-result.json''\<rparr>"

definition build_and_persist_raw_trace ::
  "pyval \<Rightarrow> string \<Rightarrow> string \<Rightarrow> string \<Rightarrow> string \<Rightarrow> pyval \<Rightarrow> artifact_paths \<Rightarrow> string \<Rightarrow> string \<Rightarrow> store \<Rightarrow> store res" where
  "build_and_persist_raw_trace cfg program_id side run_id status exit_code ap stdout_text stderr_text st =
     (if st (ap_raw_trace ap) \<noteq> None then
        bind (load_json (ap_raw_trace ap) st) (\<lambda>v. bind (validate_raw_document v) (\<lambda>_. Inr st))
      else
        bind (persisted_trace_events cfg (ap_events ap) stdout_text stderr_text (ap_console ap) st) (\<lambda>(events, st').
        let raw_trace = raw_trace_payload program_id side run_id status exit_code events in
        bind (validate_raw_document raw_trace) (\<lambda>_. Inr (dump_json (ap_raw_trace ap) raw_trace st'))))"

text \<open>\<open>if not path.exists(): path.write_text(..)\<close>\<close>

definition write_new :: "string \<Rightarrow> string \<Rightarrow> store \<Rightarrow> store" where
  "write_new path t st = (if st path = None then st(path \<mapsto> t) else st)"

definition persist_case_outputs :: "string \<Rightarrow> string \<Rightarrow> artifact_paths \<Rightarrow> pyval \<Rightarrow> store \<Rightarrow> store" where
  "persist_case_outputs stdout stderr ap console_meta st =
     write_new (ap_console ap) (json_dumps True console_meta @ newline)
       (write_new (ap_stderr ap) stderr (write_new (ap_stdout ap) stdout st))"

section \<open>The state of the sandbox\<close>

record sample_limits =
  sl_max_files :: int
  sl_max_total_size :: int
  sl_max_file_sample :: int

definition sample_limits_of :: "pyval \<Rightarrow> sample_limits res" where
  "sample_limits_of limits =
     bind (py_int (py_get ''max_files'' (PInt 1000) limits)) (\<lambda>f.
     bind (py_int (py_get ''max_total_size_bytes'' (PInt 104857600) limits)) (\<lambda>t.
     bind (py_int (py_get ''max_file_sample_bytes'' (PInt 4096) limits)) (\<lambda>s.
     Inr \<lparr>sl_max_files = f, sl_max_total_size = t, sl_max_file_sample = s\<rparr>)))"

text \<open>\<open>s[:n]\<close>.\<close>

definition slice_to :: "int \<Rightarrow> string \<Rightarrow> string" where
  "slice_to n s = (if 0 \<le> n then take (nat n) s else take (length s - nat (- n)) s)"

definition sample_item :: "(string \<Rightarrow> string) \<Rightarrow> sample_limits \<Rightarrow> sandbox_entry \<Rightarrow> nat \<Rightarrow> file_item" where
  "sample_item sha bounds e file_size = (case sb_content e of
       Some c \<Rightarrow> \<lparr>fi_path = sb_relative e, fi_size = int file_size,
                  fi_sha256 = Some (sha (slice_to (sl_max_file_sample bounds) c)), fi_read_error = None\<rparr>
     | None \<Rightarrow> \<lparr>fi_path = sb_relative e, fi_size = int file_size, fi_sha256 = None,
                  fi_read_error = Some ''permission_denied''\<rparr>)"

fun sample_loop ::
  "(string \<Rightarrow> string) \<Rightarrow> sample_limits \<Rightarrow> file_item list \<Rightarrow> int \<Rightarrow> sandbox_entry list \<Rightarrow> file_item list \<times> bool" where
  "sample_loop sha bounds files total_size [] = (files, False)"
| "sample_loop sha bounds files total_size (e # es) =
     (if sl_max_files bounds \<le> int (length files) then (files, True)
      else case (sb_is_file e, sb_size e) of
        (Some True, Some n) \<Rightarrow>
          if sl_max_total_size bounds < total_size + int n then (files, True)
          else sample_loop sha bounds (files @ [sample_item sha bounds e n]) (total_size + int n) es
      | _ \<Rightarrow> sample_loop sha bounds files total_size es)"

definition sample_external_state :: "(string \<Rightarrow> string) \<Rightarrow> pyval \<Rightarrow> sandbox_entry list \<Rightarrow> ext_state res" where
  "sample_external_state sha limits entries =
     bind (sample_limits_of limits) (\<lambda>bounds.
     let (files, truncated) = sample_loop sha bounds [] 0 entries in
     Inr \<lparr>es_files = files, es_truncated = truncated, es_read_error = None\<rparr>)"

text \<open>The dictionary it returns, as it is stored.\<close>

definition file_item_doc :: "file_item \<Rightarrow> pyval" where
  "file_item_doc f = PDict ([(''path'', PStr (fi_path f)), (''size'', PInt (fi_size f)), (''sha256'', opt_str (fi_sha256 f))] @
     (case fi_read_error f of None \<Rightarrow> [] | Some m \<Rightarrow> [(''read_error'', PStr m)]))"

definition ext_state_doc :: "ext_state \<Rightarrow> pyval" where
  "ext_state_doc s = PDict ([(''files'', PList (map file_item_doc (es_files s)))] @
     (if es_truncated s then [(''truncated'', PBool True)] else []))"

section \<open>Running a side\<close>

text \<open>\<open>temp_dir\<close> and \<open>env_with_temp\<close> of \<open>core/environment.py\<close>.\<close>

definition temp_dir :: "vm_env \<Rightarrow> pyval option \<Rightarrow> string res" where
  "temp_dir env cfg = (case cfg of
       Some c \<Rightarrow> resolved (ve_root env) c ''temp_dir'' (PStr ''artifacts/tmp'')
     | None \<Rightarrow> Inr (case dict_get ''SYZABI_TMPDIR'' (ve_environ env) of
         Some (c # p) \<Rightarrow> c # p | _ \<Rightarrow> ''/tmp''))"

definition env_with_temp :: "vm_env \<Rightarrow> pyval option \<Rightarrow> (string, string) dict res" where
  "env_with_temp env cfg = bind (temp_dir env cfg) (\<lambda>d. Inr (dict_set ''TMPDIR'' d (ve_environ env)))"

definition inject_env :: "pyval option \<Rightarrow> (string, string) dict" where
  "inject_env inject = (case inject of
       None \<Rightarrow> []
     | Some t \<Rightarrow> if \<not> truthy t then [] else
        [(''SYZABI_INJECT_TRACE_ENABLED'', ''1''),
         (''SYZABI_INJECT_TRACE_CALL_INDEX'', py_str (py_get ''call_index'' (PInt (- 1)) t)),
         (''SYZABI_INJECT_TRACE_SYSCALL'', py_str (py_get ''syscall_name'' (PStr []) t)),
         (''SYZABI_INJECT_TRACE_FIELD'', py_str (py_get ''field'' (PStr ''return'') t)),
         (''SYZABI_INJECT_TRACE_VALUE'', py_str (py_get ''value'' (PInt 0) t))])"

definition case_env ::
  "string \<Rightarrow> string \<Rightarrow> string \<Rightarrow> string \<Rightarrow> string \<Rightarrow> string \<Rightarrow> artifact_paths \<Rightarrow> (string, string) dict" where
  "case_env side program_id run_id events_dest preview sandbox_root ap =
     [(''SYZABI_SIDE'', side), (''SYZABI_PROGRAM_ID'', program_id), (''SYZABI_RUN_ID'', run_id),
      (''SYZABI_TRACE_EVENTS_PATH'', events_dest), (''SYZABI_TRACE_PREVIEW_BYTES'', preview),
      (''SYZABI_RUNNER_RESULT_PATH'', ap_runner_result ap), (''SYZABI_WORK_DIR'', sandbox_root),
      (''SYZABI_BINARY_PATH'', ap_binary ap), (''SYZABI_STDOUT_PATH'', ap_stdout ap),
      (''SYZABI_STDERR_PATH'', ap_stderr ap), (''SYZABI_CONSOLE_LOG_PATH'', ap_console ap),
      (''SYZABI_RAW_TRACE_PATH'', ap_raw_trace ap), (''SYZABI_EXTERNAL_STATE_PATH'', ap_external_state ap)]"

definition BUILD_FILES :: "string list" where
  "BUILD_FILES = [''testcase.c'', ''testcase.instrumented.c'', ''testcase.bin'', ''testcase.candidate.bin'', ''build-result.json'']"

definition copy_if_exists :: "string \<Rightarrow> string \<Rightarrow> store \<Rightarrow> store" where
  "copy_if_exists src dst st = (case st src of None \<Rightarrow> st | Some t \<Rightarrow> st(dst \<mapsto> t))"

definition unlink :: "string \<Rightarrow> store \<Rightarrow> store" where
  "unlink path st = st(path := None)"

definition clean_dir :: "string \<Rightarrow> store \<Rightarrow> store" where
  "clean_dir dir st = (\<lambda>p. if startswith p (dir @ ''/'') then None else st p)"

definition stale_paths :: "artifact_paths \<Rightarrow> string list" where
  "stale_paths ap = [ap_events ap, ap_raw_trace ap, ap_external_state ap, ap_stdout ap, ap_stderr ap,
     ap_console ap, ap_runner_result ap]"

text \<open>The sandbox is emptied, the build files copied, every file an earlier run may have left removed.\<close>

definition prepare_store :: "string \<Rightarrow> string \<Rightarrow> string \<Rightarrow> artifact_paths \<Rightarrow> store \<Rightarrow> store" where
  "prepare_store sandbox_root build_root artifact_root ap st =
     fold unlink (stale_paths ap)
       (fold (\<lambda>name. copy_if_exists (pjoin build_root name) (pjoin artifact_root name)) BUILD_FILES
         (clean_dir sandbox_root st))"

record case_setup =
  cu_profile :: pyval
  cu_timeout_sec :: int
  cu_artifact_root :: string
  cu_build_root :: string
  cu_sandbox_root :: string
  cu_paths :: artifact_paths

definition case_dir :: "string \<Rightarrow> string \<Rightarrow> string \<Rightarrow> string" where
  "case_dir base program_id run_id = pjoin (pjoin base program_id) run_id"

definition setup_case :: "vm_env \<Rightarrow> pyval \<Rightarrow> pyval \<Rightarrow> string \<Rightarrow> string \<Rightarrow> int \<Rightarrow> string \<Rightarrow> case_setup res" where
  "setup_case env cfg profiles program_id side timeout_sec run_id =
     bind (py_item side profiles) (\<lambda>profile.
     bind (py_int (py_get ''timeout_sec'' (PInt timeout_sec) profile)) (\<lambda>effective_timeout_sec.
     bind (py_item ''paths'' cfg) (\<lambda>paths.
     bind (str_item ''artifacts_dir'' paths) (\<lambda>artifacts_dir.
     let binary_name = py_str (py_get ''binary_name'' (PStr ''testcase.bin'') profile);
         artifact_root = resolve_repo_path (ve_root env) (pjoin (case_dir artifacts_dir program_id run_id) side) in
     bind (resolved (ve_root env) cfg ''build_dir'' PNone) (\<lambda>build_dir.
     bind (str_item ''work_root'' profile) (\<lambda>work_root.
     Inr \<lparr>cu_profile = profile, cu_timeout_sec = effective_timeout_sec, cu_artifact_root = artifact_root,
          cu_build_root = pjoin build_dir program_id,
          cu_sandbox_root = resolve_repo_path (ve_root env) (case_dir work_root program_id run_id),
          cu_paths = artifact_files artifact_root binary_name\<rparr>))))))"

definition context_of :: "string \<Rightarrow> string \<Rightarrow> string \<Rightarrow> case_setup \<Rightarrow> execution_context" where
  "context_of program_id side run_id u =
     \<lparr>ec_program_id = program_id, ec_side = side, ec_run_id = run_id, ec_timeout_sec = cu_timeout_sec u,
      ec_sandbox_root = cu_sandbox_root u, ec_artifact_root = cu_artifact_root u,
      ec_binary_path = ap_binary (cu_paths u), ec_stdout_path = ap_stdout (cu_paths u),
      ec_stderr_path = ap_stderr (cu_paths u), ec_console_path = ap_console (cu_paths u),
      ec_events_path = ap_events (cu_paths u), ec_raw_trace_path = ap_raw_trace (cu_paths u),
      ec_external_state_path = ap_external_state (cu_paths u),
      ec_runner_result_path = ap_runner_result (cu_paths u), ec_batch_manifest_path = None\<rparr>"

text \<open>The variables and the command of the call.\<close>

definition side_call ::
  "vm_env \<Rightarrow> pyval \<Rightarrow> string \<Rightarrow> string \<Rightarrow> string \<Rightarrow> pyval option \<Rightarrow> case_setup \<Rightarrow> vm_call res" where
  "side_call env cfg program_id side run_id inject u =
     bind (env_with_temp env None) (\<lambda>base.
     bind (trace_events_destination cfg (ap_events (cu_paths u))) (\<lambda>dest.
     bind (py_item ''normalization'' cfg) (\<lambda>normalization.
     bind (py_item ''preview_bytes'' normalization) (\<lambda>preview.
     bind (if py_get ''kind'' (PStr ''local'') (cu_profile u) = PStr ''command''
           then resolve_command (cu_profile u)
             (to_command_context (ve_root env) (context_of program_id side run_id u)) ''command''
           else Inr [ap_binary (cu_paths u)]) (\<lambda>command.
     Inr \<lparr>vc_command = command, vc_cwd = cu_sandbox_root u,
          vc_env = dict_merge (dict_merge base
            (case_env side program_id run_id dest (py_str preview) (cu_sandbox_root u) (cu_paths u))) (inject_env inject),
          vc_timeout_sec = cu_timeout_sec u\<rparr>)))))"

record vm_result =
  vr_program_id :: string
  vr_side :: string
  vr_status :: string
  vr_exit_code :: pyval
  vr_stdout_path :: string
  vr_stderr_path :: string
  vr_console_log_path :: string
  vr_trace_json_path :: string
  vr_external_state_path :: string
  vr_elapsed_ms :: int
  vr_role :: pyval
  vr_snapshot_id :: pyval
  vr_kernel_build :: string
  vr_run_id :: string
  vr_status_detail :: pyval
  vr_runner_kind :: pyval

definition vm_result_doc :: "vm_result \<Rightarrow> pyval" where
  "vm_result_doc r = PDict
     [(''program_id'', PStr (vr_program_id r)), (''side'', PStr (vr_side r)), (''status'', PStr (vr_status r)),
      (''exit_code'', vr_exit_code r), (''stdout_path'', PStr (vr_stdout_path r)),
      (''stderr_path'', PStr (vr_stderr_path r)), (''console_log_path'', PStr (vr_console_log_path r)),
      (''trace_json_path'', PStr (vr_trace_json_path r)),
      (''external_state_path'', PStr (vr_external_state_path r)), (''elapsed_ms'', PInt (vr_elapsed_ms r)),
      (''role'', vr_role r), (''snapshot_id'', vr_snapshot_id r), (''kernel_build'', PStr (vr_kernel_build r)),
      (''run_id'', PStr (vr_run_id r)), (''status_detail'', vr_status_detail r), (''runner_kind'', vr_runner_kind r)]"

definition result_of ::
  "vm_env \<Rightarrow> string \<Rightarrow> string \<Rightarrow> string \<Rightarrow> artifact_paths \<Rightarrow> case_outcome \<Rightarrow> pyval \<Rightarrow> pyval \<Rightarrow> pyval \<Rightarrow> vm_result" where
  "result_of env program_id side run_id ap oc role snapshot_id runner_kind =
     \<lparr>vr_program_id = program_id, vr_side = side, vr_status = oc_status oc, vr_exit_code = oc_exit_code oc,
      vr_stdout_path = ap_stdout ap, vr_stderr_path = ap_stderr ap, vr_console_log_path = ap_console ap,
      vr_trace_json_path = ap_raw_trace ap, vr_external_state_path = ap_external_state ap,
      vr_elapsed_ms = ve_elapsed_ms env, vr_role = role, vr_snapshot_id = snapshot_id,
      vr_kernel_build = oc_kernel_build oc, vr_run_id = run_id, vr_status_detail = oc_status_detail oc,
      vr_runner_kind = runner_kind\<rparr>"

definition console_doc :: "vm_call \<Rightarrow> pyval \<Rightarrow> case_outcome \<Rightarrow> int \<Rightarrow> (string \<times> pyval) list \<Rightarrow> pyval" where
  "console_doc call runner_kind oc elapsed_ms extra = PDict
     ([(''command'', PList (map PStr (vc_command call))), (''cwd'', PStr (vc_cwd call)),
       (''runner_kind'', runner_kind), (''status'', PStr (oc_status oc)), (''elapsed_ms'', PInt elapsed_ms)] @ extra)"

definition dump_new :: "string \<Rightarrow> pyval \<Rightarrow> store \<Rightarrow> store" where
  "dump_new path v st = (if st path = None then dump_json path v st else st)"

definition persist_external_state :: "vm_env \<Rightarrow> pyval \<Rightarrow> case_setup \<Rightarrow> store \<Rightarrow> store res" where
  "persist_external_state env cfg u st =
     (let path = ap_external_state (cu_paths u) in
      if st path = None then
        bind (sample_external_state (ve_sha256 env) (py_get ''external_state_limits'' (PDict []) cfg)
               (ve_sandbox env (cu_sandbox_root u) st)) (\<lambda>s. Inr (dump_json path (ext_state_doc s) st))
      else Inr st)"

text \<open>
  From the call to the artifacts: outputs, raw trace and, by the given step, external state.
\<close>

definition run_case_artifacts ::
  "vm_env \<Rightarrow> pyval \<Rightarrow> string \<Rightarrow> string \<Rightarrow> string \<Rightarrow> artifact_paths \<Rightarrow> pyval \<Rightarrow> (string \<times> pyval) list \<Rightarrow> string \<Rightarrow>
   (store \<Rightarrow> store res) \<Rightarrow> vm_call \<Rightarrow> store \<Rightarrow> (case_outcome \<times> store) res" where
  "run_case_artifacts env cfg program_id side run_id ap runner_kind extra kbc external call st =
     bind (run_case_core env call kbc (py_str runner_kind) (ap_runner_result ap) st) (\<lambda>(oc, st1).
     let st2 = persist_case_outputs (oc_stdout oc) (oc_stderr oc) ap
           (console_doc call runner_kind oc (ve_elapsed_ms env) extra) st1 in
     bind (build_and_persist_raw_trace cfg program_id side run_id (oc_status oc) (oc_exit_code oc) ap
            (oc_stdout oc) (oc_stderr oc) st2) (\<lambda>st3.
     bind (external st3) (\<lambda>st4. Inr (oc, st4))))"

definition run_and_persist ::
  "vm_env \<Rightarrow> pyval \<Rightarrow> string \<Rightarrow> string \<Rightarrow> string \<Rightarrow> case_setup \<Rightarrow> vm_call \<Rightarrow> store \<Rightarrow> (case_outcome \<times> store) res" where
  "run_and_persist env cfg program_id side run_id u call st =
     bind (build_runner (cu_profile u)) (\<lambda>_.
     bind (str_item ''kernel_build_command'' (cu_profile u)) (\<lambda>kbc.
     run_case_artifacts env cfg program_id side run_id (cu_paths u)
       (py_get ''kind'' (PStr ''local'') (cu_profile u)) [] kbc (persist_external_state env cfg u) call st))"

definition execute_side ::
  "vm_env \<Rightarrow> pyval \<Rightarrow> pyval \<Rightarrow> string \<Rightarrow> string \<Rightarrow> int \<Rightarrow> string \<Rightarrow> pyval option \<Rightarrow> store \<Rightarrow> (vm_result \<times> store) res" where
  "execute_side env cfg profiles program_id side timeout_sec run_id inject st =
     bind (setup_case env cfg profiles program_id side timeout_sec run_id) (\<lambda>u.
     let ap = cu_paths u;
         st0 = prepare_store (cu_sandbox_root u) (cu_build_root u) (cu_artifact_root u) ap st in
     bind (side_call env cfg program_id side run_id inject u) (\<lambda>call.
     bind (run_and_persist env cfg program_id side run_id u call st0) (\<lambda>(oc, st1).
     bind (py_item ''role'' (cu_profile u)) (\<lambda>role.
     bind (py_item ''snapshot_id'' (cu_profile u)) (\<lambda>snapshot_id.
     let r = result_of env program_id side run_id ap oc role snapshot_id (py_get ''kind'' (PStr ''local'') (cu_profile u)) in
     Inr (r, dump_json (ap_run_result ap) (vm_result_doc r) st1))))))"

section \<open>A clean slate\<close>

lemma fold_unlink: "fold unlink ps st p = (if p \<in> set ps then None else st p)"
  by (induction ps arbitrary: st) (auto simp: unlink_def)

lemma prepare_store_clean: "p \<in> set (stale_paths ap) \<Longrightarrow> prepare_store sandbox_root build artifact_root ap st p = None"
  by (simp add: prepare_store_def fold_unlink)

lemma pjoin_eq [simp]: "pjoin a n = pjoin a m \<longleftrightarrow> n = m"
  by (simp add: pjoin_def)

lemma artifact_files_distinct:
  assumes "ap = artifact_files base_dir bin"
  shows "distinct (ap_run_result ap # stale_paths ap)"
  unfolding assms artifact_files_def stale_paths_def by simp

section \<open>The outcome of a run\<close>

text \<open>What the status of a run is, said of the process and of the result file it left.\<close>

definition outcome_status :: "proc_outcome \<Rightarrow> pyval option \<Rightarrow> string" where
  "outcome_status p runner_result = (case p of
       Expired _ _ _ _ \<Rightarrow> status_str TIMEOUT
     | Refused _ \<Rightarrow> status_str INFRA_ERROR
     | Exited rc out err \<Rightarrow>
         (let own = status_str (if rc = 0 then OK
             else if \<exists>w \<in> set panic_indicators. contains (out @ err) w then CANDIDATE_BUG else INFRA_ERROR)
          in case runner_result of
            Some (PDict (kv # kvs)) \<Rightarrow> py_str (py_get ''status'' (PStr own) (PDict (kv # kvs)))
          | _ \<Rightarrow> own))"

lemma finalize_process_result_status:
  assumes "finalize_process_result kind rc (Some own) rr kb = Inr (status, exit_code, detail, kb')"
  shows "status = (case rr of Some (PDict (kv # kvs)) \<Rightarrow> py_str (py_get ''status'' (PStr own) (PDict (kv # kvs))) | _ \<Rightarrow> own)"
  using assms
  by (auto simp: finalize_process_result_def process_status_def Let_def as_dict_def bind_eq_Inr
      split: option.splits if_splits pyval.splits list.splits)

lemma load_runner_result_wf: "load_runner_result path st = Inr (Some v) \<Longrightarrow> json_wf v"
  by (auto simp: load_runner_result_def bind_eq_Inr json_loads_wf split: option.splits)

lemma wf_py_get: "json_wf d \<Longrightarrow> json_wf dflt \<Longrightarrow> json_wf (py_get k dflt d)"
  by (cases d) (auto simp: py_get_def dict_get_def list_all_iff split: option.splits dest!: map_of_SomeD)

lemma wf_py_item: "json_wf d \<Longrightarrow> py_item k d = Inr v \<Longrightarrow> json_wf v"
  by (cases d) (auto simp: py_item_def opt_res_def dict_get_def list_all_iff split: option.splits dest!: map_of_SomeD)

lemma finalize_process_result_wf:
  assumes "finalize_process_result kind rc ex rr kb = Inr (status, exit_code, detail, kb')"
    "\<forall>v. rr = Some v \<longrightarrow> json_wf v"
  shows "json_wf exit_code \<and> json_wf detail"
  using assms
  by (auto simp: finalize_process_result_def Let_def bind_eq_Inr opt_int_def intro!: wf_py_get
      split: option.splits if_splits)

lemma run_case_core_spec:
  assumes "run_case_core env call kbc kind rrp st = Inr (oc, st')"
  obtains p rr where "ve_run env call st = (p, st')" "load_runner_result rrp st' = Inr rr"
    "oc_status oc = outcome_status p rr" "json_wf (oc_exit_code oc)" "json_wf (oc_status_detail oc)"
proof -
  obtain p st1 where p: "ve_run env call st = (p, st1)" by fastforce
  from assms p obtain rr status exit_code detail kb where
    rr: "load_runner_result rrp st1 = Inr rr" and
    f: "finalize_process_result kind (ex_returncode (command_run_case p)) (ex_status (command_run_case p)) rr
      (safe_kernel_build env kbc) = Inr (status, exit_code, detail, kb)" and
    oc: "st' = st1" "oc_exit_code oc = exit_code"
      "oc_status oc = (if ex_timed_out (command_run_case p) then status_str TIMEOUT
         else if ex_os_error (command_run_case p) \<noteq> None then status_str INFRA_ERROR else status)"
      "oc_status_detail oc \<in> {PNone, detail, opt_str (ex_os_error (command_run_case p))}"
    unfolding run_case_core_def Let_def by (auto elim!: bind_InrE simp: opt_str_def split: option.splits if_splits)
  have wf: "json_wf exit_code \<and> json_wf detail"
    using finalize_process_result_wf [OF f] load_runner_result_wf [of rrp st1] rr by blast
  have "oc_status oc = outcome_status p rr"
  proof (cases p)
    case (Exited rc out err)
    let ?c = "if rc = 0 then OK else if list_ex (contains (out @ err)) panic_indicators then CANDIDATE_BUG else INFRA_ERROR"
    have "ex_status (command_run_case p) = Some (status_str ?c)" "ex_returncode (command_run_case p) = Some rc"
      "\<not> ex_timed_out (command_run_case p)" "ex_os_error (command_run_case p) = None"
      using Exited by (simp_all add: command_run_case_def classify_returncode_def)
    with f oc(3) finalize_process_result_status [of kind "Some rc" "status_str ?c" rr]
    have "oc_status oc = (case rr of Some (PDict (kv # kvs)) \<Rightarrow>
        py_str (py_get ''status'' (PStr (status_str ?c)) (PDict (kv # kvs))) | _ \<Rightarrow> status_str ?c)"
      by simp
    then show ?thesis unfolding Exited outcome_status_def Let_def proc_outcome.case list_ex_iff .
  qed (use oc(3) in \<open>simp_all add: command_run_case_def outcome_status_def\<close>)
  then show thesis using that [of p rr] p rr oc wf by (auto simp: opt_str_def split: option.splits)
qed

section \<open>The artifacts of a run\<close>

lemma map_res_json_wf: "map_res json_loads ts = Inr vs \<Longrightarrow> list_all json_wf vs"
  unfolding list_all_iff using map_res_mem json_loads_wf by fast

lemma extract_wf: "extract_framed_events t = Inr es \<Longrightarrow> list_all json_wf es"
  unfolding extract_framed_events_def by (rule map_res_json_wf)

lemma set_dedup_events: "set (dedup_events seen es) \<subseteq> set es"
  by (induction seen es rule: dedup_events.induct) (auto simp: Let_def)

lemma file_events_wf: "file_events path st = Inr es \<Longrightarrow> list_all json_wf es"
  unfolding file_events_def parse_events_def
  by (auto intro: map_res_json_wf split: sum.splits py_error.splits option.splits)

lemma persisted_trace_events_spec:
  assumes "persisted_trace_events cfg ep out err cp st = Inr (es, st')"
  shows "list_all json_wf es" "\<And>q. q \<noteq> ep \<Longrightarrow> st' q = st q"
proof -
  from assms obtain evs where evs: "file_events ep st = Inr evs" and
    rest: "(evs \<noteq> [] \<and> es = evs \<and> st' = st) \<or> (es = [] \<and> st' = st) \<or>
      (\<exists>ess. map_res extract_framed_events ([out, err] @ (case st cp of None \<Rightarrow> [] | Some c \<Rightarrow> [c])) = Inr ess \<and>
        es = dedup_events [] (concat ess) \<and> (\<forall>q. q \<noteq> ep \<longrightarrow> st' q = st q))"
    unfolding persisted_trace_events_def Let_def
    by (elim bind_InrE) (auto simp del: map_res.simps append.simps elim!: bind_InrE split: if_splits)
  show "st' q = st q" if "q \<noteq> ep" for q using rest that by auto
  have "list_all json_wf (concat ess)" if "map_res extract_framed_events ts = Inr ess" for ts ess
    using map_res_mem [OF that] extract_wf by (fastforce simp: list_all_iff)
  then show "list_all json_wf es"
    using rest file_events_wf [OF evs] set_dedup_events unfolding list_all_iff by (metis empty_iff list.set(1) subsetD)
qed

lemma py_item_sort: "json_wf e \<Longrightarrow> py_item k (sort_dicts e) = map_sum id sort_dicts (py_item k e)"
  using sort_dicts_get [of e k] by (cases e) (auto simp: py_item_def opt_res_def split: option.splits)

lemma is_int_sort [simp]: "is_int (sort_dicts v) = is_int v" "py_int (sort_dicts v) = py_int v"
  by (cases v; simp)+

lemma check_event_indexes_sort:
  "list_all json_wf es \<Longrightarrow> check_event_indexes p (map sort_dicts es) = check_event_indexes p es"
proof (induction es arbitrary: p)
  case (Cons e es)
  then show ?case by (cases "py_item ''event_index'' e") (auto simp: py_item_sort intro!: bind_cong)
qed simp

lemma validate_sorted:
  assumes "json_wf v" "validate_raw_document v = Inr ()"
  shows "validate_raw_document (sort_dicts v) = Inr ()"
proof -
  from assms(2) obtain d where v: "v = PDict d" and keys: "list_all (\<lambda>k. dict_get k d \<noteq> None) RAW_TRACE_REQUIRED"
    by (cases v) (auto simp: validate_raw_document_def as_dict_def split: if_splits)
  obtain d' where sd: "sort_dicts v = PDict d'" by (simp add: v)
  have get: "dict_get k d' = map_option sort_dicts (dict_get k d)" for k
    using sort_dicts_get [OF assms(1), of k] sd by (simp add: v)
  have keys': "list_all (\<lambda>k. dict_get k d' \<noteq> None) RAW_TRACE_REQUIRED" using keys by (simp add: get)
  have "validate_raw_document (PDict d') = Inr ()"
  proof (cases "dict_get ''events'' d")
    case None
    then show ?thesis using assms(2) keys by (simp add: validate_raw_document_def v as_dict_def)
  next
    case (Some e)
    have "json_wf e" using Some assms(1) v by (auto simp: dict_get_def list_all_iff dest!: map_of_SomeD)
    moreover have "sort_key f xs = [] \<longleftrightarrow> xs = []" for f :: "string \<times> pyval \<Rightarrow> string" and xs
      by (metis length_0_conv length_sort)
    ultimately show ?thesis
      using assms(2) keys keys' Some
      by (cases e) (auto simp: validate_raw_document_def v as_dict_def get check_event_indexes_sort)
  qed
  then show ?thesis by (simp add: sd)
qed

text \<open>What a raw trace says of the run it belongs to.\<close>

definition trace_of_run :: "string \<Rightarrow> string \<Rightarrow> string \<Rightarrow> string \<Rightarrow> pyval \<Rightarrow> bool" where
  "trace_of_run program_id side run_id status tr \<longleftrightarrow>
     dict_get ''program_id'' (items tr) = Some (PStr program_id) \<and>
     dict_get ''side'' (items tr) = Some (PStr side) \<and> dict_get ''run_id'' (items tr) = Some (PStr run_id) \<and>
     dict_get ''status'' (items tr) = Some (PStr status) \<and>
     (\<exists>ex. dict_get ''process_exit'' (items tr) = Some ex \<and>
       dict_get ''status'' (items ex) = Some (PStr status) \<and>
       dict_get ''timed_out'' (items ex) = Some (PBool (status = status_str TIMEOUT)))"

lemma sorted_trace_of_run:
  assumes "json_wf exit_code" "list_all json_wf es"
  shows "trace_of_run program_id side run_id status (sort_dicts (raw_trace_payload program_id side run_id status exit_code es))"
proof -
  let ?p = "raw_trace_payload program_id side run_id status exit_code es"
  let ?ex = "PDict [(''status'', PStr status), (''exit_code'', exit_code), (''timed_out'', PBool (status = status_str TIMEOUT))]"
  have wf: "json_wf ?p" "json_wf ?ex" using assms by (simp_all add: raw_trace_payload_def)
  have "dict_get ''process_exit'' (items ?p) = Some ?ex" by (simp add: raw_trace_payload_def dict_get_Cons)
  then have "dict_get ''process_exit'' (items (sort_dicts ?p)) = Some (sort_dicts ?ex)"
    using sort_dicts_get [OF wf(1)] by (simp del: sort_dicts.simps)
  moreover have "dict_get ''status'' (items (sort_dicts ?ex)) = Some (PStr status)"
    "dict_get ''timed_out'' (items (sort_dicts ?ex)) = Some (PBool (status = status_str TIMEOUT))"
    using sort_dicts_get [OF wf(2)] by (simp_all add: dict_get_Cons del: sort_dicts.simps) simp_all
  moreover have "dict_get ''program_id'' (items ?p) = Some (PStr program_id)" "dict_get ''side'' (items ?p) = Some (PStr side)"
    "dict_get ''run_id'' (items ?p) = Some (PStr run_id)" "dict_get ''status'' (items ?p) = Some (PStr status)"
    by (simp_all add: raw_trace_payload_def dict_get_Cons)
  then have "dict_get ''program_id'' (items (sort_dicts ?p)) = Some (PStr program_id)"
    "dict_get ''side'' (items (sort_dicts ?p)) = Some (PStr side)"
    "dict_get ''run_id'' (items (sort_dicts ?p)) = Some (PStr run_id)"
    "dict_get ''status'' (items (sort_dicts ?p)) = Some (PStr status)"
    unfolding sort_dicts_get [OF wf(1)] by simp_all
  ultimately show ?thesis unfolding trace_of_run_def by blast
qed

lemma build_and_persist_raw_trace_spec:
  assumes "build_and_persist_raw_trace cfg program_id side run_id status exit_code ap out err st = Inr st'"
    "json_wf exit_code" "ap_events ap \<noteq> ap_raw_trace ap"
  obtains tr where "load_json (ap_raw_trace ap) st' = Inr tr" "validate_raw_document tr = Inr ()"
    "st (ap_raw_trace ap) = None \<longrightarrow> trace_of_run program_id side run_id status tr"
proof (cases "st (ap_raw_trace ap)")
  case (Some t)
  with assms(1) obtain v where "load_json (ap_raw_trace ap) st = Inr v" "validate_raw_document v = Inr ()" "st' = st"
    unfolding build_and_persist_raw_trace_def by (auto elim!: bind_InrE)
  with Some that show thesis by simp
next
  case None
  with assms(1) obtain es st1 where ev: "persisted_trace_events cfg (ap_events ap) out err (ap_console ap) st = Inr (es, st1)"
    and v: "validate_raw_document (raw_trace_payload program_id side run_id status exit_code es) = Inr ()"
    and st': "st' = dump_json (ap_raw_trace ap) (raw_trace_payload program_id side run_id status exit_code es) st1"
    unfolding build_and_persist_raw_trace_def Let_def by (auto elim!: bind_InrE)
  note es = persisted_trace_events_spec [OF ev]
  have wf: "json_wf (raw_trace_payload program_id side run_id status exit_code es)"
    using assms(2) es(1) by (simp add: raw_trace_payload_def)
  show thesis
  proof (rule that)
    show "load_json (ap_raw_trace ap) st' = Inr (sort_dicts (raw_trace_payload program_id side run_id status exit_code es))"
      unfolding st' by (rule load_dump_json [OF wf])
  qed (use validate_sorted [OF wf v] sorted_trace_of_run [OF assms(2) es(1)] in auto)
qed

lemma load_json_other [simp]: "p \<noteq> q \<Longrightarrow> load_json p (dump_json q v st) = load_json p st"
  by (simp add: load_json_def read_text_def dump_json_def)

lemma load_json_cong: "st p = st' p \<Longrightarrow> load_json p st = load_json p st'"
  by (simp add: load_json_def read_text_def)

lemma run_case_artifacts_steps:
  assumes "run_case_artifacts env cfg program_id side run_id ap kind extra kbc external call st = Inr z"
  obtains y st3 st4 where
    "run_case_core env call kbc (py_str kind) (ap_runner_result ap) st = Inr y"
    "build_and_persist_raw_trace cfg program_id side run_id (oc_status (fst y)) (oc_exit_code (fst y)) ap
       (oc_stdout (fst y)) (oc_stderr (fst y)) (persist_case_outputs (oc_stdout (fst y)) (oc_stderr (fst y)) ap
          (console_doc call kind (fst y) (ve_elapsed_ms env) extra) (snd y)) = Inr st3"
    "external st3 = Inr st4" "Inr (fst y, st4) = (Inr z :: (case_outcome \<times> store) res)"
proof -
  note run = assms [unfolded run_case_artifacts_def Let_def case_prod_beta]
  show thesis using run by (elim bind_InrE) (rule that)
qed

lemma run_case_artifacts_spec:
  assumes "run_case_artifacts env cfg program_id side run_id ap kind extra kbc external call st = Inr (oc, st')"
    "distinct (ap_run_result ap # stale_paths ap)"
    "\<forall>s s'. external s = Inr s' \<longrightarrow> load_json (ap_raw_trace ap) s' = load_json (ap_raw_trace ap) s"
  obtains p st1 rr tr where "ve_run env call st = (p, st1)"
    "load_runner_result (ap_runner_result ap) st1 = Inr rr" "oc_status oc = outcome_status p rr"
    "json_wf (oc_exit_code oc)" "json_wf (oc_status_detail oc)"
    "load_json (ap_raw_trace ap) st' = Inr tr" "validate_raw_document tr = Inr ()"
    "st1 (ap_raw_trace ap) = None \<longrightarrow> trace_of_run program_id side run_id (oc_status oc) tr"
proof -
  obtain y st3 st4 where
    core: "run_case_core env call kbc (py_str kind) (ap_runner_result ap) st = Inr y" and
    raw: "build_and_persist_raw_trace cfg program_id side run_id (oc_status (fst y)) (oc_exit_code (fst y)) ap
       (oc_stdout (fst y)) (oc_stderr (fst y)) (persist_case_outputs (oc_stdout (fst y)) (oc_stderr (fst y)) ap
          (console_doc call kind (fst y) (ve_elapsed_ms env) extra) (snd y)) = Inr st3" and
    ext: "external st3 = Inr st4" and y: "Inr (fst y, st4) = (Inr (oc, st') :: (case_outcome \<times> store) res)"
    by (rule run_case_artifacts_steps [OF assms(1)])
  obtain st1 where y1: "y = (oc, st1)" "st' = st4" using y by (cases y) simp
  note core = core [unfolded y1] and raw = raw [unfolded y1 fst_conv snd_conv]
  have d: "ap_events ap \<noteq> ap_raw_trace ap" "ap_raw_trace ap \<notin> {ap_stdout ap, ap_stderr ap, ap_console ap}"
    using assms(2) by (auto simp: stale_paths_def)
  obtain p rr where p: "ve_run env call st = (p, st1)" "load_runner_result (ap_runner_result ap) st1 = Inr rr"
    "oc_status oc = outcome_status p rr" and wf: "json_wf (oc_exit_code oc)" "json_wf (oc_status_detail oc)"
    using run_case_core_spec [OF core] by blast
  obtain tr where tr: "load_json (ap_raw_trace ap) st3 = Inr tr" "validate_raw_document tr = Inr ()"
    "persist_case_outputs (oc_stdout oc) (oc_stderr oc) ap (console_doc call kind oc (ve_elapsed_ms env) extra) st1
       (ap_raw_trace ap) = None \<longrightarrow> trace_of_run program_id side run_id (oc_status oc) tr"
    by (rule build_and_persist_raw_trace_spec [OF raw wf(1) d(1)])
  have same: "persist_case_outputs out err ap m st1 (ap_raw_trace ap) = st1 (ap_raw_trace ap)" for out err m
    using d(2) by (simp add: persist_case_outputs_def write_new_def)
  have l: "load_json (ap_raw_trace ap) st' = Inr tr" using assms(3) ext tr(1) y1(2) by simp
  show thesis by (rule that [OF p wf l tr(2)]) (rule tr(3) [unfolded same])
qed

lemma persist_external_state_frame:
  "persist_external_state env cfg u s = Inr s' \<Longrightarrow> q \<noteq> ap_external_state (cu_paths u) \<Longrightarrow> load_json q s' = load_json q s"
  unfolding persist_external_state_def Let_def by (auto elim!: bind_InrE split: if_splits)

lemma run_and_persist_spec:
  assumes "run_and_persist env cfg program_id side run_id u call st = Inr (oc, st')"
    "distinct (ap_run_result (cu_paths u) # stale_paths (cu_paths u))"
  obtains p st1 rr tr where "ve_run env call st = (p, st1)"
    "load_runner_result (ap_runner_result (cu_paths u)) st1 = Inr rr" "oc_status oc = outcome_status p rr"
    "json_wf (oc_exit_code oc)" "json_wf (oc_status_detail oc)"
    "load_json (ap_raw_trace (cu_paths u)) st' = Inr tr" "validate_raw_document tr = Inr ()"
    "st1 (ap_raw_trace (cu_paths u)) = None \<longrightarrow> trace_of_run program_id side run_id (oc_status oc) tr"
proof -
  have ne: "ap_raw_trace (cu_paths u) \<noteq> ap_external_state (cu_paths u)" using assms(2) by (auto simp: stale_paths_def)
  have frame: "\<forall>s s'. persist_external_state env cfg u s = Inr s' \<longrightarrow>
      load_json (ap_raw_trace (cu_paths u)) s' = load_json (ap_raw_trace (cu_paths u)) s"
    using persist_external_state_frame ne by blast
  from assms(1) obtain kbc where "run_case_artifacts env cfg program_id side run_id (cu_paths u)
      (py_get ''kind'' (PStr ''local'') (cu_profile u)) [] kbc (persist_external_state env cfg u) call st = Inr (oc, st')"
    unfolding run_and_persist_def by (elim bind_InrE) (rule that)
  from run_case_artifacts_spec [OF this assms(2) frame] show thesis using that .
qed

text \<open>
  C5. A run of one side starts from a clean slate and reports what happened in it: the process
  finds none of the output files an earlier run may have left, so the result file read afterwards
  is its own. The reported status is \<open>timeout\<close> for an expired process, \<open>infra_error\<close> for one that
  could not start, else what its result file says, else \<open>ok\<close>, \<open>candidate_bug\<close> (a panic in the
  output) or \<open>infra_error\<close> by its exit code. The raw trace left behind loads and validates, and
  unless the process wrote it itself it names this run and this status; the stored result is the
  returned one.
\<close>

theorem execute_side_sound:
  assumes "json_wf profiles" "execute_side env cfg profiles program_id side timeout_sec run_id inject st = Inr (r, st')"
  shows "\<exists>u call st0 p st1 rr tr. setup_case env cfg profiles program_id side timeout_sec run_id = Inr u \<and>
    (\<forall>name \<in> set [''stdout.txt'', ''stderr.txt'', ''console.log'', ''raw-trace.events.jsonl'', ''raw-trace.json'',
       ''external-state.json'', ''runner-result.json'']. st0 (pjoin (cu_artifact_root u) name) = None) \<and>
    vc_cwd call = cu_sandbox_root u \<and> vc_timeout_sec call = cu_timeout_sec u \<and> ve_run env call st0 = (p, st1) \<and>
    load_runner_result (pjoin (cu_artifact_root u) ''runner-result.json'') st1 = Inr rr \<and> vr_status r = outcome_status p rr \<and>
    vr_trace_json_path r = pjoin (cu_artifact_root u) ''raw-trace.json'' \<and>
    load_json (vr_trace_json_path r) st' = Inr tr \<and> validate_raw_document tr = Inr () \<and>
    (st1 (vr_trace_json_path r) = None \<longrightarrow> trace_of_run program_id side run_id (vr_status r) tr) \<and>
    load_json (pjoin (cu_artifact_root u) ''run-result.json'') st' = Inr (sort_dicts (vm_result_doc r))"
proof -
  let ?u = "setup_case env cfg profiles program_id side timeout_sec run_id"
  from assms(2) obtain u call y role snapshot where u: "?u = Inr u" and
    call: "side_call env cfg program_id side run_id inject u = Inr call" and
    run: "run_and_persist env cfg program_id side run_id u call
       (prepare_store (cu_sandbox_root u) (cu_build_root u) (cu_artifact_root u) (cu_paths u) st) = Inr y" and
    role: "py_item ''role'' (cu_profile u) = Inr role" "py_item ''snapshot_id'' (cu_profile u) = Inr snapshot" and
    r: "Inr (result_of env program_id side run_id (cu_paths u) (fst y) role snapshot
          (py_get ''kind'' (PStr ''local'') (cu_profile u)),
        dump_json (ap_run_result (cu_paths u)) (vm_result_doc (result_of env program_id side run_id (cu_paths u) (fst y)
          role snapshot (py_get ''kind'' (PStr ''local'') (cu_profile u)))) (snd y)) = (Inr (r, st') :: (vm_result \<times> store) res)"
    unfolding execute_side_def Let_def case_prod_beta by (elim bind_InrE) (rule that)
  obtain oc st2 where y: "y = (oc, st2)" by fastforce
  have paths: "cu_paths u = artifact_files (cu_artifact_root u) (py_str (py_get ''binary_name'' (PStr ''testcase.bin'') (cu_profile u)))"
    and prof: "py_item side profiles = Inr (cu_profile u)"
    using u unfolding setup_case_def Let_def by (auto elim!: bind_InrE)
  have dist: "distinct (ap_run_result (cu_paths u) # stale_paths (cu_paths u))"
    by (rule artifact_files_distinct [OF paths])
  obtain p st1 rr tr where p: "ve_run env call (prepare_store (cu_sandbox_root u) (cu_build_root u) (cu_artifact_root u) (cu_paths u) st) = (p, st1)"
    "load_runner_result (ap_runner_result (cu_paths u)) st1 = Inr rr" "oc_status oc = outcome_status p rr"
    and wf: "json_wf (oc_exit_code oc)" "json_wf (oc_status_detail oc)"
    and tr: "load_json (ap_raw_trace (cu_paths u)) st2 = Inr tr" "validate_raw_document tr = Inr ()"
    "st1 (ap_raw_trace (cu_paths u)) = None \<longrightarrow> trace_of_run program_id side run_id (oc_status oc) tr"
    by (rule run_and_persist_spec [OF run [unfolded y] dist])
  have wfp: "json_wf (cu_profile u)" using assms(1) wf_py_item prof by blast
  have wfr: "json_wf role" "json_wf snapshot" using wfp wf_py_item role by blast+
  have res: "vr_status r = oc_status oc" "vr_trace_json_path r = ap_raw_trace (cu_paths u)" "json_wf (vm_result_doc r)"
    "st' = dump_json (ap_run_result (cu_paths u)) (vm_result_doc r) st2"
    using r y wf wfr wf_py_get [OF wfp, of "PStr ''local''"] by (auto simp: result_of_def vm_result_doc_def)
  have ne: "ap_raw_trace (cu_paths u) \<noteq> ap_run_result (cu_paths u)" using dist by (auto simp: stale_paths_def)
  have "load_json (vr_trace_json_path r) st' = Inr tr" using tr(1) ne by (simp add: res)
  note trace = this
  have own: "load_json (ap_run_result (cu_paths u)) st' = Inr (sort_dicts (vm_result_doc r))"
    unfolding res(4) by (rule load_dump_json [OF res(3)])
  have clean: "prepare_store (cu_sandbox_root u) (cu_build_root u) (cu_artifact_root u) (cu_paths u) st
      (pjoin (cu_artifact_root u) name) = None"
    if "name \<in> set [''stdout.txt'', ''stderr.txt'', ''console.log'', ''raw-trace.events.jsonl'', ''raw-trace.json'',
      ''external-state.json'', ''runner-result.json'']" for name
    by (rule prepare_store_clean) (use that in \<open>auto simp: paths artifact_files_def stale_paths_def\<close>)
  have files: "ap_runner_result (cu_paths u) = pjoin (cu_artifact_root u) ''runner-result.json''"
    "ap_raw_trace (cu_paths u) = pjoin (cu_artifact_root u) ''raw-trace.json''"
    "ap_run_result (cu_paths u) = pjoin (cu_artifact_root u) ''run-result.json''"
    by (simp_all add: paths artifact_files_def)
  have place: "vc_cwd call = cu_sandbox_root u" "vc_timeout_sec call = cu_timeout_sec u"
    using call unfolding side_call_def by (auto elim!: bind_InrE)
  show ?thesis
    using u clean place p(1) p(2) [unfolded files] p(3) res(1) res(2) trace tr(2) tr(3) own [unfolded files]
    by (intro exI [of _ u] exI [of _ call] exI conjI ballI) (simp_all add: files)
qed

text \<open>A process that writes no file always yields a result, whatever its exit code and output.\<close>

lemma validate_empty_payload: "validate_raw_document (raw_trace_payload program_id side run_id status exit_code []) = Inr ()"
  by (simp add: validate_raw_document_def raw_trace_payload_def as_dict_def dict_get_Cons RAW_TRACE_REQUIRED_def)

lemma run_and_persist_silent:
  assumes "ve_run env call st = (Exited rc out err, st)" "\<forall>q \<in> set (stale_paths (cu_paths u)). st q = None"
    "distinct (ap_run_result (cu_paths u) # stale_paths (cu_paths u))"
    "build_runner (cu_profile u) = Inr ()" "str_item ''kernel_build_command'' (cu_profile u) = Inr kbc"
    "trace_events_transport cfg = Inr ''file''"
    "sample_limits_of (py_get ''external_state_limits'' (PDict []) cfg) = Inr bounds"
  shows "is_ok (run_and_persist env cfg program_id side run_id u call st)"
proof -
  let ?ap = "cu_paths u"
  have none: "st (ap_runner_result ?ap) = None" "st (ap_raw_trace ?ap) = None" "st (ap_events ?ap) = None"
    using assms(2) by (simp_all add: stale_paths_def)
  have ne: "ap_raw_trace ?ap \<notin> {ap_stdout ?ap, ap_stderr ?ap, ap_console ?ap}" "ap_events ?ap \<notin> {ap_stdout ?ap, ap_stderr ?ap, ap_console ?ap}"
    using assms(3) by (auto simp: stale_paths_def)
  obtain oc where core: "run_case_core env call kbc kind (ap_runner_result ?ap) st = Inr (oc, st)" for kind
    using assms(1) none(1)
    by (simp add: run_case_core_def Let_def command_run_case_def load_runner_result_def finalize_process_result_def
      process_status_def)
  have after: "persist_case_outputs o1 o2 ?ap m st (ap_raw_trace ?ap) = None"
    "persist_case_outputs o1 o2 ?ap m st (ap_events ?ap) = None" for o1 o2 m
    using ne none by (simp_all add: persist_case_outputs_def write_new_def)
  have raw: "\<exists>st3. build_and_persist_raw_trace cfg program_id side run_id status ec ?ap o1 o2
      (persist_case_outputs o1 o2 ?ap m st) = Inr st3" for status ec o1 o2 m
    using after [of o1 o2 m] assms(6)
    by (simp add: build_and_persist_raw_trace_def persisted_trace_events_def file_events_def parse_events_def
      validate_empty_payload Let_def)
  have ext: "\<exists>st4. persist_external_state env cfg u st3 = Inr st4" for st3
    using assms(7) by (simp add: persist_external_state_def sample_external_state_def Let_def case_prod_beta)
  show ?thesis
    using raw [of "oc_status oc" "oc_exit_code oc" "oc_stdout oc" "oc_stderr oc"] ext
    unfolding run_and_persist_def run_case_artifacts_def Let_def assms(4,5) bind_Inr core prod.case is_ok_iff by (metis bind_Inr)
qed

definition demo_vm_env :: "proc_outcome \<Rightarrow> vm_env" where
  "demo_vm_env p = \<lparr>ve_run = (\<lambda>call st. (p, st)), ve_decode = id, ve_kernel_build = (\<lambda>c. Inr c), ve_elapsed_ms = 7,
     ve_root = ''/r'', ve_environ = [], ve_sandbox = (\<lambda>d st. []), ve_sha256 = id\<rparr>"

definition demo_vm_cfg :: pyval where
  "demo_vm_cfg = PDict [(''paths'', PDict [(''artifacts_dir'', PStr ''a''), (''build_dir'', PStr ''b'')]),
     (''normalization'', PDict [(''preview_bytes'', PInt 64)])]"

definition demo_profiles :: pyval where
  "demo_profiles = PDict [(''candidate'', PDict [(''kind'', PStr ''command''), (''command'', PStr ''run {program_id}''),
     (''work_root'', PStr ''w''), (''kernel_build_command'', PStr ''uname''), (''role'', PStr ''c''), (''snapshot_id'', PStr ''s'')])]"

definition demo_setup :: case_setup where
  "demo_setup = \<lparr>cu_profile = PDict [(''kind'', PStr ''command''), (''command'', PStr ''run {program_id}''),
       (''work_root'', PStr ''w''), (''kernel_build_command'', PStr ''uname''), (''role'', PStr ''c''), (''snapshot_id'', PStr ''s'')],
     cu_timeout_sec = 5, cu_artifact_root = ''/r/a/p/1/candidate'', cu_build_root = ''/r/b/p'',
     cu_sandbox_root = ''/r/w/p/1'', cu_paths = artifact_files ''/r/a/p/1/candidate'' ''testcase.bin''\<rparr>"

lemma execute_side_sound_witness:
  "\<exists>r st' tr. execute_side (demo_vm_env (Exited 1 ''kernel panic'' [])) demo_vm_cfg demo_profiles ''p'' ''candidate'' 5 ''1''
      None Map.empty = Inr (r, st') \<and> load_json (vr_trace_json_path r) st' = Inr tr \<and> vr_status r = ''candidate_bug'' \<and>
    trace_of_run ''p'' ''candidate'' ''1'' ''candidate_bug'' tr"
proof -
  let ?run = "execute_side (demo_vm_env (Exited 1 ''kernel panic'' [])) demo_vm_cfg demo_profiles ''p'' ''candidate'' 5 ''1'' None Map.empty"
  have wf: "json_wf demo_profiles" by code_simp
  let ?env = "demo_vm_env (Exited 1 ''kernel panic'' [])"
  have u0: "setup_case ?env demo_vm_cfg demo_profiles ''p'' ''candidate'' 5 ''1'' = Inr demo_setup" by code_simp
  have "is_ok (side_call ?env demo_vm_cfg ''p'' ''candidate'' ''1'' None demo_setup)" by code_simp
  then obtain call where call: "side_call ?env demo_vm_cfg ''p'' ''candidate'' ''1'' None demo_setup = Inr call"
    by (auto simp: is_ok_iff)
  let ?st0 = "prepare_store (cu_sandbox_root demo_setup) (cu_build_root demo_setup) (cu_artifact_root demo_setup)
      (cu_paths demo_setup) Map.empty"
  have dist: "distinct (ap_run_result (cu_paths demo_setup) # stale_paths (cu_paths demo_setup))"
    by (rule artifact_files_distinct) (simp add: demo_setup_def)
  have "is_ok (run_and_persist ?env demo_vm_cfg ''p'' ''candidate'' ''1'' demo_setup call ?st0)"
  proof (rule run_and_persist_silent [OF _ _ dist])
    show "ve_run ?env call ?st0 = (Exited 1 ''kernel panic'' [], ?st0)" by (simp add: demo_vm_env_def)
    show "\<forall>q \<in> set (stale_paths (cu_paths demo_setup)). ?st0 q = None" by (simp add: prepare_store_clean)
    show "build_runner (cu_profile demo_setup) = Inr ()" "trace_events_transport demo_vm_cfg = Inr ''file''"
      "str_item ''kernel_build_command'' (cu_profile demo_setup) = Inr ''uname''"
      "sample_limits_of (py_get ''external_state_limits'' (PDict []) demo_vm_cfg) =
         Inr \<lparr>sl_max_files = 1000, sl_max_total_size = 104857600, sl_max_file_sample = 4096\<rparr>"
      by code_simp+
  qed
  moreover have "py_item ''role'' (cu_profile demo_setup) = Inr (PStr ''c'')"
    "py_item ''snapshot_id'' (cu_profile demo_setup) = Inr (PStr ''s'')" by code_simp+
  ultimately have "is_ok ?run"
    unfolding execute_side_def u0 call bind_Inr Let_def by (auto simp: is_ok_iff)
  then obtain r st' where r: "?run = Inr (r, st')" by (auto simp: is_ok_iff)
  from execute_side_sound [OF wf r] obtain u call st0 p st1 rr tr where
    u: "setup_case (demo_vm_env (Exited 1 ''kernel panic'' [])) demo_vm_cfg demo_profiles ''p'' ''candidate'' 5 ''1'' = Inr u" and
    stale: "\<forall>name \<in> set [''stdout.txt'', ''stderr.txt'', ''console.log'', ''raw-trace.events.jsonl'', ''raw-trace.json'',
       ''external-state.json'', ''runner-result.json'']. st0 (pjoin (cu_artifact_root u) name) = None" and
    p: "ve_run (demo_vm_env (Exited 1 ''kernel panic'' [])) call st0 = (p, st1)" and
    rr: "load_runner_result (pjoin (cu_artifact_root u) ''runner-result.json'') st1 = Inr rr" and
    path: "vr_trace_json_path r = pjoin (cu_artifact_root u) ''raw-trace.json''" and
    tr: "vr_status r = outcome_status p rr" "load_json (vr_trace_json_path r) st' = Inr tr"
    "st1 (vr_trace_json_path r) = None \<longrightarrow> trace_of_run ''p'' ''candidate'' ''1'' (vr_status r) tr"
    by (elim exE conjE) (rule that; assumption)
  have clean: "st0 (pjoin (cu_artifact_root u) ''runner-result.json'') = None" "st0 (pjoin (cu_artifact_root u) ''raw-trace.json'') = None"
    by (rule bspec [OF stale], simp)+
  have p': "p = Exited 1 ''kernel panic'' []" "st1 = st0" using p by (simp_all add: demo_vm_env_def)
  have "rr = None" using rr clean by (simp add: p' load_runner_result_def)
  moreover have "outcome_status (Exited 1 ''kernel panic'' []) None = ''candidate_bug''" by code_simp
  ultimately have "vr_status r = ''candidate_bug''" using tr(1) p' by simp
  moreover have "st1 (vr_trace_json_path r) = None" using clean by (simp add: path p')
  ultimately show ?thesis using r tr by auto
qed

section \<open>Framed events are recovered\<close>

text \<open>
  The lines of a captured stream: foreign output, or an event framed by the tracer behind any number
  of colour sequences, as a JSON text in whatever layout and order of the keys the tracer writes it. A
  line ends with a newline, on a terminal with a return and a newline. Neither holds a line boundary
  otherwise; an event that holds U+0085 would be written to the file of events as it is, where
  \<open>splitlines\<close> breaks.
\<close>

datatype out_line = Noise string | Framed "string list" string

definition ansi_seq :: "string \<Rightarrow> string" where
  "ansi_seq d = [CHR 0x1B, CHR ''[''] @ d @ ''m''"

fun line_text :: "out_line \<Rightarrow> string" where
  "line_text (Noise s) = s"
| "line_text (Framed ds payload) = concat (map ansi_seq ds) @ TRACE_EVENT_STDOUT_PREFIX @ payload"

fun line_event :: "out_line \<Rightarrow> pyval option" where
  "line_event (Noise s) = None"
| "line_event (Framed ds payload) = (case json_loads (strip payload) of Inl _ \<Rightarrow> None | Inr e \<Rightarrow> Some e)"

definition one_line :: "string \<Rightarrow> bool" where
  "one_line s = list_all (\<lambda>c. \<not> line_end c) s"

fun line_ok :: "out_line \<Rightarrow> bool" where
  "line_ok (Noise s) = (one_line s \<and> frame_payload s = None)"
| "line_ok (Framed ds payload) = (list_all (\<lambda>d. CHR ''m'' \<notin> set d \<and> one_line d) ds \<and> one_line payload \<and>
     (case line_event (Framed ds payload) of None \<Rightarrow> False | Some e \<Rightarrow> CHR 0x85 \<notin> set (json_dumps False e)))"

definition line_break :: "string \<Rightarrow> bool" where
  "line_break eol \<longleftrightarrow> eol = newline \<or> eol = CHR 0x0D # newline"

definition stream_text :: "string \<Rightarrow> out_line list \<Rightarrow> string" where
  "stream_text eol ls = concat (map (\<lambda>l. line_text l @ eol) ls)"

lemma splitlines_breaks:
  assumes "\<forall>l \<in> set ls. one_line l" "line_break eol"
  shows "splitlines (concat (map (\<lambda>l. l @ eol) ls)) = ls"
  using assms unfolding splitlines_def one_line_def line_break_def
  by (elim disjE; induction ls) (simp_all add: splitlines_acc_line splitlines_acc_return)

lemma splitlines_lines:
  assumes "\<forall>l \<in> set ls. list_all (\<lambda>c. \<not> line_end c) l"
  shows "splitlines (concat (map (\<lambda>l. l @ newline) ls)) = ls"
  using splitlines_breaks [of ls newline] assms by (simp add: one_line_def line_break_def)

lemma printable_line_end: "(32 :: nat) \<le> of_char c \<Longrightarrow> line_end c \<Longrightarrow> c = CHR 0x85"
proof -
  assume "(32 :: nat) \<le> of_char c" "line_end c"
  then have "(of_char c :: nat) = 133" by (auto simp: line_end_def Let_def)
  then have "c = char_of (133 :: nat)" by (metis char_of_char)
  also have "char_of (133 :: nat) = CHR 0x85" by code_simp
  finally show ?thesis .
qed

lemma dumps_one_line: "CHR 0x85 \<notin> set (json_dumps False e) \<Longrightarrow> list_all (\<lambda>c. \<not> line_end c) (json_dumps False e)"
  using printable_encode [of False 0 "sort_dicts e"] printable_line_end
  by (auto simp: json_dumps_def printable_def list_all_iff)

lemma framedD:
  assumes "line_ok (Framed ds payload)"
  obtains e where "json_loads (strip payload) = Inr e" "line_event (Framed ds payload) = Some e"
    "CHR 0x85 \<notin> set (json_dumps False e)" "json_wf e" "strip payload \<noteq> []"
proof -
  from assms obtain e where e: "json_loads (strip payload) = Inr e" "CHR 0x85 \<notin> set (json_dumps False e)"
    by (cases "json_loads (strip payload)") auto
  have "\<not> is_ok (json_loads [])" by code_simp
  with e(1) have "strip payload \<noteq> []" by (auto simp: is_ok_iff)
  with e json_loads_wf [OF e(1)] show thesis by (intro that [of e]) simp_all
qed

lemma line_text_one_line: "line_ok l \<Longrightarrow> one_line (line_text l)"
proof (cases l)
  case (Framed ds payload)
  assume ok: "line_ok l"
  have "list_all (\<lambda>c. \<not> line_end c) (TRACE_EVENT_STDOUT_PREFIX @ [CHR 0x1B, CHR ''['', CHR ''m''])" by code_simp
  then have "list_all (\<lambda>c. \<not> line_end c) TRACE_EVENT_STDOUT_PREFIX" "\<not> line_end (CHR 0x1B)" "\<not> line_end (CHR ''['')" "\<not> line_end (CHR ''m'')"
    by simp_all
  moreover have "list_all (\<lambda>c. \<not> line_end c) (concat (map ansi_seq ds))"
    using ok Framed calculation by (auto simp: ansi_seq_def list_all_iff one_line_def)
  ultimately show ?thesis using ok Framed by (simp add: one_line_def del: line_event.simps)
qed simp

lemma drop_ansi_prefix:
  "list_all (\<lambda>d. CHR ''m'' \<notin> set d \<and> one_line d) ds \<Longrightarrow>
   drop_ansi (concat (map ansi_seq ds) @ TRACE_EVENT_STDOUT_PREFIX @ t) = TRACE_EVENT_STDOUT_PREFIX @ t"
proof (induction ds)
  case Nil
  show ?case by (subst drop_ansi.simps) (simp add: TRACE_EVENT_STDOUT_PREFIX_def)
next
  case (Cons d ds)
  let ?r = "concat (map ansi_seq ds) @ TRACE_EVENT_STDOUT_PREFIX @ t"
  have "dropWhile (\<lambda>c. c \<noteq> CHR ''m'') (d @ CHR ''m'' # ?r) = CHR ''m'' # ?r"
    using Cons.prems by (subst dropWhile_append2) (auto simp: list_all_iff)
  then have "drop_ansi (ansi_seq d @ ?r) = drop_ansi ?r"
    by (subst drop_ansi.simps) (simp add: ansi_seq_def)
  with Cons show ?case by simp
qed

lemma strip_dumps: "strip (json_dumps False e) = json_dumps False e" "json_dumps False e \<noteq> []"
proof -
  show "json_dumps False e \<noteq> []" using opener_encode [of False 0 "sort_dicts e"] by (auto simp: json_dumps_def opener_def)
  then show "strip (json_dumps False e) = json_dumps False e"
    using encode_hd [of False 0 "sort_dicts e"] encode_last [of False 0 "sort_dicts e"]
    by (intro strip_id) (simp add: json_dumps_def)
qed

lemma frame_payload_framed:
  assumes "line_ok (Framed ds payload)"
  shows "frame_payload (line_text (Framed ds payload)) = Some (strip payload)"
proof -
  have "drop_ansi (line_text (Framed ds payload)) = TRACE_EVENT_STDOUT_PREFIX @ payload"
    using assms by (simp add: drop_ansi_prefix del: line_event.simps)
  moreover obtain e where "json_loads (strip payload) = Inr e" "strip payload \<noteq> []" by (rule framedD [OF assms])
  ultimately show ?thesis by (simp add: frame_payload_def startswith_iff Let_def del: line_text.simps)
qed

lemma extract_stream:
  assumes "\<forall>l \<in> set ls. line_ok l" "line_break eol"
  shows "extract_framed_events (stream_text eol ls) = Inr (List.map_filter line_event ls)"
proof -
  have "splitlines (stream_text eol ls) = map line_text ls"
    using splitlines_breaks [of "map line_text ls" eol] assms line_text_one_line by (simp add: stream_text_def comp_def)
  moreover have "map_res json_loads (List.map_filter frame_payload (map line_text ls)) = Inr (List.map_filter line_event ls)"
    using assms(1)
  proof (induction ls)
    case (Cons l ls)
    show ?case
    proof (cases l)
      case (Framed ds payload)
      then have ok: "line_ok (Framed ds payload)" using Cons.prems by simp
      obtain e where e: "json_loads (strip payload) = Inr e" "line_event (Framed ds payload) = Some e" by (rule framedD [OF ok])
      have IH: "map_res json_loads (List.map_filter frame_payload (map line_text ls)) = Inr (List.map_filter line_event ls)"
        using Cons by simp
      show ?thesis
        unfolding Framed list.map List.map_filter_simps frame_payload_framed [OF ok] e(2) option.case map_res.simps e(1) bind_Inr IH
        by (rule refl)
    qed (use Cons in \<open>simp add: List.map_filter_simps\<close>)
  qed (simp add: List.map_filter_simps)
  ultimately show ?thesis by (simp add: extract_framed_events_def)
qed

lemma sort_dicts_idem [simp]: "sort_dicts (sort_dicts v) = sort_dicts v"
proof (induction v)
  case (PDict kvs)
  let ?f = "\<lambda>(k, v). (k, sort_dicts v)"
  have fst: "map fst (map ?f xs) = map fst xs" for xs by (induction xs) auto
  have "map ?f (sort_key fst (map ?f kvs)) = sort_key fst (map ?f kvs)"
    using PDict by (fastforce intro!: map_idI)
  moreover have "sort_key fst (sort_key fst (map ?f kvs)) = sort_key fst (map ?f kvs)"
    by (intro sort_key_id_if_sorted) simp
  ultimately show ?case by simp
qed (simp_all add: map_idI)

lemma json_dumps_sorted [simp]: "json_dumps indent (sort_dicts e) = json_dumps indent e"
  by (simp add: json_dumps_def)

lemma dumps_inj:
  assumes "json_wf d" "json_wf e" "json_dumps False d = json_dumps False e"
  shows "sort_dicts d = sort_dicts e"
  using json_loads_dumps [OF assms(1), of False] json_loads_dumps [OF assms(2), of False] assms(3) by simp

lemma dedup_uniq_from:
  "list_all json_wf es \<Longrightarrow> list_all json_wf seen \<Longrightarrow>
   map sort_dicts (dedup_events (map (json_dumps False) seen) es) = uniq_from (map sort_dicts seen) (map sort_dicts es)"
proof (induction es arbitrary: seen)
  case (Cons e es)
  have "json_dumps False e \<in> set (map (json_dumps False) seen) \<longleftrightarrow> sort_dicts e \<in> set (map sort_dicts seen)"
  proof -
    have "json_dumps False e = json_dumps False x \<longleftrightarrow> sort_dicts e = sort_dicts x" if "x \<in> set seen" for x
    proof
      have "json_wf e" "json_wf x" using Cons.prems that by (simp_all add: list_all_iff)
      then show "json_dumps False e = json_dumps False x \<Longrightarrow> sort_dicts e = sort_dicts x" by (rule dumps_inj)
    qed (simp add: json_dumps_def)
    then show ?thesis unfolding set_map image_iff by (rule bex_cong [OF refl])
  qed
  then show ?case using Cons.IH [of seen] Cons.IH [of "e # seen"] Cons.prems by (simp add: Let_def)
qed simp

lemma dedup_uniq: "list_all json_wf es \<Longrightarrow> map sort_dicts (dedup_events [] es) = uniq (map sort_dicts es)"
  using dedup_uniq_from [of es "[]"] by (simp add: uniq_def)

lemma dedup_subseq: "subseq (dedup_events seen es) es"
  by (induction es arbitrary: seen) (auto simp: Let_def)

lemma stream_events_ok:
  assumes "\<forall>l \<in> set ls. line_ok l" "e \<in> set (List.map_filter line_event ls)"
  shows "json_wf e" "CHR 0x85 \<notin> set (json_dumps False e)"
proof -
  from assms(2) obtain l where l: "l \<in> set ls" "line_event l = Some e" by (auto simp: List.map_filter_def)
  obtain ds payload where f: "l = Framed ds payload" using l(2) by (cases l) simp_all
  with assms(1) l(1) have "line_ok (Framed ds payload)" by blast
  from framedD [OF this] l(2) f show "json_wf e" "CHR 0x85 \<notin> set (json_dumps False e)"
    by (metis option.inject)+
qed

lemma parse_dumped:
  assumes "\<forall>e \<in> set es. json_wf e \<and> CHR 0x85 \<notin> set (json_dumps False e)"
    "st ep = Some (concat (map (\<lambda>e. json_dumps False e @ newline) es))"
  shows "parse_events ep st = Inr (map sort_dicts es)"
proof -
  have "splitlines (concat (map (\<lambda>e. json_dumps False e @ newline) es)) = map (json_dumps False) es"
    using splitlines_lines [of "map (json_dumps False) es"] assms(1) dumps_one_line by (simp add: comp_def)
  moreover have "map_res json_loads (map (json_dumps False) es) = Inr (map sort_dicts es)"
    using assms(1) by (induction es) simp_all
  ultimately show ?thesis using assms(2) strip_dumps by (simp add: parse_events_def comp_def)
qed

text \<open>
  C25. Framed events survive any capture. When the tracer writes its events to standard output, each
  framed on a line of its own in its own layout of JSON, behind colour codes or not, among foreign lines,
  and repeated on standard error or the console, the events recovered are those framed, each once (two
  that differ in the order of their keys are one), in the order of their first frame; and the file written
  from them gives the same events, their keys sorted, to every later reader. (No event may hold U+0085:
  the readers split lines there.)
\<close>

theorem framed_events_recovered:
  assumes "trace_events_transport cfg = Inr ''stdout''" "st ep = None" "cp \<noteq> ep"
    "\<forall>l \<in> set (ls1 @ ls2 @ ls3). line_ok l" "line_break e1 \<and> line_break e2 \<and> line_break e3" "st cp = Some (stream_text e3 ls3)"
  shows "\<exists>es st'. map sort_dicts es = uniq (map sort_dicts (List.map_filter line_event (ls1 @ ls2 @ ls3))) \<and>
    subseq es (List.map_filter line_event (ls1 @ ls2 @ ls3)) \<and>
    persisted_trace_events cfg ep (stream_text e1 ls1) (stream_text e2 ls2) cp st = Inr (es, st') \<and>
    persisted_trace_events cfg ep out err cp st' =
      (if es = [] then persisted_trace_events cfg ep out err cp st else Inr (map sort_dicts es, st'))"
proof -
  let ?evs = "List.map_filter line_event (ls1 @ ls2 @ ls3)"
  define es where "es = dedup_events [] ?evs"
  define st1 where "st1 = (if es \<noteq> [] then st(ep \<mapsto> concat (map (\<lambda>e. json_dumps False e @ newline) es)) else st)"
  have ok: "\<forall>e \<in> set ?evs. json_wf e \<and> CHR 0x85 \<notin> set (json_dumps False e)"
    using stream_events_ok [OF assms(4)] by blast
  have sub: "subseq es ?evs" by (simp only: es_def dedup_subseq)
  have once: "map sort_dicts es = uniq (map sort_dicts ?evs)"
    unfolding es_def using ok by (intro dedup_uniq) (simp only: list_all_iff, blast)
  have "file_events ep st = Inr []" using assms(2) by (simp add: file_events_def parse_events_def)
  moreover have "map_res extract_framed_events [stream_text e1 ls1, stream_text e2 ls2, stream_text e3 ls3] =
      Inr [List.map_filter line_event ls1, List.map_filter line_event ls2, List.map_filter line_event ls3]"
    using extract_stream [of ls1 e1] extract_stream [of ls2 e2] extract_stream [of ls3 e3] assms(4,5) by simp
  moreover have "concat [List.map_filter line_event ls1, List.map_filter line_event ls2, List.map_filter line_event ls3] = ?evs"
    by (simp add: List.map_filter_def)
  ultimately have first: "persisted_trace_events cfg ep (stream_text e1 ls1) (stream_text e2 ls2) cp st = Inr (es, st1)"
    using assms(1,2,6) by (simp add: persisted_trace_events_def Let_def es_def st1_def del: map_res.simps concat.simps List.map_filter_simps)
  have again: "persisted_trace_events cfg ep out err cp st1 = Inr (map sort_dicts es, st1)" if ne: "es \<noteq> []"
  proof -
    have ok': "\<forall>e \<in> set es. json_wf e \<and> CHR 0x85 \<notin> set (json_dumps False e)"
      using ok list_emb_set [OF sub] by (metis (no_types, lifting))
    have "st1 ep = Some (concat (map (\<lambda>e. json_dumps False e @ newline) es))" using ne by (simp add: st1_def)
    from parse_dumped [where es = es and st = st1 and ep = ep, OF ok' this] have "file_events ep st1 = Inr (map sort_dicts es)"
      unfolding file_events_def by (simp only: sum.case)
    moreover have "map sort_dicts es \<noteq> []" using ne by simp
    ultimately show ?thesis unfolding persisted_trace_events_def by (simp only: bind_Inr if_True not_False_eq_True)
  qed
  have "persisted_trace_events cfg ep out err cp st1 =
      (if es = [] then persisted_trace_events cfg ep out err cp st else Inr (map sort_dicts es, st1))"
  proof (cases "es = []")
    case True
    then show ?thesis by (simp only: st1_def if_True if_False not_True_eq_False simp_thms)
  next
    case False
    then show ?thesis by (simp only: again [OF False] if_False)
  qed
  with once sub first show ?thesis by (intro exI [of _ es] exI [of _ st1]) (simp only: simp_thms)
qed

text \<open>An event as \<open>emit_event\<close> of the tracer prints it, without blanks and in its own order of the keys, in full and cut short.\<close>

definition full_tracer_event :: string where
  "full_tracer_event = (let q = [CHR 0x22] in
     ''{'' @ q @ ''event_index'' @ q @ '':0,'' @ q @ ''side'' @ q @ '':'' @ q @ ''candidate'' @ q @ '','' @
     q @ ''syscall_name'' @ q @ '':'' @ q @ ''pipe2'' @ q @ '','' @ q @ ''syscall_number'' @ q @ '':293,'' @
     q @ ''args'' @ q @ '':[140737488347128,0,0,0,0,0],'' @ q @ ''return_value'' @ q @ '':0,'' @ q @ ''errno'' @ q @ '':0,'' @
     q @ ''start_ns'' @ q @ '':12,'' @ q @ ''end_ns'' @ q @ '':15,'' @ q @ ''timed_out'' @ q @ '':false,'' @ q @ ''outputs'' @ q @ '':[{'' @
     q @ ''label'' @ q @ '':'' @ q @ ''fds'' @ q @ '','' @ q @ ''arg_index'' @ q @ '':0,'' @ q @ ''length'' @ q @ '':8,'' @
     q @ ''resource_kind'' @ q @ '':'' @ q @ ''fd'' @ q @ '','' @ q @ ''resource_values'' @ q @ '':[3,4]}]}'')"

lemma full_tracer_event_ok: "line_ok (Framed [] full_tracer_event)"
  by code_simp

definition demo_tracer_event :: "string \<Rightarrow> string" where
  "demo_tracer_event n = (let q = [CHR 0x22] in
     ''{'' @ q @ ''event_index'' @ q @ '':'' @ n @ '','' @ q @ ''side'' @ q @ '':'' @ q @ ''candidate'' @ q @ '','' @
     q @ ''args'' @ q @ '':[1,-2],'' @ q @ ''timed_out'' @ q @ '':false,'' @ q @ ''outputs'' @ q @ '':[]}'')"

lemma framed_events_recovered_witness:
  "\<exists>es st'. persisted_trace_events (PDict [(''trace'', PDict [(''events_transport'', PStr ''stdout'')])]) ''e''
      (stream_text newline [Noise ''boot'', Framed [''0''] (demo_tracer_event ''1''), Framed [] (demo_tracer_event ''0'')])
      (stream_text newline []) ''c'' (Map.empty(''c'' \<mapsto> stream_text (CHR 0x0D # newline) [Framed [] (demo_tracer_event ''1'')])) =
        Inr (es, st') \<and> map (py_item ''event_index'') (map sort_dicts es) = [Inr (PInt 1), Inr (PInt 0)]"
proof -
  let ?cfg = "PDict [(''trace'', PDict [(''events_transport'', PStr ''stdout'')])]"
  let ?ls1 = "[Noise ''boot'', Framed [''0''] (demo_tracer_event ''1''), Framed [] (demo_tracer_event ''0'')]"
    and ?ls3 = "[Framed [] (demo_tracer_event ''1'')]" and ?crlf = "CHR 0x0D # newline"
  have t: "trace_events_transport ?cfg = Inr ''stdout''" by code_simp
  have ok: "\<forall>l \<in> set (?ls1 @ [] @ ?ls3). line_ok l" by code_simp
  have br: "line_break newline \<and> line_break newline \<and> line_break ?crlf" by (simp add: line_break_def)
  have "map (py_item ''event_index'') (uniq (map sort_dicts (List.map_filter line_event (?ls1 @ [] @ ?ls3)))) =
      [Inr (PInt 1), Inr (PInt 0)]" by code_simp
  moreover from framed_events_recovered [OF t _ _ ok br, of "Map.empty(''c'' \<mapsto> stream_text ?crlf ?ls3)" "''e''" "''c''" "[]" "[]"]
  obtain es st' where "map sort_dicts es = uniq (map sort_dicts (List.map_filter line_event (?ls1 @ [] @ ?ls3)))"
    "persisted_trace_events ?cfg ''e'' (stream_text newline ?ls1) (stream_text newline []) ''c''
      (Map.empty(''c'' \<mapsto> stream_text ?crlf ?ls3)) = Inr (es, st')" by fastforce
  ultimately show ?thesis by (intro exI [of _ es] exI [of _ st']) (simp only: simp_thms)
qed

end
