(* ===== verification/VmBatch.thy ===== *)
theory VmBatch
  imports VmRunner
begin

text \<open>
  Candidate batches (\<open>orchestrator/vm_runner.py\<close>): the case record a batch prepares, the package or
  the shared manifest written for it, the run of a packaged case, the result of a case of a shared
  run, and \<open>execute_candidate_batch_with_context\<close> over both modes.

  A case record is the dictionary the code passes around. The adapter's package payloads are those of
  \<open>Targets\<close>; its \<open>prewarm_candidate_batch\<close>, which builds a guest image, is a parameter, and so is the
  order in which the cases of a thread pool run (each leaves its files in directories of its own;
  their processes do not overlap here). Identifiers are digests of compact JSON text.
\<close>

section \<open>Case records\<close>

definition str_of :: "string \<Rightarrow> pyval \<Rightarrow> string res" where
  "str_of k case_rec = bind (py_item k case_rec) (\<lambda>v. Inr (py_str v))"

definition protected_keys :: "string list" where
  "protected_keys = [''binary_path'', ''artifact_root'', ''sandbox_root'', ''stdout_path'', ''stderr_path'',
     ''console_path'', ''events_path'', ''raw_trace_path'', ''external_state_path'', ''runner_result_path'',
     ''program_id'', ''run_id'', ''effective_timeout_sec'', ''role'', ''snapshot_id'', ''runner_kind'']"

fun merge_prepared :: "(string \<times> pyval) list \<Rightarrow> (string \<times> pyval) list \<Rightarrow> (string \<times> pyval) list" where
  "merge_prepared payload [] = payload"
| "merge_prepared payload ((k, v) # kvs) =
     merge_prepared (if k \<in> set protected_keys then payload else dict_set k v payload) kvs"

definition case_record ::
  "string \<Rightarrow> string \<Rightarrow> pyval option \<Rightarrow> case_setup \<Rightarrow> pyval \<Rightarrow> pyval \<Rightarrow> (string \<times> pyval) list" where
  "case_record program_id run_id inject u role snapshot_id =
     [(''program_id'', PStr program_id), (''run_id'', PStr run_id),
      (''effective_timeout_sec'', PInt (cu_timeout_sec u)), (''artifact_root'', PStr (cu_artifact_root u)),
      (''sandbox_root'', PStr (cu_sandbox_root u)), (''binary_path'', PStr (ap_binary (cu_paths u))),
      (''stdout_path'', PStr (ap_stdout (cu_paths u))), (''stderr_path'', PStr (ap_stderr (cu_paths u))),
      (''console_path'', PStr (ap_console (cu_paths u))), (''events_path'', PStr (ap_events (cu_paths u))),
      (''raw_trace_path'', PStr (ap_raw_trace (cu_paths u))),
      (''external_state_path'', PStr (ap_external_state (cu_paths u))),
      (''runner_result_path'', PStr (ap_runner_result (cu_paths u))),
      (''inject_trace'', opt_default PNone inject), (''role'', role), (''snapshot_id'', snapshot_id),
      (''runner_kind'', py_get ''kind'' (PStr ''command'') (cu_profile u))]"

definition prepare_candidate_batch_case ::
  "vm_env \<Rightarrow> pyval \<Rightarrow> pyval \<Rightarrow> string \<Rightarrow> int \<Rightarrow> string \<Rightarrow> pyval option \<Rightarrow> pyval option \<Rightarrow> store \<Rightarrow> (pyval \<times> store) res" where
  "prepare_candidate_batch_case env cfg profiles program_id timeout_sec run_id inject prepared_case st =
     bind (setup_case env cfg profiles program_id (side_str CANDIDATE) timeout_sec run_id) (\<lambda>u.
     let st' = prepare_store (cu_sandbox_root u) (cu_build_root u) (cu_artifact_root u) (cu_paths u) st in
     bind (py_item ''role'' (cu_profile u)) (\<lambda>role.
     bind (py_item ''snapshot_id'' (cu_profile u)) (\<lambda>snapshot_id.
     Inr (PDict (merge_prepared (case_record program_id run_id inject u role snapshot_id)
            (items (opt_default (PDict []) prepared_case))), st'))))"

definition case_paths :: "pyval \<Rightarrow> artifact_paths res" where
  "case_paths c =
     bind (str_of ''raw_trace_path'' c) (\<lambda>raw_trace.
     bind (str_of ''external_state_path'' c) (\<lambda>external_state.
     bind (str_of ''stdout_path'' c) (\<lambda>stdout.
     bind (str_of ''stderr_path'' c) (\<lambda>stderr.
     bind (str_of ''console_path'' c) (\<lambda>console.
     bind (str_of ''runner_result_path'' c) (\<lambda>runner_result.
     bind (str_of ''events_path'' c) (\<lambda>events.
     bind (str_of ''binary_path'' c) (\<lambda>binary.
     bind (str_of ''artifact_root'' c) (\<lambda>base_dir.
     Inr \<lparr>ap_stdout = stdout, ap_stderr = stderr, ap_console = console, ap_events = events,
          ap_raw_trace = raw_trace, ap_external_state = external_state, ap_runner_result = runner_result,
          ap_binary = binary, ap_run_result = pjoin base_dir ''run-result.json''\<rparr>)))))))))"

section \<open>Packages and manifests\<close>

definition canonical_json_sha256 :: "vm_env \<Rightarrow> pyval \<Rightarrow> string" where
  "canonical_json_sha256 env payload = ve_sha256 env (json_dumps False payload)"

definition manifest_case :: "pyval \<Rightarrow> nat \<times> pyval \<Rightarrow> pyval res" where
  "manifest_case payload sc = (case sc of (slot, c) \<Rightarrow>
     bind (str_of ''program_id'' c) (\<lambda>program_id.
     bind (str_of ''binary_path'' c) (\<lambda>binary_path.
     bind (py_item ''cases'' payload) (\<lambda>cs.
     bind (case cs of PList vs \<Rightarrow> if slot < length vs then Inr (vs ! slot) else Inl IndexError
           | _ \<Rightarrow> Inl (TypeError ''not subscriptable'')) (\<lambda>entry.
     bind (py_item ''binary_sha256'' entry) (\<lambda>sha.
     Inr (PDict [(''slot'', PInt (int slot)), (''program_id'', PStr program_id), (''binary_path'', PStr binary_path),
       (''binary_sha256'', sha)])))))))"

definition slot_entry :: "nat \<times> pyval \<Rightarrow> (string \<times> int) res" where
  "slot_entry sc = bind (str_of ''program_id'' (snd sc)) (\<lambda>pid. Inr (pid, int (fst sc)))"

definition prepare_candidate_initramfs_package ::
  "vm_env \<Rightarrow> adapter \<Rightarrow> pyval list \<Rightarrow> pyval \<Rightarrow> pyval \<Rightarrow> store \<Rightarrow> (string \<times> (string, int) dict \<times> store) res" where
  "prepare_candidate_initramfs_package env adapter cases cfg batch_metadata st =
     bind (ad_prepare_case_package_payload adapter cases cfg batch_metadata) (\<lambda>payload. case payload of
       None \<Rightarrow> Inl (ValueError ''target does not support case packages'')
     | Some p \<Rightarrow>
         let package_id = canonical_json_sha256 env p in
         bind (candidate_initramfs_packages_dir (ve_root env) cfg) (\<lambda>package_root.
         let package_dir = pjoin package_root package_id in
         bind (map_res (manifest_case p) (enumerate 0 cases)) (\<lambda>cs.
         bind (map_res slot_entry (enumerate 0 cases)) (\<lambda>slots.
         let manifest = PDict (dict_merge (dict_merge [(''package_id'', PStr package_id)] (items p)) [(''cases'', PList cs)]) in
         Inr (package_dir, dict_merge [] slots, dump_json (pjoin package_dir ''package-manifest.json'') manifest st)))))"

definition prepare_shared_batch_manifest ::
  "vm_env \<Rightarrow> adapter \<Rightarrow> pyval list \<Rightarrow> pyval \<Rightarrow> pyval \<Rightarrow> store \<Rightarrow> (string \<times> string \<times> store) res" where
  "prepare_shared_batch_manifest env adapter cases cfg batch_metadata st =
     bind (ad_prepare_batch_manifest_payload adapter cases cfg batch_metadata) (\<lambda>payload. case payload of
       None \<Rightarrow> Inl (ValueError ''target does not support batch manifests'')
     | Some p \<Rightarrow>
         bind (resolved (ve_root env) cfg ''temp_dir'' (PStr ''artifacts/tmp'')) (\<lambda>tmp.
         let manifest_dir = pjoin tmp ''target-batches''; batch_id = canonical_json_sha256 env p in
         Inr (manifest_dir, batch_id, dump_json (pjoin manifest_dir (batch_id @ ''.json'')) p st)))"

section \<open>A packaged case\<close>

definition packaged_context :: "pyval \<Rightarrow> artifact_paths \<Rightarrow> string \<Rightarrow> string \<Rightarrow> int \<Rightarrow> string \<Rightarrow> string \<Rightarrow> execution_context" where
  "packaged_context c ap program_id run_id timeout_sec sandbox_root artifact_root =
     \<lparr>ec_program_id = program_id, ec_side = side_str CANDIDATE, ec_run_id = run_id, ec_timeout_sec = timeout_sec,
      ec_sandbox_root = sandbox_root, ec_artifact_root = artifact_root, ec_binary_path = ap_binary ap,
      ec_stdout_path = ap_stdout ap, ec_stderr_path = ap_stderr ap, ec_console_path = ap_console ap,
      ec_events_path = ap_events ap, ec_raw_trace_path = ap_raw_trace ap,
      ec_external_state_path = ap_external_state ap, ec_runner_result_path = ap_runner_result ap,
      ec_batch_manifest_path = None\<rparr>"

definition packaged_call ::
  "vm_env \<Rightarrow> pyval \<Rightarrow> pyval \<Rightarrow> adapter \<Rightarrow> pyval \<Rightarrow> artifact_paths \<Rightarrow> string \<Rightarrow> string \<Rightarrow> string \<Rightarrow> int \<Rightarrow> vm_call res" where
  "packaged_call env cfg profile adapter c ap program_id run_id package_dir slot =
     bind (str_of ''sandbox_root'' c) (\<lambda>sandbox_root.
     bind (str_of ''artifact_root'' c) (\<lambda>artifact_root.
     bind (bind (py_item ''effective_timeout_sec'' c) py_int) (\<lambda>timeout_sec.
     bind (env_with_temp env (Some cfg)) (\<lambda>base.
     bind (trace_events_destination cfg (ap_events ap)) (\<lambda>dest.
     bind (py_item ''normalization'' cfg) (\<lambda>normalization.
     bind (py_item ''preview_bytes'' normalization) (\<lambda>preview.
     bind (resolve_command profile (to_command_context (ve_root env)
            (packaged_context c ap program_id run_id timeout_sec sandbox_root artifact_root)) ''command'') (\<lambda>command.
     Inr \<lparr>vc_command = command, vc_cwd = sandbox_root,
          vc_env = dict_merge (dict_merge (dict_merge base
              (case_env (side_str CANDIDATE) program_id run_id dest (py_str preview) sandbox_root ap))
              (ad_packaged_candidate_env adapter package_dir slot))
              (inject_env (Some (py_get ''inject_trace'' PNone c))),
          vc_timeout_sec = timeout_sec\<rparr>))))))))"

definition no_files_doc :: pyval where
  "no_files_doc = PDict [(''files'', PList [])]"

definition case_result ::
  "vm_env \<Rightarrow> pyval \<Rightarrow> artifact_paths \<Rightarrow> int \<Rightarrow> case_outcome \<Rightarrow> vm_result res" where
  "case_result env c ap elapsed_ms oc =
     bind (str_of ''program_id'' c) (\<lambda>program_id.
     bind (str_of ''role'' c) (\<lambda>role.
     bind (str_of ''snapshot_id'' c) (\<lambda>snapshot_id.
     bind (str_of ''run_id'' c) (\<lambda>run_id.
     bind (str_of ''runner_kind'' c) (\<lambda>runner_kind.
     Inr ((result_of env program_id (side_str CANDIDATE) run_id ap oc (PStr role) (PStr snapshot_id) (PStr runner_kind))
            \<lparr>vr_elapsed_ms := elapsed_ms\<rparr>))))))"

definition execute_prepared_candidate_case ::
  "vm_env \<Rightarrow> pyval \<Rightarrow> pyval \<Rightarrow> adapter \<Rightarrow> pyval \<Rightarrow> string \<Rightarrow> int \<Rightarrow> store \<Rightarrow> (vm_result \<times> store) res" where
  "execute_prepared_candidate_case env cfg profiles adapter c package_dir slot st =
     bind (py_item (side_str CANDIDATE) profiles) (\<lambda>profile.
     bind (case_paths c) (\<lambda>ap.
     bind (str_of ''program_id'' c) (\<lambda>program_id.
     bind (str_of ''run_id'' c) (\<lambda>run_id.
     bind (packaged_call env cfg profile adapter c ap program_id run_id package_dir slot) (\<lambda>call.
     bind (build_runner profile) (\<lambda>_.
     bind (str_item ''kernel_build_command'' profile) (\<lambda>kbc.
     bind (str_of ''runner_kind'' c) (\<lambda>kind.
     bind (run_case_artifacts env cfg program_id (side_str CANDIDATE) run_id ap (PStr kind)
            [(''initramfs_package_dir'', PStr package_dir), (''initramfs_package_slot'', PInt slot)] kbc
            (\<lambda>s. Inr (dump_new (ap_external_state ap) no_files_doc s)) call st) (\<lambda>(oc, st1).
     bind (case_result env c ap (ve_elapsed_ms env) oc) (\<lambda>r.
     Inr (r, dump_json (ap_run_result ap) (vm_result_doc r) st1)))))))))))"

definition execute_candidate_case_in_package ::
  "vm_env \<Rightarrow> pyval \<Rightarrow> pyval \<Rightarrow> adapter \<Rightarrow> string \<Rightarrow> int \<Rightarrow> string \<Rightarrow> string \<Rightarrow> int \<Rightarrow> pyval option \<Rightarrow> store \<Rightarrow>
   (vm_result \<times> store) res" where
  "execute_candidate_case_in_package env cfg profiles adapter program_id timeout_sec run_id package_dir slot inject st =
     bind (prepare_candidate_batch_case env cfg profiles program_id timeout_sec run_id inject None st) (\<lambda>(c, st1).
     execute_prepared_candidate_case env cfg profiles adapter c package_dir slot st1)"

section \<open>A case of a shared run\<close>

definition read_new :: "string \<Rightarrow> store \<Rightarrow> string" where
  "read_new path st = opt_default [] (st path)"

text \<open>The outcome read from the result file; a file that holds \<open>null\<close> counts as missing.\<close>

definition batch_case_outcome ::
  "vm_env \<Rightarrow> pyval \<Rightarrow> pyval \<Rightarrow> artifact_paths \<Rightarrow> store \<Rightarrow> case_outcome res" where
  "batch_case_outcome env profiles c ap st =
     bind (load_runner_result (ap_runner_result ap) st) (\<lambda>runner_result.
     bind (bind (py_item (side_str CANDIDATE) profiles) (str_item ''kernel_build_command'')) (\<lambda>kbc.
     let kb = safe_kernel_build env kbc in
     if runner_result = None \<or> runner_result = Some PNone then
       Inr \<lparr>oc_status = status_str INFRA_ERROR, oc_exit_code = PNone, oc_stdout = [], oc_stderr = [],
            oc_status_detail = PStr ''missing candidate batch runner result'', oc_kernel_build = kb\<rparr>
     else
       bind (str_of ''runner_kind'' c) (\<lambda>kind.
       bind (finalize_process_result kind (Some 0) None runner_result kb) (\<lambda>(status, exit_code, detail, kb').
       Inr \<lparr>oc_status = status, oc_exit_code = exit_code, oc_stdout = [], oc_stderr = [],
            oc_status_detail = detail, oc_kernel_build = kb'\<rparr>))))"

definition finalize_batch_case_result ::
  "vm_env \<Rightarrow> pyval \<Rightarrow> pyval \<Rightarrow> pyval \<Rightarrow> int \<Rightarrow> store \<Rightarrow> (vm_result \<times> store) res" where
  "finalize_batch_case_result env cfg profiles c elapsed_ms st =
     bind (case_paths c) (\<lambda>ap.
     bind (batch_case_outcome env profiles c ap st) (\<lambda>oc.
     bind (str_of ''program_id'' c) (\<lambda>program_id.
     bind (str_of ''run_id'' c) (\<lambda>run_id.
     bind (build_and_persist_raw_trace cfg program_id (side_str CANDIDATE) run_id (oc_status oc) (oc_exit_code oc) ap
            (read_new (ap_stdout ap) st) (read_new (ap_stderr ap) st) st) (\<lambda>st1.
     let st2 = write_new (ap_console ap) [] (write_new (ap_stderr ap) [] (write_new (ap_stdout ap) []
           (dump_new (ap_external_state ap) no_files_doc st1))) in
     bind (case_result env c ap elapsed_ms oc) (\<lambda>r.
     Inr (r, dump_json (ap_run_result ap) (vm_result_doc r) st2)))))))"

section \<open>A batch\<close>

text \<open>One comprehension over the cases: the results by program id, the store threaded through.\<close>

fun run_cases ::
  "(pyval \<Rightarrow> store \<Rightarrow> (vm_result \<times> store) res) \<Rightarrow> pyval list \<Rightarrow> (string, vm_result) dict \<Rightarrow> store \<Rightarrow>
   ((string, vm_result) dict \<times> store) res" where
  "run_cases run [] results st = Inr (results, st)"
| "run_cases run (c # cs) results st =
     bind (str_of ''program_id'' c) (\<lambda>pid.
     bind (run c st) (\<lambda>(r, st'). run_cases run cs (dict_set pid r results) st'))"

fun prepare_cases ::
  "vm_env \<Rightarrow> pyval \<Rightarrow> pyval \<Rightarrow> int \<Rightarrow> pyval list \<Rightarrow> store \<Rightarrow> (pyval list \<times> store) res" where
  "prepare_cases env cfg profiles timeout_sec [] st = Inr ([], st)"
| "prepare_cases env cfg profiles timeout_sec (c # cs) st =
     bind (str_of ''program_id'' c) (\<lambda>pid.
     bind (str_of ''run_id'' c) (\<lambda>run_id.
     let prepared = py_get ''prepared_case'' PNone c in
     bind (prepare_candidate_batch_case env cfg profiles pid timeout_sec run_id
            (Some (py_get ''inject_trace'' PNone c)) (if is_dict prepared then Some prepared else None) st) (\<lambda>(p, st').
     bind (prepare_cases env cfg profiles timeout_sec cs st') (\<lambda>(ps, st''). Inr (p # ps, st'')))))"

definition shared_context :: "string \<Rightarrow> string \<Rightarrow> int \<Rightarrow> execution_context" where
  "shared_context manifest_dir batch_id timeout_sec =
     \<lparr>ec_program_id = ''candidate-batch'', ec_side = side_str CANDIDATE, ec_run_id = batch_id,
      ec_timeout_sec = timeout_sec, ec_sandbox_root = manifest_dir, ec_artifact_root = manifest_dir,
      ec_binary_path = pjoin manifest_dir ''unused.bin'', ec_stdout_path = pjoin manifest_dir ''stdout.txt'',
      ec_stderr_path = pjoin manifest_dir ''stderr.txt'', ec_console_path = pjoin manifest_dir ''console.log'',
      ec_events_path = pjoin manifest_dir ''events.jsonl'', ec_raw_trace_path = pjoin manifest_dir ''raw-trace.json'',
      ec_external_state_path = pjoin manifest_dir ''external-state.json'',
      ec_runner_result_path = pjoin manifest_dir ''runner-result.json'',
      ec_batch_manifest_path = Some (pjoin manifest_dir (batch_id @ ''.json''))\<rparr>"

text \<open>\<open>stream if isinstance(stream, str) else ""\<close>\<close>

definition str_only :: "stream \<Rightarrow> string" where
  "str_only s = (case s of Str t \<Rightarrow> t | Bytes _ \<Rightarrow> [])"

text \<open>When the shared run expires or cannot start, every case's result file is written.\<close>

fun write_failures :: "runner_execution \<Rightarrow> string \<Rightarrow> string \<Rightarrow> string \<Rightarrow> pyval list \<Rightarrow> store \<Rightarrow> store res" where
  "write_failures ex status detail kb [] st = Inr st"
| "write_failures ex status detail kb (c # cs) st =
     bind (str_of ''runner_result_path'' c) (\<lambda>rr.
     bind (str_of ''stdout_path'' c) (\<lambda>out.
     bind (str_of ''stderr_path'' c) (\<lambda>err.
     let doc = PDict [(''status'', PStr status), (''exit_code'', PNone), (''detail'', PStr detail),
           (''kernel_build'', PStr kb)] in
     write_failures ex status detail kb cs
       ((dump_json rr doc st)(out \<mapsto> str_only (ex_stdout ex), err \<mapsto> str_only (ex_stderr ex))))))"

definition shared_failure :: "runner_execution \<Rightarrow> (string \<times> string) option" where
  "shared_failure ex =
     (if ex_timed_out ex \<or> ex_os_error ex \<noteq> None then
        Some (if ex_timed_out ex then ''timeout'' else ''infra_error'',
              case ex_os_error ex of Some (c # m) \<Rightarrow> c # m | _ \<Rightarrow> ''shared batch execution timed out'')
      else None)"

definition run_shared_batch ::
  "vm_env \<Rightarrow> pyval \<Rightarrow> pyval \<Rightarrow> pyval \<Rightarrow> adapter \<Rightarrow> int \<Rightarrow> pyval list \<Rightarrow> pyval \<Rightarrow> store \<Rightarrow>
   ((string, vm_result) dict \<times> store) res" where
  "run_shared_batch env cfg profiles profile adapter timeout_sec cases meta st =
     bind (prepare_shared_batch_manifest env adapter cases cfg meta st) (\<lambda>(manifest_dir, batch_id, st1).
     bind (resolve_command profile (to_command_context (ve_root env) (shared_context manifest_dir batch_id timeout_sec))
            ''batch_command'') (\<lambda>command.
     bind (build_runner profile) (\<lambda>_.
     bind (env_with_temp env (Some cfg)) (\<lambda>base.
     case ve_run env \<lparr>vc_command = command, vc_cwd = ve_root env, vc_env = base,
            vc_timeout_sec = max timeout_sec (int (length cases) * timeout_sec)\<rparr> st1 of (p, st2) \<Rightarrow>
     let ex = command_run_case p in
     bind (case shared_failure ex of None \<Rightarrow> Inr st2
           | Some (status, detail) \<Rightarrow>
               write_failures ex status detail (py_str (py_get ''snapshot_id'' (PStr ''unknown'') profile)) cases st2) (\<lambda>st3.
     run_cases (\<lambda>c. finalize_batch_case_result env cfg profiles c 0) cases [] st3)))))"

record batch_params =
  bp_prewarm :: "pyval list \<Rightarrow> string \<Rightarrow> store \<Rightarrow> store res"
  bp_completion :: "int \<Rightarrow> pyval list \<Rightarrow> pyval list"

definition selected_workers :: "pyval \<Rightarrow> int option \<Rightarrow> int \<Rightarrow> int res" where
  "selected_workers cfg max_workers n =
     bind (case max_workers of Some w \<Rightarrow> Inr w
           | None \<Rightarrow> bind (as_dict (py_get ''parallel'' (PDict []) cfg)) (\<lambda>d. py_int (py_get ''jobs'' (PInt 1) (PDict d))))
       (\<lambda>w. Inr (max 1 (min n w)))"

definition run_packaged_batch ::
  "vm_env \<Rightarrow> batch_params \<Rightarrow> pyval \<Rightarrow> pyval \<Rightarrow> adapter \<Rightarrow> int option \<Rightarrow> pyval list \<Rightarrow> pyval \<Rightarrow> store \<Rightarrow>
   ((string, vm_result) dict \<times> string \<times> (string, int) dict \<times> store) res" where
  "run_packaged_batch env bp cfg profiles adapter max_workers cases meta st =
     bind (prepare_candidate_initramfs_package env adapter cases cfg meta st) (\<lambda>(package_dir, slots, st1).
     bind (bp_prewarm bp cases package_dir st1) (\<lambda>st2.
     bind (selected_workers cfg max_workers (int (length cases))) (\<lambda>workers.
     bind (run_cases (\<lambda>c s. bind (bind (str_of ''program_id'' c) (\<lambda>pid. opt_res (KeyError pid) (dict_get pid slots))) (\<lambda>slot.
             execute_prepared_candidate_case env cfg profiles adapter c package_dir slot s))
            (if workers = 1 then cases else bp_completion bp workers cases) [] st2) (\<lambda>(results, st3).
     Inr (results, package_dir, slots, st3)))))"

definition batching_mode :: "pyval \<Rightarrow> string" where
  "batching_mode profile =
     (let v = py_get ''command_batching_mode'' PNone profile in
      opt_default [] (canonical_execution_mode (Some (py_str (if truthy v then v else PStr (mode_str PACKAGED_PER_CASE))))))"

definition no_slots :: "pyval list \<Rightarrow> (string, int option) dict res" where
  "no_slots cases = bind (map_res (\<lambda>c. bind (str_of ''program_id'' c) (\<lambda>pid. Inr (pid, None))) cases) (\<lambda>kvs.
     Inr (dict_merge [] kvs))"

definition execute_candidate_batch_with_context ::
  "vm_env \<Rightarrow> batch_params \<Rightarrow> pyval \<Rightarrow> pyval \<Rightarrow> adapter \<Rightarrow> pyval list \<Rightarrow> int \<Rightarrow> int option \<Rightarrow> store \<Rightarrow>
   ((string, vm_result) dict \<times> string option \<times> (string, int option) dict \<times> store) res" where
  "execute_candidate_batch_with_context env bp cfg profiles adapter batch_cases timeout_sec max_workers st =
     (if batch_cases = [] then Inr ([], None, [], st) else
      bind (py_item (side_str CANDIDATE) profiles) (\<lambda>profile.
      if py_get ''kind'' PNone profile \<noteq> PStr ''command''
      then Inl (ValueError ''candidate batch execution requires a command runner profile'') else
      if batching_mode profile \<notin> set (ad_execution_modes adapter cfg)
      then Inl (ValueError ''candidate runner batching mode is not supported by target'') else
      bind (prepare_cases env cfg profiles timeout_sec batch_cases st) (\<lambda>(prepared, st1).
      let meta = opt_default (PDict []) (base_prepare_batch adapter prepared cfg);
          cases = (case py_get ''cases'' PNone meta of PList vs \<Rightarrow> vs | _ \<Rightarrow> prepared) in
      if batching_mode profile = mode_str SHARED_RUNTIME_BATCH then
        bind (run_shared_batch env cfg profiles profile adapter timeout_sec cases meta st1) (\<lambda>(results, st2).
        bind (no_slots cases) (\<lambda>slots. Inr (results, None, slots, st2)))
      else
        bind (run_packaged_batch env bp cfg profiles adapter max_workers cases meta st1) (\<lambda>(results, package_dir, slots, st2).
        Inr (results, Some package_dir, map (\<lambda>(k, v). (k, Some v)) slots, st2)))))"

section \<open>Every case has its result\<close>

lemma merge_prepared_get: "k \<in> set protected_keys \<Longrightarrow> dict_get k (merge_prepared payload kvs) = dict_get k payload"
  by (induction payload kvs rule: merge_prepared.induct) auto

declare dict_keys_Nil [simp]

lemma str_of_protected:
  assumes "k \<in> set protected_keys" "dict_get k payload = Some (PStr v)"
  shows "str_of k (PDict (merge_prepared payload kvs)) = Inr v"
  using merge_prepared_get [OF assms(1), of payload kvs] assms(2) by (simp add: str_of_def py_item_def opt_res_def)

text \<open>The files of a prepared case are the fixed names under its own artifact directory.\<close>

definition case_at :: "string \<Rightarrow> pyval \<Rightarrow> bool" where
  "case_at program_id c \<longleftrightarrow> str_of ''program_id'' c = Inr program_id \<and>
     (\<exists>base_dir bin. case_paths c = Inr (artifact_files base_dir bin))"

definition case_in :: "vm_env \<Rightarrow> pyval \<Rightarrow> pyval \<Rightarrow> pyval \<Rightarrow> bool" where
  "case_in env cfg c p \<longleftrightarrow> (\<exists>pid run_id artifacts_dir bin. str_of ''program_id'' c = Inr pid \<and> str_of ''run_id'' c = Inr run_id \<and>
     str_of ''program_id'' p = Inr pid \<and> bind (py_item ''paths'' cfg) (str_item ''artifacts_dir'') = Inr artifacts_dir \<and>
     case_paths p = Inr (artifact_files (resolve_repo_path (ve_root env)
       (pjoin (case_dir artifacts_dir pid run_id) (side_str CANDIDATE))) bin))"

lemma case_in_at: "case_in env cfg c p \<Longrightarrow> \<exists>pid. str_of ''program_id'' c = Inr pid \<and> case_at pid p"
  by (auto simp: case_in_def case_at_def)

lemma prepared_case_in:
  assumes "prepare_candidate_batch_case env cfg profiles program_id timeout_sec run_id inject prepared st = Inr (p, st')"
    "str_of ''program_id'' c = Inr program_id" "str_of ''run_id'' c = Inr run_id"
  shows "case_in env cfg c p"
proof -
  from assms(1) obtain u role snapshot_id where u: "setup_case env cfg profiles program_id (side_str CANDIDATE) timeout_sec run_id = Inr u"
    and p: "p = PDict (merge_prepared (case_record program_id run_id inject u role snapshot_id) (items (opt_default (PDict []) prepared)))"
    unfolding prepare_candidate_batch_case_def Let_def by (auto elim!: bind_InrE)
  obtain artifacts_dir where dir: "bind (py_item ''paths'' cfg) (str_item ''artifacts_dir'') = Inr artifacts_dir"
    "cu_paths u = artifact_files (cu_artifact_root u) (py_str (py_get ''binary_name'' (PStr ''testcase.bin'') (cu_profile u)))"
    "cu_artifact_root u = resolve_repo_path (ve_root env) (pjoin (case_dir artifacts_dir program_id run_id) (side_str CANDIDATE))"
    using u unfolding setup_case_def Let_def by (auto elim!: bind_InrE)
  have get: "str_of k p = Inr v" if "k \<in> set protected_keys" "dict_get k (case_record program_id run_id inject u role snapshot_id) = Some (PStr v)" for k v
    unfolding p using that by (rule str_of_protected)
  have "case_paths p = Inr (cu_paths u)"
    unfolding case_paths_def
    by (simp add: get protected_keys_def case_record_def dict_get_Cons) (simp add: dir(2) artifact_files_def)
  moreover have "str_of ''program_id'' p = Inr program_id"
    by (rule get) (simp_all add: protected_keys_def case_record_def dict_get_Cons)
  ultimately show ?thesis using assms(2,3) dir unfolding case_in_def by auto
qed

lemma prepare_cases_at:
  "prepare_cases env cfg profiles timeout_sec cs st = Inr (ps, st') \<Longrightarrow>
   list_all2 (case_in env cfg) cs ps"
proof (induction cs arbitrary: ps st)
  case (Cons c cs)
  from Cons.prems obtain pid run_id p st1 ps' where "str_of ''program_id'' c = Inr pid" "str_of ''run_id'' c = Inr run_id"
    "prepare_candidate_batch_case env cfg profiles pid timeout_sec run_id (Some (py_get ''inject_trace'' PNone c))
       (if is_dict (py_get ''prepared_case'' PNone c) then Some (py_get ''prepared_case'' PNone c) else None) st = Inr (p, st1)"
    "prepare_cases env cfg profiles timeout_sec cs st1 = Inr (ps', st')" "ps = p # ps'"
    by (auto simp: Let_def elim!: bind_InrE)
  then show ?case using Cons.IH prepared_case_in by (auto simp del: prepare_cases.simps)
qed simp

lemma run_cases_inv:
  "run_cases run cs results st = Inr (res, st') \<Longrightarrow> I st \<Longrightarrow>
   \<forall>c s r s'. c \<in> set cs \<longrightarrow> I s \<longrightarrow> run c s = Inr (r, s') \<longrightarrow> I s' \<Longrightarrow> dict_get k res = Some r \<Longrightarrow>
   dict_get k results = Some r \<or>
     (\<exists>c \<in> set cs. \<exists>s s'. I s \<and> str_of ''program_id'' c = Inr k \<and> run c s = Inr (r, s'))"
proof (induction cs arbitrary: results st)
  case (Cons c cs)
  from Cons.prems(1) obtain pid x st1 where pid: "str_of ''program_id'' c = Inr pid" and x: "run c st = Inr (x, st1)"
    and rest: "run_cases run cs (dict_set pid x results) st1 = Inr (res, st')"
    by (auto elim!: bind_InrE)
  have i1: "I st1" by (rule Cons.prems(3) [rule_format, OF _ Cons.prems(2) x]) simp
  have i2: "\<forall>c s r s'. c \<in> set cs \<longrightarrow> I s \<longrightarrow> run c s = Inr (r, s') \<longrightarrow> I s'"
    using Cons.prems(3) by (metis list.set_intros(2))
  have "dict_get k (dict_set pid x results) = Some r \<or>
     (\<exists>c \<in> set cs. \<exists>s s'. I s \<and> str_of ''program_id'' c = Inr k \<and> run c s = Inr (r, s'))"
    by (rule Cons.IH [OF rest i1 i2 Cons.prems(4)])
  then show ?case
  proof
    assume "dict_get k (dict_set pid x results) = Some r"
    with pid x Cons.prems(2) show ?case by (auto split: if_splits)
  qed auto
qed simp

lemma run_cases_keys:
  "run_cases run cs results st = Inr (res, st') \<Longrightarrow>
   set (dict_keys res) = set (dict_keys results) \<union> {pid. \<exists>c \<in> set cs. str_of ''program_id'' c = Inr pid}"
  by (induction cs arbitrary: results st) (auto simp: set_keys_set elim!: bind_InrE)

lemma prepared_ids:
  assumes "list_all2 (case_in env cfg) cs ps"
  shows "{pid. \<exists>p \<in> set ps. str_of ''program_id'' p = Inr pid} = {pid. \<exists>c \<in> set cs. str_of ''program_id'' c = Inr pid}"
  using assms by (induction rule: list_all2_induct) (auto simp: case_in_def)

lemma case_result_names:
  assumes "case_result env c ap elapsed_ms oc = Inr r"
  shows "str_of ''program_id'' c = Inr (vr_program_id r) \<and> vr_side r = side_str CANDIDATE \<and> vr_status r = oc_status oc"
  using assms unfolding case_result_def by (auto simp: result_of_def elim!: bind_InrE)

lemma execute_prepared_names:
  assumes "execute_prepared_candidate_case env cfg profiles adapter c package_dir slot st = Inr (r, st')"
  shows "str_of ''program_id'' c = Inr (vr_program_id r) \<and> vr_side r = side_str CANDIDATE"
proof -
  note run = assms [unfolded execute_prepared_candidate_case_def case_prod_beta]
  obtain ap oc r' where "case_result env c ap (ve_elapsed_ms env) oc = Inr r'" "r' = r"
    using run by (elim bind_InrE) simp
  then show ?thesis using case_result_names by blast
qed

lemma finalize_batch_names:
  assumes "finalize_batch_case_result env cfg profiles c elapsed_ms st = Inr (r, st')"
  obtains ap oc where "case_paths c = Inr ap" "batch_case_outcome env profiles c ap st = Inr oc" "vr_status r = oc_status oc"
    "str_of ''program_id'' c = Inr (vr_program_id r)" "vr_side r = side_str CANDIDATE"
proof -
  from assms obtain ap oc where "case_paths c = Inr ap" "batch_case_outcome env profiles c ap st = Inr oc"
    "case_result env c ap elapsed_ms oc = Inr r"
    unfolding finalize_batch_case_result_def Let_def by (auto elim!: bind_InrE)
  with that case_result_names show thesis by blast
qed

lemma base_prepare_batch_cases:
  "(case py_get ''cases'' PNone (opt_default (PDict []) (base_prepare_batch a cases cfg)) of PList vs \<Rightarrow> vs | _ \<Rightarrow> cases) = cases"
  by (simp add: base_prepare_batch_def opt_default_def Let_def py_get_PDict py_get_def dict_get_Cons)

lemma keys_of_slots: "dict_keys (map (\<lambda>(k, v). (k, Some v)) d) = dict_keys d"
  by (induction d) (auto simp: dict_keys_def)

definition batch_ids :: "pyval list \<Rightarrow> string set" where
  "batch_ids cs = {pid. \<exists>c \<in> set cs. str_of ''program_id'' c = Inr pid}"

lemma run_cases_names:
  assumes run: "run_cases run cs [] st = Inr (results, st')" and
    names: "\<And>c s r s'. run c s = Inr (r, s') \<Longrightarrow> str_of ''program_id'' c = Inr (vr_program_id r) \<and> vr_side r = side_str CANDIDATE"
  shows "set (dict_keys results) = batch_ids cs \<and>
    (\<forall>k r. dict_get k results = Some r \<longrightarrow> vr_program_id r = k \<and> vr_side r = side_str CANDIDATE)"
proof -
  have "vr_program_id r = k \<and> vr_side r = side_str CANDIDATE" if "dict_get k results = Some r" for k r
  proof -
    from run_cases_inv [OF run, of "\<lambda>_. True"] that
    have "\<exists>c \<in> set cs. \<exists>s s'. str_of ''program_id'' c = Inr k \<and> run c s = Inr (r, s')" by auto
    with names show ?thesis by fastforce
  qed
  with run_cases_keys [OF run] show ?thesis by (simp add: batch_ids_def)
qed

lemma enumerate_snd: "map snd (enumerate n xs) = xs"
  by (induction xs arbitrary: n) auto

lemma slot_entries_keys:
  "map_res slot_entry scs = Inr slots \<Longrightarrow> set (dict_keys slots) = batch_ids (map snd scs)"
proof (induction scs arbitrary: slots)
  case (Cons sc scs)
  from Cons.prems obtain e rest where "slot_entry sc = Inr e" and rest: "map_res slot_entry scs = Inr rest"
    and slots: "slots = e # rest"
    by (auto elim!: bind_InrE)
  then have "str_of ''program_id'' (snd sc) = Inr (fst e)" by (auto simp: slot_entry_def elim!: bind_InrE)
  with Cons.IH [OF rest] slots show ?case by (auto simp: batch_ids_def dict_keys_Cons)
qed (simp add: batch_ids_def)

lemma no_slots_keys:
  assumes "no_slots cases = Inr slots"
  shows "set (dict_keys slots) = batch_ids cases"
proof -
  from assms obtain kvs where kvs: "map_res (\<lambda>c. bind (str_of ''program_id'' c) (\<lambda>pid. Inr (pid, None :: int option))) cases = Inr kvs"
    and slots: "slots = dict_merge [] kvs"
    unfolding no_slots_def by (auto elim!: bind_InrE)
  from kvs have "set (dict_keys kvs) = batch_ids cases"
  proof (induction cases arbitrary: kvs)
    case (Cons c cs)
    then obtain pid rest where "str_of ''program_id'' c = Inr pid" "set (dict_keys rest) = batch_ids cs" "kvs = (pid, None) # rest"
      by (auto elim!: bind_InrE)
    then show ?case by (auto simp: batch_ids_def dict_keys_Cons)
  qed (simp add: batch_ids_def)
  with slots show ?thesis by (simp add: keys_merge)
qed

lemma run_packaged_batch_names:
  assumes "run_packaged_batch env bp cfg profiles adapter max_workers cases meta st = Inr (results, package_dir, slots, st')"
    "\<forall>n cs. mset (bp_completion bp n cs) = mset cs"
  shows "set (dict_keys results) = batch_ids cases \<and> set (dict_keys slots) = batch_ids cases \<and>
    (\<forall>k r. dict_get k results = Some r \<longrightarrow> vr_program_id r = k \<and> vr_side r = side_str CANDIDATE)"
proof -
  from assms(1) obtain st1 st2 workers where
    pkg: "prepare_candidate_initramfs_package env adapter cases cfg meta st = Inr (package_dir, slots, st1)" and
    run: "run_cases (\<lambda>c s. bind (bind (str_of ''program_id'' c) (\<lambda>pid. opt_res (KeyError pid) (dict_get pid slots))) (\<lambda>slot.
             execute_prepared_candidate_case env cfg profiles adapter c package_dir slot s))
            (if workers = 1 then cases else bp_completion bp workers cases) [] st2 = Inr (results, st')"
    unfolding run_packaged_batch_def case_prod_beta by (elim bind_InrE) auto
  have "set (bp_completion bp n cs) = set cs" for n cs using assms(2) mset_eq_setD by blast
  then have ids: "batch_ids (if workers = 1 then cases else bp_completion bp workers cases) = batch_ids cases"
    by (simp add: batch_ids_def)
  from pkg obtain slots0 where "map_res slot_entry (enumerate 0 cases) = Inr slots0" "slots = dict_merge [] slots0"
    unfolding prepare_candidate_initramfs_package_def Let_def by (auto elim!: bind_InrE split: option.splits)
  then have "set (dict_keys slots) = batch_ids cases"
    using slot_entries_keys [of "enumerate 0 cases" slots0] by (simp add: keys_merge enumerate_snd)
  moreover note run_cases_names [OF run]
  ultimately show ?thesis unfolding ids using execute_prepared_names by (blast elim: bind_InrE)
qed

lemma run_shared_batch_steps:
  assumes "run_shared_batch env cfg profiles profile adapter timeout_sec cases meta st = Inr z"
  obtains manifest_dir batch_id st1 command base st3 where
    "prepare_shared_batch_manifest env adapter cases cfg meta st = Inr (manifest_dir, batch_id, st1)"
    "resolve_command profile (to_command_context (ve_root env) (shared_context manifest_dir batch_id timeout_sec))
       ''batch_command'' = Inr command"
    "let run = ve_run env \<lparr>vc_command = command, vc_cwd = ve_root env, vc_env = base,
         vc_timeout_sec = max timeout_sec (int (length cases) * timeout_sec)\<rparr> st1
     in (case shared_failure (command_run_case (fst run)) of None \<Rightarrow> Inr (snd run)
      | Some f \<Rightarrow> write_failures (command_run_case (fst run)) (fst f) (snd f)
          (py_str (py_get ''snapshot_id'' (PStr ''unknown'') profile)) cases (snd run)) = Inr st3"
    "run_cases (\<lambda>c. finalize_batch_case_result env cfg profiles c 0) cases [] st3 = Inr z"
proof -
  note run = assms [unfolded run_shared_batch_def Let_def case_prod_beta]
  show thesis using run by (elim bind_InrE) (rule that, unfold Let_def, simp_all)
qed

lemma batch_steps:
  assumes "execute_candidate_batch_with_context env bp cfg profiles adapter batch_cases timeout_sec max_workers st =
      Inr (results, package_dir, slots, st')" "batch_cases \<noteq> []"
  obtains profile cases st1 where
    "py_item (side_str CANDIDATE) profiles = Inr profile" "list_all2 (case_in env cfg) batch_cases cases"
    "(\<exists>meta. run_shared_batch env cfg profiles profile adapter timeout_sec cases meta st1 = Inr (results, st') \<and>
       no_slots cases = Inr slots \<and> package_dir = None) \<or>
     (\<exists>meta dir pslots. run_packaged_batch env bp cfg profiles adapter max_workers cases meta st1 = Inr (results, dir, pslots, st') \<and>
       package_dir = Some dir \<and> slots = map (\<lambda>(k, v). (k, Some v)) pslots)"
proof -
  from assms obtain profile prepared st1 where
    profile: "py_item (side_str CANDIDATE) profiles = Inr profile" and
    prep: "prepare_cases env cfg profiles timeout_sec batch_cases st = Inr (prepared, st1)" and
    rest: "(if batching_mode profile = mode_str SHARED_RUNTIME_BATCH then
        bind (run_shared_batch env cfg profiles profile adapter timeout_sec prepared
           (opt_default (PDict []) (base_prepare_batch adapter prepared cfg)) st1) (\<lambda>(results, st2).
        bind (no_slots prepared) (\<lambda>slots. Inr (results, None, slots, st2)))
      else
        bind (run_packaged_batch env bp cfg profiles adapter max_workers prepared
           (opt_default (PDict []) (base_prepare_batch adapter prepared cfg)) st1) (\<lambda>(results, package_dir, slots, st2).
        Inr (results, Some package_dir, map (\<lambda>(k, v). (k, Some v)) slots, st2))) = Inr (results, package_dir, slots, st')"
    unfolding execute_candidate_batch_with_context_def Let_def base_prepare_batch_cases
    by (simp split del: if_split) (elim bind_InrE, force split: if_splits elim!: bind_InrE)
  show thesis
    by (rule that [OF profile prepare_cases_at [OF prep]])
      (use rest in \<open>force split: if_splits elim!: bind_InrE\<close>)
qed

text \<open>
  C11. A batch answers for every one of its cases: whatever the mode, the worker count, the order in
  which a pool completes them and the outcome of the runs, the programs with a result and the
  programs with a package slot are exactly those of the batch, and each result is a candidate result
  of the program it is filed under.
\<close>

theorem batch_complete:
  assumes "execute_candidate_batch_with_context env bp cfg profiles adapter batch_cases timeout_sec max_workers st =
      Inr (results, package_dir, slots, st')"
    "\<forall>n cs. mset (bp_completion bp n cs) = mset cs"
  shows "set (dict_keys results) = batch_ids batch_cases \<and> set (dict_keys slots) = batch_ids batch_cases \<and>
    (\<forall>k r. dict_get k results = Some r \<longrightarrow> vr_program_id r = k \<and> vr_side r = side_str CANDIDATE)"
proof (cases "batch_cases = []")
  case True
  with assms(1) show ?thesis
    by (simp add: execute_candidate_batch_with_context_def batch_ids_def)
next
  case False
  from batch_steps [OF assms(1) False] obtain profile cases st1 where
    at: "list_all2 (case_in env cfg) batch_cases cases" and
    mode: "(\<exists>meta. run_shared_batch env cfg profiles profile adapter timeout_sec cases meta st1 = Inr (results, st') \<and>
       no_slots cases = Inr slots \<and> package_dir = None) \<or>
     (\<exists>meta dir pslots. run_packaged_batch env bp cfg profiles adapter max_workers cases meta st1 = Inr (results, dir, pslots, st') \<and>
       package_dir = Some dir \<and> slots = map (\<lambda>(k, v). (k, Some v)) pslots)" .
  have ids: "batch_ids cases = batch_ids batch_cases"
    unfolding batch_ids_def by (rule prepared_ids [OF at])
  from mode show ?thesis
  proof (elim disjE exE conjE)
    fix meta
    assume run: "run_shared_batch env cfg profiles profile adapter timeout_sec cases meta st1 = Inr (results, st')"
      and slots: "no_slots cases = Inr slots"
    from run_shared_batch_steps [OF run] obtain st3 where
      r: "run_cases (\<lambda>c. finalize_batch_case_result env cfg profiles c 0) cases [] st3 = Inr (results, st')" .
    from run_cases_names [OF r] finalize_batch_names
    have "set (dict_keys results) = batch_ids cases \<and>
      (\<forall>k r. dict_get k results = Some r \<longrightarrow> vr_program_id r = k \<and> vr_side r = side_str CANDIDATE)" by blast
    with no_slots_keys [OF slots] ids show ?thesis by simp
  next
    fix meta dir pslots
    assume run: "run_packaged_batch env bp cfg profiles adapter max_workers cases meta st1 = Inr (results, dir, pslots, st')"
      and slots: "slots = map (\<lambda>(k, v). (k, Some v)) pslots"
    from run_packaged_batch_names [OF run assms(2)] show ?thesis by (simp add: slots keys_of_slots ids)
  qed
qed

section \<open>The statuses of a shared run\<close>

text \<open>What the result file of a case says; a case without one is an infrastructure error.\<close>

definition shared_status :: "pyval option \<Rightarrow> string" where
  "shared_status rr = (if rr = None \<or> rr = Some PNone then status_str INFRA_ERROR
     else py_str (py_get ''status'' (PStr ''ok'') (the rr)))"

lemma pjoin_name:
  assumes "pjoin a n = pjoin b m" "CHR ''/'' \<notin> set n" "CHR ''/'' \<notin> set m"
  shows "n = m"
proof -
  let ?c = "CHR ''/''"
  have last: "takeWhile (\<lambda>c. c \<noteq> ?c) (rev (pjoin d s)) = rev s" if "?c \<notin> set s" for d s
    using that by (simp add: pjoin_def takeWhile_tail takeWhile_append2 del: takeWhile_append) blast
  from last [OF assms(2), of a] last [OF assms(3), of b] show ?thesis unfolding assms(1) by simp
qed

lemma result_file_other:
  "n \<in> set [''stdout.txt'', ''stderr.txt'', ''console.log'', ''raw-trace.events.jsonl'', ''raw-trace.json'',
     ''external-state.json'', ''run-result.json''] \<Longrightarrow> pjoin a ''runner-result.json'' \<noteq> pjoin b n"
  by (auto dest!: pjoin_name)

lemma build_and_persist_raw_trace_frame:
  assumes "build_and_persist_raw_trace cfg program_id side run_id status exit_code ap out err st = Inr st'"
    "q \<noteq> ap_raw_trace ap" "q \<noteq> ap_events ap"
  shows "st' q = st q"
proof (cases "st (ap_raw_trace ap)")
  case (Some t)
  with assms(1) show ?thesis unfolding build_and_persist_raw_trace_def by (auto elim!: bind_InrE)
next
  case None
  with assms(1) obtain es st1 v where ev: "persisted_trace_events cfg (ap_events ap) out err (ap_console ap) st = Inr (es, st1)"
    and st': "st' = dump_json (ap_raw_trace ap) v st1"
    unfolding build_and_persist_raw_trace_def Let_def by (auto elim!: bind_InrE)
  from persisted_trace_events_spec(2) [OF ev assms(3)] assms(2) show ?thesis by (simp add: st' dump_json_def)
qed

lemma finalize_batch_frame:
  assumes "finalize_batch_case_result env cfg profiles c elapsed_ms st = Inr (r, st')" "case_at pid c"
  shows "st' (pjoin base_dir ''runner-result.json'') = st (pjoin base_dir ''runner-result.json'')"
proof -
  note run = assms(1) [unfolded finalize_batch_case_result_def Let_def]
  obtain ap oc program_id run_id st1 r' where c: "case_paths c = Inr ap" and
    "batch_case_outcome env profiles c ap st = Inr oc" and
    raw: "build_and_persist_raw_trace cfg program_id (side_str CANDIDATE) run_id (oc_status oc) (oc_exit_code oc) ap
            (read_new (ap_stdout ap) st) (read_new (ap_stderr ap) st) st = Inr st1" and
    res: "(Inr (r', dump_json (ap_run_result ap) (vm_result_doc r') (write_new (ap_console ap) [] (write_new (ap_stderr ap) []
      (write_new (ap_stdout ap) [] (dump_new (ap_external_state ap) no_files_doc st1))))) :: (vm_result \<times> store) res) = Inr (r, st')"
    using run by (elim bind_InrE) (rule that)
  from c assms(2) obtain root' bin where ap: "ap = artifact_files root' bin" by (auto simp: case_at_def)
  have ne: "pjoin base_dir ''runner-result.json'' \<notin> {ap_run_result ap, ap_console ap, ap_stderr ap, ap_stdout ap,
      ap_external_state ap, ap_raw_trace ap, ap_events ap}"
    unfolding ap artifact_files_def by (simp add: result_file_other)
  with build_and_persist_raw_trace_frame [OF raw] res show ?thesis
    by (auto simp: dump_json_def write_new_def dump_new_def)
qed

lemma finalize_batch_outcome:
  assumes "finalize_batch_case_result env cfg profiles c elapsed_ms st = Inr (r, st')" "case_paths c = Inr (artifact_files base_dir bin)"
  obtains oc where "batch_case_outcome env profiles c (artifact_files base_dir bin) st = Inr oc"
    "vr_status r = oc_status oc" "vr_stdout_path r = pjoin base_dir ''stdout.txt''"
proof -
  note run = assms(1) [unfolded finalize_batch_case_result_def Let_def assms(2) bind_Inr]
  obtain oc r' st2 where oc: "batch_case_outcome env profiles c (artifact_files base_dir bin) st = Inr oc" and
    r: "case_result env c (artifact_files base_dir bin) elapsed_ms oc = Inr r'" and "(Inr (r', st2) :: (vm_result \<times> store) res) = Inr (r, st')"
    using run by (elim bind_InrE) (rule that)
  then have "vr_status r = oc_status oc" "vr_stdout_path r = pjoin base_dir ''stdout.txt''"
    unfolding case_result_def by (auto simp: result_of_def artifact_files_def elim!: bind_InrE)
  with oc show thesis by (rule that)
qed

lemma batch_case_outcome_status:
  assumes "batch_case_outcome env profiles c ap st = Inr oc"
  obtains rr where "load_runner_result (ap_runner_result ap) st = Inr rr" "oc_status oc = shared_status rr"
proof -
  from assms obtain rr kbc where rr: "load_runner_result (ap_runner_result ap) st = Inr rr" and
    oc: "(let kb = safe_kernel_build env kbc in
      if rr = None \<or> rr = Some PNone then
        Inr \<lparr>oc_status = status_str INFRA_ERROR, oc_exit_code = PNone, oc_stdout = [], oc_stderr = [],
             oc_status_detail = PStr ''missing candidate batch runner result'', oc_kernel_build = kb\<rparr>
      else
        bind (str_of ''runner_kind'' c) (\<lambda>kind.
        bind (finalize_process_result kind (Some 0) None rr kb) (\<lambda>(status, exit_code, detail, kb').
        Inr \<lparr>oc_status = status, oc_exit_code = exit_code, oc_stdout = [], oc_stderr = [],
             oc_status_detail = detail, oc_kernel_build = kb'\<rparr>))) = Inr oc"
    unfolding batch_case_outcome_def by (elim bind_InrE) (rule that)
  show thesis
  proof (cases "rr = None \<or> rr = Some PNone")
    case True
    with oc have "oc_status oc = shared_status rr" by (auto simp: shared_status_def Let_def)
    with rr show thesis by (rule that)
  next
    case False
    then obtain v where v: "rr = Some v" by auto
    from False oc obtain kind kb e d kb' where
      f: "finalize_process_result kind (Some 0) None (Some v) kb = Inr (oc_status oc, e, d, kb')"
      by (auto simp: Let_def v elim!: bind_InrE)
    have ok: "process_status kind (Some 0) None = ''ok''"
      by (simp add: process_status_def classify_process_returncode_def opt_default_def)
    from f have "oc_status oc = py_str (py_get ''status'' (PStr ''ok'') v)"
      by (cases v) (auto simp: finalize_process_result_def ok Let_def as_dict_def py_get_def split: if_splits elim!: bind_InrE)
    with False have "oc_status oc = shared_status rr" by (simp add: shared_status_def v)
    with rr show thesis by (rule that)
  qed
qed

lemma case_at_paths:
  assumes "case_at pid c"
  obtains base_dir bin where "case_paths c = Inr (artifact_files base_dir bin)"
    "str_of ''runner_result_path'' c = Inr (pjoin base_dir ''runner-result.json'')"
    "str_of ''stdout_path'' c = Inr (pjoin base_dir ''stdout.txt'')" "str_of ''stderr_path'' c = Inr (pjoin base_dir ''stderr.txt'')"
proof -
  from assms obtain base_dir bin where c: "case_paths c = Inr (artifact_files base_dir bin)" by (auto simp: case_at_def)
  then show thesis using that [OF c] unfolding case_paths_def by (auto simp: artifact_files_def elim!: bind_InrE)
qed

definition failure_text :: "string \<Rightarrow> string \<Rightarrow> string \<Rightarrow> string" where
  "failure_text status detail kb = json_dumps True (PDict [(''status'', PStr status), (''exit_code'', PNone),
     (''detail'', PStr detail), (''kernel_build'', PStr kb)]) @ newline"

lemma write_failures_marks:
  "write_failures ex status detail kb cs st = Inr st' \<Longrightarrow> \<forall>c \<in> set cs. \<exists>pid. case_at pid c \<Longrightarrow>
   st (pjoin base_dir ''runner-result.json'') = Some (failure_text status detail kb) \<or>
     (\<exists>c \<in> set cs. str_of ''runner_result_path'' c = Inr (pjoin base_dir ''runner-result.json'')) \<Longrightarrow>
   st' (pjoin base_dir ''runner-result.json'') = Some (failure_text status detail kb)"
proof (induction cs arbitrary: st)
  case (Cons c cs)
  from Cons.prems(2) obtain pid where "case_at pid c" by auto
  then obtain root' bin where paths: "str_of ''runner_result_path'' c = Inr (pjoin root' ''runner-result.json'')"
    "str_of ''stdout_path'' c = Inr (pjoin root' ''stdout.txt'')" "str_of ''stderr_path'' c = Inr (pjoin root' ''stderr.txt'')"
    by (rule case_at_paths)
  let ?P = "pjoin base_dir ''runner-result.json''" and ?T = "failure_text status detail kb"
  obtain st1 where st1: "write_failures ex status detail kb cs st1 = Inr st'"
    "st1 ?P = (if ?P = pjoin root' ''runner-result.json'' then Some ?T else st ?P)"
    using Cons.prems(1) result_file_other [of "''stdout.txt''" base_dir root'] result_file_other [of "''stderr.txt''" base_dir root']
    by (auto simp: paths Let_def dump_json_def failure_text_def)
  show ?case
  proof (rule Cons.IH [OF st1(1)])
    show "st1 ?P = Some ?T \<or> (\<exists>c \<in> set cs. str_of ''runner_result_path'' c = Inr ?P)"
      using Cons.prems(3) paths(1) unfolding st1(2) by auto
  qed (use Cons.prems(2) in simp)
qed simp

lemma json_loads_failure:
  "json_loads (failure_text status detail kb) = Inr (sort_dicts (PDict [(''status'', PStr status), (''exit_code'', PNone),
     (''detail'', PStr detail), (''kernel_build'', PStr kb)]))"
proof -
  let ?d = "PDict [(''status'', PStr status), (''exit_code'', PNone), (''detail'', PStr detail), (''kernel_build'', PStr kb)]"
  have wf: "json_wf ?d" by simp
  show ?thesis
    using load_dump_json [OF wf, of undefined undefined] by (simp add: load_json_def read_text_def dump_json_def failure_text_def)
qed

lemma load_failure:
  assumes "st path = Some (failure_text status detail kb)" "load_runner_result path st = Inr rr"
  shows "shared_status rr = status"
proof -
  let ?d = "PDict [(''status'', PStr status), (''exit_code'', PNone), (''detail'', PStr detail), (''kernel_build'', PStr kb)]"
  have wf: "json_wf ?d" by simp
  from assms have rr: "rr = Some (sort_dicts ?d)" by (simp add: load_runner_result_def json_loads_failure)
  have "dict_get ''status'' (items (sort_dicts ?d)) = Some (PStr status)"
    by (subst sort_dicts_get [OF wf]) (simp add: dict_get_Cons)
  moreover have "sort_dicts ?d \<noteq> PNone" by simp
  ultimately show "shared_status rr = status" unfolding rr by (simp add: shared_status_def py_get_def del: sort_dicts.simps)
qed

lemma manifest_stored:
  assumes "prepare_shared_batch_manifest env adapter cases cfg meta st = Inr (manifest_dir, batch_id, st1)"
  shows "st1 (pjoin manifest_dir (batch_id @ ''.json'')) \<noteq> None"
  using assms unfolding prepare_shared_batch_manifest_def Let_def
  by (auto simp: dump_json_def split: option.splits elim!: bind_InrE)

text \<open>What a case of the run gets: its status from the end of the process, or from its own file as the process left it.\<close>

lemma run_shared_case:
  assumes st3: "(case shared_failure (command_run_case p) of None \<Rightarrow> Inr st2
      | Some f \<Rightarrow> write_failures (command_run_case p) (fst f) (snd f) kb cases st2) = Inr st3" and
    run: "run_cases (\<lambda>c. finalize_batch_case_result env cfg profiles c 0) cases [] st3 = Inr (results, st')" and
    ats: "\<forall>c \<in> set cases. \<exists>pid. case_at pid c" and k: "dict_get k results = Some r"
  obtains c base_dir bin where "c \<in> set cases" "str_of ''program_id'' c = Inr k"
    "case_paths c = Inr (artifact_files base_dir bin)" "vr_stdout_path r = pjoin base_dir ''stdout.txt''"
    "case p of Expired _ _ _ _ \<Rightarrow> vr_status r = ''timeout'' | Refused _ \<Rightarrow> vr_status r = ''infra_error''
       | Exited _ _ _ \<Rightarrow> (\<exists>rr. load_runner_result (pjoin base_dir ''runner-result.json'') st2 = Inr rr \<and> vr_status r = shared_status rr)"
proof -
  let ?I = "\<lambda>s. \<forall>base_dir. s (pjoin base_dir ''runner-result.json'') = st3 (pjoin base_dir ''runner-result.json'')"
  have keep: "\<forall>c s r s'. c \<in> set cases \<longrightarrow> ?I s \<longrightarrow> finalize_batch_case_result env cfg profiles c 0 s = Inr (r, s') \<longrightarrow> ?I s'"
    using ats finalize_batch_frame by (metis (no_types, lifting))
  from run_cases_inv [OF run, of ?I, OF _ keep k] obtain c s s' where c: "c \<in> set cases" "str_of ''program_id'' c = Inr k"
    and s: "?I s" and f: "finalize_batch_case_result env cfg profiles c 0 s = Inr (r, s')" by auto
  from c ats obtain pid where "case_at pid c" by auto
  then obtain base_dir bin where ap: "case_paths c = Inr (artifact_files base_dir bin)" and
    rrp: "str_of ''runner_result_path'' c = Inr (pjoin base_dir ''runner-result.json'')" by (rule case_at_paths)
  from f ap obtain oc where oc: "batch_case_outcome env profiles c (artifact_files base_dir bin) s = Inr oc"
    "vr_status r = oc_status oc" "vr_stdout_path r = pjoin base_dir ''stdout.txt''"
    by (rule finalize_batch_outcome)
  from batch_case_outcome_status [OF oc(1)] obtain rr where
    rr: "load_runner_result (pjoin base_dir ''runner-result.json'') st3 = Inr rr" "vr_status r = shared_status rr"
    using s oc(2) by (auto simp: artifact_files_def load_runner_result_def)
  have marked: "vr_status r = status" if "shared_failure (command_run_case p) = Some (status, detail)" for status detail
  proof -
    from st3 [unfolded that option.case fst_conv snd_conv] ats
    have "st3 (pjoin base_dir ''runner-result.json'') = Some (failure_text status detail kb)"
      by (rule write_failures_marks) (use c rrp in blast)
    from load_failure [OF this rr(1)] rr(2) show ?thesis by simp
  qed
  have "case p of Expired _ _ _ _ \<Rightarrow> vr_status r = ''timeout'' | Refused _ \<Rightarrow> vr_status r = ''infra_error''
       | Exited _ _ _ \<Rightarrow> (\<exists>rr. load_runner_result (pjoin base_dir ''runner-result.json'') st2 = Inr rr \<and> vr_status r = shared_status rr)"
  proof (cases p)
    case (Exited rc out err)
    then have "st3 = st2" using st3 by (simp add: shared_failure_def command_run_case_def)
    with rr Exited show ?thesis by auto
  next
    case (Expired out err exc_out exc_err)
    then have "\<exists>detail. shared_failure (command_run_case p) = Some (''timeout'', detail)"
      by (simp add: shared_failure_def command_run_case_def)
    with Expired marked show ?thesis by auto
  next
    case (Refused e)
    then have "\<exists>detail. shared_failure (command_run_case p) = Some (''infra_error'', detail)"
      by (simp add: shared_failure_def command_run_case_def)
    with Refused marked show ?thesis by auto
  qed
  with c ap oc(3) show thesis by (rule that)
qed

lemma shared_status_file:
  assumes "load_runner_result path st = Inr rr" "s = shared_status rr"
  shows "st path = None \<and> s = ''infra_error'' \<or> (\<exists>written doc. st path = Some written \<and> json_loads written = Inr doc \<and>
    s = (if doc = PNone then ''infra_error'' else py_str (py_get ''status'' (PStr ''ok'') doc)))"
proof (cases "st path")
  case None
  with assms show ?thesis by (simp add: load_runner_result_def shared_status_def)
next
  case (Some written)
  with assms(1) obtain doc where "json_loads written = Inr doc" "rr = Some doc"
    unfolding load_runner_result_def Some option.case by (elim bind_InrE) (metis sum.inject(2))
  with Some assms(2) show ?thesis by (simp add: shared_status_def)
qed

lemma shared_case_own:
  assumes "(case shared_failure (command_run_case p) of None \<Rightarrow> Inr st2
      | Some f \<Rightarrow> write_failures (command_run_case p) (fst f) (snd f) kb cases st2) = Inr st3"
    "run_cases (\<lambda>c. finalize_batch_case_result env cfg profiles c 0) cases [] st3 = Inr (results, st')"
    "\<forall>c \<in> set cases. \<exists>pid. case_at pid c" "list_all2 (case_in env cfg) batch_cases cases"
    "bind (py_item ''paths'' cfg) (str_item ''artifacts_dir'') = Inr artifacts_dir" "dict_get k results = Some r"
  shows "\<exists>c \<in> set batch_cases. \<exists>run_id dir. str_of ''program_id'' c = Inr k \<and> str_of ''run_id'' c = Inr run_id \<and>
      dir = resolve_repo_path (ve_root env) (pjoin (pjoin (pjoin artifacts_dir k) run_id) ''candidate'') \<and>
      vr_stdout_path r = pjoin dir ''stdout.txt'' \<and>
      (case p of Expired _ _ _ _ \<Rightarrow> vr_status r = ''timeout'' | Refused _ \<Rightarrow> vr_status r = ''infra_error''
       | Exited _ _ _ \<Rightarrow> st2 (pjoin dir ''runner-result.json'') = None \<and> vr_status r = ''infra_error'' \<or>
           (\<exists>written doc. st2 (pjoin dir ''runner-result.json'') = Some written \<and> json_loads written = Inr doc \<and>
             vr_status r = (if doc = PNone then ''infra_error'' else py_str (py_get ''status'' (PStr ''ok'') doc))))"
proof -
  from run_shared_case [OF assms(1-3,6)] obtain q base_dir bin where q: "q \<in> set cases" "str_of ''program_id'' q = Inr k"
    "case_paths q = Inr (artifact_files base_dir bin)" and out: "vr_stdout_path r = pjoin base_dir ''stdout.txt''" and
    status: "case p of Expired _ _ _ _ \<Rightarrow> vr_status r = ''timeout'' | Refused _ \<Rightarrow> vr_status r = ''infra_error''
       | Exited _ _ _ \<Rightarrow> (\<exists>rr. load_runner_result (pjoin base_dir ''runner-result.json'') st2 = Inr rr \<and> vr_status r = shared_status rr)" .
  have "\<exists>c \<in> set batch_cases. case_in env cfg c q"
    using assms(4) q(1) by (induction rule: list_all2_induct) auto
  then obtain c where c: "c \<in> set batch_cases" "case_in env cfg c q" by (rule bexE)
  from c(2) q(2,3) assms(5) obtain run_id bin' where ids: "str_of ''program_id'' c = Inr k" "str_of ''run_id'' c = Inr run_id"
    and files: "artifact_files base_dir bin = artifact_files (resolve_repo_path (ve_root env)
       (pjoin (case_dir artifacts_dir k run_id) (side_str CANDIDATE))) bin'"
    unfolding case_in_def by auto
  have dir: "base_dir = resolve_repo_path (ve_root env) (pjoin (pjoin (pjoin artifacts_dir k) run_id) ''candidate'')"
    using files by (auto simp: artifact_files_def case_dir_def pjoin_def)
  have final: "case p of Expired _ _ _ _ \<Rightarrow> vr_status r = ''timeout'' | Refused _ \<Rightarrow> vr_status r = ''infra_error''
       | Exited _ _ _ \<Rightarrow> st2 (pjoin base_dir ''runner-result.json'') = None \<and> vr_status r = ''infra_error'' \<or>
           (\<exists>written doc. st2 (pjoin base_dir ''runner-result.json'') = Some written \<and> json_loads written = Inr doc \<and>
             vr_status r = (if doc = PNone then ''infra_error'' else py_str (py_get ''status'' (PStr ''ok'') doc)))"
  proof (cases p)
    case (Exited rc out' err)
    with status obtain rr where "load_runner_result (pjoin base_dir ''runner-result.json'') st2 = Inr rr" "vr_status r = shared_status rr"
      by auto
    from shared_status_file [OF this] show ?thesis unfolding Exited proc_outcome.case .
  qed (use status in simp_all)
  show ?thesis
    by (rule bexI [OF _ c(1)], rule exI [of _ run_id], rule exI [of _ base_dir], intro conjI)
      (use ids dir out final in \<open>simp_all only:\<close>)
qed

lemma batch_shared_steps:
  assumes "execute_candidate_batch_with_context env bp cfg profiles adapter batch_cases timeout_sec max_workers st =
      Inr (results, package_dir, slots, st')" "package_dir = None" "batch_cases \<noteq> []"
  obtains profile cases st1 meta where
    "py_item (side_str CANDIDATE) profiles = Inr profile" "list_all2 (case_in env cfg) batch_cases cases"
    "run_shared_batch env cfg profiles profile adapter timeout_sec cases meta st1 = Inr (results, st')"
proof -
  from batch_steps [OF assms(1,3)] obtain profile cases st1 where
    at: "py_item (side_str CANDIDATE) profiles = Inr profile" "list_all2 (case_in env cfg) batch_cases cases" and
    mode: "(\<exists>meta. run_shared_batch env cfg profiles profile adapter timeout_sec cases meta st1 = Inr (results, st') \<and>
       no_slots cases = Inr slots \<and> package_dir = None) \<or>
     (\<exists>meta dir pslots. run_packaged_batch env bp cfg profiles adapter max_workers cases meta st1 = Inr (results, dir, pslots, st') \<and>
       package_dir = Some dir \<and> slots = map (\<lambda>(k, v). (k, Some v)) pslots)" .
  from mode assms(2) obtain meta where "run_shared_batch env cfg profiles profile adapter timeout_sec cases meta st1 = Inr (results, st')"
    by auto
  with at show thesis by (rule that)
qed

text \<open>
  C26. The statuses of a shared batch come from one run of the resolved batch command, in the
  repository root, with the time of all its cases and the batch manifest on disk. When that process
  expires every case gets \<open>timeout\<close>, when it cannot start \<open>infra_error\<close>, whatever result files cases
  that had already finished left behind. When it exits, whatever its code, the status of a case is
  the one in the result file of its own program and run as the process left it (\<open>ok\<close> when the file
  names none), and \<open>infra_error\<close> when there is no file or it holds \<open>null\<close>.
\<close>

theorem shared_batch_statuses:
  assumes "execute_candidate_batch_with_context env bp cfg profiles adapter batch_cases timeout_sec max_workers st =
      Inr (results, None, slots, st')" "batch_cases \<noteq> []"
  shows "\<exists>profile artifacts_dir manifest_dir batch_id call st1 p st2.
    py_item ''candidate'' profiles = Inr profile \<and> bind (py_item ''paths'' cfg) (str_item ''artifacts_dir'') = Inr artifacts_dir \<and>
    resolve_command profile (to_command_context (ve_root env) (shared_context manifest_dir batch_id timeout_sec))
      ''batch_command'' = Inr (vc_command call) \<and> vc_cwd call = ve_root env \<and>
    vc_timeout_sec call = max timeout_sec (int (length batch_cases) * timeout_sec) \<and>
    st1 (pjoin manifest_dir (batch_id @ ''.json'')) \<noteq> None \<and> ve_run env call st1 = (p, st2) \<and>
    (\<forall>k r. dict_get k results = Some r \<longrightarrow> (\<exists>c \<in> set batch_cases. \<exists>run_id dir.
      str_of ''program_id'' c = Inr k \<and> str_of ''run_id'' c = Inr run_id \<and>
      dir = resolve_repo_path (ve_root env) (pjoin (pjoin (pjoin artifacts_dir k) run_id) ''candidate'') \<and>
      vr_stdout_path r = pjoin dir ''stdout.txt'' \<and>
      (case p of Expired _ _ _ _ \<Rightarrow> vr_status r = ''timeout'' | Refused _ \<Rightarrow> vr_status r = ''infra_error''
       | Exited _ _ _ \<Rightarrow> st2 (pjoin dir ''runner-result.json'') = None \<and> vr_status r = ''infra_error'' \<or>
           (\<exists>written doc. st2 (pjoin dir ''runner-result.json'') = Some written \<and> json_loads written = Inr doc \<and>
             vr_status r = (if doc = PNone then ''infra_error'' else py_str (py_get ''status'' (PStr ''ok'') doc))))))"
proof -
  from batch_shared_steps [OF assms(1) refl assms(2)] obtain profile cases st0 meta where
    profile: "py_item (side_str CANDIDATE) profiles = Inr profile" and ins: "list_all2 (case_in env cfg) batch_cases cases" and
    shared: "run_shared_batch env cfg profiles profile adapter timeout_sec cases meta st0 = Inr (results, st')" .
  from run_shared_batch_steps [OF shared] obtain manifest_dir batch_id st1 command base st3 where
    manifest: "prepare_shared_batch_manifest env adapter cases cfg meta st0 = Inr (manifest_dir, batch_id, st1)" and
    command: "resolve_command profile (to_command_context (ve_root env) (shared_context manifest_dir batch_id timeout_sec))
       ''batch_command'' = Inr command" and
    st3: "let run = ve_run env \<lparr>vc_command = command, vc_cwd = ve_root env, vc_env = base,
         vc_timeout_sec = max timeout_sec (int (length cases) * timeout_sec)\<rparr> st1
     in (case shared_failure (command_run_case (fst run)) of None \<Rightarrow> Inr (snd run)
      | Some f \<Rightarrow> write_failures (command_run_case (fst run)) (fst f) (snd f)
          (py_str (py_get ''snapshot_id'' (PStr ''unknown'') profile)) cases (snd run)) = Inr st3" and
    run: "run_cases (\<lambda>c. finalize_batch_case_result env cfg profiles c 0) cases [] st3 = Inr (results, st')" .
  have len: "length cases = length batch_cases" using ins by (simp add: list_all2_lengthD)
  define call where "call = \<lparr>vc_command = command, vc_cwd = ve_root env, vc_env = base,
      vc_timeout_sec = max timeout_sec (int (length cases) * timeout_sec)\<rparr>"
  obtain p st2 where p: "ve_run env call st1 = (p, st2)" by fastforce
  obtain artifacts_dir where dir: "bind (py_item ''paths'' cfg) (str_item ''artifacts_dir'') = Inr artifacts_dir"
    using ins assms(2) by (cases batch_cases) (auto simp: case_in_def list_all2_Cons1)
  have ats: "\<forall>c \<in> set cases. \<exists>pid. case_at pid c"
    using ins by (induction rule: list_all2_induct) (auto dest: case_in_at)
  let ?status = "\<lambda>p dir st2 r. case p of Expired _ _ _ _ \<Rightarrow> vr_status r = ''timeout'' | Refused _ \<Rightarrow> vr_status r = ''infra_error''
       | Exited _ _ _ \<Rightarrow> st2 (pjoin dir ''runner-result.json'') = None \<and> vr_status r = ''infra_error'' \<or>
           (\<exists>written doc. st2 (pjoin dir ''runner-result.json'') = Some written \<and> json_loads written = Inr doc \<and>
             vr_status r = (if doc = PNone then ''infra_error'' else py_str (py_get ''status'' (PStr ''ok'') doc)))"
  have own: "\<exists>c \<in> set batch_cases. \<exists>run_id dir. str_of ''program_id'' c = Inr k \<and> str_of ''run_id'' c = Inr run_id \<and>
      dir = resolve_repo_path (ve_root env) (pjoin (pjoin (pjoin artifacts_dir k) run_id) ''candidate'') \<and>
      vr_stdout_path r = pjoin dir ''stdout.txt'' \<and> ?status p dir st2 r"
    if "dict_get k results = Some r" for k r
    using st3 [folded call_def, unfolded p Let_def fst_conv snd_conv] run ats ins dir that by (rule shared_case_own)
  show ?thesis
    by (intro exI [of _ profile] exI [of _ artifacts_dir] exI [of _ manifest_dir] exI [of _ batch_id] exI [of _ call]
        exI [of _ st1] exI [of _ p] exI [of _ st2] conjI allI impI)
      (use profile dir command manifest_stored [OF manifest] p own in \<open>simp_all add: call_def len\<close>)
qed

definition demo_shared_adapter :: adapter where
  "demo_shared_adapter = (base_adapter ''demo'')\<lparr>ad_execution_modes := (\<lambda>cfg. [mode_str SHARED_RUNTIME_BATCH]),
     ad_prepare_batch_manifest_payload := (\<lambda>cases cfg meta. Inr (Some (PDict [(''cases'', PInt (int (length cases)))])))\<rparr>"

definition demo_shared_profiles :: pyval where
  "demo_shared_profiles = PDict [(''candidate'', PDict [(''kind'', PStr ''command''), (''command'', PStr ''run {program_id}''),
     (''batch_command'', PStr ''batch''), (''command_batching_mode'', PStr ''shared_runtime_batch''),
     (''work_root'', PStr ''w''), (''kernel_build_command'', PStr ''uname''), (''role'', PStr ''c''), (''snapshot_id'', PStr ''s'')])]"

definition demo_batch_cfg :: pyval where
  "demo_batch_cfg = PDict [(''paths'', PDict [(''artifacts_dir'', PStr ''a''), (''build_dir'', PStr ''b''), (''temp_dir'', PStr ''t'')]),
     (''normalization'', PDict [(''preview_bytes'', PInt 64)])]"

text \<open>The process leaves a result file that says \<open>ok\<close> and then expires.\<close>

definition demo_shared_env :: vm_env where
  "demo_shared_env = (demo_vm_env (Refused []))\<lparr>ve_run := (\<lambda>call st. (Expired None None None None,
     st(''/r/a/p/1/candidate/runner-result.json'' \<mapsto> [CHR 0x7B, CHR 0x22] @ ''status'' @ [CHR 0x22] @ '': '' @ [CHR 0x22] @
       ''ok'' @ [CHR 0x22, CHR 0x7D])))\<rparr>"

definition demo_bp :: batch_params where
  "demo_bp = \<lparr>bp_prewarm = (\<lambda>cs p st. Inr st), bp_completion = (\<lambda>n. rev)\<rparr>"

definition demo_batch :: "pyval list" where
  "demo_batch = [PDict [(''program_id'', PStr ''p''), (''run_id'', PStr ''1'')]]"

definition demo_case_setup :: case_setup where
  "demo_case_setup = demo_setup\<lparr>cu_profile := opt_default PNone (dict_get ''candidate'' (items demo_shared_profiles))\<rparr>"

definition demo_case :: pyval where
  "demo_case = PDict (case_record ''p'' ''1'' (Some PNone) demo_case_setup (PStr ''c'') (PStr ''s''))"

lemma finalize_batch_silent:
  assumes "case_paths c = Inr ap" "distinct (ap_run_result ap # stale_paths ap)"
    "st (ap_raw_trace ap) = None" "st (ap_events ap) = None" "batch_case_outcome env profiles c ap st = Inr oc"
    "str_of ''program_id'' c = Inr pid" "str_of ''run_id'' c = Inr run_id" "case_result env c ap elapsed_ms oc = Inr r"
    "trace_events_transport cfg = Inr ''file''"
  shows "\<exists>st'. finalize_batch_case_result env cfg profiles c elapsed_ms st = Inr (r, st')"
  using assms
  by (simp add: finalize_batch_case_result_def build_and_persist_raw_trace_def persisted_trace_events_def file_events_def
      parse_events_def validate_empty_payload Let_def)

lemma demo_prepared:
  "prepare_cases demo_shared_env demo_batch_cfg demo_shared_profiles 5 demo_batch st =
     Inr ([demo_case], prepare_store ''/r/w/p/1'' ''/r/b/p'' ''/r/a/p/1/candidate'' (cu_paths demo_setup) st)"
proof -
  have u: "setup_case demo_shared_env demo_batch_cfg demo_shared_profiles ''p'' (side_str CANDIDATE) 5 ''1'' = Inr demo_case_setup"
    by code_simp
  have items: "py_item ''role'' (cu_profile demo_case_setup) = Inr (PStr ''c'')"
    "py_item ''snapshot_id'' (cu_profile demo_case_setup) = Inr (PStr ''s'')" by code_simp+
  have "prepare_candidate_batch_case demo_shared_env demo_batch_cfg demo_shared_profiles ''p'' 5 ''1'' (Some PNone) None st =
    Inr (demo_case, prepare_store ''/r/w/p/1'' ''/r/b/p'' ''/r/a/p/1/candidate'' (cu_paths demo_setup) st)"
    unfolding prepare_candidate_batch_case_def u bind_Inr Let_def items
    by (simp add: demo_case_def opt_default_def demo_case_setup_def demo_setup_def)
  then show ?thesis
    by (simp add: demo_batch_def str_of_def py_item_def dict_get_Cons py_get_def)
qed

lemma demo_case_facts:
  "case_paths demo_case = Inr (cu_paths demo_setup)" "str_of ''program_id'' demo_case = Inr ''p''"
  "str_of ''run_id'' demo_case = Inr ''1''" "str_of ''runner_kind'' demo_case = Inr ''command''"
  "str_of ''role'' demo_case = Inr ''c''" "str_of ''snapshot_id'' demo_case = Inr ''s''"
  "str_of ''runner_result_path'' demo_case = Inr ''/r/a/p/1/candidate/runner-result.json''"
  "str_of ''stdout_path'' demo_case = Inr ''/r/a/p/1/candidate/stdout.txt''"
  "str_of ''stderr_path'' demo_case = Inr ''/r/a/p/1/candidate/stderr.txt''"
  by code_simp+

lemma demo_finalized:
  assumes "st ''/r/a/p/1/candidate/raw-trace.json'' = None" "st ''/r/a/p/1/candidate/raw-trace.events.jsonl'' = None"
    "st ''/r/a/p/1/candidate/runner-result.json'' = Some (failure_text ''timeout'' ''shared batch execution timed out'' ''s'')"
  shows "\<exists>r st'. finalize_batch_case_result demo_shared_env demo_batch_cfg demo_shared_profiles demo_case 0 st = Inr (r, st')"
proof -
  have paths: "ap_raw_trace (cu_paths demo_setup) = ''/r/a/p/1/candidate/raw-trace.json''"
    "ap_events (cu_paths demo_setup) = ''/r/a/p/1/candidate/raw-trace.events.jsonl''"
    "ap_runner_result (cu_paths demo_setup) = ''/r/a/p/1/candidate/runner-result.json''" by code_simp+
  have dist: "distinct (ap_run_result (cu_paths demo_setup) # stale_paths (cu_paths demo_setup))"
    by (rule artifact_files_distinct) (simp add: demo_setup_def)
  have kbc: "bind (py_item (side_str CANDIDATE) demo_shared_profiles) (str_item ''kernel_build_command'') = Inr ''uname''" by code_simp
  obtain d where load: "load_runner_result (ap_runner_result (cu_paths demo_setup)) st = Inr (Some d)" and
    d: "d = sort_dicts (PDict [(''status'', PStr ''timeout''), (''exit_code'', PNone), (''detail'', PStr ''shared batch execution timed out''), (''kernel_build'', PStr ''s'')])"
    using assms(3) by (simp add: load_runner_result_def paths json_loads_failure)
  have "is_ok (finalize_process_result ''command'' (Some 0) None (Some d) kb) \<and> d \<noteq> PNone" for kb
    unfolding d by code_simp
  from this [of "safe_kernel_build demo_shared_env ''uname''"] obtain z where
    "finalize_process_result ''command'' (Some 0) None (Some d) (safe_kernel_build demo_shared_env ''uname'') = Inr z" "d \<noteq> PNone"
    unfolding is_ok_iff by blast
  then have "is_ok (batch_case_outcome demo_shared_env demo_shared_profiles demo_case (cu_paths demo_setup) st)"
    unfolding batch_case_outcome_def load kbc bind_Inr Let_def by (simp add: demo_case_facts case_prod_beta)
  then obtain oc where oc: "batch_case_outcome demo_shared_env demo_shared_profiles demo_case (cu_paths demo_setup) st = Inr oc"
    by (auto simp: is_ok_iff)
  obtain r where r: "case_result demo_shared_env demo_case (cu_paths demo_setup) 0 oc = Inr r"
    by (simp add: case_result_def demo_case_facts)
  have "trace_events_transport demo_batch_cfg = Inr ''file''" by code_simp
  from finalize_batch_silent [OF demo_case_facts(1) dist _ _ oc demo_case_facts(2,3) r this] assms(1,2) show ?thesis
    unfolding paths by blast
qed

lemma demo_shared_batch:
  assumes "\<forall>q \<in> set (stale_paths (cu_paths demo_setup)). st q = None"
  shows "\<exists>r st'. run_shared_batch demo_shared_env demo_batch_cfg demo_shared_profiles (cu_profile demo_case_setup)
    demo_shared_adapter 5 [demo_case] meta st = Inr ([(''p'', r)], st')"
proof -
  have tmp: "resolved (ve_root demo_shared_env) demo_batch_cfg ''temp_dir'' (PStr ''artifacts/tmp'') = Inr ''/r/t''" by code_simp
  obtain batch_id m where man: "prepare_shared_batch_manifest demo_shared_env demo_shared_adapter [demo_case] demo_batch_cfg meta st =
      Inr (''/r/t/target-batches'', batch_id, st(''/r/t/target-batches/'' @ batch_id @ ''.json'' \<mapsto> m))"
    unfolding prepare_shared_batch_manifest_def
    by (simp add: demo_shared_adapter_def tmp Let_def dump_json_def pjoin_def)
  have cmd: "resolve_command (cu_profile demo_case_setup) ctx ''batch_command'' = Inr [''batch'']" for ctx by code_simp
  have runner: "build_runner (cu_profile demo_case_setup) = Inr ()" by code_simp
  have "is_ok (env_with_temp demo_shared_env (Some demo_batch_cfg))" by code_simp
  then obtain base where base: "env_with_temp demo_shared_env (Some demo_batch_cfg) = Inr base" by (auto simp: is_ok_iff)
  have snapshot: "py_str (py_get ''snapshot_id'' (PStr ''unknown'') (cu_profile demo_case_setup)) = ''s''" by code_simp
  have fail: "shared_failure (command_run_case (Expired None None None None)) = Some (''timeout'', ''shared batch execution timed out'')"
    by code_simp
  have paths: "''/r/a/p/1/candidate/raw-trace.json'' \<in> set (stale_paths (cu_paths demo_setup))"
    "''/r/a/p/1/candidate/raw-trace.events.jsonl'' \<in> set (stale_paths (cu_paths demo_setup))" by code_simp+
  let ?run = "ve_run demo_shared_env \<lparr>vc_command = [''batch''], vc_cwd = ve_root demo_shared_env, vc_env = base,
      vc_timeout_sec = max 5 (int (length [demo_case]) * 5)\<rparr> (st(''/r/t/target-batches/'' @ batch_id @ ''.json'' \<mapsto> m))"
  obtain st2 where run: "?run = (Expired None None None None, st2)"
    and st2: "st2 ''/r/a/p/1/candidate/raw-trace.json'' = None" "st2 ''/r/a/p/1/candidate/raw-trace.events.jsonl'' = None"
    using assms paths by (auto simp: demo_shared_env_def demo_vm_env_def)
  obtain st3 where st3: "write_failures (command_run_case (Expired None None None None)) ''timeout'' ''shared batch execution timed out'' ''s''
      [demo_case] st2 = Inr st3"
    "st3 ''/r/a/p/1/candidate/raw-trace.json'' = None" "st3 ''/r/a/p/1/candidate/raw-trace.events.jsonl'' = None"
    "st3 ''/r/a/p/1/candidate/runner-result.json'' = Some (failure_text ''timeout'' ''shared batch execution timed out'' ''s'')"
    using st2 by (simp add: demo_case_facts dump_json_def failure_text_def Let_def)
  from demo_finalized [OF st3(2,3,4)] obtain r st4 where
    "finalize_batch_case_result demo_shared_env demo_batch_cfg demo_shared_profiles demo_case 0 st3 = Inr (r, st4)" by auto
  then have "run_cases (\<lambda>c. finalize_batch_case_result demo_shared_env demo_batch_cfg demo_shared_profiles c 0) [demo_case] [] st3 =
      Inr ([(''p'', r)], st4)"
    by (simp add: demo_case_facts dict_set_def)
  then show ?thesis
    unfolding run_shared_batch_def man bind_Inr prod.case cmd runner base run fail option.case Let_def snapshot st3(1) by auto
qed

lemma demo_shared_run:
  "\<exists>r slots st'. execute_candidate_batch_with_context demo_shared_env demo_bp demo_batch_cfg demo_shared_profiles
    demo_shared_adapter demo_batch 5 None Map.empty = Inr ([(''p'', r)], None, slots, st')"
proof -
  let ?st = "prepare_store ''/r/w/p/1'' ''/r/b/p'' ''/r/a/p/1/candidate'' (cu_paths demo_setup) Map.empty"
  have profile: "py_item (side_str CANDIDATE) demo_shared_profiles = Inr (cu_profile demo_case_setup)" by code_simp
  have kind: "py_get ''kind'' PNone (cu_profile demo_case_setup) = PStr ''command''" by code_simp
  have mode: "batching_mode (cu_profile demo_case_setup) = mode_str SHARED_RUNTIME_BATCH" by code_simp
  have modes: "ad_execution_modes demo_shared_adapter demo_batch_cfg = [mode_str SHARED_RUNTIME_BATCH]"
    by (simp add: demo_shared_adapter_def)
  have "\<forall>q \<in> set (stale_paths (cu_paths demo_setup)). ?st q = None" by (simp add: prepare_store_clean)
  from demo_shared_batch [OF this] obtain r st' where run: "run_shared_batch demo_shared_env demo_batch_cfg demo_shared_profiles
      (cu_profile demo_case_setup) demo_shared_adapter 5 [demo_case]
      (opt_default (PDict []) (base_prepare_batch demo_shared_adapter [demo_case] demo_batch_cfg)) ?st = Inr ([(''p'', r)], st')" by blast
  have ne: "demo_batch \<noteq> []" by (simp add: demo_batch_def)
  have slots: "no_slots [demo_case] = Inr [(''p'', None)]" by (simp add: no_slots_def demo_case_facts dict_set_def)
  show ?thesis
    unfolding execute_candidate_batch_with_context_def profile bind_Inr kind mode modes demo_prepared prod.case Let_def
      base_prepare_batch_cases run slots using ne by simp
qed

lemma batch_complete_witness:
  "\<exists>r slots st'. execute_candidate_batch_with_context demo_shared_env demo_bp demo_batch_cfg demo_shared_profiles
    demo_shared_adapter demo_batch 5 None Map.empty = Inr ([(''p'', r)], None, slots, st') \<and> vr_program_id r = ''p'' \<and>
    set (dict_keys slots) = {''p''}"
proof -
  from demo_shared_run obtain r slots st' where run: "execute_candidate_batch_with_context demo_shared_env demo_bp
    demo_batch_cfg demo_shared_profiles demo_shared_adapter demo_batch 5 None Map.empty = Inr ([(''p'', r)], None, slots, st')"
    by blast
  have ids: "batch_ids demo_batch = {''p''}" by (auto simp: batch_ids_def demo_batch_def str_of_def py_item_def dict_get_Cons)
  have "\<forall>n cs. mset (bp_completion demo_bp n cs) = mset cs" by (simp add: demo_bp_def)
  note C = batch_complete [OF run this, unfolded ids]
  have "dict_get ''p'' [(''p'', r)] = Some r" by (simp add: dict_get_Cons)
  note name = C [THEN conjunct2, THEN conjunct2, rule_format, OF this, THEN conjunct1]
  show ?thesis by (rule exI, rule exI, rule exI, rule conjI [OF run conjI [OF name C [THEN conjunct2, THEN conjunct1]]])
qed

lemma shared_batch_statuses_witness:
  "\<exists>r slots st'. execute_candidate_batch_with_context demo_shared_env demo_bp demo_batch_cfg demo_shared_profiles
    demo_shared_adapter demo_batch 5 None Map.empty = Inr ([(''p'', r)], None, slots, st') \<and> vr_status r = ''timeout''"
proof -
  from demo_shared_run obtain r slots st' where run: "execute_candidate_batch_with_context demo_shared_env demo_bp
    demo_batch_cfg demo_shared_profiles demo_shared_adapter demo_batch 5 None Map.empty = Inr ([(''p'', r)], None, slots, st')"
    by blast
  have got: "dict_get ''p'' [(''p'', r)] = Some r" by (simp add: dict_get_Cons)
  have ne: "demo_batch \<noteq> []" by (simp add: demo_batch_def)
  from shared_batch_statuses [OF run ne] obtain artifacts_dir call st1 p st2 where p: "ve_run demo_shared_env call st1 = (p, st2)" and
    own: "\<forall>k r'. dict_get k [(''p'', r)] = Some r' \<longrightarrow> (\<exists>c \<in> set demo_batch. \<exists>run_id dir.
      str_of ''program_id'' c = Inr k \<and> str_of ''run_id'' c = Inr run_id \<and>
      dir = resolve_repo_path (ve_root demo_shared_env) (pjoin (pjoin (pjoin artifacts_dir k) run_id) ''candidate'') \<and>
      vr_stdout_path r' = pjoin dir ''stdout.txt'' \<and>
      (case p of Expired _ _ _ _ \<Rightarrow> vr_status r' = ''timeout'' | Refused _ \<Rightarrow> vr_status r' = ''infra_error''
       | Exited _ _ _ \<Rightarrow> st2 (pjoin dir ''runner-result.json'') = None \<and> vr_status r' = ''infra_error'' \<or>
           (\<exists>written doc. st2 (pjoin dir ''runner-result.json'') = Some written \<and> json_loads written = Inr doc \<and>
             vr_status r' = (if doc = PNone then ''infra_error'' else py_str (py_get ''status'' (PStr ''ok'') doc)))))"
    by (elim exE conjE) (rule that; assumption)
  have expired: "p = Expired None None None None" using p by (simp add: demo_shared_env_def)
  from own [rule_format, OF got] have status: "vr_status r = ''timeout''" unfolding expired proc_outcome.case by (elim bexE exE conjE)
  show ?thesis by (rule exI, rule exI, rule exI, rule conjI [OF run status])
qed

end
