(* ===== verification/Limiter.thy ===== *)
theory Limiter
  imports PyPrelude
begin

text \<open>
  The bound on concurrently running guests: \<open>core/concurrency.py\<close>, the process-wide limiter of
  \<open>orchestrator/common.py\<close> and its one use, \<open>_run_case_with_semaphore\<close> of
  \<open>orchestrator/vm_runner.py\<close>. The semaphore is the counter of \<open>threading.Semaphore\<close>; the threads
  of the pools are a step relation over the phases of the cases: a case waits, runs inside the
  limiter (or without one) and is finished, whether its run returns or raises.
\<close>

section \<open>The limiter\<close>

record limiter =
  li_limit :: int
  li_value :: nat

definition new_limiter :: "int \<Rightarrow> limiter" where
  "new_limiter limit =
     (let limit' = (if limit < 1 then 1 else limit) in \<lparr>li_limit = limit', li_value = nat limit'\<rparr>)"

text \<open>\<open>None\<close>: the call blocks (or, with \<open>blocking=False\<close>, returns \<open>False\<close>).\<close>

definition acquire :: "limiter \<Rightarrow> limiter option" where
  "acquire l = (if li_value l = 0 then None else Some (l\<lparr>li_value := li_value l - 1\<rparr>))"

definition release :: "limiter \<Rightarrow> limiter" where
  "release l = l\<lparr>li_value := li_value l + 1\<rparr>"

text \<open>What a user of a pool of slots may rely on.\<close>

locale slots =
  fixes free :: "'s \<Rightarrow> nat"
    and take_slot :: "'s \<Rightarrow> 's option"
    and give_slot :: "'s \<Rightarrow> 's"
  assumes take_free: "take_slot s = Some s' \<Longrightarrow> free s = Suc (free s')"
    and take_blocks: "take_slot s = None \<longleftrightarrow> free s = 0"
    and give_free: "free (give_slot s) = Suc (free s)"
    and give_take: "take_slot s = Some s' \<Longrightarrow> give_slot s' = s"
begin

lemma take_ex: "0 < free s \<Longrightarrow> \<exists>s'. take_slot s = Some s'"
  using take_blocks [of s] by (cases "take_slot s") auto

lemma take_keeps: "take_slot s = Some s' \<Longrightarrow> free s + n = k \<Longrightarrow> free s' + Suc n = k"
  using take_free [of s s'] by simp

lemma give_keeps: "free s + Suc n = k \<Longrightarrow> free (give_slot s) + n = k"
  using give_free [of s] by simp

end

interpretation lim: slots li_value acquire release
  by unfold_locales (auto simp: acquire_def release_def split: if_splits)

section \<open>The cases of a pool\<close>

datatype phase = Waiting | Running | Finished

record vm_pool =
  vp_limiter :: "limiter option"
  vp_phases :: "phase list"

definition start_pool :: "limiter option \<Rightarrow> nat \<Rightarrow> vm_pool" where
  "start_pool l n = \<lparr>vp_limiter = l, vp_phases = replicate n Waiting\<rparr>"

inductive vm_step :: "vm_pool \<Rightarrow> vm_pool \<Rightarrow> bool" where
  enter: "t < length (vp_phases s) \<Longrightarrow> vp_phases s ! t = Waiting \<Longrightarrow> vp_limiter s = Some l \<Longrightarrow> acquire l = Some l' \<Longrightarrow>
    vm_step s (s\<lparr>vp_limiter := Some l', vp_phases := (vp_phases s)[t := Running]\<rparr>)"
| enter_unlimited: "t < length (vp_phases s) \<Longrightarrow> vp_phases s ! t = Waiting \<Longrightarrow> vp_limiter s = None \<Longrightarrow>
    vm_step s (s\<lparr>vp_phases := (vp_phases s)[t := Running]\<rparr>)"
| leave: "t < length (vp_phases s) \<Longrightarrow> vp_phases s ! t = Running \<Longrightarrow>
    vm_step s (s\<lparr>vp_limiter := map_option release (vp_limiter s), vp_phases := (vp_phases s)[t := Finished]\<rparr>)"

inductive_cases vm_stepE: "vm_step s s'"

definition running :: "vm_pool \<Rightarrow> nat" where
  "running s = count_list (vp_phases s) Running"

definition all_finished :: "vm_pool \<Rightarrow> bool" where
  "all_finished s \<longleftrightarrow> list_all (\<lambda>p. p = Finished) (vp_phases s)"

text \<open>The steps still to come: two for a waiting case, one for a running one.\<close>

definition to_come :: "vm_pool \<Rightarrow> nat" where
  "to_come s = 2 * count_list (vp_phases s) Waiting + running s"

lemma count_update_old:
  "t < length xs \<Longrightarrow> xs ! t = a \<Longrightarrow> a \<noteq> b \<Longrightarrow> count_list xs a = Suc (count_list (xs[t := b]) a)"
  by (induction xs arbitrary: t) (auto split: nat.splits simp: nth_Cons')

lemma count_update_new:
  "t < length xs \<Longrightarrow> xs ! t \<noteq> b \<Longrightarrow> count_list (xs[t := b]) b = Suc (count_list xs b)"
  by (induction xs arbitrary: t) (auto split: nat.splits simp: nth_Cons')

lemma count_update_other:
  "t < length xs \<Longrightarrow> xs ! t \<noteq> c \<Longrightarrow> b \<noteq> c \<Longrightarrow> count_list (xs[t := b]) c = count_list xs c"
  by (induction xs arbitrary: t) (auto split: nat.splits simp: nth_Cons')

lemmas count_updates = count_update_old [of _ _ Waiting Running] count_update_old [of _ _ Running Finished]
  count_update_new count_update_other

lemma step_to_come:
  assumes "vm_step s s'"
  shows "to_come s = Suc (to_come s') \<and> length (vp_phases s') = length (vp_phases s)"
  using assms by cases (simp_all add: to_come_def running_def count_updates)

text \<open>The slots in use are those of the running cases.\<close>

definition slots_kept :: "int \<Rightarrow> vm_pool \<Rightarrow> bool" where
  "slots_kept limit s \<longleftrightarrow> (\<exists>l. vp_limiter s = Some l \<and> li_limit l = li_limit (new_limiter limit) \<and>
     li_value l + running s = li_value (new_limiter limit))"

lemma step_slots_kept:
  assumes "vm_step s s'" "slots_kept limit s"
  shows "slots_kept limit s'"
  using assms(1)
proof cases
  case (enter t l l')
  with assms(2) lim.take_keeps [of l l' "running s"] show ?thesis
    by (auto simp: slots_kept_def running_def count_updates acquire_def split: if_splits)
next
  case (enter_unlimited t)
  with assms(2) show ?thesis by (simp add: slots_kept_def)
next
  case (leave t)
  with assms(2) show ?thesis
    by (auto simp: slots_kept_def running_def release_def count_updates)
qed

lemma can_step:
  assumes "slots_kept limit s" "\<not> all_finished s"
  shows "\<exists>s'. vm_step s s'"
proof -
  obtain l where l: "vp_limiter s = Some l" "li_value l + running s = li_value (new_limiter limit)"
    using assms(1) by (auto simp: slots_kept_def)
  obtain t where t: "t < length (vp_phases s)" "vp_phases s ! t \<noteq> Finished"
    using assms(2) by (auto simp: all_finished_def list_all_length)
  show ?thesis
  proof (cases "\<exists>u < length (vp_phases s). vp_phases s ! u = Running")
    case True
    then show ?thesis using vm_step.leave by blast
  next
    case False
    then have "vp_phases s ! t = Waiting" using t phase.exhaust by blast
    moreover have "running s = 0"
      using False by (simp add: running_def count_list_0_iff in_set_conv_nth)
    then have "0 < li_value l" using l(2) by (simp add: new_limiter_def Let_def)
    then obtain l' where "acquire l = Some l'" using lim.take_ex by blast
    ultimately show ?thesis using t(1) l(1) vm_step.enter by blast
  qed
qed

lemma finished_stuck:
  assumes "all_finished s"
  shows "\<not> vm_step s s'"
  using assms by (auto simp: all_finished_def list_all_length elim!: vm_stepE)

lemma run_invariant:
  "(vm_step ^^ k) (start_pool (Some (new_limiter limit)) n) s \<Longrightarrow>
   slots_kept limit s \<and> to_come s + k = 2 * n \<and> length (vp_phases s) = n"
proof (induction k arbitrary: s)
  case 0
  have "count_list (replicate n Waiting) p = (if p = Waiting then n else 0)" for p
    by (induction n) auto
  with 0 show ?case by (auto simp: slots_kept_def to_come_def running_def start_pool_def)
next
  case (Suc k)
  then obtain m where m: "(vm_step ^^ k) (start_pool (Some (new_limiter limit)) n) m" "vm_step m s" by auto
  with Suc.IH [OF m(1)] step_slots_kept [OF m(2)] step_to_come [OF m(2)] show ?case by auto
qed

lemma finished_to_come: "to_come s = 0 \<longleftrightarrow> all_finished s"
proof -
  have "to_come s = 0 \<longleftrightarrow> (\<forall>p \<in> set (vp_phases s). p \<notin> {Waiting, Running})"
    by (auto simp: to_come_def running_def count_list_0_iff)
  also have "\<dots> \<longleftrightarrow> all_finished s"
    unfolding all_finished_def list_all_iff by (metis insert_iff empty_iff phase.exhaust phase.distinct)
  finally show ?thesis .
qed

text \<open>
  C40. The guest slots neither leak nor block for ever: with a limiter of any limit, at every moment
  of every interleaving of the cases of a pool at most \<open>max(1, limit)\<close> of them run; as long as one is
  not finished some case can go on; and whatever the order, after twice as many steps as there are
  cases every case has run, with all slots free again.
\<close>

theorem vm_slots_live:
  assumes "(vm_step ^^ k) (start_pool (Some (new_limiter limit)) n) s"
  shows "int (running s) \<le> max 1 limit \<and> ((\<exists>s'. vm_step s s') \<longleftrightarrow> \<not> all_finished s) \<and> k \<le> 2 * n \<and>
    (k = 2 * n \<longleftrightarrow> all_finished s) \<and> (all_finished s \<longrightarrow> vp_limiter s = Some (new_limiter limit))"
proof -
  from run_invariant [OF assms] have kept: "slots_kept limit s" and come: "to_come s + k = 2 * n" by auto
  obtain l where l: "vp_limiter s = Some l" "li_limit l = li_limit (new_limiter limit)"
    "li_value l + running s = li_value (new_limiter limit)" using kept by (auto simp: slots_kept_def)
  have "int (running s) \<le> max 1 limit" using l(3) by (auto simp: new_limiter_def Let_def split: if_splits)
  moreover have "(\<exists>s'. vm_step s s') \<longleftrightarrow> \<not> all_finished s" using can_step [OF kept] finished_stuck by blast
  moreover have "k \<le> 2 * n" "k = 2 * n \<longleftrightarrow> all_finished s"
    using come finished_to_come [of s] by auto
  moreover have "vp_limiter s = Some (new_limiter limit)" if "all_finished s"
  proof -
    have "running s = 0" using that finished_to_come [of s] by (simp add: to_come_def)
    with l show ?thesis by (simp add: limiter.equality)
  qed
  ultimately show ?thesis by blast
qed

lemma vm_slots_live_witness:
  "\<exists>s. (vm_step ^^ 1) (start_pool (Some (new_limiter 0)) 2) s \<and> running s = 1 \<and> (\<exists>s'. vm_step s s')"
proof -
  let ?init = "start_pool (Some (new_limiter 0)) 2"
  let ?s = "?init\<lparr>vp_limiter := Some (new_limiter 0\<lparr>li_value := 0\<rparr>), vp_phases := [Running, Waiting]\<rparr>"
  have start: "vp_phases ?init = [Waiting, Waiting]"
    by (simp add: start_pool_def numeral_2_eq_2)
  have limiter: "vp_limiter ?init = Some (new_limiter 0)" by (simp add: start_pool_def)
  have acquired: "acquire (new_limiter 0) = Some (new_limiter 0\<lparr>li_value := 0\<rparr>)" by code_simp
  from vm_step.enter [of 0 ?init, OF _ _ limiter acquired]
  have "vm_step ?init (?init\<lparr>vp_limiter := Some (new_limiter 0\<lparr>li_value := 0\<rparr>), vp_phases := (vp_phases ?init)[0 := Running]\<rparr>)"
    by (simp add: start)
  then have run: "(vm_step ^^ 1) ?init ?s" by (simp add: start eq_OO)
  moreover have "running ?s = 1" "\<not> all_finished ?s" by (simp_all add: running_def all_finished_def)
  ultimately show ?thesis using vm_slots_live [OF run] by blast
qed

end
