(* ===== verification/Manifest.thy ===== *)
theory Manifest
  imports Scml Json
begin

text \<open>
  The syscall manifest and the generation targets: \<open>tools/build_scml_manifest.py\<close> reads the SCML
  rule files and READMEs of the Asterinas book and the syzkaller descriptions and writes the
  manifest the gate loads (\<open>Scml\<close>); \<open>tools/export_scml_targets.py\<close> turns its index into target
  rows and their summary.

  A directory is the list of its files, names and texts; a category is one with an optional README.
  The git revision, the time stamp and the path relative to the repository are the environment.
  The regular expressions are written out; where one has to give characters back (a label whose
  field is blank) the definition says what the match then is. Characters beyond Latin-1 whose lower
  case is an ASCII letter are not modelled.
\<close>

section \<open>Names and labels\<close>

text \<open>\<open>`([^`]+)`\<close>, all matches.\<close>

function code_spans :: "string \<Rightarrow> string list" where
  "code_spans [] = []"
| "code_spans (c # cs) =
     (let body = takeWhile (\<lambda>d. d \<noteq> CHR 0x60) cs; rest = dropWhile (\<lambda>d. d \<noteq> CHR 0x60) cs in
      if c = CHR 0x60 \<and> body \<noteq> [] \<and> rest \<noteq> [] then body # code_spans (tl rest) else code_spans cs)"
  by pat_completeness auto
termination
proof (relation "measure length")
  fix c and cs body rest :: string
  assume "rest = dropWhile (\<lambda>d. d \<noteq> CHR 0x60) cs"
  then have "length rest \<le> length cs" by (simp add: length_dropWhile_le)
  then show "(tl rest, c # cs) \<in> measure length" by simp
qed simp_all

text \<open>\<open>^###\s+(.+?)\s*$\<close> on a stripped line.\<close>

definition section_heading :: "string \<Rightarrow> string option" where
  "section_heading stripped =
     (let rest = drop 3 stripped in
      if startswith stripped ''###'' \<and> rest \<noteq> [] \<and> py_space (hd rest) then Some (lstrip rest) else None)"

text \<open>\<open>^([A-Za-z0-9_]+)\s*\(\<close>\<close>

definition syscall_rule :: "string \<Rightarrow> string option" where
  "syscall_rule s =
     (let name = takeWhile word_char s; rest = lstrip (dropWhile word_char s) in
      if name \<noteq> [] \<and> rest \<noteq> [] \<and> hd rest = CHR ''('' then Some name else None)"

text \<open>\<open>^([A-Za-z0-9_]+(?:\$[A-Za-z0-9_]+)?)\s*\(\<close>\<close>

definition syzkaller_syscall :: "string \<Rightarrow> string option" where
  "syzkaller_syscall s =
     (let base = takeWhile word_char s; rest = dropWhile word_char s;
          variant = (if rest \<noteq> [] \<and> hd rest = CHR ''$'' then takeWhile word_char (tl rest) else []);
          name = (if variant = [] then base else base @ ''$'' @ variant);
          after = lstrip (drop (length name) s) in
      if base \<noteq> [] \<and> after \<noteq> [] \<and> hd after = CHR ''('' then Some name else None)"

definition GROUP_PREFIXES :: "string list" where
  "GROUP_PREFIXES = [''Silently-ignored'', ''Ignored'', ''Partially-supported'', ''Unsupported'']"

text \<open>\<open>^(prefix)\s+(.+):$\<close>: a field of blanks only leaves the last of them.\<close>

definition label_field :: "string \<Rightarrow> string option" where
  "label_field rest =
     (if rest = [] \<or> last rest \<noteq> CHR '':'' then None else
      let mid = butlast rest; ws = takeWhile py_space mid; field = dropWhile py_space mid in
      if ws = [] then None else if field \<noteq> [] then Some field
      else if 2 \<le> length ws then Some [last ws] else None)"

definition group_label :: "string \<Rightarrow> (string \<times> string) option" where
  "group_label stripped = (case find (startswith stripped) GROUP_PREFIXES of
       None \<Rightarrow> None
     | Some p \<Rightarrow> map_option (\<lambda>f. (p, f)) (label_field (drop (length p) stripped)))"

definition lower_char :: "char \<Rightarrow> char" where
  "lower_char c = (if c \<in> set ''ABCDEFGHIJKLMNOPQRSTUVWXYZ'' then char_of (of_char c + 32 :: nat) else c)"

definition lower :: "string \<Rightarrow> string" where
  "lower s = map lower_char s"

fun squeeze :: "bool \<Rightarrow> string \<Rightarrow> string" where
  "squeeze in_run [] = []"
| "squeeze in_run (c # cs) =
     (if c \<in> set ''abcdefghijklmnopqrstuvwxyz0123456789'' then c # squeeze False cs
      else if in_run then squeeze True cs else CHR ''_'' # squeeze True cs)"

definition normalize_field_name :: "string \<Rightarrow> string" where
  "normalize_field_name raw =
     strip_chars (\<lambda>c. c = CHR ''_'')
       (squeeze False (concat (map (\<lambda>c. if c = CHR ''&'' then ''and'' else [c]) (lower (strip raw)))))"

definition normalize_group_prefix :: "string \<Rightarrow> string" where
  "normalize_group_prefix raw =
     (let p = map (\<lambda>c. if c = CHR ''-'' \<or> c = CHR '' '' then CHR ''_'' else c) (lower (strip raw));
          p = (if startswith p ''silently_'' then drop 9 p else p) in
      if p = ''partially_supported'' then ''partial'' else p)"

definition normalize_bullet_items :: "string \<Rightarrow> string list" where
  "normalize_bullet_items raw =
     (let tokens = filter (\<lambda>t. t \<noteq> []) (map strip (code_spans raw));
          item = strip_chars (\<lambda>c. c = CHR 0x60) (strip raw) in
      if tokens \<noteq> [] then uniq tokens else if item = [] then [] else [item])"

section \<open>README sections\<close>

type_synonym fields = "(string, string list) dict"

record readme_section =
  se_heading :: string
  se_notes :: "string list"
  se_ignored :: fields
  se_partial :: fields
  se_unsupported :: fields

definition section_template :: "string \<Rightarrow> readme_section" where
  "section_template title =
     \<lparr>se_heading = title, se_notes = [], se_ignored = [], se_partial = [], se_unsupported = []\<rparr>"

definition extend_field :: "string \<Rightarrow> string list \<Rightarrow> fields \<Rightarrow> fields" where
  "extend_field k vs d = dict_set k (opt_default [] (dict_get k d) @ vs) d"

definition add_items :: "string \<Rightarrow> string \<Rightarrow> string list \<Rightarrow> readme_section \<Rightarrow> readme_section" where
  "add_items bucket field vs s =
     (if bucket = ''ignored'' then s\<lparr>se_ignored := extend_field field vs (se_ignored s)\<rparr>
      else if bucket = ''partial'' then s\<lparr>se_partial := extend_field field vs (se_partial s)\<rparr>
      else s\<lparr>se_unsupported := extend_field field vs (se_unsupported s)\<rparr>)"

definition finalize_fields :: "fields \<Rightarrow> fields" where
  "finalize_fields d = map (\<lambda>(k, vs). (k, uniq vs)) (sort_key fst d)"

definition finalize_section :: "readme_section \<Rightarrow> readme_section" where
  "finalize_section s =
     \<lparr>se_heading = se_heading s, se_notes = uniq (se_notes s), se_ignored = finalize_fields (se_ignored s),
      se_partial = finalize_fields (se_partial s), se_unsupported = finalize_fields (se_unsupported s)\<rparr>"

record readme_state =
  rd_sections :: "(string, readme_section list) dict"
  rd_names :: "string list"
  rd_current :: "readme_section option"
  rd_bucket :: string
  rd_field :: string
  rd_code :: bool

definition readme_flush :: "readme_state \<Rightarrow> (string, readme_section list) dict" where
  "readme_flush st = (case rd_current st of
       None \<Rightarrow> rd_sections st
     | Some s \<Rightarrow> fold (\<lambda>n d. dict_set n (opt_default [] (dict_get n d) @ [finalize_section s]) d)
         (rd_names st) (rd_sections st))"

text \<open>One line. \<open>None\<close> and the empty string are alike as current bucket and field.\<close>

definition readme_step :: "string \<Rightarrow> readme_state \<Rightarrow> readme_state" where
  "readme_step raw_line st =
     (let stripped = strip raw_line in
      if startswith stripped (replicate 3 (CHR 0x60)) then st\<lparr>rd_code := \<not> rd_code st\<rparr>
      else if rd_code st then st
      else (case section_heading stripped of
        Some title \<Rightarrow> st\<lparr>rd_sections := readme_flush st, rd_names := code_spans title,
            rd_current := Some (section_template title), rd_bucket := [], rd_field := []\<rparr>
      | None \<Rightarrow> (case rd_current st of
          None \<Rightarrow> st
        | Some s \<Rightarrow> (case group_label stripped of
            Some (p, f) \<Rightarrow> st\<lparr>rd_bucket := normalize_group_prefix p, rd_field := normalize_field_name f\<rparr>
          | None \<Rightarrow>
              if startswith stripped ''* '' \<and> rd_bucket st \<noteq> [] \<and> rd_field st \<noteq> []
              then st\<lparr>rd_current := Some (add_items (rd_bucket st) (rd_field st) (normalize_bullet_items (drop 2 stripped)) s)\<rparr>
              else if stripped = [] \<or> startswith stripped ''For more information,''
              then st\<lparr>rd_bucket := [], rd_field := []\<rparr>
              else if startswith stripped ''Supported functionality'' then st
              else st\<lparr>rd_current := Some (s\<lparr>se_notes := se_notes s @ [stripped]\<rparr>)\<rparr>))))"

definition parse_readme_sections :: "string \<Rightarrow> (string, readme_section list) dict" where
  "parse_readme_sections t =
     readme_flush (fold readme_step (splitlines t)
       \<lparr>rd_sections = [], rd_names = [], rd_current = None, rd_bucket = [], rd_field = [], rd_code = False\<rparr>)"

section \<open>Rule files\<close>

definition rule_names :: "string list \<Rightarrow> string list" where
  "rule_names lines = List.map_filter (\<lambda>l. let s = strip l in
     if s = [] \<or> startswith s ''//'' then None else syscall_rule s) lines"

definition extract_syscall_names :: "string \<Rightarrow> string list" where
  "extract_syscall_names t = uniq (rule_names (splitlines t))"

definition merge_bucket :: "(readme_section \<Rightarrow> fields) \<Rightarrow> readme_section list \<Rightarrow> fields" where
  "merge_bucket bucket sections =
     finalize_fields (fold (\<lambda>s d. fold (\<lambda>(k, vs). extend_field k vs) (bucket s) d) sections [])"

definition strs :: "string list \<Rightarrow> pyval" where
  "strs vs = PList (map PStr vs)"

definition bucket_aliases :: "string \<Rightarrow> fields \<Rightarrow> (string \<times> pyval) list" where
  "bucket_aliases bucket_name fs =
     (let aliases = dict_merge [] (map (\<lambda>(k, vs). (bucket_name @ ''_'' @ k, strs vs)) fs);
          common = bucket_name @ ''_flags'' in
      if dict_get common aliases = None then dict_set common (strs (opt_default [] (dict_get ''flags'' fs))) aliases
      else aliases)"

definition support_tier :: "string list \<Rightarrow> fields \<Rightarrow> fields \<Rightarrow> fields \<Rightarrow> string" where
  "support_tier source_files ignored partial unsupported =
     (if partial \<noteq> [] \<or> ignored \<noteq> [] \<or> unsupported \<noteq> [] then ''partial''
      else if \<exists>path \<in> set source_files. \<not> endswith path ''fully_covered.scml'' then ''partial''
      else ''full'')"

section \<open>Syzkaller descriptions\<close>

definition parse_syzkaller_definition :: "string \<Rightarrow> (string \<times> bool) option" where
  "parse_syzkaller_definition line =
     (let s = strip line; commented = startswith s ''#''; body = (if commented then strip (drop 1 s) else s) in
      map_option (\<lambda>n. (n, commented)) (syzkaller_syscall body))"

definition syscall_base_name :: "string \<Rightarrow> string" where
  "syscall_base_name name = before_char CHR ''$'' name"

record description =
  de_active_base_names :: "string list"
  de_active_variant_names :: "string list"
  de_helper_names :: "string list"
  de_commented_names :: "string list"
  de_disabled_names :: "string list"

definition no_description :: description where
  "no_description = \<lparr>de_active_base_names = [], de_active_variant_names = [], de_helper_names = [],
     de_commented_names = [], de_disabled_names = []\<rparr>"

type_synonym description_index = "(string, description) dict"

text \<open>\<open>ensure_entry\<close> and the change of the entry it returns.\<close>

definition update_entry :: "string \<Rightarrow> (description \<Rightarrow> description) \<Rightarrow> description_index \<Rightarrow> description_index" where
  "update_entry base f index = dict_set base (f (opt_default no_description (dict_get base index))) index"

definition describe_line :: "string \<Rightarrow> description_index \<Rightarrow> description_index" where
  "describe_line raw_line index = (case parse_syzkaller_definition raw_line of
       None \<Rightarrow> index
     | Some (full_name, commented) \<Rightarrow>
         let base = syscall_base_name full_name in
         if commented then update_entry base (\<lambda>e. e\<lparr>de_commented_names := full_name # de_commented_names e\<rparr>) index
         else if startswith full_name ''syz_'' then
           update_entry (syscall_base_name (drop 4 full_name)) (\<lambda>e. e\<lparr>de_helper_names := full_name # de_helper_names e\<rparr>)
             (update_entry base id index)
         else if contains raw_line ''disabled'' then
           update_entry base (\<lambda>e. e\<lparr>de_disabled_names := full_name # de_disabled_names e\<rparr>) index
         else if CHR ''$'' \<in> set full_name then
           update_entry base (\<lambda>e. e\<lparr>de_active_variant_names := full_name # de_active_variant_names e\<rparr>) index
         else update_entry base (\<lambda>e. e\<lparr>de_active_base_names := full_name # de_active_base_names e\<rparr>) index)"

type_synonym directory = "(string \<times> string) list"

definition description_lines :: "directory \<Rightarrow> string list" where
  "description_lines files =
     concat (map (splitlines \<circ> snd) (filter (\<lambda>(n, t). endswith n ''.txt'' \<and> \<not> startswith n ''auto'') (sort_key fst files)))"

definition analyze_syzkaller_descriptions :: "directory option \<Rightarrow> description_index" where
  "analyze_syzkaller_descriptions base_dir = (case base_dir of
       None \<Rightarrow> [] | Some files \<Rightarrow> fold describe_line (description_lines files) [])"

record generator =
  ge_base :: bool
  ge_variant :: bool
  ge_class :: string
  ge_gap :: string

definition generator_metadata :: "string \<Rightarrow> description_index \<Rightarrow> generator" where
  "generator_metadata syscall_name index = (case dict_get syscall_name index of
       None \<Rightarrow> \<lparr>ge_base = False, ge_variant = False, ge_class = ''unavailable'', ge_gap = ''missing_description''\<rparr>
     | Some e \<Rightarrow>
         let base_available = (de_active_base_names e \<noteq> []); variant_available = (de_active_variant_names e \<noteq> []);
             helper_available = (de_helper_names e \<noteq> []);
             disabled = (de_disabled_names e \<noteq> [] \<or> de_commented_names e \<noteq> []) in
         if base_available then
           \<lparr>ge_base = True, ge_variant = variant_available, ge_class = ''base_only'', ge_gap = ''none''\<rparr>
         else if variant_available then
           \<lparr>ge_base = False, ge_variant = True, ge_class = ''variant_only'', ge_gap = ''missing_base_definition''\<rparr>
         else if helper_available then
           \<lparr>ge_base = False, ge_variant = False, ge_class = ''helper_only'',
            ge_gap = (if disabled then ''disabled_in_syzkaller'' else ''pseudo_only'')\<rparr>
         else
           \<lparr>ge_base = False, ge_variant = False, ge_class = ''unavailable'',
            ge_gap = (if disabled then ''disabled_in_syzkaller'' else ''missing_description'')\<rparr>)"

definition generator_items :: "generator \<Rightarrow> (string \<times> pyval) list" where
  "generator_items g =
     [(''syzkaller_base_available'', PBool (ge_base g)), (''syzkaller_variant_available'', PBool (ge_variant g)),
      (''generator_class'', PStr (ge_class g)), (''generator_gap_reason'', PStr (ge_gap g))]"

section \<open>The manifest\<close>

record category_dir =
  cd_name :: string
  cd_readme :: "string option"
  cd_files :: directory

record manifest_env =
  mf_relative :: "string \<Rightarrow> string res"
  mf_revision :: "string res"
  mf_generated_at :: string
  mf_source_root :: string

definition scml_files :: "category_dir \<Rightarrow> directory" where
  "scml_files c = filter (\<lambda>(n, t). endswith n ''.scml'') (sort_key fst (cd_files c))"

definition child_path :: "manifest_env \<Rightarrow> category_dir \<Rightarrow> string \<Rightarrow> string res" where
  "child_path env c n = mf_relative env (mf_source_root env @ ''/'' @ cd_name c @ ''/'' @ n)"

definition scml_rows :: "manifest_env \<Rightarrow> category_dir \<Rightarrow> (string \<times> string list) list res" where
  "scml_rows env c = map_res (\<lambda>(n, t). bind (child_path env c n) (\<lambda>p. Inr (p, extract_syscall_names t))) (scml_files c)"

definition add_sources :: "(string \<times> string list) list \<Rightarrow> fields" where
  "add_sources rows = fold (\<lambda>(path, names) d. fold (\<lambda>n. extend_field n [path]) names d) rows []"

definition fields_value :: "fields \<Rightarrow> pyval" where
  "fields_value d = PDict (map (\<lambda>(k, vs). (k, strs vs)) d)"

definition readme_of :: "manifest_env \<Rightarrow> category_dir \<Rightarrow> pyval res" where
  "readme_of env c = (case cd_readme c of
       None \<Rightarrow> Inr PNone | Some t \<Rightarrow> bind (child_path env c ''README.md'') (\<lambda>p. Inr (PStr p)))"

definition syscall_entry ::
  "string \<Rightarrow> pyval \<Rightarrow> readme_section list \<Rightarrow> description_index \<Rightarrow> string \<times> string list \<Rightarrow> pyval" where
  "syscall_entry category readme_path sections index source = (case source of (syscall_name, source_files) \<Rightarrow>
     let ignored = merge_bucket se_ignored sections; partial = merge_bucket se_partial sections;
         unsupported = merge_bucket se_unsupported sections;
         notes = uniq (concat (map se_notes sections));
         headings = uniq (filter (\<lambda>h. h \<noteq> []) (map se_heading sections));
         base = [(''name'', PStr syscall_name), (''category'', PStr category),
           (''support_tier'', PStr (support_tier source_files ignored partial unsupported)),
           (''preflight_required'', PBool True), (''generation_enabled'', PBool True), (''defer_reason'', PNone),
           (''source_scml_files'', strs (sort source_files)), (''readme_path'', readme_path),
           (''readme_headings'', strs headings), (''ignored'', fields_value ignored), (''partial'', fields_value partial),
           (''unsupported'', fields_value unsupported), (''notes'', strs notes)] in
     PDict (dict_merge (dict_merge (dict_merge (dict_merge base (generator_items (generator_metadata syscall_name index)))
       (bucket_aliases ''ignored'' ignored)) (bucket_aliases ''partial'' partial)) (bucket_aliases ''unsupported'' unsupported)))"

definition category_readme :: "category_dir \<Rightarrow> (string, readme_section list) dict" where
  "category_readme c = (case cd_readme c of None \<Rightarrow> [] | Some t \<Rightarrow> parse_readme_sections t)"

definition category_value :: "manifest_env \<Rightarrow> description_index \<Rightarrow> category_dir \<Rightarrow> (string \<times> pyval \<times> nat \<times> nat) res" where
  "category_value env index c =
     bind (scml_rows env c) (\<lambda>rows.
     bind (readme_of env c) (\<lambda>readme_path.
     let sections = category_readme c;
         syscalls = map (\<lambda>(n, files). (n, syscall_entry (cd_name c) readme_path
             (opt_default [] (dict_get n sections)) index (n, files))) (sort_key fst (add_sources rows)) in
     Inr (cd_name c, PDict [(''name'', PStr (cd_name c)), (''readme_path'', readme_path),
        (''source_files'', strs (map fst rows)), (''syscall_count'', PInt (int (length syscalls))),
        (''syscalls'', PDict syscalls)], length rows, length syscalls)))"

definition build_manifest :: "manifest_env \<Rightarrow> string \<Rightarrow> category_dir list \<Rightarrow> directory option \<Rightarrow> pyval res" where
  "build_manifest env target categories syzkaller_root =
     bind (map_res (category_value env (analyze_syzkaller_descriptions syzkaller_root)) (sort_key cd_name categories)) (\<lambda>cs.
     bind (mf_revision env) (\<lambda>revision.
     bind (mf_relative env (mf_source_root env)) (\<lambda>base_dir.
     let category_meta = dict_merge [] (map (\<lambda>(n, v, _). (n, v)) cs) in
     Inr (PDict [(''target'', PStr target), (''source_type'', PStr ''scml''), (''source_revision'', PStr revision),
        (''source_root'', PStr base_dir), (''generated_at'', PStr (mf_generated_at env)),
        (''stats'', PDict [(''category_count'', PInt (int (length category_meta))),
           (''readme_count'', PInt (int (length (filter (\<lambda>c. cd_readme c \<noteq> None) categories)))),
           (''scml_file_count'', PInt (int (sum_list (map (\<lambda>(_, _, f, _). f) cs)))),
           (''total_syscalls'', PInt (int (sum_list (map (\<lambda>(_, _, _, s). s) cs))))]),
        (''categories'', PDict category_meta)]))))"

section \<open>Generation targets\<close>

definition target_row_from_entry :: "pyval \<Rightarrow> pyval res" where
  "target_row_from_entry e =
     bind (py_item ''name'' e) (\<lambda>name.
     bind (py_item ''category'' e) (\<lambda>category.
     bind (py_item ''support_tier'' e) (\<lambda>tier.
     bind (py_item ''generation_enabled'' e) (\<lambda>enabled.
     bind (case py_get ''source_scml_files'' (PList []) e of
             PList vs \<Rightarrow> Inr vs | _ \<Rightarrow> Inl (TypeError ''not iterable'')) (\<lambda>files.
     Inr (PDict [(''syscall_name'', name), (''category'', category), (''support_tier'', tier),
       (''generation_enabled'', enabled), (''defer_reason'', py_get ''defer_reason'' PNone e),
       (''generator_class'', py_get ''generator_class'' (PStr ''unavailable'') e),
       (''generator_gap_reason'', py_get ''generator_gap_reason'' (PStr ''missing_description'') e),
       (''syzkaller_base_available'', PBool (truthy (py_get ''syzkaller_base_available'' PNone e))),
       (''syzkaller_variant_available'', PBool (truthy (py_get ''syzkaller_variant_available'' PNone e))),
       (''readme_path'', py_get ''readme_path'' PNone e), (''source_scml_files'', PList files)]))))))"

definition row_str :: "string \<Rightarrow> pyval \<Rightarrow> string" where
  "row_str k row = py_str (py_get k PNone row)"

definition build_generation_targets :: "manifest_index \<Rightarrow> pyval list res" where
  "build_generation_targets index =
     bind (map_res target_row_from_entry
       (filter (\<lambda>e. truthy (py_get ''generation_enabled'' (PBool True) e)) (map snd (sort_key fst index)))) (\<lambda>rows.
     Inr (sort_key (row_str ''syscall_name'') rows))"

definition build_target_summary :: "pyval list \<Rightarrow> string \<Rightarrow> pyval" where
  "build_target_summary rows workflow =
     (let reachable = length (filter (\<lambda>r. row_str ''generator_class'' r \<in> {''base_only'', ''variant_only''}) rows) in
      PDict [(''workflow'', PStr workflow), (''target_total'', PInt (int (length rows))),
        (''generator_class_counts'', count_items (count_values (map (row_str ''generator_class'') rows))),
        (''support_tier_counts'', count_items (count_values (map (row_str ''support_tier'') rows))),
        (''reachable_total'', PInt (int reachable)), (''unreachable_total'', PInt (int (length rows) - int reachable))])"

section \<open>What the descriptions say of a syscall\<close>

text \<open>What one line defines, said of the line: the full name and its kind.\<close>

datatype definition_kind = Commented | Helper | Disabled | Variant | Base

definition line_kind :: "string \<Rightarrow> (string \<times> definition_kind) option" where
  "line_kind l = map_option (\<lambda>(full_name, commented).
     if commented then (syscall_base_name full_name, Commented)
     else if startswith full_name ''syz_'' then (syscall_base_name (drop 4 full_name), Helper)
     else if contains l ''disabled'' then (syscall_base_name full_name, Disabled)
     else if CHR ''$'' \<in> set full_name then (syscall_base_name full_name, Variant)
     else (syscall_base_name full_name, Base)) (parse_syzkaller_definition l)"

definition described_as :: "string list \<Rightarrow> string \<Rightarrow> definition_kind \<Rightarrow> bool" where
  "described_as lines n k \<longleftrightarrow> list_ex (\<lambda>l. line_kind l = Some (n, k)) lines"

definition names_of_kind :: "description \<Rightarrow> definition_kind \<Rightarrow> string list" where
  "names_of_kind e k = (case k of Commented \<Rightarrow> de_commented_names e | Helper \<Rightarrow> de_helper_names e
     | Disabled \<Rightarrow> de_disabled_names e | Variant \<Rightarrow> de_active_variant_names e | Base \<Rightarrow> de_active_base_names e)"

definition described :: "description_index \<Rightarrow> string \<Rightarrow> description" where
  "described index n = opt_default no_description (dict_get n index)"

lemma described_update [simp]:
  "described (update_entry b f index) n = (if n = b then f (described index n) else described index n)"
  by (simp add: described_def update_entry_def opt_default_def)

lemma described_Nil [simp]: "names_of_kind (described [] n) k = []"
  by (cases k) (simp_all add: described_def opt_default_def no_description_def names_of_kind_def)

lemma describe_line_kind:
  "names_of_kind (described (describe_line l index) n) k \<noteq> [] \<longleftrightarrow>
     names_of_kind (described index n) k \<noteq> [] \<or> line_kind l = Some (n, k)"
proof (cases "parse_syzkaller_definition l")
  case None
  then show ?thesis by (simp add: describe_line_def line_kind_def)
next
  case (Some p)
  obtain full_name commented where p: "p = (full_name, commented)" by (rule prod.exhaust)
  show ?thesis
    unfolding describe_line_def line_kind_def Some p option.case prod.case option.map Let_def
    by (cases commented; cases "startswith full_name ''syz_''"; cases "contains l ''disabled''";
        cases "CHR ''$'' \<in> set full_name"; cases k)
      (simp_all add: names_of_kind_def eq_commute [of n] del: startswith.simps)
qed

lemma describe_lines_kind:
  "names_of_kind (described (fold describe_line lines index) n) k \<noteq> [] \<longleftrightarrow>
     names_of_kind (described index n) k \<noteq> [] \<or> described_as lines n k"
proof (induction lines arbitrary: index)
  case (Cons l lines)
  show ?case
    using Cons.IH [of "describe_line l index"] describe_line_kind [of l index n k] by (simp add: described_as_def)
qed (simp add: described_as_def)

definition generator_table :: "string list \<Rightarrow> string \<Rightarrow> generator" where
  "generator_table lines n =
     (let gap = (if described_as lines n Disabled \<or> described_as lines n Commented then ''disabled_in_syzkaller''
           else if described_as lines n Helper then ''pseudo_only'' else ''missing_description'') in
      if described_as lines n Base then
        \<lparr>ge_base = True, ge_variant = described_as lines n Variant, ge_class = ''base_only'', ge_gap = ''none''\<rparr>
      else if described_as lines n Variant then
        \<lparr>ge_base = False, ge_variant = True, ge_class = ''variant_only'', ge_gap = ''missing_base_definition''\<rparr>
      else \<lparr>ge_base = False, ge_variant = False,
            ge_class = (if described_as lines n Helper then ''helper_only'' else ''unavailable''), ge_gap = gap\<rparr>)"

text \<open>
  The generator class of a syscall is what the descriptions say of it, whatever the number, the
  order and the distribution over files of its definitions: base when some line defines the plain
  call (not commented out, not disabled, not a pseudo call), else variant when some line described_as a
  \<open>$\<close> variant, else helper when only a \<open>syz_\<close> pseudo call of that name exists, else unavailable; the
  gap is a disabled or commented definition if there is one. Files named \<open>auto..\<close> do not count.
\<close>

theorem generator_class_spec:
  "generator_metadata n (analyze_syzkaller_descriptions (Some files)) = generator_table (description_lines files) n"
proof -
  let ?lines = "description_lines files" and ?index = "fold describe_line (description_lines files) []"
  have kinds: "names_of_kind (described ?index n) k \<noteq> [] \<longleftrightarrow> described_as ?lines n k" for k
    by (simp add: describe_lines_kind)
  have none: "\<not> described_as ?lines n k" if "dict_get n ?index = None" for k
    using kinds [of k] that by (cases k) (simp_all add: described_def opt_default_def no_description_def names_of_kind_def)
  show ?thesis
  proof (cases "dict_get n ?index")
    case None
    then show ?thesis
      by (simp add: analyze_syzkaller_descriptions_def generator_metadata_def generator_table_def none)
  next
    case (Some e)
    then have "names_of_kind e k \<noteq> [] \<longleftrightarrow> described_as ?lines n k" for k
      using kinds [of k] by (simp add: described_def opt_default_def)
    from this [of Base] this [of Variant] this [of Helper] this [of Disabled] this [of Commented] Some
    show ?thesis
      by (auto simp: analyze_syzkaller_descriptions_def generator_metadata_def generator_table_def names_of_kind_def Let_def)
  qed
qed

section \<open>What the manifest holds\<close>

lemma extend_field_get:
  "opt_default [] (dict_get k (extend_field k' vs d)) = opt_default [] (dict_get k d) @ (if k = k' then vs else [])"
  by (simp add: extend_field_def opt_default_def)

lemma extend_field_keys: "set (dict_keys (extend_field k vs d)) = insert k (set (dict_keys d))"
  by (simp add: extend_field_def set_keys_set)

lemma extend_field_distinct [simp]: "distinct (dict_keys d) \<Longrightarrow> distinct (dict_keys (extend_field k vs d))"
  by (simp add: extend_field_def)

lemma extend_fields_get:
  "distinct ns \<Longrightarrow> opt_default [] (dict_get n (fold (\<lambda>n. extend_field n vs) ns d)) =
     opt_default [] (dict_get n d) @ (if n \<in> set ns then vs else [])"
  by (induction ns arbitrary: d) (auto simp: extend_field_get)

lemma extend_fields_keys: "set (dict_keys (fold (\<lambda>n. extend_field n vs) ns d)) = set ns \<union> set (dict_keys d)"
  by (induction ns arbitrary: d) (auto simp: extend_field_keys)

lemma extend_fields_distinct [simp]:
  "distinct (dict_keys d) \<Longrightarrow> distinct (dict_keys (fold (\<lambda>n. extend_field n vs) ns d))"
  by (induction ns arbitrary: d) auto

text \<open>The sources of a name: the files that name it, in order.\<close>

lemma add_sources_fold:
  assumes "list_all (\<lambda>(p, ns). distinct ns) rows"
  shows "opt_default [] (dict_get n (fold (\<lambda>(path, names) d. fold (\<lambda>n. extend_field n [path]) names d) rows d)) =
      opt_default [] (dict_get n d) @ map fst (filter (\<lambda>(p, ns). n \<in> set ns) rows) \<and>
    set (dict_keys (fold (\<lambda>(path, names) d. fold (\<lambda>n. extend_field n [path]) names d) rows d)) =
      (\<Union>(p, ns) \<in> set rows. set ns) \<union> set (dict_keys d) \<and>
    (distinct (dict_keys d) \<longrightarrow>
      distinct (dict_keys (fold (\<lambda>(path, names) d. fold (\<lambda>n. extend_field n [path]) names d) rows d)))"
  using assms
proof (induction rows arbitrary: d)
  case (Cons r rows)
  obtain p ns where r: "r = (p, ns)" by (rule prod.exhaust)
  from Cons.prems r have "distinct ns" "list_all (\<lambda>(p, ns). distinct ns) rows" by simp_all
  with Cons.IH [OF this(2), of "fold (\<lambda>n. extend_field n [p]) ns d"] show ?case
    by (simp add: r extend_fields_get extend_fields_keys) blast
qed simp

lemma add_sources_spec:
  assumes "list_all (\<lambda>(p, ns). distinct ns) rows"
  shows "opt_default [] (dict_get n (add_sources rows)) = map fst (filter (\<lambda>(p, ns). n \<in> set ns) rows)"
    "set (dict_keys (add_sources rows)) = (\<Union>(p, ns) \<in> set rows. set ns)" "distinct (dict_keys (add_sources rows))"
  using add_sources_fold [OF assms, of n "[]"]
  by (simp_all add: add_sources_def opt_default_def dict_keys_Nil)

lemma finalize_fields_Nil: "finalize_fields d = [] \<longleftrightarrow> d = []"
proof -
  have "length (finalize_fields d) = length d" by (simp add: finalize_fields_def)
  then show ?thesis by fastforce
qed

lemma extend_field_ne: "extend_field k vs d \<noteq> []"
  using extend_field_keys [of k vs d] by (auto simp: dict_keys_Nil)

lemma fold_extend_Nil: "fold (\<lambda>(k, vs). extend_field k vs) fs d = [] \<longleftrightarrow> fs = [] \<and> d = []"
  by (induction fs arbitrary: d) (simp_all add: extend_field_ne case_prod_beta)

lemma merge_bucket_Nil: "merge_bucket bucket sections = [] \<longleftrightarrow> (\<forall>s \<in> set sections. bucket s = [])"
proof -
  have "fold (\<lambda>s d. fold (\<lambda>(k, vs). extend_field k vs) (bucket s) d) sections d = [] \<longleftrightarrow>
      (\<forall>s \<in> set sections. bucket s = []) \<and> d = []" for d
  proof (induction sections arbitrary: d)
    case (Cons s sections)
    show ?case unfolding fold_simps comp_def Cons.IH fold_extend_Nil by auto
  qed simp
  then show ?thesis by (simp add: merge_bucket_def finalize_fields_Nil)
qed

definition unrestricted :: "readme_section \<Rightarrow> bool" where
  "unrestricted s \<longleftrightarrow> se_ignored s = [] \<and> se_partial s = [] \<and> se_unsupported s = []"

text \<open>The rest of an entry does not touch its first keys.\<close>

lemma dict_merge_keys_in: "set (dict_keys (dict_merge [] (map f xs))) = set (map (fst \<circ> f) xs)"
  by (simp add: keys_merge dict_keys_Nil) (simp add: dict_keys_def comp_def)

lemma alias_keys:
  "k \<in> set (dict_keys (bucket_aliases b fs)) \<Longrightarrow> startswith k (b @ ''_'')"
  by (auto simp: bucket_aliases_def Let_def set_keys_set dict_merge_keys_in case_prod_beta startswith_iff split: if_splits)

lemma entry_get_base:
  assumes "list_all (\<lambda>b. \<not> startswith k (b @ ''_'')) [''ignored'', ''partial'', ''unsupported'']"
    "k \<notin> set (map fst (generator_items undefined))"
  shows "dict_get k (items (syscall_entry category readme_path sections index (n, files))) =
    dict_get k [(''name'', PStr n), (''category'', PStr category),
      (''support_tier'', PStr (support_tier files (merge_bucket se_ignored sections) (merge_bucket se_partial sections)
         (merge_bucket se_unsupported sections))),
      (''preflight_required'', PBool True), (''generation_enabled'', PBool True), (''defer_reason'', PNone),
      (''source_scml_files'', strs (sort files)), (''readme_path'', readme_path),
      (''readme_headings'', strs (uniq (filter (\<lambda>h. h \<noteq> []) (map se_heading sections)))),
      (''ignored'', fields_value (merge_bucket se_ignored sections)),
      (''partial'', fields_value (merge_bucket se_partial sections)),
      (''unsupported'', fields_value (merge_bucket se_unsupported sections)), (''notes'', strs (uniq (concat (map se_notes sections))))]"
proof -
  have gen: "k \<notin> set (dict_keys (generator_items g))" for g
    using assms(2) by (simp add: generator_items_def dict_keys_def)
  have "k \<notin> set (dict_keys (bucket_aliases b fs))" if "b \<in> set [''ignored'', ''partial'', ''unsupported'']" for b fs
    using assms(1) alias_keys [of k b fs] that unfolding list_all_iff by blast
  then have "k \<notin> set (dict_keys (bucket_aliases ''ignored'' fs))" "k \<notin> set (dict_keys (bucket_aliases ''partial'' fs))"
    "k \<notin> set (dict_keys (bucket_aliases ''unsupported'' fs))" for fs by simp_all
  then show ?thesis
    unfolding syscall_entry_def prod.case Let_def items.simps by (simp only: dict_get_merge_other gen not_False_eq_True)
qed

lemma entry_get_class:
  "dict_get ''generator_class'' (items (syscall_entry category readme_path sections index (n, files))) =
     Some (PStr (ge_class (generator_metadata n index)))"
proof -
  have "\<not> startswith ''generator_class'' (b @ ''_'')" if "b \<in> set [''ignored'', ''partial'', ''unsupported'']" for b
    using that by auto
  then have no_alias: "''generator_class'' \<notin> set (dict_keys (bucket_aliases b fs))" if "b \<in> set [''ignored'', ''partial'', ''unsupported'']" for b fs
    using alias_keys [of "''generator_class''" b fs] that by blast
  have "''generator_class'' \<notin> set (dict_keys (bucket_aliases ''ignored'' fs))" "''generator_class'' \<notin> set (dict_keys (bucket_aliases ''partial'' fs))"
    "''generator_class'' \<notin> set (dict_keys (bucket_aliases ''unsupported'' fs))" for fs
    by (rule no_alias; simp)+
  then show ?thesis
    unfolding syscall_entry_def prod.case Let_def items.simps
    by (simp only: dict_get_merge_other not_False_eq_True)
      (simp add: dict_get_merge generator_items_def dict_keys_def dict_get_Cons)
qed

lemma entry_item:
  "py_item k (syscall_entry category readme_path sections index source) =
     opt_res (KeyError k) (dict_get k (items (syscall_entry category readme_path sections index source)))"
  by (simp add: syscall_entry_def py_item_def Let_def case_prod_beta)

text \<open>A syscall is fully supported when only full-coverage rule files name it and no README section restricts it.\<close>

definition fully_covered :: "manifest_env \<Rightarrow> category_dir \<Rightarrow> string \<Rightarrow> bool" where
  "fully_covered env c n \<longleftrightarrow>
     (\<forall>s \<in> set (opt_default [] (dict_get n (category_readme c))). unrestricted s) \<and>
     (\<forall>f t p. (f, t) \<in> set (scml_files c) \<longrightarrow> n \<in> set (extract_syscall_names t) \<longrightarrow> child_path env c f = Inr p \<longrightarrow>
        endswith p ''fully_covered.scml'')"

definition entry_of :: "manifest_env \<Rightarrow> description_index \<Rightarrow> category_dir \<Rightarrow> string \<Rightarrow> pyval \<Rightarrow> bool" where
  "entry_of env index c n e \<longleftrightarrow>
     py_item ''name'' e = Inr (PStr n) \<and> py_item ''category'' e = Inr (PStr (cd_name c)) \<and>
     py_item ''generation_enabled'' e = Inr (PBool True) \<and>
     py_item ''support_tier'' e = Inr (PStr (if fully_covered env c n then ''full'' else ''partial'')) \<and>
     py_item ''generator_class'' e = Inr (PStr (ge_class (generator_metadata n index))) \<and>
     (\<exists>files. py_item ''source_scml_files'' e = Inr (strs files) \<and> sorted files \<and> set files = {p. \<exists>f t.
        (f, t) \<in> set (scml_files c) \<and> n \<in> set (extract_syscall_names t) \<and> child_path env c f = Inr p})"

definition rules_name :: "category_dir \<Rightarrow> string \<Rightarrow> bool" where
  "rules_name c n \<longleftrightarrow> (\<exists>(f, t) \<in> set (scml_files c). n \<in> set (extract_syscall_names t))"

lemma scml_rows_mem:
  assumes "scml_rows env c = Inr rows"
  shows "(p, ns) \<in> set rows \<longleftrightarrow> (\<exists>f t. (f, t) \<in> set (scml_files c) \<and> child_path env c f = Inr p \<and> ns = extract_syscall_names t)"
    "list_all (\<lambda>(p, ns). distinct ns) rows"
proof -
  note rows = assms [unfolded scml_rows_def]
  show mem: "(p, ns) \<in> set rows \<longleftrightarrow> (\<exists>f t. (f, t) \<in> set (scml_files c) \<and> child_path env c f = Inr p \<and> ns = extract_syscall_names t)" for p ns
  proof
    assume "(p, ns) \<in> set rows"
    from map_res_mem [OF rows this] show "\<exists>f t. (f, t) \<in> set (scml_files c) \<and> child_path env c f = Inr p \<and> ns = extract_syscall_names t"
      by (auto elim!: bind_InrE)
  next
    assume "\<exists>f t. (f, t) \<in> set (scml_files c) \<and> child_path env c f = Inr p \<and> ns = extract_syscall_names t"
    then obtain f t where f: "(f, t) \<in> set (scml_files c)" "child_path env c f = Inr p" "ns = extract_syscall_names t" by blast
    from map_res_set [OF rows f(1)] f(2,3) show "(p, ns) \<in> set rows" by auto
  qed
  show "list_all (\<lambda>(p, ns). distinct ns) rows"
    unfolding list_all_iff by (auto simp: mem extract_syscall_names_def)
qed

lemma row_names: "scml_rows env c = Inr rows \<Longrightarrow> (\<Union>(p, ns) \<in> set rows. set ns) = {n. rules_name c n}"
proof -
  assume rows: "scml_rows env c = Inr rows"
  have "\<exists>p. (p, extract_syscall_names t) \<in> set rows" if "(f, t) \<in> set (scml_files c)" for f t
    using map_res_set [OF rows [unfolded scml_rows_def] that] by (auto elim!: bind_InrE)
  note named = this
  show ?thesis
  proof (intro set_eqI iffI)
    fix n
    assume "n \<in> (\<Union>(p, ns) \<in> set rows. set ns)"
    then obtain p ns where "(p, ns) \<in> set rows" "n \<in> set ns" by auto
    with scml_rows_mem(1) [OF rows] show "n \<in> {n. rules_name c n}" by (auto simp: rules_name_def)
  next
    fix n
    assume "n \<in> {n. rules_name c n}"
    then obtain f t where "(f, t) \<in> set (scml_files c)" "n \<in> set (extract_syscall_names t)" by (auto simp: rules_name_def)
    with named show "n \<in> (\<Union>(p, ns) \<in> set rows. set ns)" by blast
  qed
qed

lemma support_tier_cases:
  "support_tier files i p u = (if i = [] \<and> p = [] \<and> u = [] \<and> (\<forall>f \<in> set files. endswith f ''fully_covered.scml'')
     then ''full'' else ''partial'')"
  by (auto simp: support_tier_def)

lemma category_value_spec:
  assumes "category_value env index c = Inr (name, v, f, s)"
  obtains sys where "name = cd_name c" "py_item ''syscalls'' v = Inr (PDict sys)" "length sys = s" "distinct (map fst sys)"
    "\<forall>n. n \<in> fst ` set sys \<longleftrightarrow> rules_name c n" "\<forall>n e. (n, e) \<in> set sys \<longrightarrow> entry_of env index c n e"
proof -
  from assms obtain rows readme where rows: "scml_rows env c = Inr rows" and readme: "readme_of env c = Inr readme"
    unfolding category_value_def by (auto elim!: bind_InrE)
  define sys where "sys = map (\<lambda>(n, files). (n, syscall_entry (cd_name c) readme
             (opt_default [] (dict_get n (category_readme c))) index (n, files))) (sort_key fst (add_sources rows))"
  note sources = add_sources_spec [OF scml_rows_mem(2) [OF rows]]
  have keys: "map fst sys = map fst (sort_key fst (add_sources rows))" by (simp add: sys_def comp_def case_prod_beta)
  have mem: "entry_of env index c n e" if "(n, e) \<in> set sys" for n e
  proof -
    from that obtain files where files: "(n, files) \<in> set (add_sources rows)" and
      e: "e = syscall_entry (cd_name c) readme (opt_default [] (dict_get n (category_readme c))) index (n, files)"
      by (auto simp: sys_def)
    have "dict_get n (add_sources rows) = Some files"
      using files sources(3) by (simp add: dict_get_def dict_keys_def)
    with sources(1) [of n] have paths: "files = map fst (filter (\<lambda>(p, ns). n \<in> set ns) rows)" by (simp add: opt_default_def)
    have paths: "set files = {p. \<exists>f t. (f, t) \<in> set (scml_files c) \<and> n \<in> set (extract_syscall_names t) \<and> child_path env c f = Inr p}"
    proof (intro set_eqI iffI)
      fix p
      assume "p \<in> {p. \<exists>f t. (f, t) \<in> set (scml_files c) \<and> n \<in> set (extract_syscall_names t) \<and> child_path env c f = Inr p}"
      then obtain t where "(p, extract_syscall_names t) \<in> set rows" "n \<in> set (extract_syscall_names t)"
        using scml_rows_mem(1) [OF rows] by blast
      then show "p \<in> set files" unfolding paths by force
    next
      fix p
      assume "p \<in> set files"
      then obtain ns where ns: "(p, ns) \<in> set rows" "n \<in> set ns" unfolding paths by auto
      from ns(1) obtain f t where "(f, t) \<in> set (scml_files c)" "child_path env c f = Inr p" "ns = extract_syscall_names t"
        using scml_rows_mem(1) [OF rows] by blast
      with ns(2) show "p \<in> {p. \<exists>f t. (f, t) \<in> set (scml_files c) \<and> n \<in> set (extract_syscall_names t) \<and> child_path env c f = Inr p}"
        by blast
    qed
    then have "(\<forall>p \<in> set files. endswith p ''fully_covered.scml'') \<longleftrightarrow>
        (\<forall>f t p. (f, t) \<in> set (scml_files c) \<longrightarrow> n \<in> set (extract_syscall_names t) \<longrightarrow> child_path env c f = Inr p \<longrightarrow>
        endswith p ''fully_covered.scml'')"
      by auto
    then have tier: "support_tier files (merge_bucket se_ignored (opt_default [] (dict_get n (category_readme c))))
        (merge_bucket se_partial (opt_default [] (dict_get n (category_readme c))))
        (merge_bucket se_unsupported (opt_default [] (dict_get n (category_readme c)))) =
        (if fully_covered env c n then ''full'' else ''partial'')"
      by (auto simp: support_tier_cases merge_bucket_Nil fully_covered_def unrestricted_def)
    show ?thesis
      unfolding entry_of_def e entry_item
      by (simp add: entry_get_base entry_get_class generator_items_def dict_get_Cons tier)
        (intro exI [of _ "sort files"], simp add: paths)
  qed
  show thesis
  proof (rule that)
    show "name = cd_name c" "py_item ''syscalls'' v = Inr (PDict sys)" "length sys = s"
      using assms rows readme by (auto simp: category_value_def sys_def py_item_def dict_get_Cons Let_def)
    show "distinct (map fst sys)"
      using sources(3) by (simp add: keys dict_keys_def distinct_map flip: set_sort) (metis distinct_sort inj_on_def set_sort sort_key_inj_key_eq)
    show "\<forall>n. n \<in> fst ` set sys \<longleftrightarrow> rules_name c n"
    proof -
      have "fst ` set sys = set (dict_keys (add_sources rows))"
        using arg_cong [OF keys, of set] by (simp add: dict_keys_def)
      then show ?thesis using row_names [OF rows] sources(2) by simp
    qed
  qed (use mem in blast)
qed

definition syscall_rows :: "string \<times> pyval \<Rightarrow> (string \<times> string \<times> pyval) list res" where
  "syscall_rows = (\<lambda>(c, category). bind (py_item ''syscalls'' category) (\<lambda>s. Inr (map (\<lambda>(n, e). (c, n, e)) (items s))))"

lemma rows_of_values:
  "map_res (category_value env index) ds = Inr cs \<Longrightarrow> distinct (map cd_name ds) \<Longrightarrow>
   \<exists>rss. map_res syscall_rows (map (\<lambda>(n, v, _). (n, v)) cs) = Inr rss \<and> map fst cs = map cd_name ds \<and>
     distinct (map (\<lambda>(c, n, e). (c, n)) (concat rss)) \<and> length (concat rss) = sum_list (map (\<lambda>(_, _, _, s). s) cs) \<and>
     (\<forall>c n e. (c, n, e) \<in> set (concat rss) \<longrightarrow> (\<exists>d \<in> set ds. cd_name d = c \<and> rules_name d n \<and> entry_of env index d n e)) \<and>
     (\<forall>d \<in> set ds. \<forall>n. rules_name d n \<longrightarrow> (\<exists>e. (cd_name d, n, e) \<in> set (concat rss)))"
proof (induction ds arbitrary: cs)
  case (Cons d ds)
  from Cons.prems(1) obtain z cs' where z: "category_value env index d = Inr z" and
    rest: "map_res (category_value env index) ds = Inr cs'" and cs: "cs = z # cs'"
    by (auto elim!: bind_InrE)
  obtain name v f s where ze: "z = (name, v, f, s)" by (metis prod.exhaust)
  obtain sys where name: "name = cd_name d" and v: "py_item ''syscalls'' v = Inr (PDict sys)" and len: "length sys = s"
    and dist: "distinct (map fst sys)" and named: "\<forall>n. n \<in> fst ` set sys \<longleftrightarrow> rules_name d n"
    and entries: "\<forall>n e. (n, e) \<in> set sys \<longrightarrow> entry_of env index d n e"
    using z [unfolded ze] by (rule category_value_spec)
  from Cons.IH [OF rest] Cons.prems(2) obtain rss where
    rss: "map_res syscall_rows (map (\<lambda>(n, v, _). (n, v)) cs') = Inr rss" "map fst cs' = map cd_name ds"
      "distinct (map (\<lambda>(c, n, e). (c, n)) (concat rss))" "length (concat rss) = sum_list (map (\<lambda>(_, _, _, s). s) cs')" and
    old: "\<forall>c n e. (c, n, e) \<in> set (concat rss) \<longrightarrow> (\<exists>d \<in> set ds. cd_name d = c \<and> rules_name d n \<and> entry_of env index d n e)" and
    all: "\<forall>d \<in> set ds. \<forall>n. rules_name d n \<longrightarrow> (\<exists>e. (cd_name d, n, e) \<in> set (concat rss))" by auto
  let ?rows = "map (\<lambda>(n, e). (cd_name d, n, e)) sys"
  have new: "\<exists>d' \<in> set (d # ds). cd_name d' = c \<and> rules_name d' n \<and> entry_of env index d' n e" if "(c, n, e) \<in> set ?rows" for c n e
    using that named entries by force
  have fresh: "cd_name d \<notin> cd_name ` set ds" using Cons.prems(2) by simp
  have "c \<noteq> cd_name d" if "(c, n, e) \<in> set (concat rss)" for c n e
  proof -
    from old that obtain d' where "d' \<in> set ds" "cd_name d' = c" by blast
    then have "c \<in> cd_name ` set ds" by (simp add: rev_image_eqI)
    with fresh show ?thesis by blast
  qed
  then have disjoint: "set (map (\<lambda>(c, n, e). (c, n)) ?rows) \<inter> set (map (\<lambda>(c, n, e). (c, n)) (concat rss)) = {}"
    by (auto simp del: set_concat)
  have "distinct (map (\<lambda>(c, n, e). (c, n)) ?rows)"
    using dist by (simp add: comp_def case_prod_beta distinct_map inj_on_def)
  then have "distinct (map (\<lambda>(c, n, e). (c, n)) (concat (?rows # rss)))"
    using rss(3) disjoint by simp
  moreover have "map_res syscall_rows (map (\<lambda>(n, v, _). (n, v)) cs) = Inr (?rows # rss)"
    using rss(1) v by (simp add: cs ze name syscall_rows_def)
  moreover have "map fst cs = map cd_name (d # ds)" using rss(2) by (simp add: cs ze name)
  moreover have "length (concat (?rows # rss)) = sum_list (map (\<lambda>(_, _, _, s). s) cs)" using rss(4) by (simp add: cs ze len)
  moreover have "\<forall>c n e. (c, n, e) \<in> set (concat (?rows # rss)) \<longrightarrow>
      (\<exists>d' \<in> set (d # ds). cd_name d' = c \<and> rules_name d' n \<and> entry_of env index d' n e)"
    using new old by (metis Un_iff concat.simps(2) list.set_intros(2) set_append)
  moreover have "\<exists>e. (cd_name d', n, e) \<in> set (concat (?rows # rss))" if "d' \<in> set (d # ds)" "rules_name d' n" for d' n
    using that all named by (cases "d' = d") fastforce+
  ultimately show ?case by blast
qed simp

lemma manifest_listed:
  assumes "build_manifest env target categories base_dir = Inr m" "distinct (map cd_name categories)"
  shows "\<exists>rows stats. category_syscalls m = Inr rows \<and> distinct (map (\<lambda>(c, n, e). (c, n)) rows) \<and>
    (\<forall>c n e. (c, n, e) \<in> set rows \<longrightarrow> (\<exists>d \<in> set categories. cd_name d = c \<and> rules_name d n \<and>
       entry_of env (analyze_syzkaller_descriptions base_dir) d n e)) \<and>
    (\<forall>d \<in> set categories. \<forall>n. rules_name d n \<longrightarrow> (\<exists>e. (cd_name d, n, e) \<in> set rows)) \<and>
    py_item ''stats'' m = Inr stats \<and> py_item ''total_syscalls'' stats = Inr (PInt (int (length rows)))"
proof -
  let ?ds = "sort_key cd_name categories"
  from assms(1) obtain cs revision src where
    cs: "map_res (category_value env (analyze_syzkaller_descriptions base_dir)) ?ds = Inr cs" and
    m: "m = PDict [(''target'', PStr target), (''source_type'', PStr ''scml''), (''source_revision'', PStr revision),
        (''source_root'', PStr src), (''generated_at'', PStr (mf_generated_at env)),
        (''stats'', PDict [(''category_count'', PInt (int (length (dict_merge [] (map (\<lambda>(n, v, _). (n, v)) cs))))),
           (''readme_count'', PInt (int (length (filter (\<lambda>c. cd_readme c \<noteq> None) categories)))),
           (''scml_file_count'', PInt (int (sum_list (map (\<lambda>(_, _, f, _). f) cs)))),
           (''total_syscalls'', PInt (int (sum_list (map (\<lambda>(_, _, _, s). s) cs))))]),
        (''categories'', PDict (dict_merge [] (map (\<lambda>(n, v, _). (n, v)) cs)))]"
    unfolding build_manifest_def Let_def by (elim bind_InrE) blast
  have "distinct (map cd_name ?ds)"
    using assms(2) by (simp add: distinct_map)
  from rows_of_values [OF cs this] obtain rss where
    rss: "map_res syscall_rows (map (\<lambda>(n, v, _). (n, v)) cs) = Inr rss" "map fst cs = map cd_name ?ds" and
    rest: "distinct (map (\<lambda>(c, n, e). (c, n)) (concat rss))" "length (concat rss) = sum_list (map (\<lambda>(_, _, _, s). s) cs)"
      "\<forall>c n e. (c, n, e) \<in> set (concat rss) \<longrightarrow> (\<exists>d \<in> set ?ds. cd_name d = c \<and> rules_name d n \<and>
         entry_of env (analyze_syzkaller_descriptions base_dir) d n e)"
      "\<forall>d \<in> set ?ds. \<forall>n. rules_name d n \<longrightarrow> (\<exists>e. (cd_name d, n, e) \<in> set (concat rss))" by blast
  have names: "map fst (map (\<lambda>(n, v, _). (n, v)) cs) = map cd_name ?ds"
    using rss(2) by (simp add: comp_def case_prod_beta)
  have "distinct (map fst ([] @ map (\<lambda>(n, v, _). (n, v)) cs))"
    using \<open>distinct (map cd_name ?ds)\<close> names by simp
  from dict_merge_append [OF this] have cats: "dict_merge [] (map (\<lambda>(n, v, _). (n, v)) cs) = map (\<lambda>(n, v, _). (n, v)) cs" by simp
  have "category_syscalls m = Inr (concat rss)"
    unfolding category_syscalls_def m cats
    using rss(1) by (simp add: py_item_def dict_get_Cons syscall_rows_def)
  moreover obtain stats where "py_item ''stats'' m = Inr stats" "py_item ''total_syscalls'' stats = Inr (PInt (int (length (concat rss))))"
    unfolding m rest(2) by (simp add: py_item_def dict_get_Cons)
  ultimately show ?thesis using rest(1,3,4) unfolding set_sort by (intro exI conjI)
qed

text \<open>
  C38. The manifest lists the syscalls of the rule files, each under its category and nothing else:
  the gate can load it, has one entry for every name a rule file of a category defines, and its
  total is their number. An entry is enabled for generation, carries the generator class of the
  descriptions, and is fully supported exactly when every file naming it is a full-coverage file
  and no README section restricts it.
\<close>

theorem manifest_complete:
  assumes "build_manifest env target categories base_dir = Inr m" "distinct (map cd_name categories)"
  shows "\<exists>rows stats. category_syscalls m = Inr rows \<and> distinct (map (\<lambda>(c, n, e). (c, n)) rows) \<and>
    (\<forall>c n e. (c, n, e) \<in> set rows \<longrightarrow> (\<exists>d \<in> set categories. cd_name d = c \<and> rules_name d n \<and>
       entry_of env (analyze_syzkaller_descriptions base_dir) d n e)) \<and>
    (\<forall>d \<in> set categories. \<forall>n. rules_name d n \<longrightarrow> (\<exists>e. (cd_name d, n, e) \<in> set rows)) \<and>
    py_item ''stats'' m = Inr stats \<and> py_item ''total_syscalls'' stats = Inr (PInt (int (length rows)))"
  by (rule manifest_listed [OF assms])

section \<open>The targets of a manifest\<close>

lemma py_item_with_key:
  "is_dict e \<Longrightarrow> py_item k (with_key k' v e) = (if k = k' then Inr v else py_item k e)"
  by (cases e) (auto simp: with_key_def py_item_def)

lemma is_dict_with_key [simp]: "is_dict (with_key k v e)"
  by (simp add: with_key_def)

lemma py_item_dict: "py_item k e = Inr v \<Longrightarrow> is_dict e \<and> py_get k d e = v"
  by (auto simp: py_item_ok py_get_def)

text \<open>What a row of the target file needs of an entry.\<close>

definition row_ready :: "string \<Rightarrow> string \<Rightarrow> pyval \<Rightarrow> bool" where
  "row_ready n cls e \<longleftrightarrow> py_item ''name'' e = Inr (PStr n) \<and> (\<exists>v. py_item ''category'' e = Inr v) \<and>
     (\<exists>v. py_item ''support_tier'' e = Inr v) \<and> (\<exists>v. py_item ''generation_enabled'' e = Inr v) \<and>
     py_item ''generator_class'' e = Inr (PStr cls) \<and> (\<exists>vs. py_item ''source_scml_files'' e = Inr (PList vs))"

lemma row_ready_entry:
  assumes "entry_of env index c n e"
  shows "row_ready n (ge_class (generator_metadata n index)) (with_key ''category'' (PStr c') e)"
    "row_ready n (ge_class (generator_metadata n index)) (profile_entry cats dc ds c' n' e)"
proof -
  have d: "is_dict e" using assms py_item_dict by (auto simp: entry_of_def)
  show ready: "row_ready n (ge_class (generator_metadata n index)) (with_key ''category'' (PStr c') e)"
    using assms by (auto simp: entry_of_def row_ready_def py_item_with_key [OF d] strs_def)
  show "row_ready n (ge_class (generator_metadata n index)) (profile_entry cats dc ds c' n' e)"
    using ready by (auto simp: profile_entry_def Let_def row_ready_def py_item_with_key)
qed

lemma target_row_ready:
  assumes "row_ready n cls e"
  shows "\<exists>row. target_row_from_entry e = Inr row \<and> row_str ''syscall_name'' row = n \<and> row_str ''generator_class'' row = cls"
proof -
  from assms obtain category tier enabled vs where items: "py_item ''name'' e = Inr (PStr n)" "py_item ''category'' e = Inr category"
    "py_item ''support_tier'' e = Inr tier" "py_item ''generation_enabled'' e = Inr enabled" and
    cls: "py_item ''generator_class'' e = Inr (PStr cls)" and files: "py_item ''source_scml_files'' e = Inr (PList vs)"
    by (auto simp: row_ready_def)
  from cls files have "py_get ''generator_class'' (PStr ''unavailable'') e = PStr cls"
    "py_get ''source_scml_files'' (PList []) e = PList vs" by (simp_all add: py_item_dict)
  then show ?thesis
    unfolding target_row_from_entry_def items bind_Inr
    by (simp add: row_str_def py_get_def dict_get_Cons)
qed

lemma index_rows_distinct: "distinct (dict_keys index) \<Longrightarrow> distinct (dict_keys (index_rows f rows index))"
  by (induction f rows index rule: index_rows.induct) simp_all

lemma loaded_index:
  assumes "load_manifest_index m profile = Inr index" "category_syscalls m = Inr rows"
    "\<forall>c n e. (c, n, e) \<in> set rows \<longrightarrow> (\<exists>d. entry_of env descriptions d n e)"
  shows "distinct (dict_keys index)"
    "\<forall>(n, e) \<in> set index. row_ready n (ge_class (generator_metadata n descriptions)) e"
proof -
  from assms(1,2) obtain f where index: "index = index_rows f rows []" and
    f: "f = (\<lambda>c n e. with_key ''category'' (PStr c) e) \<or> (\<exists>cats dc ds. f = profile_entry cats dc ds)"
    unfolding load_manifest_index_def apply_generation_profile_def
    by (auto elim!: bind_InrE split: option.splits)
  show dist: "distinct (dict_keys index)"
    unfolding index by (rule index_rows_distinct) (simp add: dict_keys_Nil)
  have "row_ready n (ge_class (generator_metadata n descriptions)) e" if "(n, e) \<in> set index" for n e
  proof -
    have "dict_get n index = Some e"
      using that dist by (simp add: dict_get_def dict_keys_def)
    with index_rows_get [of n f rows "[]" e] index obtain c e0 where "(c, n, e0) \<in> set rows" "e = f c n e0" by auto
    with f assms(3) row_ready_entry show ?thesis by fastforce
  qed
  then show "\<forall>(n, e) \<in> set index. row_ready n (ge_class (generator_metadata n descriptions)) e" by blast
qed

lemma map_res_map_all2:
  "(\<And>x. x \<in> set xs \<Longrightarrow> \<exists>y. f (g x) = Inr y \<and> P x y) \<Longrightarrow> \<exists>ys. map_res f (map g xs) = Inr ys \<and> list_all2 P xs ys"
proof (induction xs)
  case (Cons x xs)
  then obtain y ys where "f (g x) = Inr y" "P x y" "map_res f (map g xs) = Inr ys" "list_all2 P xs ys"
    by (meson list.set_intros)
  then show ?case by simp
qed simp

text \<open>
  C39. Every built manifest can be exported: under any profile its index yields one target row per
  enabled syscall, sorted by name, each with the generator class the descriptions give it; and the
  summary counts every row as reachable or unreachable.
\<close>

theorem targets_of_manifest:
  assumes "build_manifest env target categories base_dir = Inr m" "distinct (map cd_name categories)"
    "load_manifest_index m profile = Inr index"
  shows "\<exists>rows reachable unreachable. build_generation_targets index = Inr rows \<and>
    map (row_str ''syscall_name'') rows = sort (map fst (filter (\<lambda>(n, e). enabled_in e) index)) \<and>
    (\<forall>row \<in> set rows. row_str ''generator_class'' row =
       ge_class (generator_metadata (row_str ''syscall_name'' row) (analyze_syzkaller_descriptions base_dir))) \<and>
    py_item ''reachable_total'' (build_target_summary rows workflow) = Inr (PInt reachable) \<and>
    py_item ''unreachable_total'' (build_target_summary rows workflow) = Inr (PInt unreachable) \<and>
    0 \<le> unreachable \<and> reachable + unreachable = int (length rows)"
proof -
  let ?descriptions = "analyze_syzkaller_descriptions base_dir"
  from manifest_listed [OF assms(1,2)] obtain rows0 where rows0: "category_syscalls m = Inr rows0"
    "\<forall>c n e. (c, n, e) \<in> set rows0 \<longrightarrow> (\<exists>d. entry_of env ?descriptions d n e)" by blast
  note index = loaded_index [OF assms(3) rows0]
  define enabled where "enabled = filter (\<lambda>p. enabled_in (snd p)) (sort_key fst index)"
  have ready: "\<exists>row. target_row_from_entry (snd p) = Inr row \<and> row_str ''syscall_name'' row = fst p \<and>
      row_str ''generator_class'' row = ge_class (generator_metadata (fst p) ?descriptions)" if "p \<in> set enabled" for p
    using that index(2) target_row_ready [of "fst p" _ "snd p"] by (auto simp: enabled_def)
  have "filter (\<lambda>e. truthy (py_get ''generation_enabled'' (PBool True) e)) (map snd (sort_key fst index)) = map snd enabled"
    by (simp add: enabled_def filter_map comp_def case_prod_beta enabled_in_def)
  moreover obtain rows where rows: "map_res target_row_from_entry (map snd enabled) = Inr rows"
    "list_all2 (\<lambda>p row. row_str ''syscall_name'' row = fst p \<and>
       row_str ''generator_class'' row = ge_class (generator_metadata (fst p) ?descriptions)) enabled rows"
    using map_res_map_all2 [of enabled target_row_from_entry snd, OF ready] by blast
  ultimately have built: "build_generation_targets index = Inr (sort_key (row_str ''syscall_name'') rows)"
    by (simp add: build_generation_targets_def)
  from rows(2) have names: "map (row_str ''syscall_name'') rows = map fst enabled"
    by (induction rule: list_all2_induct) simp_all
  have "mset (map fst enabled) = mset (map fst (filter (\<lambda>(n, e). enabled_in e) index))"
    by (simp add: enabled_def case_prod_beta' mset_filter)
  then have "map (row_str ''syscall_name'') (sort_key (row_str ''syscall_name'') rows) =
      sort (map fst (filter (\<lambda>(n, e). enabled_in e) index))"
    unfolding map_sort_key names by (rule sort_mset)
  moreover have "\<forall>row \<in> set rows. row_str ''generator_class'' row =
      ge_class (generator_metadata (row_str ''syscall_name'' row) ?descriptions)"
    using rows(2) by (induction rule: list_all2_induct) simp_all
  moreover have "py_item ''reachable_total'' (build_target_summary rs workflow) = Inr (PInt (int (length (filter
      (\<lambda>r. row_str ''generator_class'' r \<in> {''base_only'', ''variant_only''}) rs))))"
    "py_item ''unreachable_total'' (build_target_summary rs workflow) = Inr (PInt (int (length rs) - int (length (filter
      (\<lambda>r. row_str ''generator_class'' r \<in> {''base_only'', ''variant_only''}) rs))))" for rs
    by (simp_all add: build_target_summary_def py_item_def dict_get_Cons Let_def)
  ultimately show ?thesis using built
    by (intro exI [of _ "sort_key (row_str ''syscall_name'') rows"]) (auto intro: order_trans [OF length_filter_le])
qed

definition demo_manifest_env :: manifest_env where
  "demo_manifest_env = \<lparr>mf_relative = Inr, mf_revision = Inr ''r'', mf_generated_at = ''t'', mf_source_root = ''book''\<rparr>"

definition demo_category :: category_dir where
  "demo_category = \<lparr>cd_name = ''fs'',
     cd_readme = Some (''### '' @ [CHR 0x60] @ ''open'' @ [CHR 0x60] @ newline @ ''Unsupported flags:'' @ newline @ ''* O_TMPFILE''),
     cd_files = [(''fully_covered.scml'', ''close(fd);'' @ newline @ ''open(path, flags);'')]\<rparr>"

lemma demo_manifest_built:
  "is_ok (build_manifest demo_manifest_env ''asterinas'' [demo_category] (Some [(''sys.txt'', ''close(fd fd)'')]))"
  by code_simp

lemma manifest_complete_witness:
  "\<exists>m rows d e. build_manifest demo_manifest_env ''asterinas'' [demo_category] (Some [(''sys.txt'', ''close(fd fd)'')]) = Inr m \<and>
     category_syscalls m = Inr rows \<and> (''fs'', ''close'', e) \<in> set rows \<and> cd_name d = ''fs'' \<and>
     entry_of demo_manifest_env (analyze_syzkaller_descriptions (Some [(''sys.txt'', ''close(fd fd)'')])) d ''close'' e"
proof -
  obtain m where m: "build_manifest demo_manifest_env ''asterinas'' [demo_category] (Some [(''sys.txt'', ''close(fd fd)'')]) = Inr m"
    using demo_manifest_built by (auto simp: is_ok_iff)
  have "list_ex (\<lambda>(f, t). ''close'' \<in> set (extract_syscall_names t)) (scml_files demo_category)" by code_simp
  then have named: "rules_name demo_category ''close''" by (simp add: rules_name_def list_ex_iff)
  have name: "cd_name demo_category = ''fs''" by (simp add: demo_category_def)
  from manifest_complete [OF m] obtain rows where rows: "category_syscalls m = Inr rows" and
    entries: "\<forall>c n e. (c, n, e) \<in> set rows \<longrightarrow> (\<exists>d \<in> set [demo_category]. cd_name d = c \<and> rules_name d n \<and>
       entry_of demo_manifest_env (analyze_syzkaller_descriptions (Some [(''sys.txt'', ''close(fd fd)'')])) d n e)" and
    all: "\<forall>d \<in> set [demo_category]. \<forall>n. rules_name d n \<longrightarrow> (\<exists>e. (cd_name d, n, e) \<in> set rows)" by auto
  from all named name obtain e where "(''fs'', ''close'', e) \<in> set rows" by auto
  with entries m rows show ?thesis by blast
qed

lemma targets_of_manifest_witness:
  "\<exists>m index rows. build_manifest demo_manifest_env ''asterinas'' [demo_category] (Some [(''sys.txt'', ''close(fd fd)'')]) = Inr m \<and>
     load_manifest_index m None = Inr index \<and> build_generation_targets index = Inr rows"
proof -
  obtain m where m: "build_manifest demo_manifest_env ''asterinas'' [demo_category] (Some [(''sys.txt'', ''close(fd fd)'')]) = Inr m"
    using demo_manifest_built by (auto simp: is_ok_iff)
  have dist: "distinct (map cd_name [demo_category])" by simp
  from manifest_listed [OF m dist] obtain rows where "category_syscalls m = Inr rows" by blast
  then obtain index where "load_manifest_index m None = Inr index" by (simp add: load_manifest_index_def)
  with targets_of_manifest [OF m dist this] m show ?thesis by blast
qed

end
