(* ===== verification/Reports.thy ===== *)
theory Reports
  imports Contract
begin

text \<open>
  The reports of a campaign that are made from its result rows: the accessors of a row that
  \<open>orchestrator/scheduler.py\<close> and \<open>tools/render_summary.py\<close> share, the failure and bug-likely reports
  of the scheduler, and the summary by syscall of \<open>render_summary\<close>, which \<open>render_partial_summary\<close>
  uses too. A row is the JSON document of a result, \<open>rd\<close> the reports directory, a file a text of the
  store. Rows are dictionaries, and paths are in the normal form \<open>str(Path(..))\<close> has.
\<close>

section \<open>A result row\<close>

definition with_name :: "string \<Rightarrow> string \<Rightarrow> string" where
  "with_name p name = rev (dropWhile (\<lambda>c. c \<noteq> CHR ''/'') (rev p)) @ name"

definition last_item :: "pyval \<Rightarrow> pyval option" where
  "last_item v = (case v of PList (x # xs) \<Rightarrow> Some (last (x # xs)) | _ \<Rightarrow> None)"

definition latest_reference_run :: "pyval \<Rightarrow> pyval option" where
  "latest_reference_run result = last_item (py_get ''reference_runs'' (PList []) result)"

definition latest_candidate_run :: "pyval \<Rightarrow> pyval option" where
  "latest_candidate_run result =
     (let run = py_get ''candidate_run'' PNone result in
      if truthy run then Some run else last_item (py_get ''candidate_runs'' (PList []) result))"

definition run_trace_path :: "pyval \<Rightarrow> string option" where
  "run_trace_path run = (let p = py_get ''trace_json_path'' PNone run in if truthy p then Some (py_str p) else None)"

definition canonical_of :: "string \<Rightarrow> string" where
  "canonical_of p = with_name p ''canonical-trace.json''"

definition canonical_trace_path_for_run :: "pyval option \<Rightarrow> string" where
  "canonical_trace_path_for_run run =
     (case Option.bind run run_trace_path of None \<Rightarrow> [] | Some p \<Rightarrow> canonical_of p)"

definition canonical_trace_for_run :: "store \<Rightarrow> pyval option \<Rightarrow> pyval option res" where
  "canonical_trace_for_run st run =
     (case Option.bind run run_trace_path of
        None \<Rightarrow> Inr None
      | Some p \<Rightarrow> if st (canonical_of p) = None then Inr None
          else bind (load_json (canonical_of p) st) (\<lambda>c. Inr (Some c)))"

definition list_of :: "pyval \<Rightarrow> pyval list res" where
  "list_of v = (case v of PList vs \<Rightarrow> Inr vs | _ \<Rightarrow> Inl (TypeError ''not a list''))"

text \<open>\<open>event_by_index\<close>: the scheduler subscripts the events, the summary tool uses \<open>get\<close>.\<close>

fun find_event :: "pyval \<Rightarrow> pyval list \<Rightarrow> pyval option res" where
  "find_event index [] = Inr None"
| "find_event index (e # es) =
     bind (py_item ''index'' e) (\<lambda>i. if i = index then Inr (Some e) else find_event index es)"

definition sched_event_by_index :: "pyval option \<Rightarrow> pyval \<Rightarrow> pyval option res" where
  "sched_event_by_index trace index =
     (case trace of None \<Rightarrow> Inr None
      | Some t \<Rightarrow> if index = PNone then Inr None
          else bind (py_item ''events'' t) (\<lambda>v. bind (list_of v) (find_event index)))"

definition event_by_index :: "pyval option \<Rightarrow> pyval \<Rightarrow> pyval option res" where
  "event_by_index trace index =
     (case trace of None \<Rightarrow> Inr None
      | Some t \<Rightarrow> if index = PNone then Inr None
          else bind (list_of (py_get ''events'' (PList []) t)) (\<lambda>es.
            Inr (find (\<lambda>e. py_get ''index'' PNone e = index) es)))"

definition comparison_of :: "pyval \<Rightarrow> pyval" where
  "comparison_of result = (let c = py_get ''comparison'' PNone result in if truthy c then c else PDict [])"

definition divergence_index :: "pyval \<Rightarrow> pyval" where
  "divergence_index result = py_get ''first_divergence_index'' PNone (comparison_of result)"

text \<open>The name of the first diverging syscall, from the two events, else from what differs.\<close>

definition divergence_name :: "pyval \<Rightarrow> pyval option \<Rightarrow> pyval option \<Rightarrow> pyval res" where
  "divergence_name cmp reference_event candidate_event =
     (case (reference_event, candidate_event) of
        (Some e, _) \<Rightarrow> py_item ''syscall_name'' e
      | (None, Some e) \<Rightarrow> py_item ''syscall_name'' e
      | (None, None) \<Rightarrow> Inr
          (if py_get ''final_state_equal'' PNone cmp = PBool False then PStr ''final_state_only''
           else if py_get ''process_exit_equal'' PNone cmp = PBool False then PStr ''process_exit_only''
           else PNone))"

definition sched_first_divergence_details :: "store \<Rightarrow> pyval \<Rightarrow> (pyval \<times> pyval) res" where
  "sched_first_divergence_details st result =
     bind (canonical_trace_for_run st (latest_reference_run result)) (\<lambda>reference.
     bind (canonical_trace_for_run st (latest_candidate_run result)) (\<lambda>candidate.
     let index = divergence_index result in
     bind (sched_event_by_index reference index) (\<lambda>reference_event.
     bind (sched_event_by_index candidate index) (\<lambda>candidate_event.
     bind (divergence_name (comparison_of result) reference_event candidate_event) (\<lambda>name.
     Inr (index, name))))))"

definition first_divergence_details :: "store \<Rightarrow> pyval \<Rightarrow> (pyval \<times> string option) res" where
  "first_divergence_details st result =
     (let index = divergence_index result; known = py_get ''first_divergence_syscall_name'' PNone result in
      if known \<noteq> PNone then Inr (index, Some (py_str known))
      else
        bind (canonical_trace_for_run st (latest_reference_run result)) (\<lambda>reference.
        bind (canonical_trace_for_run st (latest_candidate_run result)) (\<lambda>candidate.
        bind (event_by_index reference index) (\<lambda>reference_event.
        bind (event_by_index candidate index) (\<lambda>candidate_event.
        bind (divergence_name (comparison_of result) reference_event candidate_event) (\<lambda>name.
        Inr (index, if name = PNone then None else Some (py_str name))))))))"

section \<open>The failure report\<close>

definition run_get :: "string \<Rightarrow> pyval \<Rightarrow> pyval \<Rightarrow> pyval option \<Rightarrow> pyval" where
  "run_get k dflt otherwise run = (case run of None \<Rightarrow> otherwise | Some r \<Rightarrow> py_get k dflt r)"

definition build_failure_case_summary :: "store \<Rightarrow> pyval \<Rightarrow> pyval res" where
  "build_failure_case_summary st result =
     (let reference = latest_reference_run result; candidate = latest_candidate_run result in
     bind (sched_first_divergence_details st result) (\<lambda>(index, name).
     bind (py_item ''program_id'' result) (\<lambda>program_id.
     bind (py_item ''classification'' result) (\<lambda>classification.
     Inr (PDict
       [(''program_id'', program_id), (''classification'', classification),
        (''scml_preflight_status'', py_get ''scml_preflight_status'' (PStr ''not_run'') result),
        (''normalized_path'', py_get ''normalized_path'' (PStr []) result),
        (''meta_path'', py_get ''meta_path'' (PStr []) result),
        (''reference_status'', run_get ''status'' PNone PNone reference),
        (''candidate_status'', run_get ''status'' PNone PNone candidate),
        (''first_divergence_index'', index), (''first_divergence_syscall_name'', name),
        (''reference_console_log_path'', run_get ''console_log_path'' (PStr []) (PStr []) reference),
        (''candidate_console_log_path'', run_get ''console_log_path'' (PStr []) (PStr []) candidate),
        (''reference_trace_json_path'', run_get ''trace_json_path'' (PStr []) (PStr []) reference),
        (''candidate_trace_json_path'', run_get ''trace_json_path'' (PStr []) (PStr []) candidate),
        (''reference_canonical_trace_path'', PStr (canonical_trace_path_for_run reference)),
        (''candidate_canonical_trace_path'', PStr (canonical_trace_path_for_run candidate)),
        (''comparison'', py_get ''comparison'' PNone result)])))))"

text \<open>The configured label of a classification, and the strings of a key over all rows.\<close>

definition label_of :: "pyval \<Rightarrow> string \<Rightarrow> string res" where
  "label_of cfg k = bind (py_item ''classification'' cfg) (str_item k)"

text \<open>A comprehension over the rows looks its label up at each of them, so never without a row.\<close>

definition label_for :: "pyval \<Rightarrow> string \<Rightarrow> pyval list \<Rightarrow> string res" where
  "label_for cfg k rows = (if rows = [] then Inr [] else label_of cfg k)"

definition row_class :: "pyval \<Rightarrow> string res" where
  "row_class = str_item ''classification''"

definition select_rows :: "(string \<Rightarrow> bool) \<Rightarrow> pyval list \<Rightarrow> (string \<times> pyval) list res" where
  "select_rows P results =
     bind (map_res (\<lambda>r. bind (row_class r) (\<lambda>c. Inr (c, r))) results) (\<lambda>rows. Inr (filter (\<lambda>(c, r). P c) rows))"

definition by_program :: "pyval list \<Rightarrow> pyval list res" where
  "by_program rows =
     bind (map_res (\<lambda>r. bind (str_item ''program_id'' r) (\<lambda>p. Inr (p, r))) rows) (\<lambda>keyed.
     Inr (map snd (sort_key fst keyed)))"

definition failures_by_classification ::
  "store \<Rightarrow> (string \<times> pyval) list \<Rightarrow> (string \<times> pyval list) list res" where
  "failures_by_classification st failures =
     map_res (\<lambda>c.
       bind (by_program (map snd (filter (\<lambda>(c', r). c' = c) failures))) (\<lambda>rows.
       bind (map_res (build_failure_case_summary st) rows) (\<lambda>cases. Inr (c, cases))))
     (sorted_set (map fst failures))"

definition failure_payload ::
  "store \<Rightarrow> pyval \<Rightarrow> string \<Rightarrow> pyval list \<Rightarrow> (pyval \<times> nat \<times> (string, nat) dict \<times> (string \<times> pyval list) list) res" where
  "failure_payload st cfg campaign results =
     bind (label_for cfg ''no_diff'' results) (\<lambda>no_diff.
     bind (select_rows (\<lambda>c. c \<noteq> no_diff) results) (\<lambda>failures.
     bind (failures_by_classification st failures) (\<lambda>grouped.
     bind (py_item ''workflow'' cfg) (\<lambda>workflow.
     let counts = count_values (map fst failures) in
     Inr (PDict [(''workflow'', workflow), (''campaign'', PStr campaign),
        (''total_results'', PInt (int (length results))), (''failed_results'', PInt (int (length failures))),
        (''classification_counts'', count_items counts),
        (''failures_by_classification'', PDict (map (\<lambda>(c, cases). (c, PList cases)) grouped))],
       length failures, counts, grouped)))))"

section \<open>Lines of a report\<close>

definition write_lines :: "string \<Rightarrow> string list \<Rightarrow> store \<Rightarrow> store" where
  "write_lines path lines = write_text path (join newline lines @ newline)"

text \<open>\<open>{value or 'n/a'}\<close> in a formatted line.\<close>

definition or_na :: "pyval \<Rightarrow> string" where
  "or_na v = (if truthy v then py_str v else ''n/a'')"

definition count_lines :: "(string, nat) dict \<Rightarrow> string list" where
  "count_lines counts =
     (if counts = [] then [''- none: 0'']
      else map (\<lambda>(k, n). ''- '' @ k @ '': '' @ nat_str n) (sort_key fst counts))"

definition failure_line :: "pyval \<Rightarrow> string" where
  "failure_line row =
     (let show = \<lambda>k. or_na (py_get k PNone row) in
      ''- '' @ py_str (py_get ''program_id'' PNone row) @ '': reference_status='' @ show ''reference_status'' @
      '', candidate_status='' @ show ''candidate_status'' @
      '', first_divergence_syscall='' @ show ''first_divergence_syscall_name'' @
      '', testcase='' @ show ''normalized_path'' @
      '', reference_console='' @ show ''reference_console_log_path'' @
      '', candidate_console='' @ show ''candidate_console_log_path'' @
      '', reference_trace='' @ show ''reference_trace_json_path'' @
      '', candidate_trace='' @ show ''candidate_trace_json_path'')"

definition failure_heading :: "string \<Rightarrow> nat \<Rightarrow> nat \<Rightarrow> (string, nat) dict \<Rightarrow> string list" where
  "failure_heading title n failed counts =
     [title, [], ''- total_results: '' @ nat_str n, ''- failed_results: '' @ nat_str failed, [],
      ''## classification counts''] @ count_lines counts"

definition write_failure_reports :: "string \<Rightarrow> pyval \<Rightarrow> string \<Rightarrow> pyval list \<Rightarrow> store \<Rightarrow> store res" where
  "write_failure_reports rd cfg campaign results st =
     bind (failure_payload st cfg campaign results) (\<lambda>(payload, failed, counts, grouped).
     let st1 = dump_json (pjoin rd ''failure-report.json'') payload st;
         title = ''# '' @ py_str (py_get ''workflow'' PNone cfg) @ '' '' @ campaign @ '' failure report'' in
     Inr (write_lines (pjoin rd ''failure-report.md'')
       (failure_heading title (length results) failed counts @
        concat (map (\<lambda>(c, cases). [[], ''## '' @ c] @ map failure_line cases) grouped)) st1))"

section \<open>Counters\<close>

lemma sum_dict_set:
  "distinct (dict_keys d) \<Longrightarrow>
   sum_list (map snd (dict_set k v d)) + opt_default 0 (dict_get k d) = sum_list (map snd d) + (v :: nat)"
proof (induction d)
  case (Cons p d)
  have "dict_get (fst p) d = None" using Cons.prems by (simp add: dict_keys_def dict_get_def map_of_eq_None_iff)
  with Cons show ?case
    by (cases p) (auto simp: dict_set_def dict_get_Cons dict_keys_def opt_default_def split: option.splits if_splits)
qed (simp add: dict_set_def opt_default_def)

lemma count_values_sum: "sum_list (map snd (count_values vs)) = length vs"
proof (induction vs rule: rev_induct)
  case (snoc v vs)
  then show ?case
    using sum_dict_set [OF count_values_distinct, of v "Suc (opt_default 0 (dict_get v (count_values vs)))" vs]
    by (simp add: count_values_snoc)
qed (simp add: count_values_def)

end
