(* ===== verification/Summary.thy ===== *)
theory Summary
  imports Reports
begin

text \<open>
  \<open>tools/render_summary.py\<close>: the summary of a campaign with its rates and its sign-off, the summary
  of the problem cases by the syscall at which they diverge first, their Markdown files; and
  \<open>tools/check_workflow_thresholds.py\<close>, the release gate over the stored summary. The rates are the
  doubles true division gives, so the comparisons with the thresholds are those of the code, rounding
  included. \<open>base_dir\<close> is the repository root, \<open>rd\<close> the reports directory.
\<close>

section \<open>Texts of one case\<close>

definition workflow_side_labels :: "pyval \<Rightarrow> string \<times> string" where
  "workflow_side_labels cfg =
     (let presentation = py_get ''presentation'' (PDict []) cfg in
      case (py_get ''reference_label'' PNone presentation, py_get ''candidate_label'' PNone presentation) of
        (PStr r, PStr c) \<Rightarrow> (r, c)
      | _ \<Rightarrow> (''Reference'', ''Candidate''))"

definition FIELD_LABELS :: "(string \<times> string) list" where
  "FIELD_LABELS = [(''syscall'', ''syscall_name''), (''args'', ''args''), (''return_value'', ''return_value''),
     (''errno'', ''errno''), (''outputs'', ''outputs'')]"

definition event_difference_fields :: "pyval option \<Rightarrow> pyval option \<Rightarrow> string list" where
  "event_difference_fields reference_event candidate_event =
     (case (reference_event, candidate_event) of
        (Some r, Some c) \<Rightarrow>
          map fst (filter (\<lambda>(label, k). py_get k PNone r \<noteq> py_get k PNone c) FIELD_LABELS)
      | _ \<Rightarrow> [])"

definition summarize_event :: "pyval option \<Rightarrow> string" where
  "summarize_event event =
     (case event of None \<Rightarrow> ''n/a''
      | Some e \<Rightarrow>
          py_str (py_get ''syscall_name'' (PStr ''unknown'') e) @ ''(args='' @
          json_encode False 0 (py_get ''args'' (PList []) e) @ '') -> ret='' @
          py_str (py_get ''return_value'' (PStr ''n/a'') e) @ '' errno='' @
          py_str (py_get ''errno'' (PStr ''n/a'') e) @ '' outputs='' @
          (case py_get ''outputs'' PNone e of PList vs \<Rightarrow> nat_str (length vs) | _ \<Rightarrow> ''n/a''))"

definition summarize_process_exit :: "pyval option \<Rightarrow> string" where
  "summarize_process_exit trace =
     (case Option.bind trace (\<lambda>t. Some (py_get ''process_exit'' PNone t)) of
        Some (PDict kvs) \<Rightarrow>
          ''process_exit(status='' @ py_str (py_get ''status'' (PStr ''n/a'') (PDict kvs)) @
          '', exit_code='' @ py_str (py_get ''exit_code'' (PStr ''n/a'') (PDict kvs)) @
          '', timed_out='' @ py_str (py_get ''timed_out'' (PStr ''n/a'') (PDict kvs)) @ '')''
      | _ \<Rightarrow> ''n/a'')"

definition summarize_final_state :: "pyval option \<Rightarrow> string" where
  "summarize_final_state trace =
     (case Option.bind trace (\<lambda>t. Some (py_get ''final_state'' PNone t)) of
        Some (PDict kvs) \<Rightarrow>
          ''final_state(files='' @
          (case py_get ''files'' (PList []) (PDict kvs) of PList vs \<Rightarrow> nat_str (length vs) | _ \<Rightarrow> ''n/a'') @ '')''
      | _ \<Rightarrow> ''n/a'')"

definition summarize_run_status :: "pyval option \<Rightarrow> string" where
  "summarize_run_status run =
     (case run of None \<Rightarrow> ''no_run''
      | Some r \<Rightarrow>
          (let detail = py_get ''status_detail'' PNone r in
           ''run('' @ join '', '' ((''status='' @ py_str (py_get ''status'' (PStr ''n/a'') r)) #
             (if truthy detail then [''detail='' @ py_str detail] else [])) @ '')''))"

text \<open>\<open>s.rsplit(sep, 1)[0]\<close>.\<close>

definition rsplit_head :: "string \<Rightarrow> string \<Rightarrow> string" where
  "rsplit_head sep s =
     (case find_at 0 (rev s) (rev sep) of None \<Rightarrow> s | Some i \<Rightarrow> take (length s - i - length sep) s)"

definition outputs_replaced :: "string \<Rightarrow> string" where
  "outputs_replaced s = rsplit_head '' outputs='' s @ '' outputs=content_different''"

definition describe_comparison ::
  "store \<Rightarrow> pyval \<Rightarrow> pyval option \<Rightarrow> pyval option \<Rightarrow> (string \<times> string list \<times> string \<times> string) res" where
  "describe_comparison st result reference_run candidate_run =
     (let cmp = comparison_of result; index = divergence_index result in
      bind (canonical_trace_for_run st reference_run) (\<lambda>reference.
      bind (canonical_trace_for_run st candidate_run) (\<lambda>candidate.
      bind (event_by_index reference index) (\<lambda>reference_event.
      bind (event_by_index candidate index) (\<lambda>candidate_event.
      let diff_fields = event_difference_fields reference_event candidate_event;
          shown = (if ''outputs'' \<in> set diff_fields then outputs_replaced else id) in
      Inr (if diff_fields \<noteq> [] then
             (''syscall_result_mismatch('' @ join '', '' diff_fields @ '')'', diff_fields,
              shown (summarize_event reference_event), shown (summarize_event candidate_event))
           else if py_get ''final_state_equal'' PNone cmp = PBool False then
             (''final_state_mismatch'', [], summarize_final_state reference, summarize_final_state candidate)
           else if py_get ''process_exit_equal'' PNone cmp = PBool False then
             (''process_exit_mismatch'', [], summarize_process_exit reference, summarize_process_exit candidate)
           else
             (py_str (py_get ''reason'' (PStr ''unknown'') cmp), [],
              summarize_run_status reference_run, summarize_run_status candidate_run)))))))"

section \<open>The summary by syscall\<close>

definition syscall_case :: "store \<Rightarrow> pyval \<Rightarrow> (string \<times> pyval) res" where
  "syscall_case st result =
     bind (first_divergence_details st result) (\<lambda>(index, name).
     let reference_run = latest_reference_run result; candidate_run = latest_candidate_run result in
     bind (describe_comparison st result reference_run candidate_run) (\<lambda>(reason, fields, reference, candidate).
     bind (py_item ''program_id'' result) (\<lambda>program_id.
     bind (py_item ''classification'' result) (\<lambda>classification.
     Inr ((case name of None \<Rightarrow> ''unknown'' | Some n \<Rightarrow> if n = [] then ''unknown'' else n),
       PDict [(''program_id'', program_id), (''classification'', classification),
         (''first_divergence_index'', index),
         (''normalized_path'', py_get ''normalized_path'' (PStr []) result),
         (''reference_status'', run_get ''status'' PNone PNone reference_run),
         (''candidate_status'', run_get ''status'' PNone PNone candidate_run),
         (''scml_result_bucket'', py_get ''scml_result_bucket'' PNone result),
         (''comparison_reason'', PStr reason), (''difference_fields'', PList (map PStr fields)),
         (''reference_result'', PStr reference), (''candidate_result'', PStr candidate)])))))"

text \<open>\<open>defaultdict(list)\<close> filled in order.\<close>

definition group_cases :: "(string \<times> 'a) list \<Rightarrow> (string, 'a list) dict" where
  "group_cases rows = fold (\<lambda>(k, c) d. dict_set k (opt_default [] (dict_get k d) @ [c]) d) rows []"

definition problem_results :: "string \<Rightarrow> pyval list \<Rightarrow> pyval list" where
  "problem_results no_diff results = filter (\<lambda>r. py_get ''classification'' PNone r \<noteq> PStr no_diff) results"

definition order_buckets :: "(string \<times> 'a list) list \<Rightarrow> (string \<times> 'a list) list" where
  "order_buckets buckets = sort_key (\<lambda>(name, cases). (- int (length cases), name)) buckets"

definition syscall_buckets :: "store \<Rightarrow> string \<Rightarrow> pyval list \<Rightarrow> (string \<times> pyval list) list res" where
  "syscall_buckets st no_diff results =
     bind (by_program (problem_results no_diff results)) (\<lambda>rows.
     bind (map_res (syscall_case st) rows) (\<lambda>cases.
     Inr (order_buckets (group_cases cases))))"

definition selected_campaign :: "string \<Rightarrow> string option \<Rightarrow> store \<Rightarrow> string res" where
  "selected_campaign rd campaign st =
     (case campaign of Some c \<Rightarrow> Inr c
      | None \<Rightarrow> if st (pjoin rd ''summary.json'') = None then Inr ''full''
          else bind (load_json (pjoin rd ''summary.json'') st) (\<lambda>s.
            Inr (py_str (py_get ''campaign'' (PStr ''full'') s))))"

definition build_syscall_summary :: "string \<Rightarrow> pyval \<Rightarrow> pyval list \<Rightarrow> string option \<Rightarrow> store \<Rightarrow> pyval res" where
  "build_syscall_summary rd cfg results campaign st =
     (let (reference_label, candidate_label) = workflow_side_labels cfg in
      bind (label_for cfg ''no_diff'' results) (\<lambda>no_diff.
      bind (syscall_buckets st no_diff results) (\<lambda>buckets.
      bind (selected_campaign rd campaign st) (\<lambda>selected.
      Inr (PDict [(''workflow'', PStr (workflow_name cfg)), (''campaign'', PStr selected),
        (''reference_label'', PStr reference_label), (''candidate_label'', PStr candidate_label),
        (''total_problem_cases'', PInt (int (length (problem_results no_diff results)))),
        (''syscall_bucket_count'', PInt (int (length buckets))),
        (''syscalls'', PList (map (\<lambda>(name, cases).
           PDict [(''syscall_name'', PStr name), (''case_count'', PInt (int (length cases))),
             (''cases'', PList cases)]) buckets))])))))"

definition case_lines :: "string \<Rightarrow> string \<Rightarrow> pyval \<Rightarrow> string list" where
  "case_lines reference_label candidate_label c =
     (let shown = \<lambda>k. or_na (py_get k PNone c); index = py_get ''first_divergence_index'' PNone c in
      [''- '' @ py_str (py_get ''program_id'' PNone c) @ '': classification='' @ py_str (py_get ''classification'' PNone c) @
       '', comparison_reason='' @ py_str (py_get ''comparison_reason'' PNone c) @
       '', first_divergence_index='' @ (if index = PNone then ''n/a'' else py_str index) @
       '', reference_status='' @ shown ''reference_status'' @ '', candidate_status='' @ shown ''candidate_status'' @
       '', scml_result_bucket='' @ shown ''scml_result_bucket'' @ '', testcase='' @ shown ''normalized_path'',
       ''  '' @ reference_label @ '': '' @ py_str (py_get ''reference_result'' PNone c),
       ''  '' @ candidate_label @ '': '' @ py_str (py_get ''candidate_result'' PNone c)])"

definition pylist :: "pyval \<Rightarrow> pyval list" where
  "pylist v = (case v of PList vs \<Rightarrow> vs | _ \<Rightarrow> [])"

definition syscall_summary_lines :: "pyval \<Rightarrow> string list" where
  "syscall_summary_lines summary =
     (let shown = \<lambda>k. py_str (py_get k PNone summary);
          reference_label = py_str (py_get ''reference_label'' (PStr ''Reference'') summary);
          candidate_label = py_str (py_get ''candidate_label'' (PStr ''Candidate'') summary);
          buckets = pylist (py_get ''syscalls'' PNone summary) in
      [''# '' @ shown ''workflow'' @ '' '' @ shown ''campaign'' @ '' syscall summary'', [],
       ''- total_problem_cases: '' @ shown ''total_problem_cases'',
       ''- syscall_bucket_count: '' @ shown ''syscall_bucket_count'',
       ''- reference_label: '' @ reference_label, ''- candidate_label: '' @ candidate_label] @
      (if buckets = [] then [[], ''## syscalls'', ''- none: 0'']
       else concat (map (\<lambda>row.
         [[], ''## '' @ py_str (py_get ''syscall_name'' PNone row), ''- case_count: '' @ py_str (py_get ''case_count'' PNone row)] @
         concat (map (case_lines reference_label candidate_label) (pylist (py_get ''cases'' PNone row)))) buckets)))"

text \<open>\<open>name\<close> is \<open>syscall-summary\<close>, or \<open>partial-syscall-summary\<close> for the partial summary.\<close>

definition write_syscall_summary :: "string \<Rightarrow> string \<Rightarrow> pyval \<Rightarrow> store \<Rightarrow> store" where
  "write_syscall_summary rd name summary st =
     write_lines (pjoin rd (name @ ''.md'')) (syscall_summary_lines summary)
       (dump_json (pjoin rd (name @ ''.json'')) summary st)"

end
