(* ===== verification/Signoff.thy ===== *)
theory Signoff
  imports Summary VmRunner
begin

text \<open>
  The numbers of \<open>tools/render_summary.py\<close>: counts and rates of a campaign, the sign-off against the
  configured thresholds, the Markdown of both, and the release gate
  \<open>tools/check_workflow_thresholds.py\<close> over the stored summary. A rate is the double that true
  division gives; counts in the documents read are integers.
\<close>

section \<open>Counts\<close>

definition result_buckets :: "pyval list \<Rightarrow> string list" where
  "result_buckets results =
     concat (map (\<lambda>r. let b = py_get ''scml_result_bucket'' PNone r in if truthy b then [py_str b] else []) results)"

definition merge_scml_result_counts :: "pyval list \<Rightarrow> pyval list \<Rightarrow> (string, nat) dict" where
  "merge_scml_result_counts results rejections =
     (let counts = count_values (result_buckets results) in
      if rejections = [] then counts
      else dict_set ''rejected_by_scml'' (opt_default 0 (dict_get ''rejected_by_scml'' counts) + length rejections) counts)"

definition path_exists :: "store \<Rightarrow> string \<Rightarrow> bool" where
  "path_exists st p = (st p \<noteq> None)"

text \<open>\<open>result.get("candidate_run", {})\<close> must have a \<open>get\<close> of its own; a null run is an error.\<close>

definition candidate_run_record :: "pyval \<Rightarrow> unit res" where
  "candidate_run_record result = (case py_get ''candidate_run'' (PDict []) result of
       PDict _ \<Rightarrow> Inr () | _ \<Rightarrow> Inl (TypeError ''candidate_run has no attribute get''))"

text \<open>Both traces are there: of the row's \<open>candidate_run\<close> and of its latest reference run.\<close>

definition candidate_trace_completed :: "store \<Rightarrow> pyval \<Rightarrow> bool" where
  "candidate_trace_completed st result =
     (case run_trace_path (py_get ''candidate_run'' (PDict []) result) of
        None \<Rightarrow> False
      | Some p \<Rightarrow> path_exists st p \<and>
          (case Option.bind (latest_reference_run result) run_trace_path of
             None \<Rightarrow> False | Some q \<Rightarrow> path_exists st q))"

text \<open>The two list comprehensions over the completed rows, with the same existence tests again.\<close>

definition trace_present :: "store \<Rightarrow> (string \<Rightarrow> string) \<Rightarrow> pyval \<Rightarrow> bool" where
  "trace_present st place result =
     (case run_trace_path (py_get ''candidate_run'' (PDict []) result) of
        None \<Rightarrow> False
      | Some p \<Rightarrow> path_exists st (place p) \<and>
          (case Option.bind (latest_reference_run result) run_trace_path of
             None \<Rightarrow> False | Some q \<Rightarrow> path_exists st (place q)))"

definition candidate_runs_of :: "pyval list \<Rightarrow> pyval list" where
  "candidate_runs_of results = concat (map (\<lambda>r. case dict_get ''candidate_run'' (items r) of None \<Rightarrow> [] | Some c \<Rightarrow> [c]) results)"

definition run_status :: "pyval \<Rightarrow> string" where
  "run_status run = py_str (py_get ''status'' (PStr ''unknown'') run)"

definition FAILED_STATUSES :: "string list" where
  "FAILED_STATUSES = [''timeout'', ''infra_error'', ''crash'', ''candidate_bug'']"

definition concurrency_breakdown :: "pyval \<Rightarrow> nat \<Rightarrow> pyval list \<Rightarrow> pyval" where
  "concurrency_breakdown scheduler_summary total_cases runs =
     (let count = \<lambda>s. PInt (int (opt_default 0 (dict_get s (count_values (map run_status runs))))) in
      PDict [(''jobs'', py_get ''jobs'' PNone scheduler_summary),
        (''max_concurrent_vms'', py_get ''max_concurrent_vms'' PNone scheduler_summary),
        (''total_cases'', PInt (int total_cases)), (''completed_cases'', count ''ok''),
        (''timeout_cases'', count ''timeout''), (''infra_error_cases'', count ''infra_error''),
        (''crash_cases'', count ''crash''), (''candidate_bug_cases'', count ''candidate_bug'')])"

fun bump :: "string \<Rightarrow> (string, nat) dict \<Rightarrow> (string, nat) dict" where
  "bump s d = dict_set s (Suc (opt_default 0 (dict_get s d))) d"

definition infra_error_breakdown :: "pyval list \<Rightarrow> (string, nat) dict" where
  "infra_error_breakdown runs =
     fold (\<lambda>run d. let s = run_status run in
         if s \<in> set FAILED_STATUSES then bump s d else if s \<noteq> ''ok'' then bump ''other'' d else d)
       runs (map (\<lambda>s. (s, 0)) (FAILED_STATUSES @ [''other'']))"

definition run_names :: "string \<Rightarrow> pyval list \<Rightarrow> string list" where
  "run_names k runs = sorted_set (map py_str (filter truthy (map (py_get k PNone) runs)))"

definition count_eligible_programs :: "string \<Rightarrow> pyval \<Rightarrow> store \<Rightarrow> nat res" where
  "count_eligible_programs base_dir cfg st =
     bind (py_item ''paths'' cfg) (\<lambda>paths.
     bind (str_item ''eligible_file'' paths) (\<lambda>p.
     bind (read_text (resolve_repo_path base_dir p) st) (\<lambda>t. Inr (length (file_lines t)))))"

section \<open>Rates\<close>

text \<open>\<open>a / b if b else 0.0\<close>.\<close>

definition rate :: "int \<Rightarrow> int \<Rightarrow> rat res" where
  "rate a b = (if b = 0 then Inr 0 else py_truediv a b)"

definition as_int :: "pyval \<Rightarrow> int res" where
  "as_int v = (case v of PInt i \<Rightarrow> Inr i | PBool b \<Rightarrow> Inr (if b then 1 else 0) | _ \<Rightarrow> Inl (TypeError ''not a count''))"

definition int_item :: "string \<Rightarrow> pyval \<Rightarrow> int res" where
  "int_item k d = bind (py_item k d) as_int"

definition load_report :: "string \<Rightarrow> string \<Rightarrow> store \<Rightarrow> pyval option res" where
  "load_report rd name st =
     (if st (pjoin rd name) = None then Inr None else bind (load_json (pjoin rd name) st) (\<lambda>d. Inr (Some d)))"

definition build_counts :: "string \<Rightarrow> pyval list \<Rightarrow> store \<Rightarrow> (int \<times> int) res" where
  "build_counts rd results st =
     bind (load_report rd ''build-summary.json'' st) (\<lambda>doc.
     case doc of
       Some d \<Rightarrow> bind (int_item ''success'' d) (\<lambda>s. bind (int_item ''total'' d) (\<lambda>t. Inr (s, t)))
     | None \<Rightarrow>
         (let failures = length (filter (\<lambda>r. py_get ''classification'' PNone r = PStr ''build_failure'') results) in
          Inr (max 0 (int (length results) - int failures), int (length results))))"

definition import_rate :: "string \<Rightarrow> store \<Rightarrow> rat option res" where
  "import_rate rd st =
     bind (load_report rd ''import-summary.json'' st) (\<lambda>doc.
     case doc of None \<Rightarrow> Inr None
     | Some d \<Rightarrow> bind (int_item ''imported'' d) (\<lambda>i. bind (int_item ''total_files'' d) (\<lambda>t.
         bind (rate i t) (\<lambda>q. Inr (Some q)))))"

definition derivation_rate :: "string \<Rightarrow> store \<Rightarrow> rat option res" where
  "derivation_rate rd st =
     bind (load_report rd ''derivation-summary.json'' st) (\<lambda>doc.
     case doc of None \<Rightarrow> Inr None
     | Some d \<Rightarrow> bind (int_item ''source_total'' d) (\<lambda>t. bind (int_item ''eligible'' d) (\<lambda>e.
         bind (rate e t) (\<lambda>q. Inr (Some q)))))"

definition should_include_generation_summary :: "string \<Rightarrow> pyval \<Rightarrow> bool" where
  "should_include_generation_summary base_dir cfg =
     (let generated = py_get ''generated_file'' PNone (py_get ''paths'' (PDict []) cfg);
          derivation = py_get ''derivation'' (PDict []) cfg;
          first = py_get ''generated_source_eligible_file'' PNone derivation;
          source = (if truthy first then first else py_get ''source_eligible_file'' PNone derivation) in
      truthy generated \<and> truthy source \<and>
      resolve_repo_path base_dir (py_str source) = resolve_repo_path base_dir (py_str generated))"

definition generation_fields :: "string \<Rightarrow> string \<Rightarrow> pyval \<Rightarrow> store \<Rightarrow> (string \<times> pyval) list res" where
  "generation_fields base_dir rd cfg st =
     bind (load_report rd ''generation-summary.json'' st) (\<lambda>doc.
     case doc of None \<Rightarrow> Inr []
     | Some d \<Rightarrow> Inr (if \<not> should_include_generation_summary base_dir cfg then [] else
         [(''profile_enabled_total'', py_get ''profile_enabled_total'' (PInt 0) d),
          (''targets_with_candidates'', py_get ''targets_with_candidates'' (PInt 0) d),
          (''targets_without_candidates'', py_get ''targets_without_candidates'' (PInt 0) d),
          (''generation_candidate_count'', py_get ''unique_candidate_count'' (PInt 0) d)]))"

section \<open>The sign-off\<close>

text \<open>Comparing numbers: integers and doubles exactly, as Python does.\<close>

definition number :: "pyval \<Rightarrow> rat res" where
  "number v = (case v of PInt i \<Rightarrow> Inr (of_int i) | PBool b \<Rightarrow> Inr (if b then 1 else 0) | PFloat x \<Rightarrow> Inr x
     | _ \<Rightarrow> Inl (TypeError ''not comparable''))"

definition at_least :: "pyval \<Rightarrow> pyval \<Rightarrow> bool res" where
  "at_least v bound = bind (number v) (\<lambda>x. bind (number bound) (\<lambda>y. Inr (y \<le> x)))"

definition below :: "pyval \<Rightarrow> pyval \<Rightarrow> bool res" where
  "below v bound = bind (number v) (\<lambda>x. bind (number bound) (\<lambda>y. Inr (x < y)))"

definition fraction :: "int \<Rightarrow> pyval" where
  "fraction i = PFloat (of_int i)"

definition signoff_checks :: "(string \<times> pyval) list \<Rightarrow> pyval \<Rightarrow> bool \<Rightarrow> bool list res" where
  "signoff_checks summary thresholds minimized =
     (let metric = \<lambda>k. py_get k PNone (PDict summary); bound = \<lambda>k d. py_get k d thresholds in
      bind (at_least (metric ''build_success_rate'') (bound ''build_success_rate'' (fraction 0))) (\<lambda>c1.
      bind (at_least (metric ''dual_execution_completion_rate'') (bound ''dual_execution_completion_rate'' (fraction 0))) (\<lambda>c2.
      bind (at_least (metric ''trace_generation_success_rate'') (bound ''trace_success_rate'' (fraction 0))) (\<lambda>c3.
      bind (at_least (metric ''canonicalization_success_rate'') (bound ''canonical_success_rate'' (fraction 0))) (\<lambda>c4.
      bind (below (metric ''baseline_invalid_rate'') (bound ''baseline_invalid_rate'' (fraction 1))) (\<lambda>c5.
      bind (at_least (metric ''total'') (bound ''total_min'' (PInt 0))) (\<lambda>c6.
      bind (at_least (metric ''eligible_program_count'') (bound ''eligible_program_count_min'' (PInt 0))) (\<lambda>c7.
      bind (case dict_get ''import_success_rate'' (items thresholds) of None \<Rightarrow> Inr []
            | Some b \<Rightarrow> bind (at_least (py_get ''import_success_rate'' (fraction 0) (PDict summary)) b) (\<lambda>c. Inr [c])) (\<lambda>c8.
      Inr ([c1, c2, c3, c4, c5, c6, c7] @ c8 @
        (if truthy (bound ''require_minimized_report'' PNone) then [minimized] else [])))))))))))"

definition opt_item :: "string \<Rightarrow> rat option \<Rightarrow> (string \<times> pyval) list" where
  "opt_item k q = (case q of None \<Rightarrow> [] | Some x \<Rightarrow> [(k, PFloat x)])"

text \<open>The fields of the summary before the sign-off, in the order of the code.\<close>

definition summary_fields :: "string \<Rightarrow> string \<Rightarrow> pyval \<Rightarrow> string option \<Rightarrow> store \<Rightarrow> (string \<times> pyval) list res" where
  "summary_fields base_dir rd cfg campaign st =
     bind (load_jsonl (pjoin rd ''campaign-results.jsonl'') st) (\<lambda>results.
     bind (build_counts rd results st) (\<lambda>(built, built_of).
     bind (map_res row_class results) (\<lambda>classes.
     bind (if st (pjoin rd ''scml-rejections.jsonl'') = None then Inr []
           else load_jsonl (pjoin rd ''scml-rejections.jsonl'') st) (\<lambda>rejections.
     bind (load_report rd ''summary.json'' st) (\<lambda>scheduler_summary.
     bind (map_res candidate_run_record results) (\<lambda>_.
     let n = int (length results);
         completed = filter (candidate_trace_completed st) results;
         traces_ok = filter (trace_present st id) completed;
         canonical_ok = filter (trace_present st canonical_of) completed;
         runs = candidate_runs_of results;
         counts = count_values classes in
     bind (selected_campaign rd campaign st) (\<lambda>selected.
     bind (count_eligible_programs base_dir cfg st) (\<lambda>eligible.
     bind (rate built built_of) (\<lambda>build_rate.
     bind (rate (int (length completed)) n) (\<lambda>dual_rate.
     bind (rate (int (length traces_ok)) (int (length completed))) (\<lambda>trace_rate.
     bind (rate (int (length canonical_ok)) (int (length traces_ok))) (\<lambda>canonical_rate.
     bind (label_for cfg ''baseline_invalid'' results) (\<lambda>invalid.
     bind (rate (int (opt_default 0 (dict_get invalid counts))) n) (\<lambda>invalid_rate.
     bind (rate n (n + int (length rejections))) (\<lambda>preflight_rate.
     bind (import_rate rd st) (\<lambda>imported.
     bind (derivation_rate rd st) (\<lambda>derived.
     bind (generation_fields base_dir rd cfg st) (\<lambda>generation.
     Inr ([(''campaign'', PStr selected), (''workflow'', PStr (workflow_name cfg)), (''total'', PInt n),
       (''classification_counts'', count_items counts),
       (''scml_result_counts'', count_items (merge_scml_result_counts results rejections)),
       (''scml_rejected_count'', PInt (int (length rejections))),
       (''eligible_program_count'', PInt (int eligible)),
       (''build_success_rate'', PFloat build_rate),
       (''dual_execution_completion_rate'', PFloat dual_rate),
       (''trace_generation_success_rate'', PFloat trace_rate),
       (''canonicalization_success_rate'', PFloat canonical_rate),
       (''baseline_invalid_rate'', PFloat invalid_rate),
       (''scml_preflight_pass_rate'', PFloat preflight_rate),
       (''candidate_runner_kinds'', PList (map PStr (run_names ''runner_kind'' runs))),
       (''candidate_kernel_builds'', PList (map PStr (run_names ''kernel_build'' runs))),
       (''concurrency_breakdown'', concurrency_breakdown (opt_default (PDict []) scheduler_summary) (length results) runs),
       (''infra_error_breakdown'', count_items (infra_error_breakdown runs))] @
       opt_item ''import_success_rate'' imported @ opt_item ''derivation_success_rate'' derived @ generation)))))))))))))))))))"

definition thresholds_for :: "pyval \<Rightarrow> pyval \<Rightarrow> pyval res" where
  "thresholds_for cfg campaign =
     bind (py_item ''thresholds'' cfg) (py_item (if campaign = PStr ''full'' then ''signoff'' else ''smoke''))"

definition build_rendered_summary :: "string \<Rightarrow> string \<Rightarrow> pyval \<Rightarrow> string option \<Rightarrow> store \<Rightarrow> (string \<times> pyval) list res" where
  "build_rendered_summary base_dir rd cfg campaign st =
     bind (summary_fields base_dir rd cfg campaign st) (\<lambda>summary.
     bind (thresholds_for cfg (py_get ''campaign'' PNone (PDict summary))) (\<lambda>thresholds.
     bind (signoff_checks summary thresholds (path_exists st (pjoin rd ''minimized-report.json''))) (\<lambda>checks.
     Inr (summary @ [(''signoff_pass'', PBool (list_all id checks))]))))"

section \<open>The release gate\<close>

datatype gate_rule = Gte | Lte

definition THRESHOLD_RULES :: "(string, gate_rule \<times> string) dict" where
  "THRESHOLD_RULES =
     [(''build_success_rate'', (Gte, ''build_success_rate'')),
      (''dual_execution_completion_rate'', (Gte, ''dual_execution_completion_rate'')),
      (''trace_success_rate'', (Gte, ''trace_generation_success_rate'')),
      (''canonical_success_rate'', (Gte, ''canonicalization_success_rate'')),
      (''baseline_invalid_rate'', (Lte, ''baseline_invalid_rate'')),
      (''total_min'', (Gte, ''total'')),
      (''eligible_program_count_min'', (Gte, ''eligible_program_count'')),
      (''import_success_rate'', (Gte, ''import_success_rate''))]"

text \<open>\<open>float(v)\<close> of a JSON value.\<close>

definition py_float :: "pyval \<Rightarrow> rat res" where
  "py_float v = (case v of PFloat x \<Rightarrow> Inr x | PInt i \<Rightarrow> py_float_of_int i | PBool b \<Rightarrow> Inr (if b then 1 else 0)
     | _ \<Rightarrow> Inl (TypeError ''float() argument must be a string or a real number''))"

definition summary_metric :: "pyval \<Rightarrow> string \<Rightarrow> rat option res" where
  "summary_metric summary k =
     (case dict_get k (items summary) of None \<Rightarrow> Inr None
      | Some v \<Rightarrow> if is_int v \<or> (case v of PFloat x \<Rightarrow> True | _ \<Rightarrow> False)
          then bind (py_float v) (\<lambda>x. Inr (Some x)) else Inr None)"

definition threshold_failure :: "pyval \<Rightarrow> string \<times> pyval \<Rightarrow> string list res" where
  "threshold_failure summary = (\<lambda>(k, expected).
     case dict_get k THRESHOLD_RULES of None \<Rightarrow> Inr []
     | Some (rule, name) \<Rightarrow>
         bind (summary_metric summary name) (\<lambda>actual.
         case actual of None \<Rightarrow> Inr [''summary missing metric for threshold '' @ k]
         | Some x \<Rightarrow>
             bind (py_float expected) (\<lambda>y.
             Inr (if rule = Gte \<and> x < y then [k @ '': actual='' @ float_repr x @ '' < expected='' @ float_repr y]
                  else if rule = Lte \<and> y < x then [k @ '': actual='' @ float_repr x @ '' > expected='' @ float_repr y]
                  else []))))"

definition threshold_failures :: "pyval \<Rightarrow> pyval \<Rightarrow> bool \<Rightarrow> string list res" where
  "threshold_failures thresholds summary minimized =
     bind (map_res (threshold_failure summary) (items thresholds)) (\<lambda>fs.
     Inr (concat fs @ (if truthy (py_get ''require_minimized_report'' PNone thresholds) \<and> \<not> minimized
       then [''require_minimized_report: minimized-report.json is missing''] else [])))"

text \<open>The program: it exits with the failures, else passes.\<close>

definition check_workflow_thresholds :: "pyval \<Rightarrow> string \<Rightarrow> string \<Rightarrow> store \<Rightarrow> unit res" where
  "check_workflow_thresholds cfg campaign summary_path st =
     (let thresholds = py_get campaign PNone (py_get ''thresholds'' (PDict []) cfg) in
      if \<not> is_dict thresholds then Inl (SystemExit ''missing thresholds'') else
      bind (load_json summary_path st) (\<lambda>summary.
      bind (threshold_failures thresholds summary (path_exists st (with_name summary_path ''minimized-report.json''))) (\<lambda>failures.
      if failures \<noteq> [] then Inl (SystemExit (''threshold check failed:'' @ newline @ ''- '' @ join (newline @ ''- '') failures))
      else Inr ())))"

section \<open>What the fields are\<close>

lemma rate_double: "rate a b = Inr q \<Longrightarrow> is_double q"
  by (auto simp: rate_def py_truediv_def Let_def is_double_to_double split: if_splits)

lemma rate_unit:
  assumes "0 \<le> a" "a \<le> b" "rate a b = Inr q"
  shows "0 \<le> q \<and> q \<le> 1"
proof (cases "b = 0")
  case False
  with assms have "0 < b" by simp
  from py_truediv_ratio [OF assms(1,2) this] assms(3) False show ?thesis by (auto simp: rate_def)
qed (use assms in \<open>simp add: rate_def\<close>)

lemma rate_same: "rate a a = Inr q \<Longrightarrow> q = (if a = 0 then 0 else 1)"
  by (auto simp: rate_def py_truediv_def Let_def split: if_splits)

lemma traces_are_completed:
  "filter (trace_present st id) (filter (candidate_trace_completed st) rs) = filter (candidate_trace_completed st) rs"
  by (induction rs) (auto simp: trace_present_def candidate_trace_completed_def)

lemma dict_get_append: "dict_get k (a @ b) = (case dict_get k a of None \<Rightarrow> dict_get k b | Some v \<Rightarrow> Some v)"
  by (simp add: dict_get_def map_add_def split: option.split)

text \<open>Looking the fields up, whatever their values.\<close>

lemma summary_lookups:
  assumes "s = [(''campaign'', v1), (''workflow'', v2), (''total'', v3), (''classification_counts'', v4),
    (''scml_result_counts'', v5), (''scml_rejected_count'', v6), (''eligible_program_count'', v7),
    (''build_success_rate'', v8), (''dual_execution_completion_rate'', v9), (''trace_generation_success_rate'', v10),
    (''canonicalization_success_rate'', v11), (''baseline_invalid_rate'', v12), (''scml_preflight_pass_rate'', v13),
    (''candidate_runner_kinds'', v14), (''candidate_kernel_builds'', v15), (''concurrency_breakdown'', v16),
    (''infra_error_breakdown'', v17)] @ extra"
  shows "dict_get ''campaign'' s = Some v1" "dict_get ''total'' s = Some v3" "dict_get ''classification_counts'' s = Some v4"
    "dict_get ''eligible_program_count'' s = Some v7" "dict_get ''build_success_rate'' s = Some v8"
    "dict_get ''dual_execution_completion_rate'' s = Some v9" "dict_get ''trace_generation_success_rate'' s = Some v10"
    "dict_get ''canonicalization_success_rate'' s = Some v11" "dict_get ''baseline_invalid_rate'' s = Some v12"
    "dict_get ''scml_preflight_pass_rate'' s = Some v13"
    "dict_get ''import_success_rate'' s = dict_get ''import_success_rate'' extra"
    "dict_get ''signoff_pass'' s = dict_get ''signoff_pass'' extra"
  unfolding assms by (simp_all add: dict_get_Cons)

text \<open>The steps of \<open>summary_fields\<close>, and the value of every field.\<close>

lemma summary_fields_steps:
  assumes "summary_fields base_dir rd cfg campaign st = Inr s"
  obtains results built classes rejections scheduler_summary units selected eligible
    build_rate dual_rate trace_rate canonical_rate invalid invalid_rate preflight_rate imported derived generation
  where "load_jsonl (pjoin rd ''campaign-results.jsonl'') st = Inr results"
    "build_counts rd results st = Inr built" "map_res row_class results = Inr classes"
    "(if st (pjoin rd ''scml-rejections.jsonl'') = None then Inr [] else load_jsonl (pjoin rd ''scml-rejections.jsonl'') st) = Inr rejections"
    "load_report rd ''summary.json'' st = Inr scheduler_summary" "map_res candidate_run_record results = Inr units"
    "selected_campaign rd campaign st = Inr selected" "count_eligible_programs base_dir cfg st = Inr eligible"
    "rate (fst built) (snd built) = Inr build_rate"
    "rate (int (length (filter (candidate_trace_completed st) results))) (int (length results)) = Inr dual_rate"
    "rate (int (length (filter (candidate_trace_completed st) results)))
       (int (length (filter (candidate_trace_completed st) results))) = Inr trace_rate"
    "rate (int (length (filter (trace_present st canonical_of) (filter (candidate_trace_completed st) results))))
       (int (length (filter (candidate_trace_completed st) results))) = Inr canonical_rate"
    "label_for cfg ''baseline_invalid'' results = Inr invalid"
    "rate (int (count_list classes invalid)) (int (length results)) = Inr invalid_rate"
    "rate (int (length results)) (int (length results) + int (length rejections)) = Inr preflight_rate"
    "import_rate rd st = Inr imported" "derivation_rate rd st = Inr derived"
    "generation_fields base_dir rd cfg st = Inr generation"
    "s = [(''campaign'', PStr selected), (''workflow'', PStr (workflow_name cfg)), (''total'', PInt (int (length results))),
       (''classification_counts'', count_items (count_values classes)),
       (''scml_result_counts'', count_items (merge_scml_result_counts results rejections)),
       (''scml_rejected_count'', PInt (int (length rejections))),
       (''eligible_program_count'', PInt (int eligible)),
       (''build_success_rate'', PFloat build_rate),
       (''dual_execution_completion_rate'', PFloat dual_rate),
       (''trace_generation_success_rate'', PFloat trace_rate),
       (''canonicalization_success_rate'', PFloat canonical_rate),
       (''baseline_invalid_rate'', PFloat invalid_rate),
       (''scml_preflight_pass_rate'', PFloat preflight_rate),
       (''candidate_runner_kinds'', PList (map PStr (run_names ''runner_kind'' (candidate_runs_of results)))),
       (''candidate_kernel_builds'', PList (map PStr (run_names ''kernel_build'' (candidate_runs_of results)))),
       (''concurrency_breakdown'', concurrency_breakdown (opt_default (PDict []) scheduler_summary) (length results) (candidate_runs_of results)),
       (''infra_error_breakdown'', count_items (infra_error_breakdown (candidate_runs_of results)))] @
       opt_item ''import_success_rate'' imported @ opt_item ''derivation_success_rate'' derived @ generation"
proof -
  note run = assms [unfolded summary_fields_def Let_def case_prod_beta traces_are_completed count_values_get]
  show thesis
    using run by (elim bind_InrE) (drule Inr_inject, rule that, assumption+, erule sym)
qed

lemma signoff_steps:
  assumes "build_rendered_summary base_dir rd cfg campaign st = Inr s"
  obtains s0 thresholds checks where "summary_fields base_dir rd cfg campaign st = Inr s0"
    "thresholds_for cfg (py_get ''campaign'' PNone (PDict s0)) = Inr thresholds"
    "signoff_checks s0 thresholds (path_exists st (pjoin rd ''minimized-report.json'')) = Inr checks"
    "s = s0 @ [(''signoff_pass'', PBool (list_all id checks))]"
  using assms unfolding build_rendered_summary_def by (elim bind_InrE) (drule Inr_inject, rule that, assumption+, erule sym)

text \<open>The keys that are always there.\<close>

definition SUMMARY_KEYS :: "string list" where
  "SUMMARY_KEYS = [''campaign'', ''workflow'', ''total'', ''classification_counts'', ''scml_result_counts'',
     ''scml_rejected_count'', ''eligible_program_count'', ''build_success_rate'', ''dual_execution_completion_rate'',
     ''trace_generation_success_rate'', ''canonicalization_success_rate'', ''baseline_invalid_rate'',
     ''scml_preflight_pass_rate'', ''candidate_runner_kinds'', ''candidate_kernel_builds'',
     ''concurrency_breakdown'', ''infra_error_breakdown'']"

definition EXTRA_KEYS :: "string list" where
  "EXTRA_KEYS = [''import_success_rate'', ''derivation_success_rate'', ''profile_enabled_total'',
     ''targets_with_candidates'', ''targets_without_candidates'', ''generation_candidate_count'', ''signoff_pass'']"

lemma keys_distinct: "distinct (SUMMARY_KEYS @ EXTRA_KEYS)"
  by code_simp

lemma generation_fields_keys:
  assumes "generation_fields base_dir rd cfg st = Inr g"
  shows "g = [] \<or> map fst g = [''profile_enabled_total'', ''targets_with_candidates'', ''targets_without_candidates'', ''generation_candidate_count'']"
    "list_all (\<lambda>(k, v). json_wf v) g"
proof -
  from assms obtain doc where doc: "load_report rd ''generation-summary.json'' st = Inr doc"
    and g: "g = [] \<or> (\<exists>d. doc = Some d \<and> g =
         [(''profile_enabled_total'', py_get ''profile_enabled_total'' (PInt 0) d),
          (''targets_with_candidates'', py_get ''targets_with_candidates'' (PInt 0) d),
          (''targets_without_candidates'', py_get ''targets_without_candidates'' (PInt 0) d),
          (''generation_candidate_count'', py_get ''unique_candidate_count'' (PInt 0) d)])"
    unfolding generation_fields_def by (elim bind_InrE) (auto split: option.splits if_splits)
  show "g = [] \<or> map fst g = [''profile_enabled_total'', ''targets_with_candidates'', ''targets_without_candidates'', ''generation_candidate_count'']"
    using g by auto
  have "doc = Some d \<Longrightarrow> json_wf d" for d using doc
    by (auto simp: load_report_def load_json_def bind_eq_Inr json_loads_wf split: if_splits)
  then show "list_all (\<lambda>(k, v). json_wf v) g" using g by (auto intro!: wf_py_get)
qed

lemma wf_count_items: "distinct (dict_keys d) \<Longrightarrow> json_wf (count_items d)"
  by (auto simp: count_items_def dict_keys_def list_all_iff comp_def case_prod_beta)

lemma merge_counts_distinct: "distinct (dict_keys (merge_scml_result_counts results rejections))"
  by (simp add: merge_scml_result_counts_def Let_def count_values_distinct)

lemma infra_breakdown_distinct: "distinct (dict_keys (infra_error_breakdown runs))"
proof -
  have "distinct (dict_keys d) \<Longrightarrow>
      distinct (dict_keys (fold (\<lambda>run d. let s = run_status run in
         if s \<in> set FAILED_STATUSES then bump s d else if s \<noteq> ''ok'' then bump ''other'' d else d) runs d))" for d
    by (induction runs arbitrary: d) (simp_all add: Let_def)
  moreover have "distinct (dict_keys (map (\<lambda>s. (s, 0 :: nat)) (FAILED_STATUSES @ [''other''])))" by code_simp
  ultimately show ?thesis by (simp add: infra_error_breakdown_def)
qed

lemma load_report_wf: "load_report rd name st = Inr (Some d) \<Longrightarrow> json_wf d"
  by (auto simp: load_report_def load_json_def bind_eq_Inr json_loads_wf split: if_splits)

lemma concurrency_wf:
  assumes "load_report rd name st = Inr doc"
  shows "json_wf (concurrency_breakdown (opt_default (PDict []) doc) n runs)"
proof -
  have "json_wf (opt_default (PDict []) doc)" using load_report_wf assms by (cases doc) (auto simp: opt_default_def)
  then show ?thesis by (simp add: concurrency_breakdown_def Let_def wf_py_get)
qed

lemma extra_rates:
  "import_rate rd st = Inr (Some q) \<Longrightarrow> is_double q" "derivation_rate rd st = Inr (Some q) \<Longrightarrow> is_double q"
  by (auto simp: import_rate_def derivation_rate_def bind_eq_Inr rate_double split: option.splits)

lemma summary_wf_keys:
  assumes "build_rendered_summary base_dir rd cfg campaign st = Inr s"
  shows "json_wf (PDict s) \<and> fst ` set s \<subseteq> set (SUMMARY_KEYS @ EXTRA_KEYS)"
proof -
  obtain s0 checks where s0: "summary_fields base_dir rd cfg campaign st = Inr s0"
    "s = s0 @ [(''signoff_pass'', PBool (list_all id checks))]"
    using signoff_steps [OF assms] by metis
  show ?thesis
    using s0(1)
  proof (rule summary_fields_steps)
    fix results built classes rejections scheduler_summary selected eligible
      build_rate dual_rate trace_rate canonical_rate invalid invalid_rate preflight_rate imported derived generation
    assume sched: "load_report rd ''summary.json'' st = Inr scheduler_summary"
      and rates: "rate (fst built) (snd built) = Inr build_rate"
        "rate (int (length (filter (candidate_trace_completed st) results))) (int (length results)) = Inr dual_rate"
        "rate (int (length (filter (candidate_trace_completed st) results)))
           (int (length (filter (candidate_trace_completed st) results))) = Inr trace_rate"
        "rate (int (length (filter (trace_present st canonical_of) (filter (candidate_trace_completed st) results))))
           (int (length (filter (candidate_trace_completed st) results))) = Inr canonical_rate"
        "rate (int (count_list classes invalid)) (int (length results)) = Inr invalid_rate"
        "rate (int (length results)) (int (length results) + int (length rejections)) = Inr preflight_rate"
      and extra: "import_rate rd st = Inr imported" "derivation_rate rd st = Inr derived"
        "generation_fields base_dir rd cfg st = Inr generation"
      and s: "s0 = [(''campaign'', PStr selected), (''workflow'', PStr (workflow_name cfg)), (''total'', PInt (int (length results))),
       (''classification_counts'', count_items (count_values classes)),
       (''scml_result_counts'', count_items (merge_scml_result_counts results rejections)),
       (''scml_rejected_count'', PInt (int (length rejections))),
       (''eligible_program_count'', PInt (int eligible)),
       (''build_success_rate'', PFloat build_rate),
       (''dual_execution_completion_rate'', PFloat dual_rate),
       (''trace_generation_success_rate'', PFloat trace_rate),
       (''canonicalization_success_rate'', PFloat canonical_rate),
       (''baseline_invalid_rate'', PFloat invalid_rate),
       (''scml_preflight_pass_rate'', PFloat preflight_rate),
       (''candidate_runner_kinds'', PList (map PStr (run_names ''runner_kind'' (candidate_runs_of results)))),
       (''candidate_kernel_builds'', PList (map PStr (run_names ''kernel_build'' (candidate_runs_of results)))),
       (''concurrency_breakdown'', concurrency_breakdown (opt_default (PDict []) scheduler_summary) (length results) (candidate_runs_of results)),
       (''infra_error_breakdown'', count_items (infra_error_breakdown (candidate_runs_of results)))] @
       opt_item ''import_success_rate'' imported @ opt_item ''derivation_success_rate'' derived @ generation"
    define extras where "extras = opt_item ''import_success_rate'' imported @ opt_item ''derivation_success_rate'' derived @
      generation @ [(''signoff_pass'', PBool (list_all id checks))]"
    have "subseq (map fst extras) EXTRA_KEYS"
      using generation_fields_keys(1) [OF extra(3)]
      by (auto simp: extras_def EXTRA_KEYS_def opt_item_def split: option.splits)
    then obtain N where "map fst extras = nths EXTRA_KEYS N" by (auto simp: subseq_conv_nths)
    then have keys: "distinct (map fst extras)" "set (map fst extras) \<subseteq> set EXTRA_KEYS"
      using keys_distinct by (simp_all only: distinct_append distinct_nthsI set_nths_subset)
    have all: "map fst s = SUMMARY_KEYS @ map fst extras"
      by (simp add: s0(2) s extras_def SUMMARY_KEYS_def)
    have "fst ` set s \<subseteq> set (SUMMARY_KEYS @ EXTRA_KEYS)"
      unfolding set_map [symmetric] all using keys(2) by auto
    moreover have "distinct (map fst s)" unfolding all using keys keys_distinct by auto
    moreover have "list_all (\<lambda>(k, v). json_wf v) extras"
      using generation_fields_keys(2) [OF extra(3)] extra(1,2)
      by (auto simp: extras_def opt_item_def extra_rates split: option.splits)
    then have "list_all (\<lambda>(k, v). json_wf v) s"
      using rates [THEN rate_double]
      by (simp add: s0(2) s extras_def wf_count_items count_values_distinct merge_counts_distinct
          infra_breakdown_distinct concurrency_wf [OF sched] list_all_iff)
    ultimately show ?thesis by simp
  qed
qed

lemmas summary_wf = summary_wf_keys [THEN conjunct1] and summary_keys = summary_wf_keys [THEN conjunct2]

section \<open>Bounds of the rates\<close>

definition unit_double :: "pyval option \<Rightarrow> bool" where
  "unit_double v = (case v of Some (PFloat q) \<Rightarrow> is_double q \<and> 0 \<le> q \<and> q \<le> 1 | _ \<Rightarrow> False)"

lemma length_filter_filter: "length (filter P (filter Q xs)) \<le> length (filter Q xs)"
  by (rule length_filter_le)

text \<open>
  C23. The numbers of a rendered summary are consistent. Every result is counted under exactly one
  classification, so the counts add up to the total; the completion, canonicalization, baseline and
  preflight rates are doubles between zero and one, and so is the build rate when no stored build
  summary replaces the count; and the trace rate is zero or one, since a row counts as completed
  only when the very files are there that the rate asks for again.
\<close>

theorem summary_rates_bounded:
  assumes "build_rendered_summary base_dir rd cfg campaign st = Inr s"
  shows "(\<exists>counts. dict_get ''classification_counts'' s = Some (count_items counts) \<and>
      dict_get ''total'' s = Some (PInt (int (sum_list (map snd counts))))) \<and>
    (\<forall>k \<in> {''dual_execution_completion_rate'', ''canonicalization_success_rate'', ''baseline_invalid_rate'',
      ''scml_preflight_pass_rate''}. unit_double (dict_get k s)) \<and>
    (st (pjoin rd ''build-summary.json'') = None \<longrightarrow> unit_double (dict_get ''build_success_rate'' s)) \<and>
    dict_get ''trace_generation_success_rate'' s \<in> {Some (PFloat 0), Some (PFloat 1)}"
proof -
  obtain s0 e where s0: "summary_fields base_dir rd cfg campaign st = Inr s0" "s = s0 @ e"
    using signoff_steps [OF assms] by metis
  show ?thesis
    using s0(1)
  proof (rule summary_fields_steps)
    fix results built classes rejections scheduler_summary selected eligible
      build_rate dual_rate trace_rate canonical_rate invalid invalid_rate preflight_rate imported derived generation
    let ?done = "filter (candidate_trace_completed st) results"
    assume classes: "map_res row_class results = Inr classes" and built: "build_counts rd results st = Inr built"
      and rates: "rate (fst built) (snd built) = Inr build_rate"
        "rate (int (length ?done)) (int (length results)) = Inr dual_rate"
        "rate (int (length ?done)) (int (length ?done)) = Inr trace_rate"
        "rate (int (length (filter (trace_present st canonical_of) ?done))) (int (length ?done)) = Inr canonical_rate"
        "rate (int (count_list classes invalid)) (int (length results)) = Inr invalid_rate"
        "rate (int (length results)) (int (length results) + int (length rejections)) = Inr preflight_rate"
      and s: "s0 = [(''campaign'', PStr selected), (''workflow'', PStr (workflow_name cfg)), (''total'', PInt (int (length results))),
       (''classification_counts'', count_items (count_values classes)),
       (''scml_result_counts'', count_items (merge_scml_result_counts results rejections)),
       (''scml_rejected_count'', PInt (int (length rejections))),
       (''eligible_program_count'', PInt (int eligible)),
       (''build_success_rate'', PFloat build_rate),
       (''dual_execution_completion_rate'', PFloat dual_rate),
       (''trace_generation_success_rate'', PFloat trace_rate),
       (''canonicalization_success_rate'', PFloat canonical_rate),
       (''baseline_invalid_rate'', PFloat invalid_rate),
       (''scml_preflight_pass_rate'', PFloat preflight_rate),
       (''candidate_runner_kinds'', PList (map PStr (run_names ''runner_kind'' (candidate_runs_of results)))),
       (''candidate_kernel_builds'', PList (map PStr (run_names ''kernel_build'' (candidate_runs_of results)))),
       (''concurrency_breakdown'', concurrency_breakdown (opt_default (PDict []) scheduler_summary) (length results) (candidate_runs_of results)),
       (''infra_error_breakdown'', count_items (infra_error_breakdown (candidate_runs_of results)))] @
       opt_item ''import_success_rate'' imported @ opt_item ''derivation_success_rate'' derived @ generation"
    have n: "length classes = length results" using classes by (rule map_res_length)
    have "int (length ?done) \<le> int (length results)" "int (count_list classes invalid) \<le> int (length results)"
      "int (length (filter (trace_present st canonical_of) ?done)) \<le> int (length ?done)"
      using count_le_length [of classes invalid] n by (simp_all add: length_filter_filter del: filter_filter)
    then have unit: "unit_double (Some (PFloat q))" if "q \<in> {dual_rate, canonical_rate, invalid_rate, preflight_rate}" for q
      using that rates [THEN rate_double] rate_unit [OF _ _ rates(2)] rate_unit [OF _ _ rates(4)]
        rate_unit [OF _ _ rates(5)] rate_unit [OF _ _ rates(6)] by (auto simp: unit_double_def)
    have "unit_double (Some (PFloat build_rate))" if "st (pjoin rd ''build-summary.json'') = None"
    proof -
      have "0 \<le> fst built \<and> fst built \<le> snd built"
        using built that by (auto simp: build_counts_def load_report_def Let_def)
      then show ?thesis using rate_unit [OF _ _ rates(1)] rate_double [OF rates(1)] by (simp add: unit_double_def)
    qed
    moreover have "trace_rate \<in> {0, 1}" using rate_same [OF rates(3)] by auto
    moreover have "sum_list (map snd (count_values classes)) = length results" by (simp add: count_values_sum n)
    ultimately show ?thesis using unit
      by (simp add: s0(2) s dict_get_Cons) (metis)
  qed
qed

section \<open>Sign-off and gate\<close>

text \<open>A threshold or metric that both programs read as the same number.\<close>

definition plain :: "pyval \<Rightarrow> rat \<Rightarrow> bool" where
  "plain v x \<longleftrightarrow> v = PFloat x \<or> (\<exists>i. v = PInt i \<and> x = of_int i \<and> \<bar>i\<bar> \<le> 2 ^ 53)"

lemma plain_int: "\<bar>i\<bar> \<le> 2 ^ 53 \<Longrightarrow> plain (PInt i) (of_int i)"
  and plain_double: "plain (PFloat x) x"
  by (auto simp: plain_def)

lemma plain_number: "plain v x \<Longrightarrow> number v = Inr x"
  by (auto simp: plain_def number_def)

lemma finite_small: "\<bar>i\<bar> \<le> 2 ^ 53 \<Longrightarrow> finite_double (of_int i)"
proof -
  assume "\<bar>i\<bar> \<le> 2 ^ 53"
  then have "(of_int \<bar>i\<bar> :: rat) \<le> of_int (2 ^ 53)" by (simp only: of_int_le_iff)
  then show ?thesis by (simp add: finite_double_def)
qed

lemma plain_float: "plain v x \<Longrightarrow> py_float v = Inr x"
  by (auto simp: plain_def py_float_def py_float_of_int_def finite_small)

lemma plain_sorted [simp]: "plain v x \<Longrightarrow> sort_dicts v = v"
  by (auto simp: plain_def)

lemma plain_metric:
  assumes "dict_get m (items summary) = Some v" "plain v x"
  shows "summary_metric summary m = Inr (Some x)"
  using assms plain_float [OF assms(2)] by (auto simp: summary_metric_def plain_def)

lemma gate_step:
  assumes "dict_get m (items summary) = Some v" "plain v x" "dict_get k THRESHOLD_RULES = Some (rule, m)" "plain b y"
  obtains fs where "threshold_failure summary (k, b) = Inr fs" "fs = [] \<longleftrightarrow> (if rule = Gte then y \<le> x else x \<le> y)"
  using plain_metric [OF assms(1,2)] plain_float [OF assms(4)] assms(3)
  by (cases rule) (auto simp: threshold_failure_def)

definition numeric :: "pyval \<Rightarrow> string \<Rightarrow> bool" where
  "numeric summary m \<longleftrightarrow> (\<exists>v x. dict_get m (items summary) = Some v \<and> plain v x)"

lemma numericI: "dict_get m (items summary) = Some v \<Longrightarrow> plain v x \<Longrightarrow> numeric summary m"
  by (auto simp: numeric_def)

text \<open>A check of the sign-off and the gate's test of the same key.\<close>

definition gate_passes :: "pyval \<Rightarrow> (string \<times> pyval) list \<Rightarrow> string \<Rightarrow> bool" where
  "gate_passes summary kvs k \<longleftrightarrow> (\<forall>b. dict_get k kvs = Some b \<longrightarrow> threshold_failure summary (k, b) = Inr [])"

definition all_plain :: "(string \<times> pyval) list \<Rightarrow> bool" where
  "all_plain kvs \<longleftrightarrow> (\<forall>k b. dict_get k kvs = Some b \<longrightarrow> dict_get k THRESHOLD_RULES \<noteq> None \<longrightarrow> (\<exists>y. plain b y))"

lemma gte_check:
  assumes "dict_get m s = Some v" "plain v x" "dict_get m (items summary) = Some v"
    and "dict_get k THRESHOLD_RULES = Some (Gte, m)" "all_plain kvs" "number d = Inr 0" "0 \<le> x"
  shows "at_least (py_get m PNone (PDict s)) (py_get k d (PDict kvs)) = Inr (gate_passes summary kvs k)"
proof (cases "dict_get k kvs")
  case None
  with assms show ?thesis by (simp add: at_least_def py_get_PDict plain_number gate_passes_def)
next
  case (Some b)
  with assms(4,5) obtain y where y: "plain b y" unfolding all_plain_def by (metis option.distinct(1))
  from gate_step [OF assms(3,2,4) y] obtain fs where
    "threshold_failure summary (k, b) = Inr fs" "fs = [] \<longleftrightarrow> y \<le> x" by auto
  with assms y Some show ?thesis by (simp add: at_least_def py_get_PDict plain_number gate_passes_def)
qed

lemma lte_check:
  assumes "dict_get m s = Some v" "plain v x" "dict_get m (items summary) = Some v"
    and "dict_get k THRESHOLD_RULES = Some (Lte, m)" "all_plain kvs" "number d = Inr 1" "x \<le> 1"
    and "number (py_get k d (PDict kvs)) = Inr bound"
  shows "below (py_get m PNone (PDict s)) (py_get k d (PDict kvs)) = Inr (gate_passes summary kvs k \<and> x \<noteq> bound)"
proof (cases "dict_get k kvs")
  case None
  with assms show ?thesis by (auto simp: below_def py_get_PDict plain_number gate_passes_def)
next
  case (Some b)
  with assms(4,5) obtain y where y: "plain b y" unfolding all_plain_def by (metis option.distinct(1))
  from gate_step [OF assms(3,2,4) y] obtain fs where
    fs: "threshold_failure summary (k, b) = Inr fs" "fs = [] \<longleftrightarrow> x \<le> y" by auto
  have "bound = y" using assms(8) y Some by (simp add: py_get_PDict plain_number)
  with fs assms y Some show ?thesis by (auto simp: below_def py_get_PDict plain_number gate_passes_def)
qed

text \<open>The gate has no failure exactly when every key passes.\<close>

lemma threshold_failures_pass:
  assumes "distinct (map fst kvs)"
    and "\<And>k b. (k, b) \<in> set kvs \<Longrightarrow> \<exists>fs. threshold_failure summary (k, b) = Inr fs"
  obtains fs where "threshold_failures (PDict kvs) summary minimized = Inr fs"
    "fs = [] \<longleftrightarrow> list_all (\<lambda>r. gate_passes summary kvs (fst r)) THRESHOLD_RULES \<and>
       (truthy (py_get ''require_minimized_report'' PNone (PDict kvs)) \<longrightarrow> minimized)"
proof -
  define g where "g = (\<lambda>kb. projr (threshold_failure summary kb))"
  have g: "threshold_failure summary kb = Inr (g kb)" if "kb \<in> set kvs" for kb
    using assms(2) [of "fst kb" "snd kb"] that by (auto simp: g_def)
  then have run: "map_res (threshold_failure summary) kvs = Inr (map g kvs)" by (rule map_res_Inr)
  have mem: "dict_get k kvs = Some b \<longleftrightarrow> (k, b) \<in> set kvs" for k b
    using assms(1) by (simp add: dict_get_def)
  have "concat (map g kvs) = [] \<longleftrightarrow> (\<forall>kb \<in> set kvs. threshold_failure summary kb = Inr [])"
    using g by auto
  also have "\<dots> \<longleftrightarrow> (\<forall>k. gate_passes summary kvs k)" by (auto simp: gate_passes_def mem)
  also have "\<dots> \<longleftrightarrow> list_all (\<lambda>r. gate_passes summary kvs (fst r)) THRESHOLD_RULES"
  proof -
    have "gate_passes summary kvs k" if "dict_get k THRESHOLD_RULES = None" for k
      using that by (simp add: gate_passes_def threshold_failure_def)
    moreover have "dict_get k THRESHOLD_RULES = Some r \<Longrightarrow> (k, r) \<in> set THRESHOLD_RULES" for k r
      by (auto simp: dict_get_def dest: map_of_SomeD)
    ultimately show ?thesis unfolding list_all_iff by (metis fst_conv option.exhaust)
  qed
  finally show ?thesis using run
    by (intro that [of "concat (map g kvs) @ (if truthy (py_get ''require_minimized_report'' PNone (PDict kvs)) \<and> \<not> minimized
       then [''require_minimized_report: minimized-report.json is missing''] else [])"])
      (simp_all add: threshold_failures_def del: concat_eq_Nil_conv)
qed

text \<open>What the sign-off reads of a summary, as numbers.\<close>

definition metrics :: "(string \<times> pyval) list \<Rightarrow> nat \<Rightarrow> nat \<Rightarrow> rat \<Rightarrow> rat \<Rightarrow> rat \<Rightarrow> rat \<Rightarrow> rat \<Rightarrow> bool" where
  "metrics s n e b d t q i \<longleftrightarrow> dict_get ''total'' s = Some (PInt (int n)) \<and>
     dict_get ''eligible_program_count'' s = Some (PInt (int e)) \<and> dict_get ''build_success_rate'' s = Some (PFloat b) \<and>
     dict_get ''dual_execution_completion_rate'' s = Some (PFloat d) \<and>
     dict_get ''trace_generation_success_rate'' s = Some (PFloat t) \<and>
     dict_get ''canonicalization_success_rate'' s = Some (PFloat q) \<and> dict_get ''baseline_invalid_rate'' s = Some (PFloat i) \<and>
     0 \<le> d \<and> 0 \<le> t \<and> 0 \<le> q \<and> i \<le> 1 \<and>
     (dict_get ''import_success_rate'' s = None \<or> (\<exists>x. dict_get ''import_success_rate'' s = Some (PFloat x)))"

lemma metricsD:
  assumes "metrics s n e b d t q i"
  shows "dict_get ''total'' s = Some (PInt (int n))" "dict_get ''eligible_program_count'' s = Some (PInt (int e))"
    "dict_get ''build_success_rate'' s = Some (PFloat b)" "dict_get ''dual_execution_completion_rate'' s = Some (PFloat d)"
    "dict_get ''trace_generation_success_rate'' s = Some (PFloat t)"
    "dict_get ''canonicalization_success_rate'' s = Some (PFloat q)" "dict_get ''baseline_invalid_rate'' s = Some (PFloat i)"
    "0 \<le> d" "0 \<le> t" "0 \<le> q" "i \<le> 1"
    "dict_get ''import_success_rate'' s = None \<or> (\<exists>x. dict_get ''import_success_rate'' s = Some (PFloat x))"
  using assms unfolding metrics_def by (simp_all only: simp_thms)

lemma summary_metrics:
  assumes "summary_fields base_dir rd cfg campaign st = Inr s0"
  obtains n e b d t q i where "metrics s0 n e b d t q i"
  using assms
proof (rule summary_fields_steps)
  fix results built classes rejections scheduler_summary selected eligible
    build_rate dual_rate trace_rate canonical_rate invalid invalid_rate preflight_rate imported derived generation
  let ?done = "filter (candidate_trace_completed st) results"
  assume classes: "map_res row_class results = Inr classes"
    and rates: "rate (int (length ?done)) (int (length results)) = Inr dual_rate"
      "rate (int (length ?done)) (int (length ?done)) = Inr trace_rate"
      "rate (int (length (filter (trace_present st canonical_of) ?done))) (int (length ?done)) = Inr canonical_rate"
      "rate (int (count_list classes invalid)) (int (length results)) = Inr invalid_rate"
    and gen: "generation_fields base_dir rd cfg st = Inr generation"
    and s: "s0 = [(''campaign'', PStr selected), (''workflow'', PStr (workflow_name cfg)), (''total'', PInt (int (length results))),
       (''classification_counts'', count_items (count_values classes)),
       (''scml_result_counts'', count_items (merge_scml_result_counts results rejections)),
       (''scml_rejected_count'', PInt (int (length rejections))),
       (''eligible_program_count'', PInt (int eligible)),
       (''build_success_rate'', PFloat build_rate),
       (''dual_execution_completion_rate'', PFloat dual_rate),
       (''trace_generation_success_rate'', PFloat trace_rate),
       (''canonicalization_success_rate'', PFloat canonical_rate),
       (''baseline_invalid_rate'', PFloat invalid_rate),
       (''scml_preflight_pass_rate'', PFloat preflight_rate),
       (''candidate_runner_kinds'', PList (map PStr (run_names ''runner_kind'' (candidate_runs_of results)))),
       (''candidate_kernel_builds'', PList (map PStr (run_names ''kernel_build'' (candidate_runs_of results)))),
       (''concurrency_breakdown'', concurrency_breakdown (opt_default (PDict []) scheduler_summary) (length results) (candidate_runs_of results)),
       (''infra_error_breakdown'', count_items (infra_error_breakdown (candidate_runs_of results)))] @
       opt_item ''import_success_rate'' imported @ opt_item ''derivation_success_rate'' derived @ generation"
  have n: "length classes = length results" using classes by (rule map_res_length)
  have le: "int (length ?done) \<le> int (length results)" "int (count_list classes invalid) \<le> int (length results)"
    "int (length (filter (trace_present st canonical_of) ?done)) \<le> int (length ?done)"
    using count_le_length [of classes invalid] n by (simp_all add: length_filter_filter del: filter_filter)
  note unit = rate_unit [OF _ le(1) rates(1)] rate_unit [OF _ order_refl rates(2)] rate_unit [OF _ le(3) rates(3)]
    rate_unit [OF _ le(2) rates(4)]
  have "dict_get ''import_success_rate'' (opt_item ''derivation_success_rate'' derived @ generation) = None"
    using generation_fields_keys(1) [OF gen]
    by (auto simp: dict_get_None_iff dict_keys_def opt_item_def split: option.splits)
  then have "dict_get ''import_success_rate'' s0 = None \<or> (\<exists>x. dict_get ''import_success_rate'' s0 = Some (PFloat x))"
    unfolding summary_lookups(11) [OF s] by (cases imported) (simp_all add: opt_item_def dict_get_Cons)
  then show thesis
    by (intro that [of "length results" eligible build_rate dual_rate trace_rate canonical_rate invalid_rate])
      (simp only: metrics_def summary_lookups(2-10) [OF s] unit simp_thms)
qed

lemma rules:
  "dict_get ''build_success_rate'' THRESHOLD_RULES = Some (Gte, ''build_success_rate'')"
  "dict_get ''dual_execution_completion_rate'' THRESHOLD_RULES = Some (Gte, ''dual_execution_completion_rate'')"
  "dict_get ''trace_success_rate'' THRESHOLD_RULES = Some (Gte, ''trace_generation_success_rate'')"
  "dict_get ''canonical_success_rate'' THRESHOLD_RULES = Some (Gte, ''canonicalization_success_rate'')"
  "dict_get ''baseline_invalid_rate'' THRESHOLD_RULES = Some (Lte, ''baseline_invalid_rate'')"
  "dict_get ''total_min'' THRESHOLD_RULES = Some (Gte, ''total'')"
  "dict_get ''eligible_program_count_min'' THRESHOLD_RULES = Some (Gte, ''eligible_program_count'')"
  "dict_get ''import_success_rate'' THRESHOLD_RULES = Some (Gte, ''import_success_rate'')"
  by (simp_all add: THRESHOLD_RULES_def dict_get_Cons)

lemma rule_cases:
  assumes "dict_get k THRESHOLD_RULES = Some (r, m)"
  shows "m = k \<and> k = ''import_success_rate'' \<or> m \<in> {''build_success_rate'', ''dual_execution_completion_rate'',
    ''trace_generation_success_rate'', ''canonicalization_success_rate'', ''baseline_invalid_rate'', ''total'',
    ''eligible_program_count''}"
proof -
  have "(k, r, m) \<in> set THRESHOLD_RULES" using assms by (auto simp: dict_get_def dest: map_of_SomeD)
  then show ?thesis
    unfolding THRESHOLD_RULES_def list.set insert_iff empty_iff prod.inject
    by (elim disjE conjE FalseE; hypsubst; simp only: simp_thms)
qed

text \<open>Every threshold the gate knows finds its number, so the gate comes to an end.\<close>

lemma gate_total:
  assumes "metrics (items summary) n e b d t q i" "int n \<le> 2 ^ 53" "int e \<le> 2 ^ 53" "all_plain kvs" "distinct (map fst kvs)"
    and imported: "dict_get ''import_success_rate'' kvs = None \<or> dict_get ''import_success_rate'' (items summary) \<noteq> None"
  obtains fs where "threshold_failures (PDict kvs) summary mini = Inr fs"
    "fs = [] \<longleftrightarrow> list_all (\<lambda>r. gate_passes summary kvs (fst r)) THRESHOLD_RULES \<and>
       (truthy (py_get ''require_minimized_report'' PNone (PDict kvs)) \<longrightarrow> mini)"
proof (rule threshold_failures_pass [OF assms(5)])
  note m = metricsD [OF assms(1)]
  have pn: "plain (PInt (int n)) (of_int (int n))" "plain (PInt (int e)) (of_int (int e))"
    using assms(2,3) by (intro plain_int; simp)+
  note numerics = m(1) [THEN numericI, OF pn(1)] m(2) [THEN numericI, OF pn(2)] m(3-7) [THEN numericI, OF plain_double]
  have metric: "numeric summary m" if "dict_get k THRESHOLD_RULES = Some (r, m)" "dict_get k kvs \<noteq> None" for k r m
    using rule_cases [OF that(1)]
  proof
    assume "m = k \<and> k = ''import_success_rate''"
    then show ?thesis using imported m(12) that(2) numericI plain_double by (metis option.distinct(1))
  next
    assume "m \<in> {''build_success_rate'', ''dual_execution_completion_rate'',
      ''trace_generation_success_rate'', ''canonicalization_success_rate'', ''baseline_invalid_rate'', ''total'',
      ''eligible_program_count''}"
    then show ?thesis unfolding insert_iff empty_iff by (elim disjE FalseE) (simp_all only: numerics)
  qed
  show "\<exists>fs. threshold_failure summary (k, b) = Inr fs" if "(k, b) \<in> set kvs" for k b
  proof (cases "dict_get k THRESHOLD_RULES")
    case None
    then show ?thesis by (simp add: threshold_failure_def)
  next
    case (Some rm)
    obtain r m where rm: "rm = (r, m)" by (cases rm)
    have kb: "dict_get k kvs = Some b" using assms(5) that by (simp add: dict_get_def)
    then obtain y where y: "plain b y" using assms(4) Some unfolding all_plain_def by (metis option.distinct(1))
    obtain v x where "dict_get m (items summary) = Some v" "plain v x"
      using metric [of k r m] Some rm kb by (auto simp: numeric_def)
    from gate_step [OF this Some [unfolded rm] y] show ?thesis by metis
  qed
qed

text \<open>The optional check of the import rate.\<close>

lemma import_check:
  assumes "all_plain kvs" "dict_get ''import_success_rate'' kvs \<noteq> None \<Longrightarrow>
      dict_get ''import_success_rate'' s = Some (PFloat x) \<and> dict_get ''import_success_rate'' (items summary) = Some (PFloat x)"
  obtains l where "(case dict_get ''import_success_rate'' (items (PDict kvs)) of None \<Rightarrow> Inr []
      | Some b \<Rightarrow> bind (at_least (py_get ''import_success_rate'' (fraction 0) (PDict s)) b) (\<lambda>c. Inr [c])) = Inr l"
    "list_all id l \<longleftrightarrow> gate_passes summary kvs ''import_success_rate''"
proof (cases "dict_get ''import_success_rate'' kvs")
  case None
  then show thesis by (intro that [of "[]"]) (simp_all add: gate_passes_def)
next
  case (Some b)
  then obtain y where y: "plain b y" using assms(1) rules(8) unfolding all_plain_def by (metis option.distinct(1))
  have x: "dict_get ''import_success_rate'' s = Some (PFloat x)"
    "dict_get ''import_success_rate'' (items summary) = Some (PFloat x)" using assms(2) Some by auto
  from gate_step [OF x(2) plain_double rules(8) y] obtain fs where
    "threshold_failure summary (''import_success_rate'', b) = Inr fs" "fs = [] \<longleftrightarrow> y \<le> x" by auto
  with Some y x show thesis
    by (intro that [of "[y \<le> x]"]) (simp_all add: at_least_def py_get_PDict plain_number [OF plain_double] plain_number gate_passes_def)
qed

text \<open>The sign-off over the fields of a summary and the gate over the stored one, check by check.\<close>

lemma signoff_total:
  assumes "metrics s n e b d t q i" "metrics (items summary) n e b d t q i" "int n \<le> 2 ^ 53" "int e \<le> 2 ^ 53" "0 \<le> b"
    and "all_plain kvs" "number (py_get ''baseline_invalid_rate'' (fraction 1) (PDict kvs)) = Inr bound"
    and "dict_get ''import_success_rate'' kvs \<noteq> None \<Longrightarrow>
      dict_get ''import_success_rate'' s = Some (PFloat x) \<and> dict_get ''import_success_rate'' (items summary) = Some (PFloat x)"
    and run: "signoff_checks s (PDict kvs) mini = Inr checks"
  shows "list_all id checks \<longleftrightarrow> list_all (\<lambda>r. gate_passes summary kvs (fst r)) THRESHOLD_RULES \<and>
       (truthy (py_get ''require_minimized_report'' PNone (PDict kvs)) \<longrightarrow> mini) \<and> i \<noteq> bound"
proof -
  note raw = metricsD [OF assms(1)] and m = metricsD [OF assms(2)]
  have pn: "plain (PInt (int n)) (of_int (int n))" "plain (PInt (int e)) (of_int (int e))"
    using assms(3,4) by (intro plain_int; simp)+
  have zero: "number (fraction 0) = Inr 0" "number (PInt 0) = Inr 0" "number (fraction 1) = Inr 1"
    by (simp_all add: number_def fraction_def)
  have pos: "(0 :: rat) \<le> of_int (int n)" "(0 :: rat) \<le> of_int (int e)" by simp_all
  note checked = gte_check [OF raw(3) plain_double m(3) rules(1) assms(6) zero(1) assms(5)]
    gte_check [OF raw(4) plain_double m(4) rules(2) assms(6) zero(1) raw(8)]
    gte_check [OF raw(5) plain_double m(5) rules(3) assms(6) zero(1) raw(9)]
    gte_check [OF raw(6) plain_double m(6) rules(4) assms(6) zero(1) raw(10)]
    lte_check [OF raw(7) plain_double m(7) rules(5) assms(6) zero(3) raw(11) assms(7)]
    gte_check [OF raw(1) pn(1) m(1) rules(6) assms(6) zero(2) pos(1)]
    gte_check [OF raw(2) pn(2) m(2) rules(7) assms(6) zero(2) pos(2)]
  obtain l where l: "(case dict_get ''import_success_rate'' (items (PDict kvs)) of None \<Rightarrow> Inr []
      | Some b \<Rightarrow> bind (at_least (py_get ''import_success_rate'' (fraction 0) (PDict s)) b) (\<lambda>c. Inr [c])) = Inr l"
    "list_all id l \<longleftrightarrow> gate_passes summary kvs ''import_success_rate''"
    using import_check [OF assms(6,8)] by blast
  show ?thesis
    using run unfolding signoff_checks_def Let_def checked l(1) bind_Inr by (auto simp: THRESHOLD_RULES_def l(2))
qed

text \<open>
  C22. The sign-off recorded in a summary and the release gate over the stored summary agree, with
  one exception at a boundary: with the same thresholds, the sign-off is given exactly when the gate
  passes and the rate of invalid baselines is not equal to its bound (one, when there is none), for
  the sign-off demands less than the bound and the gate no more than it. Thresholds are doubles or
  integers of at most 53 bits, a build rate is not negative, and a threshold on the import rate
  comes with an import report.
\<close>

theorem signoff_matches_gate:
  assumes "build_rendered_summary base_dir rd cfg campaign st = Inr s"
    and "dict_get ''campaign'' s = Some (PStr c)" "gate = (if c = ''full'' then ''signoff'' else ''smoke'')"
    and "py_get gate PNone (py_get ''thresholds'' (PDict []) cfg) = PDict kvs" "distinct (map fst kvs)" "all_plain kvs"
    and "dict_get ''total'' s = Some (PInt n)" "n \<le> 2 ^ 53"
      "dict_get ''eligible_program_count'' s = Some (PInt e)" "e \<le> 2 ^ 53"
    and "dict_get ''build_success_rate'' s = Some (PFloat b)" "0 \<le> b"
    and "dict_get ''import_success_rate'' kvs = None \<or> dict_get ''import_success_rate'' s \<noteq> None"
    and "dict_get ''baseline_invalid_rate'' s = Some (PFloat i)"
      "number (py_get ''baseline_invalid_rate'' (PFloat 1) (PDict kvs)) = Inr bound"
    and "file = pjoin rd ''summary.json''"
  shows "dict_get ''signoff_pass'' s = Some (PBool True) \<longleftrightarrow>
    check_workflow_thresholds cfg gate file (dump_json file (PDict s) st) = Inr () \<and> i \<noteq> bound"
proof -
  obtain s0 thresholds checks where s0: "summary_fields base_dir rd cfg campaign st = Inr s0"
    "thresholds_for cfg (py_get ''campaign'' PNone (PDict s0)) = Inr thresholds"
    "signoff_checks s0 thresholds (path_exists st (pjoin rd ''minimized-report.json'')) = Inr checks"
    "s = s0 @ [(''signoff_pass'', PBool (list_all id checks))]" using signoff_steps [OF assms(1)] .
  note wf = summary_wf [OF assms(1)]
  have get: "dict_get k s = dict_get k s0" if "k \<noteq> ''signoff_pass''" for k
    using that by (simp add: s0(4) dict_get_def map_add_def split: option.splits)
  have "''signoff_pass'' \<notin> fst ` set s0" using wf by (simp add: s0(4))
  then have "dict_get ''signoff_pass'' s0 = None" by (simp add: dict_get_def map_of_eq_None_iff)
  then have signed: "dict_get ''signoff_pass'' s = Some (PBool (list_all id checks))"
    by (simp add: s0(4) dict_get_def map_add_def)
  have key: "PStr c = PStr ''full'' \<longleftrightarrow> c = ''full''" by simp
  have camp: "py_get ''campaign'' PNone (PDict s0) = PStr c" using assms(2) by (simp add: get py_get_PDict)
  have th: "thresholds = PDict kvs"
    using s0(2) assms(4) unfolding camp thresholds_for_def key assms(3) [symmetric]
    by (elim bind_InrE) (auto simp: py_item_ok py_get_PDict)
  define summary where "summary = sort_dicts (PDict s)"
  define mini where "mini = path_exists st (pjoin rd ''minimized-report.json'')"
  have load: "load_json file (dump_json file (PDict s) st) = Inr summary"
    unfolding summary_def by (rule load_dump_json [OF wf])
  have stored: "dict_get k (items summary) = map_option sort_dicts (dict_get k s)" for k
    using sort_dicts_get [OF wf, of k] by (simp add: summary_def)
  have other: "path_exists (dump_json file (PDict s) st) (with_name file ''minimized-report.json'') = mini"
    by (simp add: path_exists_def mini_def assms(16) dump_json_def pjoin_def with_name_def)
  obtain n' e' b' d t q i' where raw: "metrics s0 n' e' b' d t q i'" by (rule summary_metrics [OF s0(1)])
  note raws = metricsD [OF raw]
  have eqs: "n = int n'" "e = int e'" "b = b'" "i = i'" using raws(1,2,3,7) assms(7,9,11,14) by (simp_all add: get)
  have small: "int n' \<le> 2 ^ 53" "int e' \<le> 2 ^ 53" "0 \<le> b'" using assms(8,10,12) eqs by simp_all
  have look: "dict_get k (items summary) = map_option sort_dicts (dict_get k s0)" if "k \<noteq> ''signoff_pass''" for k
    using that by (simp add: stored get)
  have saved: "metrics (items summary) n' e' b' d t q i'"
    using raws unfolding metrics_def by (auto simp: look)
  have imported: "dict_get ''import_success_rate'' kvs = None \<or> dict_get ''import_success_rate'' (items summary) \<noteq> None"
    using assms(13) by (auto simp: look get)
  obtain x where x: "dict_get ''import_success_rate'' kvs \<noteq> None \<Longrightarrow> dict_get ''import_success_rate'' s0 = Some (PFloat x) \<and>
      dict_get ''import_success_rate'' (items summary) = Some (PFloat x)"
    using raws(12) assms(13) by (auto simp: look get)
  obtain fs where fs: "threshold_failures (PDict kvs) summary mini = Inr fs"
    "fs = [] \<longleftrightarrow> list_all (\<lambda>r. gate_passes summary kvs (fst r)) THRESHOLD_RULES \<and>
       (truthy (py_get ''require_minimized_report'' PNone (PDict kvs)) \<longrightarrow> mini)"
    using gate_total [OF saved small(1,2) assms(6,5) imported] by metis
  have gate: "check_workflow_thresholds cfg gate file (dump_json file (PDict s) st) = Inr () \<longleftrightarrow> fs = []"
    by (simp add: check_workflow_thresholds_def assms(4) load other fs(1))
  have "list_all id checks \<longleftrightarrow> fs = [] \<and> i' \<noteq> bound"
    using signoff_total [OF raw saved small assms(6) _ x s0(3) [unfolded th mini_def [symmetric]], of bound] assms(15) fs(2)
    by (simp add: fraction_def)
  with signed gate eqs(4) show ?thesis by simp
qed

section \<open>A campaign of one program\<close>

definition report_cfg :: pyval where
  "report_cfg = PDict [(''workflow'', PStr ''w''), (''paths'', PDict [(''eligible_file'', PStr ''e'')]),
     (''classification'', PDict [(''baseline_invalid'', PStr ''BASELINE_INVALID''), (''no_diff'', PStr ''NO_DIFF''),
       (''bug_likely'', PStr ''BUG_LIKELY''), (''weak_spec_or_env_noise'', PStr ''NOISE''),
       (''unsupported_feature'', PStr ''UNSUPPORTED'')]),
     (''thresholds'', PDict [(''smoke'', PDict [(''total_min'', PInt 1), (''build_success_rate'', PFloat (1/2))])])]"

definition report_row :: pyval where
  "report_row = PDict [(''classification'', PStr ''NO_DIFF'')]"

text \<open>The inputs of its reports; the summary of the scheduler may be there or not.\<close>

definition demo_inputs :: "store \<Rightarrow> bool" where
  "demo_inputs st \<longleftrightarrow> st (pjoin ''r'' ''e'') = Some [] \<and>
     st (pjoin ''r'' ''campaign-results.jsonl'') = Some (concat (map (\<lambda>row. json_dumps False row @ newline) [report_row])) \<and>
     (\<forall>f \<in> {''build-summary.json'', ''scml-rejections.jsonl'', ''import-summary.json'', ''derivation-summary.json'',
       ''generation-summary.json'', ''minimized-report.json''}. st (pjoin ''r'' f) = None)"

definition demo_reports :: store where
  "demo_reports = (dump_jsonl (pjoin ''r'' ''campaign-results.jsonl'') [report_row] (\<lambda>_. None)) (pjoin ''r'' ''e'' := Some [])"

lemma demo_reports_inputs: "demo_inputs demo_reports" "load_report ''r'' ''summary.json'' demo_reports = Inr None"
  by (simp_all add: demo_inputs_def demo_reports_def dump_jsonl_def pjoin_def load_report_def)

lemma demo_inputsD:
  assumes "demo_inputs st"
  shows "st (pjoin ''r'' ''e'') = Some []" "st (pjoin ''r'' ''build-summary.json'') = None" "st (pjoin ''r'' ''scml-rejections.jsonl'') = None"
    "st (pjoin ''r'' ''import-summary.json'') = None" "st (pjoin ''r'' ''derivation-summary.json'') = None"
    "st (pjoin ''r'' ''generation-summary.json'') = None" "st (pjoin ''r'' ''minimized-report.json'') = None"
  using assms by (simp_all add: demo_inputs_def)

lemma demo_facts:
  assumes "demo_inputs st"
  shows "build_counts ''r'' [report_row] st = Inr (1, 1)"
    "selected_campaign ''r'' (Some ''smoke'') st = Inr ''smoke''"
    "count_eligible_programs ''r'' report_cfg st = Inr 0"
    "label_for report_cfg ''baseline_invalid'' [report_row] = Inr ''BASELINE_INVALID''"
    "import_rate ''r'' st = Inr None" "derivation_rate ''r'' st = Inr None"
    "generation_fields ''r'' ''r'' report_cfg st = Inr []"
    "row_class report_row = Inr ''NO_DIFF''"
    "candidate_trace_completed st report_row \<longleftrightarrow> False"
    "candidate_run_record report_row = Inr ()"
  by (simp_all add: load_report_def import_rate_def derivation_rate_def generation_fields_def build_counts_def
      selected_campaign_def count_eligible_programs_def label_for_def label_of_def row_class_def candidate_trace_completed_def candidate_run_record_def
      demo_inputsD [OF assms] report_row_def report_cfg_def py_item_def str_item_def opt_res_def dict_get_Cons py_get_PDict
      resolve_repo_path_def read_text_def file_lines_def run_trace_path_def)

lemma demo_rates: "rate 1 1 = Inr 1" "rate 0 1 = Inr 0" "rate 0 0 = Inr 0"
  by (simp_all add: rate_def py_truediv_def Let_def finite_double_def)

lemma demo_results:
  assumes "demo_inputs st"
  shows "load_jsonl (pjoin ''r'' ''campaign-results.jsonl'') st = Inr [report_row]"
proof -
  have "load_jsonl (pjoin ''r'' ''campaign-results.jsonl'') st =
      load_jsonl (pjoin ''r'' ''campaign-results.jsonl'') (dump_jsonl (pjoin ''r'' ''campaign-results.jsonl'') [report_row] st)"
    using assms by (simp add: load_jsonl_def read_text_def dump_jsonl_def demo_inputs_def)
  then show ?thesis by (simp add: load_dump_jsonl report_row_def)
qed

lemma demo_thresholds:
  "thresholds_for report_cfg (PStr ''smoke'') = Inr (PDict [(''total_min'', PInt 1), (''build_success_rate'', PFloat (1 / 2))])"
  by (simp add: thresholds_for_def report_cfg_def py_item_def opt_res_def dict_get_Cons)

lemma demo_summary:
  assumes "demo_inputs st" "load_report ''r'' ''summary.json'' st = Inr old"
  obtains s where "build_rendered_summary ''r'' ''r'' report_cfg (Some ''smoke'') st = Inr s"
    "dict_get ''campaign'' s = Some (PStr ''smoke'')" "dict_get ''total'' s = Some (PInt 1)"
    "dict_get ''eligible_program_count'' s = Some (PInt 0)" "dict_get ''build_success_rate'' s = Some (PFloat 1)"
    "dict_get ''baseline_invalid_rate'' s = Some (PFloat 0)" "dict_get ''signoff_pass'' s = Some (PBool True)"
proof -
  note d = demo_facts [OF assms(1)] demo_inputsD [OF assms(1)] demo_rates demo_results [OF assms(1)] demo_thresholds assms(2)
  obtain s0 where s0: "summary_fields ''r'' ''r'' report_cfg (Some ''smoke'') st = Inr s0"
    "dict_get ''campaign'' s0 = Some (PStr ''smoke'')" "dict_get ''total'' s0 = Some (PInt 1)"
    "dict_get ''eligible_program_count'' s0 = Some (PInt 0)" "dict_get ''build_success_rate'' s0 = Some (PFloat 1)"
    "dict_get ''dual_execution_completion_rate'' s0 = Some (PFloat 0)"
    "dict_get ''trace_generation_success_rate'' s0 = Some (PFloat 0)"
    "dict_get ''canonicalization_success_rate'' s0 = Some (PFloat 0)"
    "dict_get ''baseline_invalid_rate'' s0 = Some (PFloat 0)" "dict_get ''signoff_pass'' s0 = None"
    by (rule that, simp add: summary_fields_def Let_def d count_values_get) (simp_all add: dict_get_Cons opt_item_def)
  have "build_rendered_summary ''r'' ''r'' report_cfg (Some ''smoke'') st = Inr (s0 @ [(''signoff_pass'', PBool True)])"
    by (simp add: build_rendered_summary_def s0 py_get_PDict d signoff_checks_def dict_get_Cons at_least_def below_def
        number_def fraction_def)
  then show thesis by (rule that) (simp_all add: dict_get_append s0 dict_get_Cons)
qed

lemma summary_rates_bounded_witness:
  "\<exists>s. dict_get ''total'' s = Some (PInt 1) \<and> unit_double (dict_get ''build_success_rate'' s)"
proof -
  obtain s where s: "build_rendered_summary ''r'' ''r'' report_cfg (Some ''smoke'') demo_reports = Inr s"
    "dict_get ''total'' s = Some (PInt 1)" using demo_summary [OF demo_reports_inputs] by metis
  have "demo_reports (pjoin ''r'' ''build-summary.json'') = None" by (rule demo_inputsD [OF demo_reports_inputs(1)])
  then have "unit_double (dict_get ''build_success_rate'' s)"
    by (rule mp [OF conjunct1 [OF conjunct2 [OF conjunct2 [OF summary_rates_bounded [OF s(1)]]]]])
  with s(2) show ?thesis by (intro exI conjI)
qed

lemma signoff_matches_gate_witness:
  "\<exists>s. build_rendered_summary ''r'' ''r'' report_cfg (Some ''smoke'') demo_reports = Inr s \<and>
     check_workflow_thresholds report_cfg ''smoke'' ''r/summary.json'' (dump_json ''r/summary.json'' (PDict s) demo_reports) = Inr ()"
proof -
  obtain s where s: "build_rendered_summary ''r'' ''r'' report_cfg (Some ''smoke'') demo_reports = Inr s"
    "dict_get ''campaign'' s = Some (PStr ''smoke'')" "dict_get ''total'' s = Some (PInt 1)"
    "dict_get ''eligible_program_count'' s = Some (PInt 0)" "dict_get ''build_success_rate'' s = Some (PFloat 1)"
    "dict_get ''baseline_invalid_rate'' s = Some (PFloat 0)" "dict_get ''signoff_pass'' s = Some (PBool True)"
    using demo_summary [OF demo_reports_inputs] .
  let ?k = "[(''total_min'', PInt 1), (''build_success_rate'', PFloat (1 / 2))]"
  have "''smoke'' = (if ''smoke'' = ''full'' then ''signoff'' else ''smoke'')" by simp
  moreover have "py_get ''smoke'' PNone (py_get ''thresholds'' (PDict []) report_cfg) = PDict ?k"
    by (simp add: report_cfg_def py_get_PDict dict_get_Cons)
  moreover have "distinct (map fst ?k)" by simp
  moreover have "all_plain ?k" using plain_int [of 1] plain_double by (auto simp: all_plain_def dict_get_Cons)
  moreover have "(1 :: int) \<le> 2 ^ 53" "(0 :: int) \<le> 2 ^ 53" "(0 :: rat) \<le> 1" by simp_all
  moreover have "dict_get ''import_success_rate'' ?k = None \<or> dict_get ''import_success_rate'' s \<noteq> None"
    by (simp add: dict_get_Cons)
  moreover have "number (py_get ''baseline_invalid_rate'' (PFloat 1) (PDict ?k)) = Inr 1"
    by (simp add: py_get_PDict dict_get_Cons number_def)
  moreover have "''r/summary.json'' = pjoin ''r'' ''summary.json''" by (simp add: pjoin_def)
  ultimately show ?thesis
    using s signoff_matches_gate [OF s(1) s(2) _ _ _ _ s(3) _ s(4) _ s(5) _ _ s(6)] by simp
qed
end
