(* ===== verification/Campaign.thy ===== *)
theory Campaign
  imports Signoff
begin

text \<open>
  What \<open>orchestrator/scheduler.py\<close> and \<open>tools/render_summary.py\<close> write after a campaign: the scheduler's
  own summary with its row files, the directory of likely bugs, the rendered summary with its sign-off
  page, and the order in which \<open>write_post_run_reports\<close> writes them, where later files replace earlier
  ones of the same name.
\<close>

section \<open>Likely bugs\<close>

definition load_full_syscall_list :: "store \<Rightarrow> pyval \<Rightarrow> pyval res" where
  "load_full_syscall_list st result =
     (let meta_path = py_get ''meta_path'' PNone result in
      if \<not> truthy meta_path \<or> st (py_str meta_path) = None then Inr (PList [])
      else bind (load_json (py_str meta_path) st) (\<lambda>meta.
        bind (list_of (py_get ''full_syscall_list'' (PList []) meta)) (\<lambda>names. Inr (PList names))))"

text \<open>The path of no file, \<open>Path('')\<close>, is the working directory, which exists and is not copied.\<close>

definition copy_testcase :: "string \<Rightarrow> string \<Rightarrow> store \<Rightarrow> store res" where
  "copy_testcase source target st =
     (if source = [] then Inl (OSErr ''Is a directory'')
      else Inr (case st source of None \<Rightarrow> st | Some t \<Rightarrow> st(target \<mapsto> t)))"

definition event_value :: "pyval option \<Rightarrow> pyval" where
  "event_value e = opt_default PNone e"

definition canonical_path_of_run :: "pyval \<Rightarrow> string" where
  "canonical_path_of_run run = canonical_trace_path_for_run (Some run)"

text \<open>The summary of one likely bug, written below \<open>cases\<close>.\<close>

definition bug_case :: "string \<Rightarrow> store \<Rightarrow> pyval \<Rightarrow> (pyval \<times> pyval \<times> store) res" where
  "bug_case bug_root st result =
     bind (str_item ''program_id'' result) (\<lambda>program_id.
     bind (py_item ''reference_runs'' result) (\<lambda>runs.
     bind (opt_res IndexError (last_item runs)) (\<lambda>reference_run.
     bind (py_item ''candidate_run'' result) (\<lambda>candidate_run.
     bind (canonical_trace_for_run st (Some reference_run)) (\<lambda>reference_canonical.
     bind (canonical_trace_for_run st (Some candidate_run)) (\<lambda>candidate_canonical.
     bind (sched_first_divergence_details st result) (\<lambda>(index, syscall_name).
     bind (sched_event_by_index reference_canonical index) (\<lambda>reference_event.
     bind (sched_event_by_index candidate_canonical index) (\<lambda>candidate_event.
     let copy = pjoin (pjoin bug_root ''testcases'') (program_id @ ''.syz'') in
     bind (copy_testcase (py_str (py_get ''normalized_path'' (PStr []) result)) copy st) (\<lambda>st1.
     bind (row_class result) (\<lambda>classification.
     bind (load_full_syscall_list st1 result) (\<lambda>full_syscall_list.
     let summary = PDict [(''program_id'', PStr program_id), (''classification'', PStr classification),
           (''scml_result_bucket'', py_get ''scml_result_bucket'' PNone result),
           (''normalized_path'', py_get ''normalized_path'' (PStr []) result),
           (''testcase_copy_path'', PStr (if path_exists st1 copy then copy else [])),
           (''full_syscall_list'', full_syscall_list),
           (''first_divergence_index'', index), (''first_divergence_syscall_name'', syscall_name),
           (''reference_event'', event_value reference_event), (''candidate_event'', event_value candidate_event),
           (''reference_console_log_path'', py_get ''console_log_path'' (PStr []) reference_run),
           (''candidate_console_log_path'', py_get ''console_log_path'' (PStr []) candidate_run),
           (''reference_trace_json_path'', py_get ''trace_json_path'' (PStr []) reference_run),
           (''candidate_trace_json_path'', py_get ''trace_json_path'' (PStr []) candidate_run),
           (''reference_canonical_trace_path'', PStr (canonical_path_of_run reference_run)),
           (''candidate_canonical_trace_path'', PStr (canonical_path_of_run candidate_run)),
           (''comparison'', comparison_of result)] in
     Inr (summary, syscall_name, dump_json (pjoin (pjoin (pjoin bug_root ''cases'') program_id) ''summary.json'') summary st1)))))))))))))"

fun bug_cases :: "string \<Rightarrow> pyval list \<Rightarrow> store \<Rightarrow> (pyval list \<times> pyval list \<times> store) res" where
  "bug_cases bug_root [] st = Inr ([], [], st)"
| "bug_cases bug_root (r # rs) st =
     bind (bug_case bug_root st r) (\<lambda>(summary, name, st1).
     bind (bug_cases bug_root rs st1) (\<lambda>(summaries, names, st2).
     Inr (summary # summaries, (if name = PNone then names else name # names), st2)))"

definition bug_lines :: "string \<Rightarrow> nat \<Rightarrow> (string, nat) dict \<Rightarrow> string list" where
  "bug_lines workflow n counts =
     [''# '' @ workflow @ '' bug-likely summary'', [], ''- bug_likely_count: '' @ nat_str n, [],
      ''## first divergence syscall counts''] @ count_lines counts"

definition write_bug_likely_reports :: "string \<Rightarrow> pyval \<Rightarrow> pyval list \<Rightarrow> store \<Rightarrow> store res" where
  "write_bug_likely_reports rd cfg results st =
     bind (label_for cfg ''bug_likely'' results) (\<lambda>label.
     bind (select_rows (\<lambda>c. c = label) results) (\<lambda>rows.
     let bug_root = pjoin rd ''bug_likely'' in
     bind (by_program (map snd rows)) (\<lambda>bugs.
     bind (bug_cases bug_root bugs (clean_dir bug_root st)) (\<lambda>(index_rows, names, st1).
     bind (str_item ''workflow'' cfg) (\<lambda>workflow.
     let counts = count_values (map py_str names);
         summary = PDict [(''workflow'', PStr workflow), (''bug_likely_count'', PInt (int (length rows))),
           (''first_divergence_syscall_counts'', count_items counts)];
         st2 = dump_json (pjoin bug_root ''summary.json'') summary st1;
         st3 = dump_jsonl (pjoin bug_root ''index.jsonl'') index_rows st2 in
     Inr (write_lines (pjoin bug_root ''summary.md'') (bug_lines workflow (length rows) counts) st3))))))"

section \<open>The scheduler's summary\<close>

definition status_ok :: "pyval \<Rightarrow> bool" where
  "status_ok result = (py_get ''status'' PNone (py_get ''candidate_run'' (PDict []) result) = PStr ''ok'')"

definition scheduler_summary ::
  "pyval \<Rightarrow> string \<Rightarrow> pyval \<Rightarrow> int \<Rightarrow> pyval list \<Rightarrow> ((string, nat) dict \<times> rat \<times> rat \<times> pyval) res" where
  "scheduler_summary cfg campaign jobs vms results =
     bind (map_res row_class results) (\<lambda>classes.
     bind (label_for cfg ''baseline_invalid'' results) (\<lambda>invalid.
     let counts = count_values classes; n = int (length results) in
     bind (rate (int (opt_default 0 (dict_get invalid counts))) n) (\<lambda>invalid_rate.
     bind (rate (int (length (filter status_ok results))) n) (\<lambda>dual_rate.
     Inr (counts, invalid_rate, dual_rate,
       PDict [(''campaign'', PStr campaign), (''total'', PInt n), (''classification_counts'', count_items counts),
         (''baseline_invalid_rate'', PFloat invalid_rate), (''dual_execution_completion_rate'', PFloat dual_rate),
         (''jobs'', jobs), (''max_concurrent_vms'', PInt vms)])))))"

definition counter_lines :: "(string, nat) dict \<Rightarrow> string list" where
  "counter_lines counts = map (\<lambda>(k, n). ''- '' @ k @ '': '' @ nat_str n) (sort_key fst counts)"

definition dump_selected :: "string \<Rightarrow> (string \<Rightarrow> bool) \<Rightarrow> pyval list \<Rightarrow> store \<Rightarrow> store res" where
  "dump_selected path P results st = bind (select_rows P results) (\<lambda>rows. Inr (dump_jsonl path (map snd rows) st))"

definition write_summary :: "string \<Rightarrow> pyval \<Rightarrow> string \<Rightarrow> pyval \<Rightarrow> int \<Rightarrow> pyval list \<Rightarrow> store \<Rightarrow> store res" where
  "write_summary rd cfg campaign jobs vms results st =
     bind (scheduler_summary cfg campaign jobs vms results) (\<lambda>(counts, invalid_rate, dual_rate, summary).
     bind (str_item ''workflow'' cfg) (\<lambda>workflow.
     let st1 = dump_json (pjoin rd ''summary.json'') summary st;
         st2 = write_lines (pjoin rd ''summary.md'')
           ([''# '' @ workflow @ '' '' @ campaign @ '' summary'', [], ''- total: '' @ nat_str (length results),
             ''- dual execution completion rate: '' @ fixed3 dual_rate,
             ''- baseline-invalid rate: '' @ fixed3 invalid_rate, [], ''## classification counts''] @ counter_lines counts) st1 in
     bind (label_for cfg ''baseline_invalid'' results) (\<lambda>invalid.
     bind (dump_selected (pjoin rd ''baseline-invalid.jsonl'') (\<lambda>c. c = invalid) results st2) (\<lambda>st3.
     bind (label_for cfg ''bug_likely'' results) (\<lambda>bug.
     bind (label_for cfg ''weak_spec_or_env_noise'' results) (\<lambda>noise.
     bind (dump_selected (pjoin rd ''divergence-index.jsonl'') (\<lambda>c. c \<in> {bug, noise}) results st3) (\<lambda>st4.
     bind (label_for cfg ''unsupported_feature'' results) (\<lambda>unsupported.
     bind (dump_selected (pjoin rd ''unsupported-feature.jsonl'') (\<lambda>c. c = unsupported) results st4)
       (write_bug_likely_reports rd cfg results)))))))))"

section \<open>The rendered pages\<close>

definition fixed_of :: "pyval \<Rightarrow> string" where
  "fixed_of v = (case number v of Inl _ \<Rightarrow> [] | Inr x \<Rightarrow> fixed3 x)"

definition joined :: "pyval \<Rightarrow> string" where
  "joined v = (let t = join '', '' (map py_str (pylist v)) in if t = [] then ''n/a'' else t)"

text \<open>\<open>lines.insert(n, line)\<close>.\<close>

definition insert_line :: "nat \<Rightarrow> 'a \<Rightarrow> 'a list \<Rightarrow> 'a list" where
  "insert_line n x xs = take n xs @ x # drop n xs"

definition bullet :: "string \<Rightarrow> string \<Rightarrow> string" where
  "bullet k t = ''- '' @ k @ '': '' @ t"

definition pair_lines :: "pyval \<Rightarrow> string list" where
  "pair_lines d = map (\<lambda>(k, v). bullet k (py_str v)) (sort_key fst (items d))"

definition GENERATION_KEYS :: "string list" where
  "GENERATION_KEYS = [''profile_enabled_total'', ''targets_with_candidates'', ''targets_without_candidates'',
     ''generation_candidate_count'']"

definition summary_head :: "pyval \<Rightarrow> string list" where
  "summary_head summary =
     (let s = \<lambda>k. py_get k PNone summary; shown = \<lambda>k. bullet k (py_str (s k)); fixed = \<lambda>k. bullet k (fixed_of (s k)) in
      [''# '' @ py_str (s ''workflow'') @ '' '' @ py_str (s ''campaign'') @ '' summary'', [],
       shown ''total'', shown ''eligible_program_count'', fixed ''build_success_rate'', fixed ''scml_preflight_pass_rate'',
       shown ''scml_rejected_count'',
       bullet ''dual execution completion rate'' (fixed_of (s ''dual_execution_completion_rate'')),
       fixed ''trace_generation_success_rate'', fixed ''canonicalization_success_rate'',
       bullet ''baseline-invalid rate'' (fixed_of (s ''baseline_invalid_rate'')),
       bullet ''candidate_runner_kinds'' (joined (s ''candidate_runner_kinds'')),
       bullet ''candidate_kernel_builds'' (joined (s ''candidate_kernel_builds'')),
       shown ''signoff_pass'', [], ''## classification counts''])"

text \<open>A field that not every summary has.\<close>

definition has_key :: "string \<Rightarrow> pyval \<Rightarrow> bool" where
  "has_key k summary = (dict_get k (items summary) \<noteq> None)"

definition summary_head_all :: "pyval \<Rightarrow> string list" where
  "summary_head_all summary =
     (let s = \<lambda>k. py_get k PNone summary;
          l0 = summary_head summary;
          l1 = (if has_key ''import_success_rate'' summary
            then insert_line 4 (bullet ''import_success_rate'' (fixed_of (s ''import_success_rate''))) l0 else l0);
          l2 = (if has_key ''derivation_success_rate'' summary
            then insert_line 4 (bullet ''derivation_success_rate'' (fixed_of (s ''derivation_success_rate''))) l1 else l1) in
      if has_key ''profile_enabled_total'' summary
      then fold (\<lambda>(i, k). insert_line i (bullet k (py_str (s k)))) (zip [4, 5, 6, 7] GENERATION_KEYS) l2 else l2)"

definition breakdown_lines :: "pyval \<Rightarrow> string list" where
  "breakdown_lines cb =
     (if truthy cb then [[], ''## concurrency breakdown''] @
        map (\<lambda>k. bullet k (py_str (py_get k (PStr ''n/a'') cb))) [''jobs'', ''max_concurrent_vms''] @
        map (\<lambda>k. bullet k (py_str (py_get k (PInt 0) cb)))
          [''total_cases'', ''completed_cases'', ''timeout_cases'', ''infra_error_cases'', ''crash_cases'', ''candidate_bug_cases'']
      else [])"

definition summary_page :: "pyval \<Rightarrow> string list" where
  "summary_page summary =
     (let s = \<lambda>k. py_get k PNone summary in
      summary_head_all summary @ pair_lines (s ''classification_counts'') @
      (if truthy (s ''scml_result_counts'') then [[], ''## scml result counts''] @ pair_lines (s ''scml_result_counts'') else []) @
      breakdown_lines (s ''concurrency_breakdown'') @
      (if truthy (s ''infra_error_breakdown'')
       then [[], ''## infra error breakdown''] @ pair_lines (s ''infra_error_breakdown'') else []))"

definition signoff_page :: "pyval \<Rightarrow> string list" where
  "signoff_page summary =
     (let s = \<lambda>k. py_get k PNone summary; shown = \<lambda>k. bullet k (py_str (s k)); fixed = \<lambda>k. bullet k (fixed_of (s k)) in
      [''# '' @ py_str (s ''workflow'') @ '' sign-off'', [], shown ''campaign'', shown ''eligible_program_count''] @
      (if has_key ''import_success_rate'' summary then [fixed ''import_success_rate''] else []) @
      (if has_key ''derivation_success_rate'' summary then [fixed ''derivation_success_rate''] else []) @
      (if has_key ''profile_enabled_total'' summary then map shown GENERATION_KEYS else []) @
      [fixed ''build_success_rate'', fixed ''scml_preflight_pass_rate'', shown ''scml_rejected_count'',
       fixed ''dual_execution_completion_rate'', fixed ''trace_generation_success_rate'',
       fixed ''canonicalization_success_rate'', fixed ''baseline_invalid_rate'',
       bullet ''candidate_runner_kinds'' (joined (s ''candidate_runner_kinds'')),
       bullet ''candidate_kernel_builds'' (joined (s ''candidate_kernel_builds'')), shown ''signoff_pass''])"

definition write_rendered_summary :: "string \<Rightarrow> pyval \<Rightarrow> store \<Rightarrow> store" where
  "write_rendered_summary rd summary st =
     write_lines (pjoin rd ''signoff.md'') (signoff_page summary)
       (write_lines (pjoin rd ''summary.md'') (summary_page summary)
         (dump_json (pjoin rd ''summary.json'') summary st))"

definition render_summary_reports ::
  "string \<Rightarrow> string \<Rightarrow> pyval \<Rightarrow> string option \<Rightarrow> store \<Rightarrow> ((string \<times> pyval) list \<times> store) res" where
  "render_summary_reports base_dir rd cfg campaign st =
     bind (load_jsonl (pjoin rd ''campaign-results.jsonl'') st) (\<lambda>results.
     bind (build_rendered_summary base_dir rd cfg campaign st) (\<lambda>summary.
     bind (build_syscall_summary rd cfg results campaign st) (\<lambda>syscalls.
     Inr (summary, write_syscall_summary rd ''syscall-summary'' syscalls (write_rendered_summary rd (PDict summary) st)))))"

definition write_post_run_reports ::
  "string \<Rightarrow> string \<Rightarrow> pyval \<Rightarrow> string \<Rightarrow> pyval \<Rightarrow> int \<Rightarrow> pyval list \<Rightarrow> store \<Rightarrow> store res" where
  "write_post_run_reports base_dir rd cfg campaign jobs vms results st =
     bind (write_summary rd cfg campaign jobs vms results st) (\<lambda>st1.
     bind (render_summary_reports base_dir rd cfg (Some campaign) st1) (\<lambda>(summary, st2).
     write_failure_reports rd cfg campaign results st2))"

text \<open>The end of \<open>main\<close>: the results are stored, then reported.\<close>

definition finish_campaign ::
  "string \<Rightarrow> string \<Rightarrow> pyval \<Rightarrow> string \<Rightarrow> pyval \<Rightarrow> int \<Rightarrow> pyval list \<Rightarrow> store \<Rightarrow> store res" where
  "finish_campaign base_dir rd cfg campaign jobs vms results st =
     write_post_run_reports base_dir rd cfg campaign jobs vms results (dump_jsonl (pjoin rd ''campaign-results.jsonl'') results st)"

section \<open>Where the reports are written\<close>

lemma dump_json_at [simp]: "dump_json q v st p = (if p = q then Some (json_dumps True v @ newline) else st p)"
  by (simp add: dump_json_def)

lemma write_lines_at [simp]: "write_lines q ls st p = (if p = q then Some (join newline ls @ newline) else st p)"
  by (simp add: write_lines_def write_text_def)

lemma dump_jsonl_at [simp]: "p \<noteq> q \<Longrightarrow> dump_jsonl q rows st p = st p"
  by (simp add: dump_jsonl_def)

lemma below_dir: "startswith (pjoin (pjoin d a) b) (pjoin d a @ ''/'')" "startswith (pjoin (pjoin (pjoin d a) b) c) (pjoin d a @ ''/'')"
  "startswith (pjoin (pjoin (pjoin (pjoin d a) b) c) e) (pjoin d a @ ''/'')"
  by (simp_all add: pjoin_def startswith_iff)

lemma outside: "\<not> startswith p (d @ ''/'') \<Longrightarrow> startswith q (d @ ''/'') \<Longrightarrow> p \<noteq> q"
  by auto

text \<open>The likely bugs stay below their directory.\<close>

lemma bug_case_frame:
  assumes "bug_case (pjoin rd d) st r = Inr (s, n, st')" "\<not> startswith p (pjoin rd d @ ''/'')"
  shows "st' p = st p"
proof -
  note o = outside [OF assms(2) below_dir(2)] outside [OF assms(2) below_dir(3)]
  from assms(1) obtain program_id source summary st1 where
    st1: "copy_testcase source (pjoin (pjoin (pjoin rd d) ''testcases'') (program_id @ ''.syz'')) st = Inr st1"
    and st': "st' = dump_json (pjoin (pjoin (pjoin (pjoin rd d) ''cases'') program_id) ''summary.json'') summary st1"
    unfolding bug_case_def Let_def case_prod_beta by (elim bind_InrE) blast
  have "st1 p = st p" using st1 o(1) by (auto simp: copy_testcase_def split: if_splits option.splits)
  then show ?thesis using o(2) by (simp add: st')
qed

lemma bug_cases_frame:
  "bug_cases (pjoin rd d) rs st = Inr (ss, ns, st') \<Longrightarrow> \<not> startswith p (pjoin rd d @ ''/'') \<Longrightarrow> st' p = st p"
proof (induction rs arbitrary: st ss ns)
  case (Cons r rs)
  from Cons.prems(1) obtain s n st1 ss' ns' where "bug_case (pjoin rd d) st r = Inr (s, n, st1)"
    "bug_cases (pjoin rd d) rs st1 = Inr (ss', ns', st')"
    by (auto simp: bind_eq_Inr)
  then show ?case using Cons.IH Cons.prems(2) bug_case_frame by metis
qed simp

lemma bug_reports_frame:
  assumes "write_bug_likely_reports rd cfg results st = Inr st'" "\<not> startswith p (pjoin rd ''bug_likely'' @ ''/'')"
  shows "st' p = st p"
proof -
  from assms(1) obtain bugs index_rows names st1 workflow n counts v where
    "bug_cases (pjoin rd ''bug_likely'') bugs (clean_dir (pjoin rd ''bug_likely'') st) = Inr (index_rows, names, st1)"
    and st': "st' = write_lines (pjoin (pjoin rd ''bug_likely'') ''summary.md'') (bug_lines workflow n counts)
      (dump_jsonl (pjoin (pjoin rd ''bug_likely'') ''index.jsonl'') index_rows
        (dump_json (pjoin (pjoin rd ''bug_likely'') ''summary.json'') v st1))"
    unfolding write_bug_likely_reports_def Let_def case_prod_beta by (elim bind_InrE) (metis prod.collapse Inr_inject)
  then have "st1 p = clean_dir (pjoin rd ''bug_likely'') st p" using bug_cases_frame assms(2) by blast
  then have "st1 p = st p" using assms(2) by (simp add: clean_dir_def)
  then show ?thesis using outside [OF assms(2) below_dir(1)] by (simp add: st')
qed

lemma not_below: "a \<noteq> [] \<Longrightarrow> CHR ''/'' \<notin> set a \<Longrightarrow> \<not> startswith (pjoin rd a) (pjoin rd d @ ''/'')"
  by (auto simp: pjoin_def startswith_iff)

lemma dump_selected_frame: "dump_selected q P rs st = Inr st' \<Longrightarrow> p \<noteq> q \<Longrightarrow> st' p = st p"
  by (auto simp: dump_selected_def bind_eq_Inr)

lemma write_summary_frame:
  assumes "write_summary rd cfg campaign jobs vms results st = Inr st'" "CHR ''/'' \<notin> set a" "a \<noteq> []"
    and "a \<notin> {''summary.json'', ''summary.md'', ''baseline-invalid.jsonl'', ''divergence-index.jsonl'', ''unsupported-feature.jsonl''}"
  shows "st' (pjoin rd a) = st (pjoin rd a)"
proof -
  from assms(1) obtain summary lines invalid wanted unsupported st3 st4 st5 where
    "dump_selected (pjoin rd ''baseline-invalid.jsonl'') invalid results
       (write_lines (pjoin rd ''summary.md'') lines (dump_json (pjoin rd ''summary.json'') summary st)) = Inr st3"
    "dump_selected (pjoin rd ''divergence-index.jsonl'') wanted results st3 = Inr st4"
    "dump_selected (pjoin rd ''unsupported-feature.jsonl'') unsupported results st4 = Inr st5"
    and bugs: "write_bug_likely_reports rd cfg results st5 = Inr st'"
    unfolding write_summary_def Let_def case_prod_beta by (elim bind_InrE) blast
  from this(1-3) [THEN dump_selected_frame, of "pjoin rd a"] assms(4) have "st5 (pjoin rd a) = st (pjoin rd a)" by simp
  with bug_reports_frame [OF bugs not_below [OF assms(3,2)]] show ?thesis by simp
qed

lemma write_summary_stored:
  assumes "write_summary rd cfg campaign jobs vms results st = Inr st'"
  obtains counts invalid_rate dual_rate v where
    "scheduler_summary cfg campaign jobs vms results = Inr (counts, invalid_rate, dual_rate, v)"
    "st' (pjoin rd ''summary.json'') = Some (json_dumps True v @ newline)"
proof -
  from assms obtain x lines invalid wanted unsupported st3 st4 st5 where x: "scheduler_summary cfg campaign jobs vms results = Inr x"
    and w: "dump_selected (pjoin rd ''baseline-invalid.jsonl'') invalid results
       (write_lines (pjoin rd ''summary.md'') lines (dump_json (pjoin rd ''summary.json'') (snd (snd (snd x))) st)) = Inr st3"
    "dump_selected (pjoin rd ''divergence-index.jsonl'') wanted results st3 = Inr st4"
    "dump_selected (pjoin rd ''unsupported-feature.jsonl'') unsupported results st4 = Inr st5"
    and bugs: "write_bug_likely_reports rd cfg results st5 = Inr st'"
    unfolding write_summary_def Let_def case_prod_beta by (elim bind_InrE) blast
  from w [THEN dump_selected_frame, of "pjoin rd ''summary.json''"]
  have "st5 (pjoin rd ''summary.json'') = Some (json_dumps True (snd (snd (snd x))) @ newline)" by simp
  with bug_reports_frame [OF bugs not_below] x show thesis by (cases x) (auto intro!: that)
qed

section \<open>The reports agree\<close>

text \<open>A file holds a document as \<open>dump_json\<close> writes it.\<close>

definition stored_json :: "store \<Rightarrow> string \<Rightarrow> pyval \<Rightarrow> bool" where
  "stored_json st p v \<longleftrightarrow> st p = Some (json_dumps True v @ newline)"

lemma row_class_sorted: "json_wf r \<Longrightarrow> row_class (sort_dicts r) = row_class r"
proof (cases r)
  case (PDict kvs)
  assume "json_wf r"
  from sort_dicts_get [OF this, of "''classification''"] show ?thesis
    by (auto simp: PDict row_class_def str_item_def py_item_def opt_res_def split: option.split pyval.splits)
qed (simp_all add: row_class_def str_item_def py_item_def)

lemma map_row_class_sorted: "list_all json_wf rs \<Longrightarrow> map_res row_class (map sort_dicts rs) = map_res row_class rs"
  by (induction rs) (simp_all add: row_class_sorted)

lemma row_class_get: "row_class r = Inr c \<Longrightarrow> py_get ''classification'' PNone r = PStr c"
  by (cases r) (auto simp: row_class_def str_item_def py_item_def opt_res_def py_get_def bind_eq_Inr split: option.splits pyval.splits)

lemma problem_count:
  "map_res row_class rs = Inr cs \<Longrightarrow> length (problem_results l rs) = length (filter (\<lambda>c. c \<noteq> l) cs)"
  by (induction rs arbitrary: cs) (auto simp: problem_results_def bind_eq_Inr row_class_get)

lemma select_rows_classes:
  "select_rows P rs = Inr sel \<Longrightarrow> \<exists>cs. map_res row_class rs = Inr cs \<and> map fst sel = filter P cs"
proof -
  assume "select_rows P rs = Inr sel"
  then obtain rows where rows: "map_res (\<lambda>r. bind (row_class r) (\<lambda>c. Inr (c, r))) rs = Inr rows"
    "sel = filter (\<lambda>(c, r). P c) rows" by (auto simp: select_rows_def bind_eq_Inr)
  from rows(1) have "map_res row_class rs = Inr (map fst rows)"
    by (induction rs arbitrary: rows) (auto simp: bind_eq_Inr)
  then show ?thesis by (simp add: rows(2) filter_map comp_def case_prod_unfold)
qed

lemma count_filter: "count_list (filter P xs) x = (if P x then count_list xs x else 0)"
  by (induction xs) auto

lemma length_dict_set:
  "distinct (dict_keys d) \<Longrightarrow>
   sum_list (map (\<lambda>p. length (snd p)) (dict_set k v d)) + length (opt_default [] (dict_get k d)) =
     sum_list (map (\<lambda>p. length (snd p)) d) + length v"
proof (induction d)
  case (Cons p d)
  have "dict_get (fst p) d = None" using Cons.prems by (simp add: dict_keys_def dict_get_def map_of_eq_None_iff)
  with Cons show ?case
    by (cases p) (auto simp: dict_set_def dict_get_Cons dict_keys_def opt_default_def split: option.splits if_splits)
qed (simp add: dict_set_def opt_default_def)

lemma group_cases_length:
  "distinct (dict_keys (group_cases ps)) \<and> sum_list (map (\<lambda>p. length (snd p)) (group_cases ps)) = length ps"
proof (induction ps rule: rev_induct)
  case (snoc p ps)
  obtain k c where p: "p = (k, c)" by (cases p)
  have "group_cases (ps @ [p]) = dict_set k (opt_default [] (dict_get k (group_cases ps)) @ [c]) (group_cases ps)"
    by (simp add: group_cases_def p)
  with snoc length_dict_set [of "group_cases ps" k "opt_default [] (dict_get k (group_cases ps)) @ [c]"]
  show ?case by (simp add: distinct_dict_set)
qed (simp add: group_cases_def dict_keys_def)

lemma order_buckets_length: "sum_list (map (\<lambda>p. length (snd p)) (order_buckets bs)) = sum_list (map (\<lambda>p. length (snd p)) bs)"
  unfolding order_buckets_def sum_mset_sum_list [symmetric] mset_map mset_sort ..

lemma syscall_buckets_length:
  assumes "syscall_buckets st l rs = Inr bs"
  shows "sum_list (map (\<lambda>p. length (snd p)) bs) = length (problem_results l rs)"
proof -
  from assms obtain keyed rows cases where
    "map_res (\<lambda>r. bind (str_item ''program_id'' r) (\<lambda>p. Inr (p, r))) (problem_results l rs) = Inr keyed"
    "rows = map snd (sort_key fst keyed)" "map_res (syscall_case st) rows = Inr cases"
    "bs = order_buckets (group_cases cases)"
    by (auto simp: syscall_buckets_def by_program_def bind_eq_Inr)
  then show ?thesis using group_cases_length [of cases] by (simp add: order_buckets_length map_res_length)
qed

text \<open>The run of \<open>finish_campaign\<close>, and what it leaves in the files.\<close>

lemma finish_steps:
  assumes "finish_campaign base_dir rd cfg campaign jobs vms results st = Inr st'" "list_all json_wf results"
  obtains st1 summary syscalls st2 payload failed counts grouped where
    "build_rendered_summary base_dir rd cfg (Some campaign) st1 = Inr summary"
    "load_jsonl (pjoin rd ''campaign-results.jsonl'') st1 = Inr (map sort_dicts results)"
    "build_syscall_summary rd cfg (map sort_dicts results) (Some campaign) st1 = Inr syscalls"
    "failure_payload st2 cfg campaign results = Inr (payload, failed, counts, grouped)"
    "stored_json st' (pjoin rd ''summary.json'') (PDict summary)" "stored_json st' (pjoin rd ''syscall-summary.json'') syscalls"
    "stored_json st' (pjoin rd ''failure-report.json'') payload"
    "load_jsonl (pjoin rd ''campaign-results.jsonl'') st' = Inr (map sort_dicts results)"
proof -
  let ?cr = "pjoin rd ''campaign-results.jsonl''"
  from assms(1) obtain st1 summary st2 where
    w: "write_summary rd cfg campaign jobs vms results (dump_jsonl ?cr results st) = Inr st1"
    and r: "render_summary_reports base_dir rd cfg (Some campaign) st1 = Inr (summary, st2)"
    and e: "write_failure_reports rd cfg campaign results st2 = Inr st'"
    by (auto simp: finish_campaign_def write_post_run_reports_def bind_eq_Inr)
  from r obtain loaded syscalls where l: "load_jsonl ?cr st1 = Inr loaded"
    and b: "build_rendered_summary base_dir rd cfg (Some campaign) st1 = Inr summary"
    and y: "build_syscall_summary rd cfg loaded (Some campaign) st1 = Inr syscalls"
    and st2: "st2 = write_syscall_summary rd ''syscall-summary'' syscalls (write_rendered_summary rd (PDict summary) st1)"
    by (auto simp: render_summary_reports_def bind_eq_Inr)
  from e obtain payload failed counts grouped lines where f: "failure_payload st2 cfg campaign results = Inr (payload, failed, counts, grouped)"
    and st': "st' = write_lines (pjoin rd ''failure-report.md'') lines (dump_json (pjoin rd ''failure-report.json'') payload st2)"
    unfolding write_failure_reports_def Let_def by (elim bind_InrE) (auto split: prod.splits)
  have "st1 ?cr = dump_jsonl ?cr results st ?cr" using write_summary_frame [OF w, of "''campaign-results.jsonl''"] by simp
  then have loads: "load_jsonl ?cr st1 = Inr (map sort_dicts results)"
    using load_dump_jsonl [OF assms(2), of ?cr st] by (simp add: load_jsonl_def read_text_def)
  have "st' ?cr = st1 ?cr" by (simp add: st' st2 write_syscall_summary_def write_rendered_summary_def)
  then have "load_jsonl ?cr st' = Inr (map sort_dicts results)" using loads by (simp add: load_jsonl_def read_text_def)
  moreover have "stored_json st' (pjoin rd ''summary.json'') (PDict summary)"
    "stored_json st' (pjoin rd ''syscall-summary.json'') syscalls" "stored_json st' (pjoin rd ''failure-report.json'') payload"
    by (simp_all add: stored_json_def st' st2 write_syscall_summary_def write_rendered_summary_def)
  ultimately show thesis using b y f l loads by (intro that) simp_all
qed

text \<open>
  C21. The reports of a campaign agree with each other and with the stored results. When the results
  have been written and reported, the stored results still read back as they were; the summary counts
  all of them and the failure report the same number; the syscall summary and the failure report both
  count as failures exactly the results whose classification is not \<open>no_diff\<close>; every one of those is in
  one bucket of the syscall summary, so the buckets add up; and the failure report's counts are the
  summary's without \<open>no_diff\<close>.
\<close>

theorem reports_agree:
  assumes "finish_campaign base_dir rd cfg campaign jobs vms results st = Inr st'" "list_all json_wf results"
  shows "\<exists>classes no_diff summary syscalls report counts counts'.
    map_res row_class results = Inr classes \<and> label_for cfg ''no_diff'' results = Inr no_diff \<and>
    load_jsonl (pjoin rd ''campaign-results.jsonl'') st' = Inr (map sort_dicts results) \<and>
    stored_json st' (pjoin rd ''summary.json'') summary \<and> stored_json st' (pjoin rd ''syscall-summary.json'') syscalls \<and>
    stored_json st' (pjoin rd ''failure-report.json'') report \<and>
    py_get ''total'' PNone summary = PInt (int (length classes)) \<and>
    py_get ''total_results'' PNone report = PInt (int (length classes)) \<and>
    py_get ''total_problem_cases'' PNone syscalls = PInt (int (length (filter (\<lambda>c. c \<noteq> no_diff) classes))) \<and>
    py_get ''failed_results'' PNone report = PInt (int (length (filter (\<lambda>c. c \<noteq> no_diff) classes))) \<and>
    sum_list (map (\<lambda>b. length (pylist (py_get ''cases'' PNone b))) (pylist (py_get ''syscalls'' PNone syscalls))) =
      length (filter (\<lambda>c. c \<noteq> no_diff) classes) \<and>
    py_get ''classification_counts'' PNone summary = count_items counts \<and>
    py_get ''classification_counts'' PNone report = count_items counts' \<and>
    (\<forall>c. opt_default 0 (dict_get c counts') = (if c = no_diff then 0 else opt_default 0 (dict_get c counts)))"
  using assms
proof (rule finish_steps)
  fix st1 summary syscalls st2 payload failed counts' grouped
  assume b: "build_rendered_summary base_dir rd cfg (Some campaign) st1 = Inr summary"
    and loads: "load_jsonl (pjoin rd ''campaign-results.jsonl'') st1 = Inr (map sort_dicts results)"
    and y: "build_syscall_summary rd cfg (map sort_dicts results) (Some campaign) st1 = Inr syscalls"
    and f: "failure_payload st2 cfg campaign results = Inr (payload, failed, counts', grouped)"
    and files: "stored_json st' (pjoin rd ''summary.json'') (PDict summary)" "stored_json st' (pjoin rd ''syscall-summary.json'') syscalls"
      "stored_json st' (pjoin rd ''failure-report.json'') payload"
      "load_jsonl (pjoin rd ''campaign-results.jsonl'') st' = Inr (map sort_dicts results)"
  from f obtain no_diff failures where l: "label_for cfg ''no_diff'' results = Inr no_diff"
    and sel: "select_rows (\<lambda>c. c \<noteq> no_diff) results = Inr failures"
    and report: "py_get ''total_results'' PNone payload = PInt (int (length results))"
      "py_get ''failed_results'' PNone payload = PInt (int (length failures))"
      "py_get ''classification_counts'' PNone payload = count_items (count_values (map fst failures))"
    and c': "counts' = count_values (map fst failures)"
    by (auto simp: failure_payload_def bind_eq_Inr Let_def py_get_PDict dict_get_Cons)
  from select_rows_classes [OF sel] obtain classes where classes: "map_res row_class results = Inr classes"
    "map fst failures = filter (\<lambda>c. c \<noteq> no_diff) classes" by auto
  have n: "length failures = length (filter (\<lambda>c. c \<noteq> no_diff) classes)" by (simp flip: classes(2))
  have m: "length classes = length results" using classes(1) by (rule map_res_length)
  have sorted: "map_res row_class (map sort_dicts results) = Inr classes"
    using classes(1) map_row_class_sorted [OF assms(2)] by simp
  have l': "label_for cfg ''no_diff'' (map sort_dicts results) = Inr no_diff" using l by (simp add: label_for_def)
  from y obtain buckets where bk: "syscall_buckets st1 no_diff (map sort_dicts results) = Inr buckets"
    and sy: "py_get ''total_problem_cases'' PNone syscalls = PInt (int (length (problem_results no_diff (map sort_dicts results))))"
      "py_get ''syscalls'' PNone syscalls = PList (map (\<lambda>(name, cases).
         PDict [(''syscall_name'', PStr name), (''case_count'', PInt (int (length cases))), (''cases'', PList cases)]) buckets)"
    by (auto simp: build_syscall_summary_def bind_eq_Inr l' py_get_PDict dict_get_Cons split: prod.splits)
  have sum: "sum_list (map (\<lambda>b. length (pylist (py_get ''cases'' PNone b))) (pylist (py_get ''syscalls'' PNone syscalls))) =
      length (filter (\<lambda>c. c \<noteq> no_diff) classes)"
    using syscall_buckets_length [OF bk] problem_count [OF sorted]
    by (simp add: sy(2) pylist_def comp_def case_prod_unfold py_get_PDict dict_get_Cons)
  obtain s0 e where s0: "summary_fields base_dir rd cfg (Some campaign) st1 = Inr s0" "summary = s0 @ e"
    using signoff_steps [OF b] by metis
  have s: "py_get ''total'' PNone (PDict summary) = PInt (int (length classes)) \<and>
      py_get ''classification_counts'' PNone (PDict summary) = count_items (count_values classes)"
    using s0(1) m sorted loads
    by (auto elim!: summary_fields_steps simp: s0(2) py_get_PDict dict_get_append summary_lookups(2,3))
  have counts: "opt_default 0 (dict_get c (count_values (map fst failures))) =
      (if c = no_diff then 0 else opt_default 0 (dict_get c (count_values classes)))" for c
    unfolding count_values_get classes(2) by (simp add: count_filter)
  show ?thesis
    by (intro exI conjI allI, rule classes(1), rule l, rule files(4), rule files(1), rule files(2), rule files(3),
        rule conjunct1 [OF s]) (use report sy(1) sum s n m problem_count [OF sorted] counts in \<open>simp_all only:\<close>)
qed

section \<open>Rendering again\<close>

text \<open>The files that \<open>render_summary_reports\<close> writes.\<close>

definition RENDERED :: "string list" where
  "RENDERED = [''summary.json'', ''summary.md'', ''signoff.md'', ''syscall-summary.json'', ''syscall-summary.md'']"

lemma rendered_steps:
  assumes "render_summary_reports base_dir rd cfg campaign st = Inr (s, st')"
  obtains "build_rendered_summary base_dir rd cfg campaign st = Inr s"
    "load_json (pjoin rd ''summary.json'') st' = Inr (sort_dicts (PDict s))"
    "\<And>p. p \<notin> set (map (pjoin rd) RENDERED) \<Longrightarrow> st' p = st p" "\<And>f. f \<in> set RENDERED \<Longrightarrow> st' (pjoin rd f) \<noteq> None"
proof -
  from assms obtain syscalls where b: "build_rendered_summary base_dir rd cfg campaign st = Inr s"
    and st': "st' = write_syscall_summary rd ''syscall-summary'' syscalls (write_rendered_summary rd (PDict s) st)"
    by (auto simp: render_summary_reports_def bind_eq_Inr)
  note w = write_syscall_summary_def write_rendered_summary_def
  have "st' (pjoin rd ''summary.json'') = dump_json (pjoin rd ''summary.json'') (PDict s) st (pjoin rd ''summary.json'')"
    by (simp add: st' w)
  then have "load_json (pjoin rd ''summary.json'') st' = Inr (sort_dicts (PDict s))"
    by (rule trans [OF load_json_cong load_dump_json [OF summary_wf [OF b]]])
  moreover have "st' p = st p" if "p \<notin> set (map (pjoin rd) RENDERED)" for p
    using that by (simp add: st' w RENDERED_def)
  moreover have "st' (pjoin rd f) \<noteq> None" if "f \<in> set RENDERED" for f
    using that unfolding RENDERED_def list.set insert_iff empty_iff by (elim disjE FalseE; simp add: st' w)
  ultimately show thesis using b by (intro that)
qed

text \<open>What a summary keeps of the scheduler's parallelism.\<close>

definition forget_jobs :: "pyval \<Rightarrow> pyval" where
  "forget_jobs v = PDict (map (\<lambda>(k, x). (k, if k \<in> {''jobs'', ''max_concurrent_vms''} then PNone else x)) (items v))"

definition without_jobs :: "(string \<times> pyval) list \<Rightarrow> (string \<times> pyval) list" where
  "without_jobs s = map (\<lambda>(k, v). (k, if k = ''concurrency_breakdown'' then forget_jobs v else v)) s"

lemma forget_breakdown:
  assumes "dict_get ''jobs'' (items d) = None" "dict_get ''max_concurrent_vms'' (items d) = None"
  shows "concurrency_breakdown d n runs = forget_jobs (concurrency_breakdown d' n runs)"
  using assms by (simp add: concurrency_breakdown_def forget_jobs_def Let_def py_get_def)

lemma without_jobs_get: "k \<noteq> ''concurrency_breakdown'' \<Longrightarrow> dict_get k (without_jobs s) = dict_get k s"
  by (induction s) (auto simp: without_jobs_def dict_get_Cons)

lemma without_jobs_append: "without_jobs (a @ b) = without_jobs a @ without_jobs b"
  by (simp add: without_jobs_def)

lemma without_jobs_other: "''concurrency_breakdown'' \<notin> fst ` set s \<Longrightarrow> without_jobs s = s"
  by (induction s) (auto simp: without_jobs_def)

lemma py_get_without: "k \<noteq> ''concurrency_breakdown'' \<Longrightarrow> py_get k d (PDict (without_jobs s)) = py_get k d (PDict s)"
  by (simp add: py_get_PDict without_jobs_get)

lemma signoff_checks_without: "signoff_checks (without_jobs s) thresholds minimized = signoff_checks s thresholds minimized"
proof -
  have "py_get ''build_success_rate'' d (PDict (without_jobs s)) = py_get ''build_success_rate'' d (PDict s)"
    "py_get ''dual_execution_completion_rate'' d (PDict (without_jobs s)) = py_get ''dual_execution_completion_rate'' d (PDict s)"
    "py_get ''trace_generation_success_rate'' d (PDict (without_jobs s)) = py_get ''trace_generation_success_rate'' d (PDict s)"
    "py_get ''canonicalization_success_rate'' d (PDict (without_jobs s)) = py_get ''canonicalization_success_rate'' d (PDict s)"
    "py_get ''baseline_invalid_rate'' d (PDict (without_jobs s)) = py_get ''baseline_invalid_rate'' d (PDict s)"
    "py_get ''total'' d (PDict (without_jobs s)) = py_get ''total'' d (PDict s)"
    "py_get ''eligible_program_count'' d (PDict (without_jobs s)) = py_get ''eligible_program_count'' d (PDict s)"
    "py_get ''import_success_rate'' d (PDict (without_jobs s)) = py_get ''import_success_rate'' d (PDict s)" for d
    by (rule py_get_without, simp)+
  then show ?thesis by (simp only: signoff_checks_def Let_def)
qed

text \<open>The reading functions of a summary do not see the rendered files.\<close>

lemma load_report_keep:
  assumes "\<And>p. p \<notin> set (map (pjoin rd) RENDERED) \<Longrightarrow> st' p = st p" "name \<notin> set RENDERED"
  shows "load_report rd name st' = load_report rd name st"
proof -
  have "st' (pjoin rd name) = st (pjoin rd name)" by (rule assms(1)) (use assms(2) in \<open>simp add: image_iff\<close>)
  then show ?thesis by (simp add: load_report_def load_json_def read_text_def)
qed

lemma summary_fields_again:
  assumes fields: "summary_fields base_dir rd cfg campaign st = Inr s0" and extra: "s = s0 @ e"
    and stored: "load_json (pjoin rd ''summary.json'') st' = Inr (sort_dicts (PDict s))" "json_wf (PDict s)"
    and keep: "\<And>p. p \<notin> set (map (pjoin rd) RENDERED) \<Longrightarrow> st' p = st p"
    and there: "\<And>f. f \<in> set RENDERED \<Longrightarrow> st (pjoin rd f) \<noteq> None" "\<And>f. f \<in> set RENDERED \<Longrightarrow> st' (pjoin rd f) \<noteq> None"
    and eligible: "\<And>paths p. py_item ''paths'' cfg = Inr paths \<Longrightarrow> str_item ''eligible_file'' paths = Inr p \<Longrightarrow>
      resolve_repo_path base_dir p \<notin> set (map (pjoin rd) RENDERED)"
    and absent: "''jobs'' \<notin> fst ` set s" "''max_concurrent_vms'' \<notin> fst ` set s"
  shows "summary_fields base_dir rd cfg None st' = Inr (without_jobs s0)"
  using fields
proof (rule summary_fields_steps)
  fix results built classes rejections scheduler_summary units selected eligible
    build_rate dual_rate trace_rate canonical_rate invalid invalid_rate preflight_rate imported derived generation
  let ?done = "filter (candidate_trace_completed st) results"
  assume facts: "load_jsonl (pjoin rd ''campaign-results.jsonl'') st = Inr results"
    "build_counts rd results st = Inr built" "map_res row_class results = Inr classes"
    "(if st (pjoin rd ''scml-rejections.jsonl'') = None then Inr [] else load_jsonl (pjoin rd ''scml-rejections.jsonl'') st) = Inr rejections"
    "map_res candidate_run_record results = Inr units"
    and count: "count_eligible_programs base_dir cfg st = Inr eligible"
    and rates: "rate (fst built) (snd built) = Inr build_rate"
      "rate (int (length ?done)) (int (length results)) = Inr dual_rate"
      "rate (int (length ?done)) (int (length ?done)) = Inr trace_rate"
      "rate (int (length (filter (trace_present st canonical_of) ?done))) (int (length ?done)) = Inr canonical_rate"
      "label_for cfg ''baseline_invalid'' results = Inr invalid"
      "rate (int (count_list classes invalid)) (int (length results)) = Inr invalid_rate"
      "rate (int (length results)) (int (length results) + int (length rejections)) = Inr preflight_rate"
    and more: "import_rate rd st = Inr imported" "derivation_rate rd st = Inr derived"
      "generation_fields base_dir rd cfg st = Inr generation"
    and s0: "s0 = [(''campaign'', PStr selected), (''workflow'', PStr (workflow_name cfg)), (''total'', PInt (int (length results))),
       (''classification_counts'', count_items (count_values classes)),
       (''scml_result_counts'', count_items (merge_scml_result_counts results rejections)),
       (''scml_rejected_count'', PInt (int (length rejections))),
       (''eligible_program_count'', PInt (int eligible)),
       (''build_success_rate'', PFloat build_rate),
       (''dual_execution_completion_rate'', PFloat dual_rate),
       (''trace_generation_success_rate'', PFloat trace_rate),
       (''canonicalization_success_rate'', PFloat canonical_rate),
       (''baseline_invalid_rate'', PFloat invalid_rate),
       (''scml_preflight_pass_rate'', PFloat preflight_rate),
       (''candidate_runner_kinds'', PList (map PStr (run_names ''runner_kind'' (candidate_runs_of results)))),
       (''candidate_kernel_builds'', PList (map PStr (run_names ''kernel_build'' (candidate_runs_of results)))),
       (''concurrency_breakdown'', concurrency_breakdown (opt_default (PDict []) scheduler_summary) (length results) (candidate_runs_of results)),
       (''infra_error_breakdown'', count_items (infra_error_breakdown (candidate_runs_of results)))] @
       opt_item ''import_success_rate'' imported @ opt_item ''derivation_success_rate'' derived @ generation"
  have name: "st' (pjoin rd f) = st (pjoin rd f)" if "f \<notin> set RENDERED" for f by (rule keep) (use that in \<open>simp add: image_iff\<close>)
  have same: "(st' p = None) = (st p = None)" for p
  proof (cases "p \<in> set (map (pjoin rd) RENDERED)")
    case True
    then obtain f where "p = pjoin rd f" "f \<in> set RENDERED" by auto
    then show ?thesis using there [of f] by auto
  qed (simp add: keep)
  have paths: "path_exists st' = path_exists st" by (rule ext) (simp add: path_exists_def same)
  have traces: "candidate_trace_completed st' = candidate_trace_completed st" "trace_present st' = trace_present st"
    unfolding candidate_trace_completed_def [abs_def] trace_present_def [abs_def] paths by (rule refl)+
  have rows: "load_jsonl (pjoin rd f) st' = load_jsonl (pjoin rd f) st" if "f \<notin> set RENDERED" for f
    using name [OF that] by (simp add: load_jsonl_def read_text_def)
  have reports: "load_report rd f st' = load_report rd f st" if "f \<notin> set RENDERED" for f
    using keep that by (rule load_report_keep)
  have read: "count_eligible_programs base_dir cfg st' = count_eligible_programs base_dir cfg st"
    using eligible by (auto simp: count_eligible_programs_def read_text_def keep intro!: bind_cong)
  have other: "f \<notin> set RENDERED" if "f \<in> {''campaign-results.jsonl'', ''build-summary.json'', ''scml-rejections.jsonl'',
      ''import-summary.json'', ''derivation-summary.json'', ''generation-summary.json''}" for f
    using that by (auto simp: RENDERED_def)
  have results: "load_jsonl (pjoin rd ''campaign-results.jsonl'') st' = Inr results"
    "(if st' (pjoin rd ''scml-rejections.jsonl'') = None then Inr [] else load_jsonl (pjoin rd ''scml-rejections.jsonl'') st') = Inr rejections"
  proof -
    have "load_jsonl (pjoin rd ''scml-rejections.jsonl'') st' = load_jsonl (pjoin rd ''scml-rejections.jsonl'') st"
      by (rule rows, rule other) simp
    then show "(if st' (pjoin rd ''scml-rejections.jsonl'') = None then Inr [] else load_jsonl (pjoin rd ''scml-rejections.jsonl'') st') = Inr rejections"
      using facts(4) by (simp only: same)
  qed (simp add: rows other facts(1))
  have built: "build_counts rd results st' = Inr built"
    using facts(2) unfolding build_counts_def by (simp add: reports other)
  have reread: "import_rate rd st' = Inr imported" "derivation_rate rd st' = Inr derived"
    "generation_fields base_dir rd cfg st' = Inr generation"
    using more unfolding import_rate_def derivation_rate_def generation_fields_def by (simp_all add: reports other)
  have old: "load_report rd ''summary.json'' st' = Inr (Some (sort_dicts (PDict s)))"
    using stored(1) there(2) [of "''summary.json''"] by (auto simp: load_report_def RENDERED_def)
  have campaign: "dict_get ''campaign'' (items (sort_dicts (PDict s))) = Some (PStr selected)"
    unfolding sort_dicts_get [OF stored(2)] by (simp add: extra dict_get_append summary_lookups(1) [OF s0] del: append.simps)
  have selected: "selected_campaign rd None st' = Inr selected"
    using stored(1) there(2) [of "''summary.json''"] campaign by (auto simp: selected_campaign_def RENDERED_def py_get_def)
  have gone: "dict_get k (items (sort_dicts (PDict s))) = None" if "k \<notin> fst ` set s" for k
    using that unfolding sort_dicts_get [OF stored(2)] by (simp add: dict_get_def map_of_eq_None_iff)
  have present: "opt_default (PDict []) (Some v) = v" for v by (simp add: opt_default_def)
  let ?now = "concurrency_breakdown (sort_dicts (PDict s)) (length results) (candidate_runs_of results)"
  have now: "?now = forget_jobs (concurrency_breakdown (opt_default (PDict []) scheduler_summary) (length results) (candidate_runs_of results))"
    by (rule forget_breakdown; rule gone, rule absent)
  have extras: "without_jobs (opt_item ''import_success_rate'' imported) = opt_item ''import_success_rate'' imported"
    "without_jobs (opt_item ''derivation_success_rate'' derived) = opt_item ''derivation_success_rate'' derived"
    "without_jobs generation = generation"
    using generation_fields_keys(1) [OF more(3)] by (auto intro!: without_jobs_other simp: opt_item_def split: option.splits)
  have "summary_fields base_dir rd cfg None st' = Inr ([(''campaign'', PStr selected), (''workflow'', PStr (workflow_name cfg)),
       (''total'', PInt (int (length results))), (''classification_counts'', count_items (count_values classes)),
       (''scml_result_counts'', count_items (merge_scml_result_counts results rejections)),
       (''scml_rejected_count'', PInt (int (length rejections))), (''eligible_program_count'', PInt (int eligible)),
       (''build_success_rate'', PFloat build_rate), (''dual_execution_completion_rate'', PFloat dual_rate),
       (''trace_generation_success_rate'', PFloat trace_rate), (''canonicalization_success_rate'', PFloat canonical_rate),
       (''baseline_invalid_rate'', PFloat invalid_rate), (''scml_preflight_pass_rate'', PFloat preflight_rate),
       (''candidate_runner_kinds'', PList (map PStr (run_names ''runner_kind'' (candidate_runs_of results)))),
       (''candidate_kernel_builds'', PList (map PStr (run_names ''kernel_build'' (candidate_runs_of results)))),
       (''concurrency_breakdown'', ?now),
       (''infra_error_breakdown'', count_items (infra_error_breakdown (candidate_runs_of results)))] @
       opt_item ''import_success_rate'' imported @ opt_item ''derivation_success_rate'' derived @ generation)"
    by (simp only: summary_fields_def Let_def case_prod_beta traces_are_completed count_values_get traces results built facts(3) facts(5)
        old selected read count rates reread bind_Inr present)
  also have "\<dots> = Inr (without_jobs s0)"
    unfolding s0 without_jobs_append extras now by (simp add: without_jobs_def)
  finally show ?thesis .
qed

text \<open>
  C24. Rendering the summary again changes nothing but one thing. When the reports are there already
  (and the file of eligible programs is not one of them), the summary built after rendering, without a
  campaign given, has every field of the rendered one, its campaign and its sign-off included, except
  that the number of jobs and of concurrent guests is lost: they are read from the scheduler's summary,
  which the rendered one replaced.
\<close>

theorem rerender_forgets_jobs:
  assumes "render_summary_reports base_dir rd cfg campaign st = Inr (s, st')"
    and "\<forall>f \<in> set RENDERED. st (pjoin rd f) \<noteq> None"
    and "\<forall>paths p. py_item ''paths'' cfg = Inr paths \<longrightarrow> str_item ''eligible_file'' paths = Inr p \<longrightarrow>
      resolve_repo_path base_dir p \<notin> set (map (pjoin rd) RENDERED)"
  shows "\<exists>s'. build_rendered_summary base_dir rd cfg None st' = Inr s' \<and>
    (\<forall>k. k \<noteq> ''concurrency_breakdown'' \<longrightarrow> dict_get k s' = dict_get k s) \<and>
    dict_get ''concurrency_breakdown'' s' = map_option forget_jobs (dict_get ''concurrency_breakdown'' s)"
  using assms(1)
proof (rule rendered_steps)
  assume b: "build_rendered_summary base_dir rd cfg campaign st = Inr s"
    and stored: "load_json (pjoin rd ''summary.json'') st' = Inr (sort_dicts (PDict s))"
    and keep: "\<And>p. p \<notin> set (map (pjoin rd) RENDERED) \<Longrightarrow> st' p = st p"
    and there: "\<And>f. f \<in> set RENDERED \<Longrightarrow> st' (pjoin rd f) \<noteq> None"
  obtain s0 thresholds checks where s0: "summary_fields base_dir rd cfg campaign st = Inr s0"
    "thresholds_for cfg (py_get ''campaign'' PNone (PDict s0)) = Inr thresholds"
    "signoff_checks s0 thresholds (path_exists st (pjoin rd ''minimized-report.json'')) = Inr checks"
    "s = s0 @ [(''signoff_pass'', PBool (list_all id checks))]" using signoff_steps [OF b] .
  have absent: "''jobs'' \<notin> fst ` set s" "''max_concurrent_vms'' \<notin> fst ` set s"
    using summary_keys [OF b] by (auto simp: SUMMARY_KEYS_def EXTRA_KEYS_def dest!: subsetD)
  have again: "summary_fields base_dir rd cfg None st' = Inr (without_jobs s0)"
    using assms(2,3) by (intro summary_fields_again [OF s0(1,4) stored summary_wf [OF b] keep _ there _ absent]) blast+
  have "st' (pjoin rd ''minimized-report.json'') = st (pjoin rd ''minimized-report.json'')"
    by (rule keep) (simp add: RENDERED_def)
  then have "path_exists st' (pjoin rd ''minimized-report.json'') = path_exists st (pjoin rd ''minimized-report.json'')"
    by (simp add: path_exists_def)
  then have "build_rendered_summary base_dir rd cfg None st' = Inr (without_jobs s)"
    using s0(2,3) by (simp add: build_rendered_summary_def again py_get_without signoff_checks_without s0(4)
        without_jobs_append) (simp add: without_jobs_def)
  moreover have "dict_get ''concurrency_breakdown'' (without_jobs s) = map_option forget_jobs (dict_get ''concurrency_breakdown'' s)"
    by (induction s) (auto simp: without_jobs_def dict_get_Cons)
  ultimately show ?thesis using without_jobs_get by blast
qed

section \<open>The campaign of one program again\<close>

lemma demo_labels:
  "label_for report_cfg ''no_diff'' [report_row] = Inr ''NO_DIFF''" "label_for report_cfg ''bug_likely'' [report_row] = Inr ''BUG_LIKELY''"
  "label_for report_cfg ''weak_spec_or_env_noise'' [report_row] = Inr ''NOISE''"
  "label_for report_cfg ''unsupported_feature'' [report_row] = Inr ''UNSUPPORTED''"
  "label_for report_cfg ''baseline_invalid'' [report_row] = Inr ''BASELINE_INVALID''"
  "str_item ''workflow'' report_cfg = Inr ''w''" "py_item ''workflow'' report_cfg = Inr (PStr ''w'')"
  "py_get ''classification'' PNone report_row = PStr ''NO_DIFF''" "row_class report_row = Inr ''NO_DIFF''"
  "status_ok report_row \<longleftrightarrow> False"
  by (simp_all add: label_for_def label_of_def report_cfg_def report_row_def py_item_def str_item_def opt_res_def dict_get_Cons
      py_get_PDict row_class_def status_ok_def py_get_def)

lemma demo_render:
  assumes "demo_inputs st" "load_report ''r'' ''summary.json'' st = Inr old"
  obtains s st' where "render_summary_reports ''r'' ''r'' report_cfg (Some ''smoke'') st = Inr (s, st')"
proof -
  obtain s where "build_rendered_summary ''r'' ''r'' report_cfg (Some ''smoke'') st = Inr s"
    using demo_summary [OF assms] by metis
  moreover have "is_ok (build_syscall_summary ''r'' report_cfg [report_row] (Some ''smoke'') st)"
    by (simp add: build_syscall_summary_def demo_labels syscall_buckets_def problem_results_def by_program_def
        selected_campaign_def split: prod.splits)
  ultimately show thesis
    using that by (auto simp: render_summary_reports_def demo_results [OF assms(1)] is_ok_iff)
qed

definition demo_rendered :: store where
  "demo_rendered = dump_json (pjoin ''r'' ''summary.json'') (PDict [])
     (fold (\<lambda>f st. st(pjoin ''r'' f \<mapsto> [])) RENDERED demo_reports)"

lemma rerender_forgets_jobs_witness:
  "\<exists>s st' s'. render_summary_reports ''r'' ''r'' report_cfg (Some ''smoke'') demo_rendered = Inr (s, st') \<and>
     build_rendered_summary ''r'' ''r'' report_cfg None st' = Inr s' \<and> dict_get ''campaign'' s' = dict_get ''campaign'' s"
proof -
  have inputs: "demo_inputs demo_rendered"
    using demo_reports_inputs(1) by (simp add: demo_inputs_def demo_rendered_def RENDERED_def)
  have old: "load_report ''r'' ''summary.json'' demo_rendered = Inr (Some (PDict []))"
    by (simp add: load_report_def demo_rendered_def load_dump_json)
  obtain s st' where run: "render_summary_reports ''r'' ''r'' report_cfg (Some ''smoke'') demo_rendered = Inr (s, st')"
    using demo_render [OF inputs old] .
  have there: "\<forall>f \<in> set RENDERED. demo_rendered (pjoin ''r'' f) \<noteq> None"
    by (simp add: RENDERED_def demo_rendered_def)
  have "resolve_repo_path ''r'' ''e'' \<notin> set (map (pjoin ''r'') RENDERED)"
    by (simp add: resolve_repo_path_def RENDERED_def)
  then have "\<forall>paths p. py_item ''paths'' report_cfg = Inr paths \<longrightarrow> str_item ''eligible_file'' paths = Inr p \<longrightarrow>
      resolve_repo_path ''r'' p \<notin> set (map (pjoin ''r'') RENDERED)"
    by (auto simp: report_cfg_def py_item_def str_item_def opt_res_def dict_get_Cons)
  from rerender_forgets_jobs [OF run there this] obtain s' where s': "build_rendered_summary ''r'' ''r'' report_cfg None st' = Inr s'"
    "\<forall>k. k \<noteq> ''concurrency_breakdown'' \<longrightarrow> dict_get k s' = dict_get k s" by blast
  have "dict_get ''campaign'' s' = dict_get ''campaign'' s" by (rule s'(2) [rule_format]) simp
  with run s'(1) show ?thesis by blast
qed

definition demo_start :: store where
  "demo_start = (\<lambda>_. None)(pjoin ''r'' ''e'' := Some [])"

lemma reports_agree_witness:
  "\<exists>st'. finish_campaign ''r'' ''r'' report_cfg ''smoke'' (PInt 1) 1 [report_row] demo_start = Inr st' \<and>
     load_jsonl (pjoin ''r'' ''campaign-results.jsonl'') st' = Inr [report_row]"
proof -
  let ?st = "dump_jsonl (pjoin ''r'' ''campaign-results.jsonl'') [report_row] demo_start"
  have "is_ok (write_bug_likely_reports ''r'' report_cfg [report_row] st)" for st
    by (simp add: write_bug_likely_reports_def demo_labels select_rows_def by_program_def Let_def)
  then have "is_ok (write_summary ''r'' report_cfg ''smoke'' (PInt 1) 1 [report_row] ?st)"
    by (simp add: write_summary_def scheduler_summary_def demo_labels demo_rates dump_selected_def select_rows_def Let_def)
  then obtain st1 where st1: "write_summary ''r'' report_cfg ''smoke'' (PInt 1) 1 [report_row] ?st = Inr st1"
    by (auto simp: is_ok_iff)
  have kept: "st1 (pjoin ''r'' f) = ?st (pjoin ''r'' f)"
    if "f \<in> {''e'', ''campaign-results.jsonl'', ''build-summary.json'', ''scml-rejections.jsonl'', ''import-summary.json'',
      ''derivation-summary.json'', ''generation-summary.json'', ''minimized-report.json''}" for f
    by (rule write_summary_frame [OF st1]) (use that in auto)
  have inputs: "demo_inputs st1"
    unfolding demo_inputs_def by (simp add: kept) (simp add: demo_start_def dump_jsonl_def)
  obtain old where old: "load_report ''r'' ''summary.json'' st1 = Inr old"
    using st1
  proof (rule write_summary_stored)
    fix counts invalid_rate dual_rate v
    assume v: "scheduler_summary report_cfg ''smoke'' (PInt 1) 1 [report_row] = Inr (counts, invalid_rate, dual_rate, v)"
      and content: "st1 (pjoin ''r'' ''summary.json'') = Some (json_dumps True v @ newline)"
    have "json_wf v"
      using v by (auto simp: scheduler_summary_def demo_labels demo_rates Let_def wf_count_items count_values_distinct)
    then have "load_json (pjoin ''r'' ''summary.json'') (dump_json (pjoin ''r'' ''summary.json'') v st1) = Inr (sort_dicts v)"
      by (rule load_dump_json)
    then show thesis using content that by (simp add: load_report_def load_json_def read_text_def)
  qed
  obtain s st2 where st2: "render_summary_reports ''r'' ''r'' report_cfg (Some ''smoke'') st1 = Inr (s, st2)"
    using demo_render [OF inputs old] .
  have "is_ok (write_failure_reports ''r'' report_cfg ''smoke'' [report_row] st2)"
    by (simp add: write_failure_reports_def failure_payload_def demo_labels select_rows_def failures_by_classification_def
        sorted_set_def Let_def split: prod.splits)
  then obtain st3 where finished: "finish_campaign ''r'' ''r'' report_cfg ''smoke'' (PInt 1) 1 [report_row] demo_start = Inr st3"
    by (auto simp: finish_campaign_def write_post_run_reports_def st1 st2 is_ok_iff)
  have wf: "list_all json_wf [report_row]" by (simp add: report_row_def)
  obtain classes no_diff where "map_res row_class [report_row] = Inr classes \<and> label_for report_cfg ''no_diff'' [report_row] = Inr no_diff \<and>
      load_jsonl (pjoin ''r'' ''campaign-results.jsonl'') st3 = Inr (map sort_dicts [report_row])"
    using reports_agree [OF finished wf] by (elim exE conjE) blast
  then show ?thesis using finished by (simp add: report_row_def)
qed

end
