(* ===== verification/Step.thy ===== *)
theory Step
  imports Json
begin

text \<open>
  Operations on the files that may fail half way: a step gives a result and the files as they then are,
  also when it raises. \<open>pure\<close> is a computation that leaves the files alone, \<open>change\<close> one that only writes.
\<close>

type_synonym 'a step = "store \<Rightarrow> 'a res \<times> store"

definition and_then :: "'a step \<Rightarrow> ('a \<Rightarrow> 'b step) \<Rightarrow> 'b step" where
  "and_then m f st = (case m st of (Inl e, st') \<Rightarrow> (Inl e, st') | (Inr x, st') \<Rightarrow> f x st')"

definition pure :: "'a res \<Rightarrow> 'a step" where
  "pure r st = (r, st)"

definition change :: "(store \<Rightarrow> store) \<Rightarrow> unit step" where
  "change f st = (Inr (), f st)"

fun each :: "('a \<Rightarrow> unit step) \<Rightarrow> 'a list \<Rightarrow> unit step" where
  "each f [] = pure (Inr ())"
| "each f (x # xs) = and_then (f x) (\<lambda>_. each f xs)"

lemma and_then_Inr:
  "and_then m f st = (Inr y, st') \<longleftrightarrow> (\<exists>x st1. m st = (Inr x, st1) \<and> f x st1 = (Inr y, st'))"
  by (auto simp: and_then_def split: prod.splits sum.splits)

lemma and_then_pure [simp]: "and_then (pure (Inr x)) f = f x" "and_then (pure (Inl e)) f st = (Inl e, st)"
  by (auto simp: and_then_def pure_def)

lemma and_then_change [simp]: "and_then (change g) f st = f () (g st)"
  by (simp add: and_then_def change_def)

lemma pure_Inr: "pure r st = (Inr x, st') \<longleftrightarrow> r = Inr x \<and> st' = st"
  by (auto simp: pure_def)

lemma change_Inr: "change f st = (Inr x, st') \<longleftrightarrow> st' = f st"
  by (auto simp: change_def)

lemma and_then_steps:
  "and_then (pure r) f st = (Inr y, st') \<longleftrightarrow> (\<exists>x. r = Inr x \<and> f x st = (Inr y, st'))"
  "and_then (\<lambda>st. (g st, st)) f st = (Inr y, st') \<longleftrightarrow> (\<exists>x. g st = Inr x \<and> f x st = (Inr y, st'))"
  "and_then (change h) k st = (Inr y, st') \<longleftrightarrow> k () (h st) = (Inr y, st')"
  by (auto simp: and_then_Inr pure_Inr change_def)

text \<open>What every step of a sequence keeps, the sequence keeps.\<close>

definition keeps :: "(store \<Rightarrow> store \<Rightarrow> bool) \<Rightarrow> 'a step \<Rightarrow> bool" where
  "keeps R m \<longleftrightarrow> (\<forall>st. R st (snd (m st)))"

lemma keeps_pure: "(\<And>st. R st st) \<Longrightarrow> keeps R (pure r)"
  by (simp add: keeps_def pure_def)

lemma keeps_and_then:
  assumes "keeps R m" "\<And>x. keeps R (f x)" "\<And>a b c. R a b \<Longrightarrow> R b c \<Longrightarrow> R a c"
  shows "keeps R (and_then m f)"
  unfolding keeps_def
proof
  fix st
  obtain r st1 where m: "m st = (r, st1)" by (cases "m st")
  with assms(1) have "R st st1" by (metis keeps_def snd_conv)
  with assms(2,3) show "R st (snd (and_then m f st))"
    by (cases r) (auto simp: and_then_def m keeps_def)
qed

end
