(* ===== verification/Starry.thy ===== *)
theory Starry
  imports VmRunner Step
begin

text \<open>
  \<open>targets/tgoskits_starryos/api.py\<close>: the checks before a StarryOS guest is used, the prepared checkout
  that is reused while its revision is the pinned one, the dialogue with the guest's shell over a serial
  console, and what a case leaves. The host programs (git, debugfs, the build commands), the guest's
  console and the clock are the environment: a console is the reads that the loop makes until its
  deadline, and the launch command itself starts. Paths are in the normal form of \<open>Path\<close>; where a
  message quotes a Python list, the list is left out. The names of compilers are ASCII.
\<close>

section \<open>Words of a shell\<close>

definition shell_safe :: "char \<Rightarrow> bool" where
  "shell_safe c = (let n = of_char c :: nat in
     48 \<le> n \<and> n \<le> 57 \<or> 65 \<le> n \<and> n \<le> 90 \<or> 97 \<le> n \<and> n \<le> 122 \<or> c \<in> set ''_@%+=:,./-'')"

definition shlex_quote :: "string \<Rightarrow> string" where
  "shlex_quote s =
     (if s = [] then [CHR 0x27, CHR 0x27]
      else if list_all shell_safe s then s
      else CHR 0x27 # concat (map (\<lambda>c. if c = CHR 0x27 then [CHR 0x27, CHR 0x22, CHR 0x27, CHR 0x22, CHR 0x27] else [c]) s) @
        [CHR 0x27])"

section \<open>The host\<close>

record host_run =
  hr_returncode :: int
  hr_stdout :: string
  hr_stderr :: string

text \<open>
  One read of the console: what \<open>recv\<close> gives, or one turn of the polling loop of the terminal (whether
  the process is gone, and the console text at the two times the loop looks at it).
\<close>

datatype recv = Timeout | Data string | Empty bool

datatype connect_try = LaunchExited | NotThere | Refused | Accepted

record exchange =
  xc_before :: string
  xc_polls :: "(bool \<times> string \<times> string) list"
  xc_recvs :: "recv list"
  xc_after :: string

text \<open>A started program either ends or raises; the console answers the lines sent so far.\<close>

record starry_env =
  sv_root :: string
  sv_environ :: "(string, string) dict"
  sv_dirs :: "string list"
  sv_expanduser :: "string \<Rightarrow> string"
  sv_which :: "string \<Rightarrow> string option"
  sv_executable :: "string \<Rightarrow> bool"
  sv_home :: string
  sv_sh :: "string \<Rightarrow> string"
  sv_git_head :: "string \<Rightarrow> host_run"
  sv_run :: "string list \<Rightarrow> string \<Rightarrow> int \<Rightarrow> store \<Rightarrow> host_run res \<times> store"
  sv_debugfs :: "string \<Rightarrow> string \<Rightarrow> store \<Rightarrow> host_run \<times> store"
  sv_port :: nat
  sv_socket_path :: string
  sv_connect :: "string list \<Rightarrow> string \<Rightarrow> connect_try list"
  sv_console :: "string list \<Rightarrow> exchange"
  sv_console_at_end :: string

definition there :: "starry_env \<Rightarrow> store \<Rightarrow> string \<Rightarrow> bool" where
  "there env st p = (p \<in> set (sv_dirs env) \<or> st p \<noteq> None)"

definition env_path :: "starry_env \<Rightarrow> string \<Rightarrow> string option" where
  "env_path env name = (case dict_get name (sv_environ env) of None \<Rightarrow> None | Some v \<Rightarrow> if v = [] then None else Some v)"

text \<open>\<open>a / b\<close> of paths.\<close>

definition path_div :: "string \<Rightarrow> string \<Rightarrow> string" where
  "path_div a b = (if b = [] \<or> b = ''.'' then a else if startswith b ''/'' then b else pjoin a b)"

definition write_runner_result :: "starry_env \<Rightarrow> pyval \<Rightarrow> store \<Rightarrow> store" where
  "write_runner_result env payload st =
     (case env_path env ''SYZABI_RUNNER_RESULT_PATH'' of None \<Rightarrow> st | Some p \<Rightarrow> dump_json p payload st)"

section \<open>Before a run\<close>

definition target_config :: "pyval \<Rightarrow> pyval res" where
  "target_config cfg = (case py_get ''target_config'' PNone cfg of
       PDict kvs \<Rightarrow> Inr (PDict kvs) | _ \<Rightarrow> Inl (RunnerError ''tgoskits_starryos workflow is missing target_config''))"

definition config_str :: "string \<Rightarrow> string \<Rightarrow> pyval \<Rightarrow> string" where
  "config_str k dflt d = py_str (py_get k (PStr dflt) d)"

definition config_items :: "string \<Rightarrow> pyval \<Rightarrow> pyval list res" where
  "config_items k d =
     (if \<not> is_dict d then Inl (TypeError ''object has no attribute get'')
      else case py_get k (PList []) d of
          PList vs \<Rightarrow> Inr vs
        | PStr s \<Rightarrow> Inr (map (\<lambda>c. PStr [c]) s)
        | PDict kvs \<Rightarrow> Inr (map (\<lambda>kv. PStr (fst kv)) kvs)
        | _ \<Rightarrow> Inl (TypeError ''object is not iterable''))"

definition read_workflow_config :: "pyval \<Rightarrow> pyval res" where
  "read_workflow_config cfg =
     (if py_get ''target'' PNone cfg = PStr ''tgoskits_starryos'' then Inr cfg
      else Inl (RunnerError (''tgoskits_starryos entrypoint requires a tgoskits_starryos workflow, got '' @
        py_str (py_get ''workflow'' PNone cfg))))"

definition require_feature_flag :: "starry_env \<Rightarrow> pyval \<Rightarrow> unit res" where
  "require_feature_flag env cfg =
     bind (target_config cfg) (\<lambda>t.
     let flag = config_str ''feature_flag_env'' [] t in
     require (flag = [] \<or> dict_get flag (sv_environ env) = Some ''1'')
       (RunnerError (''set '' @ flag @ ''=1 to enable TGOSKits external target workflows'')))"

definition repo_dir :: "starry_env \<Rightarrow> pyval \<Rightarrow> store \<Rightarrow> string res" where
  "repo_dir env cfg st =
     bind (target_config cfg) (\<lambda>t.
     let name = config_str ''repo_dir_env'' ''SYZABI_TGOSKITS_DIR'' t;
         selected = (case dict_get name (sv_environ env) of
             None \<Rightarrow> config_str ''repo_dir'' [] t | Some v \<Rightarrow> if v = [] then config_str ''repo_dir'' [] t else v) in
     if selected = [] then
       bind (py_item ''workflow'' cfg) (\<lambda>w. Inl (RunnerError (''missing TGOSKits workspace; set '' @ name @
         '' or configure target_config.repo_dir for workflow '' @ py_str w)))
     else let path = sv_expanduser env selected in
       if there env st path then Inr path
       else Inl (RunnerError (''configured TGOSKits workspace does not exist: '' @ path)))"

definition workspace_dir :: "starry_env \<Rightarrow> pyval \<Rightarrow> store \<Rightarrow> string res" where
  "workspace_dir env cfg st =
     bind (repo_dir env cfg st) (\<lambda>r. bind (target_config cfg) (\<lambda>t.
     let workspace = path_div r (config_str ''workspace_subdir'' [] t) in
     if there env st workspace then Inr workspace
     else Inl (RunnerError (''configured StarryOS workspace does not exist: '' @ workspace))))"

definition ensure_supported_arch :: "pyval \<Rightarrow> unit res" where
  "ensure_supported_arch cfg =
     bind (target_config cfg) (\<lambda>t. bind (config_items ''supported_arches'' t) (\<lambda>supported.
     let arch = config_str ''arch'' [] cfg in
     require (supported = [] \<or> arch \<in> set (map py_str supported)) (RunnerError (''unsupported StarryOS arch '' @ arch))))"

definition first_text :: "string list \<Rightarrow> string" where
  "first_text ts = (case filter (\<lambda>t. t \<noteq> []) ts of [] \<Rightarrow> [] | t # _ \<Rightarrow> t)"

definition ensure_pinned_revision :: "starry_env \<Rightarrow> pyval \<Rightarrow> store \<Rightarrow> string res" where
  "ensure_pinned_revision env cfg st =
     bind (target_config cfg) (\<lambda>t.
     let revision = strip (config_str ''revision'' [] t) in
     if revision = [] then Inl (RunnerError ''target_config.revision must pin the TGOSKits checkout'')
     else bind (repo_dir env cfg st) (\<lambda>r.
       let git = sv_git_head env r; current = strip (hr_stdout git) in
       if hr_returncode git \<noteq> 0 then
         Inl (RunnerError (first_text [strip (hr_stderr git), current, ''failed to read TGOSKits revision'']))
       else if current \<noteq> revision then
         Inl (RunnerError (''TGOSKits revision mismatch: expected '' @ revision @ '', got '' @ current))
       else Inr current))"

text \<open>\<open>resolve_compiler_path\<close>: the search path, the variable of the compiler, the usual place at home.\<close>

definition upper_char :: "char \<Rightarrow> char" where
  "upper_char c = (let n = of_char c :: nat in if 97 \<le> n \<and> n \<le> 122 then char_of (n - 32) else c)"

definition compiler_variable :: "string \<Rightarrow> string" where
  "compiler_variable compiler =
     ''SYZABI_'' @ map (\<lambda>c. if c = CHR ''-'' then CHR ''_'' else upper_char c) compiler @ ''_PATH''"

definition before_last :: "char \<Rightarrow> string \<Rightarrow> string" where
  "before_last c s = (if c \<in> set s then rev (tl (dropWhile (\<lambda>x. x \<noteq> c) (rev s))) else s)"

definition resolve_compiler_path :: "starry_env \<Rightarrow> string \<Rightarrow> string option" where
  "resolve_compiler_path env compiler =
     (case sv_which env compiler of Some p \<Rightarrow> Some p
      | None \<Rightarrow>
        let named = env_path env (compiler_variable compiler);
            candidate = pjoin (pjoin (pjoin (sv_home env) ''toolchains'') (before_last (CHR ''-'') compiler @ ''-cross''))
              (''bin/'' @ compiler) in
        if (case named of None \<Rightarrow> False | Some p \<Rightarrow> sv_executable env p) then named
        else if dict_get ''SYZABI_DISABLE_TOOLCHAIN_FALLBACK'' (sv_environ env) \<noteq> Some ''1'' \<and> sv_executable env candidate
        then Some candidate else None)"

definition shutil_which :: "starry_env \<Rightarrow> string \<Rightarrow> string option" where
  "shutil_which env tool =
     (case resolve_compiler_path env tool of
        Some p \<Rightarrow> if p = [] then None else Some p
      | None \<Rightarrow> let out = strip (sv_sh env (''command -v '' @ shlex_quote tool)) in if out = [] then None else Some out)"

definition ensure_toolchain_probes :: "starry_env \<Rightarrow> pyval \<Rightarrow> unit res" where
  "ensure_toolchain_probes env cfg =
     bind (target_config cfg) (\<lambda>t. bind (config_items ''toolchain_probes'' t) (\<lambda>tools.
     let missing = filter (\<lambda>tool. shutil_which env tool = None) (map py_str tools) in
     require (missing = []) (RunnerError (''missing required StarryOS tools: '' @ join '', '' missing))))"

definition disk_image_path :: "starry_env \<Rightarrow> pyval \<Rightarrow> store \<Rightarrow> string res" where
  "disk_image_path env cfg st =
     bind (repo_dir env cfg st) (\<lambda>r. bind (target_config cfg) (\<lambda>t. Inr (path_div r (config_str ''disk_image_path'' [] t))))"

definition preflight_payload :: "starry_env \<Rightarrow> pyval \<Rightarrow> store \<Rightarrow> pyval res" where
  "preflight_payload env cfg st =
     bind (require_feature_flag env cfg) (\<lambda>_. bind (ensure_supported_arch cfg) (\<lambda>_.
     bind (ensure_pinned_revision env cfg st) (\<lambda>revision. bind (ensure_toolchain_probes env cfg) (\<lambda>_.
     bind (workspace_dir env cfg st) (\<lambda>workspace. bind (repo_dir env cfg st) (\<lambda>r.
     bind (target_config cfg) (\<lambda>t. bind (disk_image_path env cfg st) (\<lambda>image.
     Inr (PDict [(''target'', PStr ''tgoskits_starryos''), (''workflow'', PStr (config_str ''workflow'' [] cfg)),
       (''arch'', PStr (config_str ''arch'' [] cfg)), (''repo_dir'', PStr r), (''workspace_dir'', PStr workspace),
       (''revision'', PStr revision), (''mode'', PStr (config_str ''default_mode'' ''shell-qemu'' t)),
       (''disk_image_path'', PStr image)])))))))))"

section \<open>Commands\<close>

definition command_values :: "starry_env \<Rightarrow> pyval \<Rightarrow> nat \<Rightarrow> string \<Rightarrow> store \<Rightarrow> (string, string) dict res" where
  "command_values env cfg port socket_path st =
     bind (repo_dir env cfg st) (\<lambda>r.
     Inr [(''arch'', config_str ''arch'' ''riscv64'' cfg), (''repo_dir'', r), (''serial_port'', nat_str port),
       (''serial_socket_path'', socket_path)])"

definition template_command :: "pyval \<Rightarrow> (string, string) dict \<Rightarrow> string list res" where
  "template_command t vars = (case t of
       PStr s \<Rightarrow> bind (shlex_split s) (map_res (py_format vars))
     | PList vs \<Rightarrow> map_res (\<lambda>v. py_format vars (py_str v)) vs
     | _ \<Rightarrow> Inl (RunnerError ''unsupported command template type''))"

definition config_int :: "string \<Rightarrow> int \<Rightarrow> pyval \<Rightarrow> int res" where
  "config_int k dflt d = py_int (py_get k (PInt dflt) d)"

section \<open>The prepared checkout\<close>

text \<open>\<open>json.dump\<close> as it is called here: compact, in the order of the keys. Escapes of characters
  beyond ASCII are not modelled.\<close>

definition ascii :: "string \<Rightarrow> bool" where
  "ascii s = list_all (\<lambda>c. (of_char c :: nat) < 127) s"

definition json_plain :: "pyval \<Rightarrow> string res" where
  "json_plain v = (let t = json_encode False 0 v in
     if ascii t then Inr t else Inl (NotImplementedErr ''ensure_ascii escapes''))"

definition label_of_revision :: "string \<Rightarrow> string" where
  "label_of_revision revision = ''tgoskits-starryos@'' @ take 12 revision"

definition run_prepare :: "starry_env \<Rightarrow> pyval \<Rightarrow> pyval \<Rightarrow> (string, string) dict \<Rightarrow> pyval \<Rightarrow> unit step" where
  "run_prepare env cfg t vars template =
     and_then (pure (template_command template vars)) (\<lambda>command.
     and_then (\<lambda>st. (workspace_dir env cfg st, st)) (\<lambda>cwd.
     and_then (pure (config_int ''prepare_timeout_sec'' 1800 t)) (\<lambda>timeout.
     and_then (sv_run env command cwd timeout) (\<lambda>run.
     pure (require (hr_returncode run = 0) (RunnerError (first_text [strip (hr_stderr run), strip (hr_stdout run),
       ''prepare command failed: '' @ join '' '' command])))))))"

definition build_info :: "starry_env \<Rightarrow> pyval \<Rightarrow> string \<Rightarrow> store \<Rightarrow> pyval res" where
  "build_info env cfg revision st =
     bind (disk_image_path env cfg st) (\<lambda>image. bind (repo_dir env cfg st) (\<lambda>r.
     Inr (PDict [(''target'', PStr ''tgoskits_starryos''), (''revision'', PStr revision),
       (''arch'', PStr (config_str ''arch'' [] cfg)), (''disk_image_path'', PStr image), (''workspace'', PStr r)])))"

text \<open>The record of the last preparation, an empty file at first: \<open>None\<close> where there is none to use.\<close>

definition recorded_revision :: "string \<Rightarrow> pyval res" where
  "recorded_revision content =
     (if content = [] then Inr PNone
      else bind (json_loads content) (\<lambda>existing.
        if is_dict existing then Inr (py_get ''revision'' PNone existing)
        else Inl (TypeError ''object has no attribute get'')))"

text \<open>What happens while the record is locked.\<close>

definition prepare_locked :: "starry_env \<Rightarrow> pyval \<Rightarrow> pyval \<Rightarrow> string \<Rightarrow> string \<Rightarrow> string step" where
  "prepare_locked env cfg t revision info_path =
     and_then (\<lambda>st. (recorded_revision (opt_default [] (st info_path)), st)) (\<lambda>recorded.
     if recorded = PStr revision then pure (Inr (label_of_revision revision))
     else
       and_then (\<lambda>st. (command_values env cfg 0 [] st, st)) (\<lambda>vars.
       and_then (pure (config_items ''prepare_commands'' t)) (\<lambda>templates.
       and_then (each (run_prepare env cfg t vars) templates) (\<lambda>_.
       and_then (\<lambda>st. (bind (build_info env cfg revision st) json_plain, st)) (\<lambda>text.
       and_then (change (\<lambda>st. st(info_path \<mapsto> text))) (\<lambda>_.
       pure (Inr (label_of_revision revision))))))))"

definition prepare_target :: "starry_env \<Rightarrow> pyval \<Rightarrow> string step" where
  "prepare_target env cfg =
     and_then (pure (require_feature_flag env cfg)) (\<lambda>_.
     and_then (pure (ensure_supported_arch cfg)) (\<lambda>_.
     and_then (pure (ensure_toolchain_probes env cfg)) (\<lambda>_.
     and_then (\<lambda>st. (ensure_pinned_revision env cfg st, st)) (\<lambda>revision.
     and_then (pure (target_config cfg)) (\<lambda>t.
     and_then (pure (str_item ''build_info_path'' t)) (\<lambda>p.
     let info_path = resolve_repo_path (sv_root env) p in
     and_then (change (\<lambda>st. if st info_path = None then st(info_path \<mapsto> []) else st)) (\<lambda>_.
     prepare_locked env cfg t revision info_path)))))))"

section \<open>The disk image\<close>

text \<open>\<open>stem\<close> and \<open>suffix\<close> of the last component: a dot at its start or end separates nothing.\<close>

definition dot_at :: "string \<Rightarrow> nat option" where
  "dot_at name =
     (let i = length (before_last (CHR ''.'') name) in
      if CHR ''.'' \<in> set name \<and> 0 < i \<and> i < length name - 1 then Some i else None)"

definition guest_binary_path :: "pyval \<Rightarrow> string \<Rightarrow> string res" where
  "guest_binary_path cfg extra =
     bind (target_config cfg) (\<lambda>t.
     let base = config_str ''guest_binary_path'' ''/bin/testcase.candidate.bin'' t;
         name = rev (takeWhile (\<lambda>c. c \<noteq> CHR ''/'') (rev base));
         dir = take (length base - length name) base in
     Inr (if extra = [] then base
          else case dot_at name of None \<Rightarrow> dir @ name @ extra | Some i \<Rightarrow> dir @ take i name @ extra @ drop i name))"

definition path_stem :: "string \<Rightarrow> string" where
  "path_stem p = (let name = path_name p in case dot_at name of None \<Rightarrow> name | Some i \<Rightarrow> take i name)"

text \<open>\<open>str.replace\<close> of a text that is not empty.\<close>

function str_replace :: "string \<Rightarrow> string \<Rightarrow> string \<Rightarrow> string" where
  "str_replace old new s =
     (if s = [] \<or> old = [] then s
      else if startswith s old then new @ str_replace old new (drop (length old) s)
      else hd s # str_replace old new (tl s))"
  by pat_completeness auto
termination
  by (relation "measure (\<lambda>(old, new, s). length s)") auto

declare str_replace.simps [simp del]

definition qemu_template_path :: "starry_env \<Rightarrow> pyval \<Rightarrow> store \<Rightarrow> string res" where
  "qemu_template_path env cfg st =
     bind (repo_dir env cfg st) (\<lambda>r.
     Inr (pjoin r (''test-suit/starryos/qemu-'' @ config_str ''arch'' ''riscv64'' cfg @ ''.toml'')))"

definition shared_rootfs_placeholder :: "pyval \<Rightarrow> string" where
  "shared_rootfs_placeholder cfg =
     (let arch = config_str ''arch'' ''riscv64'' cfg;
          target = (if arch = ''riscv64'' then arch @ ''gc-unknown-none-elf'' else arch @ ''-unknown-none'') in
      ''${workspace}/target/'' @ target @ ''/rootfs-'' @ arch @ ''.img'')"

definition prepare_isolated_qemu_config :: "starry_env \<Rightarrow> pyval \<Rightarrow> string \<Rightarrow> (string \<times> string option) step" where
  "prepare_isolated_qemu_config env cfg sandbox_root =
     and_then (\<lambda>st. (disk_image_path env cfg st, st)) (\<lambda>original.
     and_then (\<lambda>st. (require (there env st original) (RunnerError (''StarryOS disk image is missing: '' @ original)), st)) (\<lambda>_.
     let copied = pjoin sandbox_root ''rootfs-riscv64.img'' in
     and_then (\<lambda>st. (opt_res (OSErr ''not a file'') (st original), st)) (\<lambda>content.
     and_then (change (\<lambda>st. st(copied \<mapsto> content))) (\<lambda>_.
     and_then (\<lambda>st. (qemu_template_path env cfg st, st)) (\<lambda>template.
     and_then (\<lambda>st. (Inr (st template), st)) (\<lambda>text.
     case text of None \<Rightarrow> pure (Inr (copied, None))
     | Some config_text \<Rightarrow>
         (let isolated = str_replace original copied (str_replace (shared_rootfs_placeholder cfg) copied config_text);
              temp = pjoin sandbox_root ''qemu-isolated.toml'' in
          and_then (change (\<lambda>st. st(temp \<mapsto> isolated))) (\<lambda>_. pure (Inr (copied, Some temp))))))))))"

definition install_binary_into_rootfs :: "starry_env \<Rightarrow> pyval \<Rightarrow> string \<Rightarrow> string \<Rightarrow> string option \<Rightarrow> unit step" where
  "install_binary_into_rootfs env cfg host_binary guest_path given =
     and_then (case given of Some i \<Rightarrow> pure (Inr i) | None \<Rightarrow> (\<lambda>st. (disk_image_path env cfg st, st))) (\<lambda>img.
     and_then (\<lambda>st. (require (there env st img) (RunnerError (''StarryOS disk image is missing: '' @ img)), st)) (\<lambda>_.
     and_then (\<lambda>st. (Inr (), snd (sv_debugfs env (''rm '' @ guest_path) img st))) (\<lambda>_.
     and_then (\<lambda>st. apfst Inr (sv_debugfs env (''write '' @ host_binary @ '' '' @ guest_path) img st)) (\<lambda>run.
     pure (require (hr_returncode run = 0) (RunnerError (first_text [strip (hr_stderr run), strip (hr_stdout run),
       ''failed to write '' @ guest_path @ '' into '' @ img])))))))"

section \<open>The shell session\<close>

text \<open>
  A Unix socket object is kept also when its connection is refused; a TCP connection is an object only
  once it stands. \<open>ss_sent\<close> is what has been typed.
\<close>

datatype serial = NoSocket | Unconnected | Connected

record session =
  ss_serial :: serial
  ss_pty :: bool
  ss_sent :: "string list"

fun connect_loop :: "string \<Rightarrow> serial \<Rightarrow> connect_try list \<Rightarrow> serial res" where
  "connect_loop transport sock [] =
     (if sock = NoSocket then Inl (RunnerError ''failed to connect to StarryOS serial console'') else Inr sock)"
| "connect_loop transport sock (t # ts) =
     (case t of
        LaunchExited \<Rightarrow> Inl (RunnerError ''StarryOS launch process exited before shell became available'')
      | NotThere \<Rightarrow> connect_loop transport sock ts
      | Refused \<Rightarrow> connect_loop transport (if transport = ''unix'' then Unconnected else sock) ts
      | Accepted \<Rightarrow> Inr Connected)"

definition no_marker :: "string \<Rightarrow> py_error" where
  "no_marker marker = RunnerError (''did not observe marker '' @ marker @ '' before timeout'')"

fun poll_until :: "string \<Rightarrow> nat \<Rightarrow> (bool \<times> string \<times> string) list \<Rightarrow> string res" where
  "poll_until marker start [] = Inl (no_marker marker)"
| "poll_until marker start ((exited, seen, seen') # ps) =
     (if exited \<and> \<not> contains (drop start seen) marker then Inl (no_marker marker)
      else if contains (drop start seen') marker then Inr (drop start seen')
      else poll_until marker start ps)"

fun recv_until :: "string \<Rightarrow> string \<Rightarrow> recv list \<Rightarrow> string res" where
  "recv_until marker collected [] = Inl (no_marker marker)"
| "recv_until marker collected (r # rs) =
     (case r of
        Timeout \<Rightarrow> recv_until marker collected rs
      | Empty exited \<Rightarrow> if exited then Inl (no_marker marker) else recv_until marker collected rs
      | Data chunk \<Rightarrow> if contains (collected @ chunk) marker then Inr (collected @ chunk)
          else recv_until marker (collected @ chunk) rs)"

definition serial_transport :: "pyval \<Rightarrow> string" where
  "serial_transport t = config_str ''serial_transport'' ''tcp'' t"

definition read_until :: "pyval \<Rightarrow> session \<Rightarrow> string \<Rightarrow> nat \<Rightarrow> exchange \<Rightarrow> string res" where
  "read_until t session marker start x =
     (if serial_transport t = ''stdio'' then poll_until marker start (xc_polls x)
      else case ss_serial session of
        NoSocket \<Rightarrow> Inl (RunnerError ''serial socket is not connected'')
      | Unconnected \<Rightarrow> Inl (OSErr ''Transport endpoint is not connected'')
      | Connected \<Rightarrow> recv_until marker [] (xc_recvs x))"

definition session_start :: "starry_env \<Rightarrow> pyval \<Rightarrow> string list \<Rightarrow> store \<Rightarrow> session res" where
  "session_start env cfg extra_args st =
     bind (target_config cfg) (\<lambda>t.
     let transport = serial_transport t in
     bind (require (transport \<in> {''tcp'', ''unix'', ''stdio''}) (RunnerError (''unsupported serial transport: '' @ transport))) (\<lambda>_.
     bind (py_item ''shell_launch_command'' t) (\<lambda>template.
     bind (command_values env cfg (if transport = ''tcp'' then sv_port env else 0)
       (if transport = ''unix'' then sv_socket_path env else []) st) (\<lambda>vars.
     bind (template_command template vars) (\<lambda>command.
     bind (workspace_dir env cfg st) (\<lambda>cwd.
     bind (config_int ''boot_timeout_sec'' 60 t) (\<lambda>_.
     bind (if transport = ''stdio'' then Inr NoSocket
           else connect_loop transport NoSocket (sv_connect env (command @ extra_args) cwd)) (\<lambda>sock.
     let session = \<lparr>ss_serial = sock, ss_pty = (transport = ''stdio''), ss_sent = []\<rparr> in
     bind (str_item ''shell_prompt'' t) (\<lambda>prompt.
     bind (read_until t session prompt 0 (sv_console env [])) (\<lambda>_. Inr session))))))))))"

section \<open>One command\<close>

definition CASE_BEGIN_PREFIX :: string where "CASE_BEGIN_PREFIX = ''__SYZABI_CASE_BEGIN__:''"
definition CASE_EXIT_PREFIX :: string where "CASE_EXIT_PREFIX = ''__SYZABI_CASE_EXIT__:''"
definition HEALTHCHECK_SUCCESS_MARKER :: string where "HEALTHCHECK_SUCCESS_MARKER = ''__SYZABI_HEALTHCHECK_OK__''"

definition begin_marker :: "string \<Rightarrow> string" where
  "begin_marker label = CASE_BEGIN_PREFIX @ label"

definition exit_marker :: "string \<Rightarrow> string" where
  "exit_marker label = CASE_EXIT_PREFIX @ label @ '':''"

definition full_command :: "string \<Rightarrow> string \<Rightarrow> string" where
  "full_command label command =
     ''echo '' @ begin_marker label @ ''; '' @ command @ ''; echo '' @ exit_marker label @ ''$?''"

definition parse_section :: "string \<Rightarrow> string \<Rightarrow> (string \<times> int) res" where
  "parse_section label output =
     (case (find_from output (begin_marker label) 0, find_from output (exit_marker label) 0) of
        (Some b, Some e) \<Rightarrow>
          (case splitlines (drop e output) of
             [] \<Rightarrow> Inl IndexError
           | line # _ \<Rightarrow>
             (case py_int (PStr (strip (drop (length (exit_marker label)) line))) of
                Inl _ \<Rightarrow> Inl (RunnerError (''failed to parse exit marker for '' @ label @ '': '' @ line))
              | Inr code \<Rightarrow> Inr (take (e - (b + length (begin_marker label))) (drop (b + length (begin_marker label)) output), code)))
      | _ \<Rightarrow> Inl (RunnerError (''failed to capture command markers for '' @ label)))"

definition typed :: "pyval \<Rightarrow> string \<Rightarrow> string" where
  "typed t line = line @ (if serial_transport t = ''stdio'' then [CHR 0x0D] else [CHR 0x0D, CHR 0x0A])"

text \<open>The answer to a line, the section of its output and the exit code; then the console as it is read next.\<close>

definition run_command ::
  "starry_env \<Rightarrow> pyval \<Rightarrow> session \<Rightarrow> string \<Rightarrow> string \<Rightarrow> (string \<times> int \<times> string \<times> session) res" where
  "run_command env cfg session label command =
     bind (target_config cfg) (\<lambda>t.
     bind (require (serial_transport t = ''stdio'' \<or> ss_serial session \<noteq> NoSocket) (RunnerError ''serial socket is not connected'')) (\<lambda>_.
     bind (require (serial_transport t \<noteq> ''stdio'' \<or> ss_pty session) (RunnerError ''stdio shell PTY is not connected'')) (\<lambda>_.
     bind (require (serial_transport t = ''stdio'' \<or> ss_serial session = Connected) (OSErr ''Transport endpoint is not connected'')) (\<lambda>_.
     let sent = ss_sent session @ [typed t (full_command label command)]; x = sv_console env sent in
     bind (config_int ''command_timeout_sec'' 30 t) (\<lambda>_.
     bind (str_item ''shell_prompt'' t) (\<lambda>prompt.
     bind (read_until t session prompt (length (xc_before x)) x) (\<lambda>output.
     bind (parse_section label output) (\<lambda>(section, code).
     Inr (section, code, xc_after x, session\<lparr>ss_sent := sent\<rparr>)))))))))"

section \<open>What a case leaves\<close>

definition INJECT_VARIABLES :: "string list" where
  "INJECT_VARIABLES = [''SYZABI_INJECT_TRACE_ENABLED'', ''SYZABI_INJECT_TRACE_CALL_INDEX'', ''SYZABI_INJECT_TRACE_SYSCALL'',
     ''SYZABI_INJECT_TRACE_FIELD'', ''SYZABI_INJECT_TRACE_VALUE'']"

definition case_variables :: "starry_env \<Rightarrow> pyval \<Rightarrow> (string, string) dict res" where
  "case_variables env cfg =
     bind (py_item ''normalization'' cfg) (\<lambda>n. bind (py_item ''preview_bytes'' n) (\<lambda>preview.
     let value_of = \<lambda>k dflt. opt_default dflt (dict_get k (sv_environ env)) in
     Inr ([(''SYZABI_SIDE'', value_of ''SYZABI_SIDE'' ''candidate''),
           (''SYZABI_TRACE_EVENTS_PATH'', value_of ''SYZABI_TRACE_EVENTS_PATH'' ''stdout''),
           (''SYZABI_TRACE_PREVIEW_BYTES'', value_of ''SYZABI_TRACE_PREVIEW_BYTES'' (py_str preview))] @
       List.map_filter (\<lambda>k. map_option (Pair k) (dict_get k (sv_environ env))) INJECT_VARIABLES)))"

definition assignment :: "string \<times> string \<Rightarrow> string" where
  "assignment kv = fst kv @ ''='' @ shlex_quote (snd kv)"

definition env_assignments :: "starry_env \<Rightarrow> pyval \<Rightarrow> string res" where
  "env_assignments env cfg = bind (case_variables env cfg) (\<lambda>vars. Inr (join '' '' (map assignment vars)))"

record case_files =
  cf_raw_trace_path :: string
  cf_external_state_path :: string
  cf_runner_result_path :: string
  cf_console_path :: "string option"

definition write_console :: "string option \<Rightarrow> string \<Rightarrow> store \<Rightarrow> store" where
  "write_console path console_text st = (case path of None \<Rightarrow> st | Some p \<Rightarrow> write_text p console_text st)"

definition raw_trace_doc :: "string \<Rightarrow> string \<Rightarrow> pyval list \<Rightarrow> int \<Rightarrow> pyval" where
  "raw_trace_doc program_id run_id events exit_code =
     PDict [(''program_id'', PStr program_id), (''side'', PStr ''candidate''), (''run_id'', PStr run_id),
       (''status'', PStr ''ok''), (''events'', PList events),
       (''process_exit'', PDict [(''status'', PStr ''ok''), (''exit_code'', PInt exit_code), (''timed_out'', PBool False)])]"

definition write_case_outputs ::
  "string \<Rightarrow> string \<Rightarrow> string \<Rightarrow> string \<Rightarrow> int \<Rightarrow> string \<Rightarrow> case_files \<Rightarrow> unit step" where
  "write_case_outputs program_id run_id console_text command_output exit_code kernel_build files =
     and_then (pure (extract_framed_events command_output)) (\<lambda>events.
     and_then (change (dump_json (cf_external_state_path files) (PDict [(''files'', PList [])]))) (\<lambda>_.
     if events = [] then
       change (write_console (cf_console_path files) console_text \<circ>
         dump_json (cf_runner_result_path files) (PDict [(''status'', PStr ''infra_error''), (''exit_code'', PInt exit_code),
           (''detail'', PStr ''missing trace markers in StarryOS command output''), (''kernel_build'', PStr kernel_build)]))
     else
       change (write_console (cf_console_path files) console_text \<circ>
         dump_json (cf_runner_result_path files) (PDict [(''status'', PStr ''ok''), (''exit_code'', PInt exit_code),
           (''kernel_build'', PStr kernel_build)]) \<circ>
         dump_json (cf_raw_trace_path files) (raw_trace_doc program_id run_id events exit_code))))"

section \<open>The three modes\<close>

definition healthcheck :: "starry_env \<Rightarrow> pyval \<Rightarrow> unit step" where
  "healthcheck env cfg =
     and_then (pure (read_workflow_config cfg)) (\<lambda>_.
     and_then (prepare_target env cfg) (\<lambda>label. \<lambda>st.
     let outcome =
       bind (session_start env cfg [] st) (\<lambda>session.
       bind (target_config cfg) (\<lambda>t.
       bind (py_item ''healthcheck_shell_command'' t) (\<lambda>command.
       bind (run_command env cfg session ''healthcheck'' (py_str command)) (\<lambda>(section, code, console, session').
       require (code = 0 \<and> contains section HEALTHCHECK_SUCCESS_MARKER)
         (RunnerError ''StarryOS healthcheck shell command did not complete successfully'')))));
       st1 = (if is_ok outcome then write_runner_result env (PDict [(''status'', PStr ''ok''), (''exit_code'', PInt 0),
           (''kernel_build'', PStr label)]) st else st) in
     (outcome, write_console (env_path env ''SYZABI_CONSOLE_LOG_PATH'') (sv_console_at_end env) st1)))"

definition starry_run_case :: "starry_env \<Rightarrow> pyval \<Rightarrow> string \<Rightarrow> string \<Rightarrow> unit step" where
  "starry_run_case env cfg binary sandbox_root =
     and_then (pure (read_workflow_config cfg)) (\<lambda>_.
     and_then (prepare_target env cfg) (\<lambda>label.
     and_then (pure (guest_binary_path cfg [])) (\<lambda>guest_path.
     and_then (prepare_isolated_qemu_config env cfg sandbox_root) (\<lambda>(copied, temp_config).
     and_then (install_binary_into_rootfs env cfg binary guest_path (Some copied)) (\<lambda>_.
     and_then (\<lambda>st. (session_start env cfg (case temp_config of None \<Rightarrow> [] | Some c \<Rightarrow> [''--qemu-config'', c]) st, st)) (\<lambda>session.
     and_then (pure (env_assignments env cfg)) (\<lambda>vars.
     and_then (pure (run_command env cfg session (path_name binary) (vars @ '' '' @ shlex_quote guest_path)))
       (\<lambda>(section, code, console, session').
     case (env_path env ''SYZABI_RAW_TRACE_PATH'', env_path env ''SYZABI_EXTERNAL_STATE_PATH'', env_path env ''SYZABI_RUNNER_RESULT_PATH'') of
       (Some raw, Some ext, Some res) \<Rightarrow>
         write_case_outputs (opt_default (path_stem binary) (dict_get ''SYZABI_PROGRAM_ID'' (sv_environ env)))
           (opt_default [] (dict_get ''SYZABI_RUN_ID'' (sv_environ env))) console section code label
           \<lparr>cf_raw_trace_path = raw, cf_external_state_path = ext, cf_runner_result_path = res,
             cf_console_path = env_path env ''SYZABI_CONSOLE_LOG_PATH''\<rparr>
     | _ \<Rightarrow> pure (Inl (RunnerError ''missing SysABI output paths for StarryOS candidate run''))))))))))"

definition case_str :: "string \<Rightarrow> pyval \<Rightarrow> string res" where
  "case_str k c = bind (py_item k c) (\<lambda>v. Inr (py_str v))"

definition files_of_case :: "pyval \<Rightarrow> case_files res" where
  "files_of_case c =
     bind (case_str ''raw_trace_path'' c) (\<lambda>raw. bind (case_str ''external_state_path'' c) (\<lambda>ext.
     bind (case_str ''runner_result_path'' c) (\<lambda>result. bind (case_str ''console_path'' c) (\<lambda>console.
     Inr \<lparr>cf_raw_trace_path = raw, cf_external_state_path = ext, cf_runner_result_path = result,
       cf_console_path = Some console\<rparr>))))"

fun batch_install :: "starry_env \<Rightarrow> pyval \<Rightarrow> nat \<Rightarrow> pyval list \<Rightarrow> unit step" where
  "batch_install env cfg i [] = pure (Inr ())"
| "batch_install env cfg i (c # cs) =
     and_then (pure (case_str ''binary_path'' c)) (\<lambda>binary.
     and_then (pure (guest_binary_path cfg (''-'' @ nat_str i))) (\<lambda>guest_path.
     and_then (install_binary_into_rootfs env cfg binary guest_path None) (\<lambda>_. batch_install env cfg (Suc i) cs)))"

definition batch_command :: "starry_env \<Rightarrow> pyval \<Rightarrow> nat \<Rightarrow> string res" where
  "batch_command env cfg i =
     bind (guest_binary_path cfg (''-'' @ nat_str i)) (\<lambda>guest_path.
     bind (env_assignments env cfg) (\<lambda>vars. Inr (vars @ '' '' @ shlex_quote guest_path)))"

fun batch_loop :: "starry_env \<Rightarrow> pyval \<Rightarrow> string \<Rightarrow> nat \<Rightarrow> session \<Rightarrow> pyval list \<Rightarrow> unit step" where
  "batch_loop env cfg label i session [] = pure (Inr ())"
| "batch_loop env cfg label i session (c # cs) =
     and_then (pure (case_str ''program_id'' c)) (\<lambda>program_id.
     and_then (pure (batch_command env cfg i)) (\<lambda>command.
     and_then (pure (run_command env cfg session program_id command)) (\<lambda>(section, code, console, session').
     and_then (pure (case_str ''run_id'' c)) (\<lambda>run_id.
     and_then (pure (files_of_case c)) (\<lambda>files.
     and_then (write_case_outputs program_id run_id console section code label files) (\<lambda>_.
     batch_loop env cfg label (Suc i) session' cs))))))"

definition load_batch_manifest :: "string \<Rightarrow> store \<Rightarrow> pyval res" where
  "load_batch_manifest path st = bind (read_text path st) json_loads"

definition starry_run_batch :: "starry_env \<Rightarrow> pyval \<Rightarrow> string \<Rightarrow> unit step" where
  "starry_run_batch env cfg manifest_path =
     and_then (pure (read_workflow_config cfg)) (\<lambda>_.
     and_then (prepare_target env cfg) (\<lambda>label.
     and_then (\<lambda>st. (load_batch_manifest manifest_path st, st)) (\<lambda>manifest.
     and_then (pure (config_items ''cases'' manifest)) (\<lambda>cases.
     and_then (batch_install env cfg 0 cases) (\<lambda>_.
     and_then (\<lambda>st. (session_start env cfg [] st, st)) (\<lambda>session.
     batch_loop env cfg label 0 session cases))))))"

datatype starry_mode = Healthcheck | Batch string | Single string string

fun run_mode :: "starry_env \<Rightarrow> pyval \<Rightarrow> starry_mode \<Rightarrow> unit step" where
  "run_mode env cfg Healthcheck = healthcheck env cfg"
| "run_mode env cfg (Batch manifest) = starry_run_batch env cfg manifest"
| "run_mode env cfg (Single binary work_dir) = starry_run_case env cfg binary work_dir"

text \<open>Only the launcher's own errors become a result file.\<close>

definition starry_main :: "starry_env \<Rightarrow> pyval \<Rightarrow> starry_mode \<Rightarrow> unit step" where
  "starry_main env cfg mode st =
     (case run_mode env cfg mode st of
        (Inl (RunnerError m), st1) \<Rightarrow>
          (Inl (SystemExit m), write_runner_result env (PDict [(''status'', PStr ''infra_error''), (''exit_code'', PNone),
             (''detail'', PStr m), (''kernel_build'', PStr ''unknown'')]) st1)
      | r \<Rightarrow> r)"


section \<open>Words survive the shell\<close>

lemma safe_char:
  assumes "shell_safe c"
  shows "\<not> shell_space c" "c \<noteq> CHR 0x5C" "c \<noteq> CHR 0x22" "c \<noteq> CHR 0x27"
  using assms by (auto simp: shell_safe_def shell_space_def Let_def)

lemma shlex_safe:
  "list_all shell_safe s \<Longrightarrow> s \<noteq> [] \<Longrightarrow> shlex_loop None cur (s @ r) = shlex_loop None (Some (opt_default [] cur @ s)) r"
proof (induction s arbitrary: cur)
  case (Cons c s)
  from Cons.prems(1) have "shell_safe c" by simp
  note safe = safe_char [OF this]
  show ?case
  proof (cases "s = []")
    case False
    with Cons safe show ?thesis by (simp add: opt_default_def)
  qed (use safe in simp)
qed simp

lemma shlex_single:
  "shlex_loop (Some (CHR 0x27)) (Some w)
     (concat (map (\<lambda>c. if c = CHR 0x27 then [CHR 0x27, CHR 0x22, CHR 0x27, CHR 0x22, CHR 0x27] else [c]) s) @ CHR 0x27 # r) =
   shlex_loop None (Some (w @ s)) r"
  by (induction s arbitrary: w) (simp_all add: opt_default_def shell_space_def)

lemma shlex_quoted: "shlex_loop None cur (shlex_quote s @ r) = shlex_loop None (Some (opt_default [] cur @ s)) r"
  using shlex_single [of "opt_default [] cur" s r] shlex_safe [of s cur r]
  by (auto simp: shlex_quote_def opt_default_def shell_space_def)

text \<open>A text that the splitter reads as one value, wherever it stands.\<close>

definition word :: "string \<Rightarrow> string \<Rightarrow> bool" where
  "word w v \<longleftrightarrow> (\<forall>cur r. shlex_loop None cur (w @ r) = shlex_loop None (Some (opt_default [] cur @ v)) r)"

lemma word_quote: "word (shlex_quote s) s"
  by (simp add: word_def shlex_quoted)

lemma word_assignment:
  assumes "list_all shell_safe name"
  shows "word (assignment (name, v)) (name @ ''='' @ v)"
proof -
  have "list_all shell_safe (name @ ''='')" using assms by (simp add: shell_safe_def Let_def)
  from shlex_safe [OF this] show ?thesis
    by (simp add: word_def assignment_def opt_default_def shlex_quoted)
qed

lemma shlex_join: "list_all2 word ws vs \<Longrightarrow> shlex_split (join '' '' ws) = Inr vs"
proof (induction ws vs rule: list_all2_induct)
  case (Cons w ws v vs)
  have one: "shlex_loop None None (w @ r) = shlex_loop None (Some v) r" for r
    using Cons.hyps by (simp add: word_def opt_default_def)
  show ?case
  proof (cases ws)
    case Nil
    then show ?thesis using Cons one [of "[]"] by (simp add: shlex_split_def)
  next
    case (Cons w' ws')
    then show ?thesis using Cons.IH one by (simp add: shlex_split_def shell_space_def)
  qed
qed (simp add: shlex_split_def)

lemma variable_names_safe: "list_all (list_all shell_safe) (''SYZABI_SIDE'' # ''SYZABI_TRACE_EVENTS_PATH'' # ''SYZABI_TRACE_PREVIEW_BYTES'' # INJECT_VARIABLES)"
  by code_simp

lemma case_variables_names:
  assumes "case_variables env cfg = Inr vars"
  shows "vars \<noteq> []" "\<forall>kv \<in> set vars. list_all shell_safe (fst kv)"
  using assms variable_names_safe
  by (auto simp: case_variables_def bind_eq_Inr Let_def List.map_filter_def list_all_iff)

text \<open>
  C27. The guest's shell gets what the launcher means. The command line of a case, split into words as
  a shell does, is exactly the assignments of the tracer's variables with their values, whatever
  characters these hold, and then the path of the binary.
\<close>

theorem command_words_roundtrip:
  assumes "batch_command env cfg i = Inr command"
  shows "\<exists>vars guest_path. case_variables env cfg = Inr vars \<and> guest_binary_path cfg (''-'' @ nat_str i) = Inr guest_path \<and>
    shlex_split command = Inr (map (\<lambda>(k, v). k @ ''='' @ v) vars @ [guest_path])"
proof -
  from assms obtain vars guest_path where v: "case_variables env cfg = Inr vars" "guest_binary_path cfg (''-'' @ nat_str i) = Inr guest_path"
    and c: "command = join '' '' (map assignment vars) @ '' '' @ shlex_quote guest_path"
    by (auto simp: batch_command_def env_assignments_def bind_eq_Inr)
  note names = case_variables_names [OF v(1)]
  have "join '' '' (xs @ [w]) = join '' '' xs @ '' '' @ w" if "xs \<noteq> []" for xs and w :: string
    using that
  proof (induction xs)
    case (Cons x xs)
    then show ?case by (cases xs) simp_all
  qed simp
  then have "command = join '' '' (map assignment vars @ [shlex_quote guest_path])" using names(1) by (simp add: c)
  moreover have "list_all2 word (map assignment vars @ [shlex_quote guest_path]) (map (\<lambda>(k, v). k @ ''='' @ v) vars @ [guest_path])"
    using names(2) word_assignment word_quote
    by (auto simp: list_all2_append list_all2_map1 list_all2_map2 intro!: list.rel_refl_strong)
  ultimately show ?thesis using v shlex_join by blast
qed

section \<open>One command of a quiet console\<close>

lemma find_from_first:
  assumes "find_from s sub 0 = Some i"
  shows "startswith (drop i s) sub" "i \<le> length s"
  using assms find_at_Some [of 0 s sub i] by (simp_all add: find_from_def)

lemma number_char:
  assumes "is_digit c \<or> c = CHR ''-''"
  shows "\<not> py_space c" "\<not> line_end c"
proof -
  have "list_all (\<lambda>c. \<not> py_space c \<and> \<not> line_end c) ''0123456789-''" by code_simp
  then show "\<not> py_space c" "\<not> line_end c" using assms by (auto simp: is_digit_def list_all_iff)
qed

lemma int_str_chars: "list_all (\<lambda>c. is_digit c \<or> c = CHR ''-'') (int_str n)" "int_str n \<noteq> []"
  using nat_str_digits hd_nat_str by (auto simp: int_str_def list_all_iff)

lemma int_str_strip: "strip (int_str n) = int_str n"
  using int_str_chars [of n] number_char(1) by (intro strip_id) (auto simp: list_all_iff)

lemma nat_str_sign: "hd (nat_str n) \<noteq> CHR ''-''" "hd (nat_str n) \<noteq> CHR ''+''"
  using hd_nat_str [of n] by (auto simp: is_digit_def)

lemma py_int_str: "py_int (PStr (int_str n)) = Inr n"
proof -
  have digits: "list_all (\<lambda>c. c \<in> set ''0123456789'') (nat_str k)" for k
    using nat_str_digits [of k] by (auto simp: list_all_iff is_digit_def)
  show ?thesis
  proof (cases "n < 0")
    case True
    then have s: "int_str n = CHR ''-'' # nat_str (nat (- n))" by (simp add: int_str_def)
    from int_str_strip [of n] have "strip (CHR ''-'' # nat_str (nat (- n))) = CHR ''-'' # nat_str (nat (- n))" unfolding s .
    then show ?thesis using True digits [of "nat (- n)"] unfolding s by (simp add: Let_def)
  next
    case False
    then have s: "int_str n = nat_str (nat n)" by (simp add: int_str_def)
    from int_str_strip [of n] have "strip (nat_str (nat n)) = nat_str (nat n)" unfolding s .
    then show ?thesis using False digits [of "nat n"] nat_str_sign [of "nat n"] unfolding s by (simp add: Let_def)
  qed
qed

text \<open>
  What the shell prints for a case: the two markers around the lines of the program, and no echo. A line
  of the program is an event in the tracer's own layout or anything else; on a serial console the lines
  end with a return and a newline.
\<close>

record reply =
  rp_eol :: string
  rp_before :: string
  rp_lines :: "out_line list"
  rp_code :: int
  rp_rest :: string

definition reply_text :: "string \<Rightarrow> reply \<Rightarrow> string" where
  "reply_text label r = rp_before r @ begin_marker label @ stream_text (rp_eol r) (Noise [] # rp_lines r) @
     exit_marker label @ int_str (rp_code r) @ rp_eol r @ rp_rest r"

definition quiet :: "string \<Rightarrow> reply \<Rightarrow> bool" where
  "quiet label r \<longleftrightarrow> list_all line_ok (rp_lines r) \<and> line_break (rp_eol r) \<and> list_all (\<lambda>c. \<not> line_end c) label \<and>
     find_from (reply_text label r) (begin_marker label) 0 = Some (length (rp_before r)) \<and>
     find_from (reply_text label r) (exit_marker label) 0 =
       Some (length (rp_before r @ begin_marker label @ stream_text (rp_eol r) (Noise [] # rp_lines r)))"

lemma splitlines_first:
  assumes "list_all (\<lambda>c. \<not> line_end c) s" "line_break eol"
  shows "splitlines (s @ eol @ t) = s # splitlines_acc [] t"
  using assms splitlines_acc_line [of s "[]" t] splitlines_acc_return [of s "[]" t]
  by (auto simp: splitlines_def line_break_def)

lemma quiet_section:
  assumes "quiet label r"
  shows "parse_section label (reply_text label r) = Inr (stream_text (rp_eol r) (Noise [] # rp_lines r), rp_code r)"
proof -
  let ?b = "length (rp_before r)" and ?m = "begin_marker label" and ?s = "stream_text (rp_eol r) (Noise [] # rp_lines r)"
  let ?line = "exit_marker label @ int_str (rp_code r)"
  have q: "find_from (reply_text label r) ?m 0 = Some ?b"
    "find_from (reply_text label r) (exit_marker label) 0 = Some (?b + length ?m + length ?s)"
    and label: "list_all (\<lambda>c. \<not> line_end c) label" and eol: "line_break (rp_eol r)"
    using assms unfolding quiet_def by (simp_all only: length_append add.assoc)
  have "drop (?b + length ?m + length ?s) (reply_text label r) = ?line @ rp_eol r @ rp_rest r"
    by (simp add: reply_text_def)
  moreover have "list_all (\<lambda>c. \<not> line_end c) (CASE_EXIT_PREFIX @ '':'')" by code_simp
  then have "list_all (\<lambda>c. \<not> line_end c) ?line"
    using label int_str_chars(1) [of "rp_code r"] number_char(2) by (auto simp: exit_marker_def list_all_iff)
  then have "splitlines (?line @ rp_eol r @ rp_rest r) = ?line # splitlines_acc [] (rp_rest r)"
    using eol by (rule splitlines_first)
  ultimately have line: "splitlines (drop (?b + length ?m + length ?s) (reply_text label r)) = ?line # splitlines_acc [] (rp_rest r)"
    by simp
  have code: "py_int (PStr (strip (drop (length (exit_marker label)) ?line))) = Inr (rp_code r)"
  proof -
    have "drop (length (exit_marker label)) ?line = int_str (rp_code r)" by simp
    then show ?thesis by (simp only: int_str_strip py_int_str)
  qed
  have sect: "take (?b + length ?m + length ?s - (?b + length ?m)) (drop (?b + length ?m) (reply_text label r)) = ?s"
    by (simp add: reply_text_def)
  show ?thesis by (simp only: parse_section_def q prod.case option.case line list.case code sum.case sect)
qed

lemma quiet_events:
  assumes "quiet label r"
  shows "extract_framed_events (stream_text (rp_eol r) (Noise [] # rp_lines r)) = Inr (List.map_filter line_event (rp_lines r))"
proof -
  have "frame_payload [] = None" "one_line []" by code_simp+
  then have ok: "\<forall>l \<in> set (Noise [] # rp_lines r). line_ok l" and eol: "line_break (rp_eol r)"
    using assms by (simp_all add: quiet_def list_all_iff)
  from extract_stream [OF ok eol] show ?thesis by (simp add: List.map_filter_simps)
qed

lemma drop_first: "s = p @ q \<Longrightarrow> drop (length p) s = q"
  by simp

lemma splitlines_return:
  assumes "list_all (\<lambda>c. \<not> line_end c) s"
  obtains ls where "splitlines (s @ CHR 0x0D # rest) = s # ls"
proof -
  have "\<exists>ls. splitlines_acc cur (s @ CHR 0x0D # rest) = (rev cur @ s) # ls" for cur
    using assms
  proof (induction s arbitrary: cur)
    case (Cons c s)
    have "line_end (CHR 0x0D)" by code_simp
    with Cons.prems have "c \<noteq> CHR 0x0D" by auto
    with Cons.IH [of "c # cur"] Cons.prems show ?case by simp
  qed (auto simp: splitlines_acc.simps)
  from this [of "[]"] show ?thesis using that by (auto simp: splitlines_def)
qed

text \<open>A session that is ready, and the reading of the console after the command is typed.\<close>

definition ready :: "pyval \<Rightarrow> session \<Rightarrow> bool" where
  "ready t session \<longleftrightarrow> is_ok (config_int ''command_timeout_sec'' 30 t) \<and>
     (if serial_transport t = ''stdio'' then ss_pty session else ss_serial session = Connected)"

definition sent_after :: "pyval \<Rightarrow> session \<Rightarrow> string \<Rightarrow> string \<Rightarrow> string list" where
  "sent_after t session label command = ss_sent session @ [typed t (full_command label command)]"

definition answer :: "starry_env \<Rightarrow> pyval \<Rightarrow> session \<Rightarrow> string list \<Rightarrow> string res" where
  "answer env t session sent =
     bind (str_item ''shell_prompt'' t) (\<lambda>prompt.
     read_until t session prompt (length (xc_before (sv_console env sent))) (sv_console env sent))"

lemma run_command_answer:
  assumes "target_config cfg = Inr t" "ready t session" "sent = sent_after t session label command"
  shows "run_command env cfg session label command =
    bind (answer env t session sent) (\<lambda>output. bind (parse_section label output) (\<lambda>(section, code).
    Inr (section, code, xc_after (sv_console env sent), session\<lparr>ss_sent := sent\<rparr>)))"
proof -
  obtain n where n: "config_int ''command_timeout_sec'' 30 t = Inr n" using assms(2) by (auto simp: is_ok_iff ready_def)
  have "require (serial_transport t = ''stdio'' \<or> ss_serial session \<noteq> NoSocket) e = Inr ()"
    "require (serial_transport t \<noteq> ''stdio'' \<or> ss_pty session) e = Inr ()"
    "require (serial_transport t = ''stdio'' \<or> ss_serial session = Connected) e = Inr ()" for e
    using assms(2) by (auto simp: ready_def split: if_splits)
  then show ?thesis
    unfolding run_command_def Let_def assms(1) n bind_Inr answer_def sent_after_def [symmetric] assms(3) [symmetric]
    by (cases "str_item ''shell_prompt'' t") (simp_all only: bind_Inr bind_Inl)
qed

lemma quiet_section_run:
  assumes "target_config cfg = Inr t" "ready t session" "sent = sent_after t session label command"
    and "answer env t session sent = Inr (reply_text label r)" "quiet label r"
  shows "run_command env cfg session label command =
    Inr (stream_text (rp_eol r) (Noise [] # rp_lines r), rp_code r, xc_after (sv_console env sent), session\<lparr>ss_sent := sent\<rparr>)"
  using assms(4) quiet_section [OF assms(5)] by (simp add: run_command_answer [OF assms(1-3)])

text \<open>
  On a quiet console, one that does not echo the line, a command returns what the program printed and its
  exit code, however the text came in pieces; and the events framed in it are recovered.
\<close>

lemma quiet_command:
  assumes "target_config cfg = Inr t" "ready t session" "sent = sent_after t session label command"
    and "answer env t session sent = Inr (reply_text label r)" "quiet label r"
  shows "run_command env cfg session label command =
      Inr (stream_text (rp_eol r) (Noise [] # rp_lines r), rp_code r, xc_after (sv_console env sent), session\<lparr>ss_sent := sent\<rparr>) \<and>
    extract_framed_events (stream_text (rp_eol r) (Noise [] # rp_lines r)) = Inr (List.map_filter line_event (rp_lines r))"
  using quiet_section_run [OF assms] quiet_events [OF assms(5)] by simp

text \<open>
  The dialogue needs a console without echo: one that echoes the line typed never yields a result, for the
  exit marker is first found in the echo, where the shell's variable stands for the number.
\<close>

lemma echoing_console_fails:
  assumes "target_config cfg = Inr t" "ready t session" "sent = sent_after t session label command"
    and "answer env t session sent = Inr (before @ full_command label command @ [CHR 0x0D] @ rest)"
    and label: "list_all (\<lambda>c. \<not> line_end c) label"
    and first: "find_from (before @ full_command label command @ [CHR 0x0D] @ rest) (exit_marker label) 0 =
      Some (length (before @ ''echo '' @ begin_marker label @ ''; '' @ command @ ''; echo ''))"
  shows "\<exists>m. run_command env cfg session label command = Inl (RunnerError m)"
proof -
  let ?output = "before @ full_command label command @ [CHR 0x0D] @ rest"
  let ?pre = "before @ ''echo '' @ begin_marker label @ ''; '' @ command @ ''; echo ''" and ?line = "exit_marker label @ ''$?''"
  have "?output = ?pre @ ?line @ CHR 0x0D # rest"
    by (simp only: full_command_def append_assoc append_Cons append_Nil)
  then have "drop (length ?pre) ?output = ?line @ CHR 0x0D # rest" by (rule drop_first)
  moreover have "list_all (\<lambda>c. \<not> line_end c) (CASE_EXIT_PREFIX @ '':'' @ ''$?'')" by code_simp
  then have "list_all (\<lambda>c. \<not> line_end c) ?line" using label by (simp add: exit_marker_def)
  ultimately obtain ls where line: "splitlines (drop (length ?pre) ?output) = ?line # ls"
    using splitlines_return by metis
  have "py_int (PStr (strip ''$?'')) = Inl (ValueError ''invalid literal for int()'')" by code_simp
  then have code: "py_int (PStr (strip (drop (length (exit_marker label)) ?line))) = Inl (ValueError ''invalid literal for int()'')"
    by (simp only: drop_first [OF refl])
  have "\<exists>m. parse_section label ?output = Inl (RunnerError m)"
  proof (cases "find_from ?output (begin_marker label) 0")
    case None
    then show ?thesis by (simp only: parse_section_def prod.case option.case) blast
  next
    case (Some b)
    then show ?thesis by (simp only: parse_section_def first prod.case option.case line list.case code sum.case) blast
  qed
  then show ?thesis using assms(4) by (auto simp only: run_command_answer [OF assms(1-3)] bind_Inr bind_Inl)
qed

section \<open>The prepared checkout\<close>

lemma unit_eq_all: "(\<exists>x. r = Inr x \<and> P) \<longleftrightarrow> r = Inr () \<and> P"
  by auto

lemma json_plain_read:
  assumes "json_plain v = Inr s" "json_wf v"
  shows "s \<noteq> []" "json_loads s = Inr v"
proof -
  have s: "s = json_encode False 0 v" using assms(1) by (auto simp: json_plain_def Let_def split: if_splits)
  have "opener (json_encode False 0 v)" by simp
  then show "s \<noteq> []" by (auto simp: s opener_def)
  have "scan_value (Suc (2 * length s)) (s @ []) = Inr (v, [])"
    unfolding s using assms(2) by (intro scan_encoded) (auto simp: delimited_def)
  moreover have "json_skip (s @ []) = s @ []" unfolding s by (simp del: append_Nil2)
  ultimately show "json_loads s = Inr v" by (simp add: json_loads_def json_skip_def)
qed

lemma build_info_read:
  assumes "bind (build_info env cfg revision st) json_plain = Inr content"
  shows "content \<noteq> [] \<and> recorded_revision content = Inr (PStr revision)"
proof -
  from assms obtain v where v: "build_info env cfg revision st = Inr v" "json_plain v = Inr content"
    by (auto simp: bind_eq_Inr)
  then have "json_wf v" "is_dict v" "py_get ''revision'' PNone v = PStr revision"
    by (auto simp: build_info_def bind_eq_Inr py_get_def dict_get_def)
  with json_plain_read [OF v(2)] show ?thesis by (simp add: recorded_revision_def)
qed

definition build_info_path :: "starry_env \<Rightarrow> pyval \<Rightarrow> string res" where
  "build_info_path env cfg =
     bind (target_config cfg) (\<lambda>t. bind (str_item ''build_info_path'' t) (\<lambda>p. Inr (resolve_repo_path (sv_root env) p)))"

lemma prepare_target_done:
  assumes "require_feature_flag env cfg = Inr ()" "ensure_supported_arch cfg = Inr ()" "ensure_toolchain_probes env cfg = Inr ()"
    and "ensure_pinned_revision env cfg st = Inr revision" "build_info_path env cfg = Inr path"
    and "st path = Some content" "recorded_revision content = Inr (PStr revision)"
  shows "prepare_target env cfg st = (Inr (label_of_revision revision), st)"
  using assms
  by (auto simp: prepare_target_def prepare_locked_def build_info_path_def bind_eq_Inr Let_def and_then_def pure_def change_def opt_default_def)

lemma prepare_locked_record:
  assumes "prepare_locked env cfg t revision path st = (Inr label, st')" "st path \<noteq> None"
  shows "label = label_of_revision revision" "\<exists>content. st' path = Some content \<and> recorded_revision content = Inr (PStr revision)"
proof -
  from assms(1) obtain recorded where r: "recorded_revision (opt_default [] (st path)) = Inr recorded"
    unfolding prepare_locked_def and_then_Inr by blast
  have "label = label_of_revision revision \<and> (\<exists>content. st' path = Some content \<and> recorded_revision content = Inr (PStr revision))"
  proof (cases "recorded = PStr revision")
    case True
    with assms r show ?thesis by (auto simp: prepare_locked_def and_then_Inr pure_Inr opt_default_def)
  next
    case False
    with assms(1) r show ?thesis
      by (auto simp: prepare_locked_def and_then_Inr pure_Inr change_def dest: build_info_read)
  qed
  then show "label = label_of_revision revision" "\<exists>content. st' path = Some content \<and> recorded_revision content = Inr (PStr revision)"
    by blast+
qed

lemma prepare_target_facts:
  assumes "prepare_target env cfg st = (Inr label, st')"
  obtains revision path content where "require_feature_flag env cfg = Inr ()" "ensure_supported_arch cfg = Inr ()"
    "ensure_toolchain_probes env cfg = Inr ()" "ensure_pinned_revision env cfg st = Inr revision"
    "build_info_path env cfg = Inr path" "st' path = Some content" "recorded_revision content = Inr (PStr revision)"
    "label = label_of_revision revision"
proof -
  from assms obtain revision t p where checks: "require_feature_flag env cfg = Inr ()" "ensure_supported_arch cfg = Inr ()"
    "ensure_toolchain_probes env cfg = Inr ()" "ensure_pinned_revision env cfg st = Inr revision"
    and t: "target_config cfg = Inr t" "str_item ''build_info_path'' t = Inr p"
    and run: "prepare_locked env cfg t revision (resolve_repo_path (sv_root env) p)
      (if st (resolve_repo_path (sv_root env) p) = None then st(resolve_repo_path (sv_root env) p \<mapsto> []) else st) = (Inr label, st')"
    unfolding prepare_target_def Let_def and_then_steps unit_eq_all
    by iprover
  have locked: "(if st q = None then st(q \<mapsto> []) else st) q \<noteq> None" for q by simp
  from t have "build_info_path env cfg = Inr (resolve_repo_path (sv_root env) p)" by (simp add: build_info_path_def)
  moreover obtain content where "st' (resolve_repo_path (sv_root env) p) = Some content" "recorded_revision content = Inr (PStr revision)"
    using prepare_locked_record(2) [OF run locked] by iprover
  ultimately show thesis using checks prepare_locked_record(1) [OF run locked] by (intro that)
qed

text \<open>
  C28. The checkout that is used is the pinned one, and it is prepared once. When the preparation
  succeeds, the configuration names a revision, git reports it for the checkout, the label carries it and
  the record on disk holds it; while the checkout stays so, preparing again runs no command and changes
  no file.
\<close>

theorem prepared_once:
  assumes "prepare_target env cfg st = (Inr label, st')"
  shows "\<exists>t revision r. target_config cfg = Inr t \<and> revision = strip (config_str ''revision'' [] t) \<and> revision \<noteq> [] \<and>
    repo_dir env cfg st = Inr r \<and> strip (hr_stdout (sv_git_head env r)) = revision \<and> label = label_of_revision revision \<and>
    (\<exists>path content. build_info_path env cfg = Inr path \<and> st' path = Some content \<and>
      recorded_revision content = Inr (PStr revision)) \<and>
    (ensure_pinned_revision env cfg st' = Inr revision \<longrightarrow> prepare_target env cfg st' = (Inr label, st'))"
proof -
  from assms obtain revision path content where f: "require_feature_flag env cfg = Inr ()" "ensure_supported_arch cfg = Inr ()"
    "ensure_toolchain_probes env cfg = Inr ()" "ensure_pinned_revision env cfg st = Inr revision"
    "build_info_path env cfg = Inr path" "st' path = Some content" "recorded_revision content = Inr (PStr revision)"
    and label: "label = label_of_revision revision"
    by (rule prepare_target_facts)
  have again: "ensure_pinned_revision env cfg st' = Inr revision \<longrightarrow> prepare_target env cfg st' = (Inr label, st')"
    using prepare_target_done [OF f(1-3)] f(5-7) label by blast
  from f(4) show ?thesis
    using again f(5-7) by (auto simp: label ensure_pinned_revision_def bind_eq_Inr Let_def split: if_splits)
qed

section \<open>A batch\<close>








section \<open>A concrete guest\<close>

definition demo_starry :: "string \<Rightarrow> starry_env" where
  "demo_starry output =
     \<lparr>sv_root = ''/r'', sv_environ = [(''SYZABI_INJECT_TRACE_VALUE'', [CHR ''a'', CHR '' '', CHR 0x27])], sv_dirs = [''/t''],
       sv_expanduser = (\<lambda>p. p), sv_which = (\<lambda>_. Some ''/bin/x''), sv_executable = (\<lambda>_. True), sv_home = ''/h'', sv_sh = (\<lambda>_. []),
       sv_git_head = (\<lambda>_. \<lparr>hr_returncode = 0, hr_stdout = ''abc'', hr_stderr = []\<rparr>),
       sv_run = (\<lambda>_ _ _ st. (Inr \<lparr>hr_returncode = 0, hr_stdout = [], hr_stderr = []\<rparr>, st)),
       sv_debugfs = (\<lambda>_ _ st. (\<lparr>hr_returncode = 0, hr_stdout = [], hr_stderr = []\<rparr>, st)),
       sv_port = 1, sv_socket_path = ''/s'', sv_connect = (\<lambda>_ _. [Accepted]),
       sv_console = (\<lambda>_. \<lparr>xc_before = [], xc_polls = [], xc_recvs = [Data output], xc_after = output\<rparr>),
       sv_console_at_end = output\<rparr>"

definition demo_target :: pyval where
  "demo_target = PDict [(''revision'', PStr ''abc''), (''repo_dir'', PStr ''/t''), (''build_info_path'', PStr ''b''),
     (''prepare_commands'', PList [PStr ''make {arch}'']), (''shell_prompt'', PStr ''#'')]"

definition demo_starry_config :: pyval where
  "demo_starry_config = PDict [(''target_config'', demo_target), (''normalization'', PDict [(''preview_bytes'', PInt 8)])]"

definition demo_session :: session where
  "demo_session = \<lparr>ss_serial = Connected, ss_pty = False, ss_sent = []\<rparr>"



lemma command_words_roundtrip_witness:
  "\<exists>command guest_path vars. batch_command (demo_starry []) demo_starry_config 0 = Inr command \<and>
    shlex_split command = Inr (map (\<lambda>(k, v). k @ ''='' @ v) vars @ [guest_path])"
proof -
  have "is_ok (batch_command (demo_starry []) demo_starry_config 0)" by code_simp
  then obtain command where "batch_command (demo_starry []) demo_starry_config 0 = Inr command" by (auto simp: is_ok_iff)
  with command_words_roundtrip [OF this] show ?thesis by blast
qed

lemma prepared_once_witness:
  "\<exists>st'. prepare_target (demo_starry []) demo_starry_config Map.empty = (Inr ''tgoskits-starryos@abc'', st') \<and>
    prepare_target (demo_starry []) demo_starry_config st' = (Inr ''tgoskits-starryos@abc'', st')"
proof -
  have "fst (prepare_target (demo_starry []) demo_starry_config Map.empty) = Inr ''tgoskits-starryos@abc''" by code_simp
  then obtain st' where run: "prepare_target (demo_starry []) demo_starry_config Map.empty = (Inr ''tgoskits-starryos@abc'', st')"
    by (metis prod.collapse)
  have "ensure_pinned_revision (demo_starry []) demo_starry_config st' = Inr ''abc''" by code_simp
  moreover have "target_config demo_starry_config = Inr demo_target" "strip (config_str ''revision'' [] demo_target) = ''abc''"
    by code_simp+
  ultimately show ?thesis using prepared_once [OF run] run by auto
qed

lemma echoing_console_fails_witness:
  "\<exists>m. run_command (demo_starry (full_command ''p'' ''x'' @ CHR 0x0D # ''#'')) demo_starry_config demo_session ''p'' ''x'' =
    Inl (RunnerError m)"
proof -
  let ?output = "full_command ''p'' ''x'' @ CHR 0x0D # ''#''"
  have t: "target_config demo_starry_config = Inr demo_target" by code_simp
  have ready: "ready demo_target demo_session" by code_simp
  have answer: "answer (demo_starry ?output) demo_target demo_session (sent_after demo_target demo_session ''p'' ''x'') =
      Inr ([] @ full_command ''p'' ''x'' @ [CHR 0x0D] @ ''#'')" by code_simp
  have label: "list_all (\<lambda>c. \<not> line_end c) ''p''" by code_simp
  have first: "find_from ([] @ full_command ''p'' ''x'' @ [CHR 0x0D] @ ''#'') (exit_marker ''p'') 0 =
      Some (length ([] @ ''echo '' @ begin_marker ''p'' @ ''; '' @ ''x'' @ ''; echo ''))" by code_simp
  show ?thesis by (rule echoing_console_fails [OF t ready refl answer label first])
qed


end
