(* ===== verification/SyzImport.thy ===== *)
theory SyzImport
  imports Step Reports VmRunner
begin

text \<open>
  Importing programs, \<open>tools/import_syz.py\<close>, and the command lines of the Syzkaller tools
  (\<open>orchestrator/syzkaller.py\<close>, \<open>tools/generate_corpus.py\<close>). The inspection of a program, the digest and the
  text of an exception are arguments; so is the order in which the pool completes the inspections.
\<close>

section \<open>Command lines\<close>

definition syzkaller_bin :: "string \<Rightarrow> string \<Rightarrow> string" where
  "syzkaller_bin syzkaller_dir name = pjoin (pjoin syzkaller_dir ''bin'') name"

definition project_bin :: "string \<Rightarrow> string \<Rightarrow> string" where
  "project_bin root_dir name = pjoin (pjoin root_dir ''build/bin'') name"

definition ensure_binary :: "store \<Rightarrow> string \<Rightarrow> unit res" where
  "ensure_binary st path = require (st path \<noteq> None) (FileNotFoundError (''required binary is missing: '' @ path))"

definition inspect_command :: "string \<Rightarrow> string \<Rightarrow> string \<Rightarrow> string \<Rightarrow> bool \<Rightarrow> store \<Rightarrow> string list res" where
  "inspect_command root_dir target_os arch program_path strict st =
     (let binary = project_bin root_dir ''syzabi_inspect'' in
      bind (ensure_binary st binary) (\<lambda>_.
      Inr ([binary, ''-prog'', program_path, ''-os'', target_os, ''-arch'', arch] @ (if strict then [''-strict''] else []))))"

definition mutate_command :: "string \<Rightarrow> string \<Rightarrow> string \<Rightarrow> string \<Rightarrow> int \<Rightarrow> store \<Rightarrow> string list res" where
  "mutate_command root_dir target_os arch program_path drop_index st =
     (let binary = project_bin root_dir ''syzabi_mutate'' in
      bind (ensure_binary st binary) (\<lambda>_.
      Inr [binary, ''-prog'', program_path, ''-drop-index'', int_str drop_index, ''-os'', target_os, ''-arch'', arch]))"

definition prog2c_command :: "string \<Rightarrow> string \<Rightarrow> string \<Rightarrow> string \<Rightarrow> store \<Rightarrow> string list res" where
  "prog2c_command syzkaller_dir target_os arch program_path st =
     (let binary = syzkaller_bin syzkaller_dir ''syz-prog2c'' in
      bind (ensure_binary st binary) (\<lambda>_.
      Inr [binary, ''-os'', target_os, ''-arch'', arch, ''-prog'', program_path, ''-repeat=1'', ''-procs=1'']))"

definition corpus_command ::
  "string \<Rightarrow> string \<Rightarrow> string \<Rightarrow> string list \<Rightarrow> string \<Rightarrow> int \<Rightarrow> int \<Rightarrow> int \<Rightarrow> store \<Rightarrow> string list res" where
  "corpus_command root_dir target_os arch allowed output_dir number seed len st =
     (let binary = project_bin root_dir ''syzabi_generate'' in
      bind (require (st binary \<noteq> None) (SystemExit ''missing build/bin/syzabi_generate, run `make bootstrap` first'')) (\<lambda>_.
      Inr [binary, ''-os'', target_os, ''-arch'', arch, ''-output-dir'', output_dir, ''-count'', int_str number,
        ''-seed'', int_str seed, ''-length'', int_str len, ''-allow'', join '','' allowed]))"

section \<open>Preparing a text\<close>

definition looks_like_call :: "string \<Rightarrow> bool" where
  "looks_like_call s \<longleftrightarrow> contains s ''('' \<and> endswith s '')'' \<and> \<not> startswith s ''[''"

text \<open>The second test of the loop asks for the first as well, so it adds nothing.\<close>

definition looks_like_assignment :: "string \<Rightarrow> bool" where
  "looks_like_assignment s \<longleftrightarrow> startswith s ''r'' \<and> contains s ''='' \<and> looks_like_call s"

fun crashlog_block :: "bool \<Rightarrow> string list \<Rightarrow> string list" where
  "crashlog_block in_block [] = []"
| "crashlog_block in_block (line # lines) =
     (let stripped = strip line in
      if looks_like_call stripped \<or> looks_like_assignment stripped then stripped # crashlog_block True lines
      else if in_block \<and> stripped = [] then []
      else crashlog_block in_block lines)"

definition extract_crashlog_program :: "string \<Rightarrow> string" where
  "extract_crashlog_program raw = strip (join newline (crashlog_block False (splitlines raw)))"

definition program_line :: "string \<Rightarrow> bool" where
  "program_line s \<longleftrightarrow> s \<noteq> [] \<and> \<not> startswith s ''#'' \<and> \<not> startswith s ''//''"

definition preprocess_text :: "string \<Rightarrow> string \<Rightarrow> string" where
  "preprocess_text raw source_type =
     (let candidate = (if source_type = ''crashlog'' then extract_crashlog_program raw else raw);
          lines = filter program_line (map strip (splitlines candidate)) in
      if lines = [] then [] else strip (join newline lines) @ newline)"

section \<open>One file\<close>

record import_env =
  im_corpus_raw :: string
  im_corpus_normalized :: string
  im_corpus_meta :: string
  im_corpus_rejected :: string
  im_source_type :: string
  im_digest :: "string \<Rightarrow> string"
  im_inspect :: "string \<Rightarrow> pyval res"
  im_exc_text :: "py_error \<Rightarrow> string"

definition reject_id :: "import_env \<Rightarrow> string \<Rightarrow> string \<Rightarrow> string \<Rightarrow> string" where
  "reject_id env path prepared reason = im_digest env (path @ '':'' @ prepared @ '':'' @ reason)"

definition rejected_meta_path :: "import_env \<Rightarrow> string \<Rightarrow> string" where
  "rejected_meta_path env rid = pjoin (im_corpus_rejected env) (rid @ ''.json'')"

definition store_rejected :: "import_env \<Rightarrow> string \<Rightarrow> string \<Rightarrow> string \<Rightarrow> string \<Rightarrow> store \<Rightarrow> store" where
  "store_rejected env path prepared reason detail =
     (let rid = reject_id env path prepared reason in
      dump_json (rejected_meta_path env rid) (PDict [(''reject_id'', PStr rid), (''source'', PStr (im_source_type env)),
        (''original_path'', PStr path), (''reason'', PStr reason), (''detail'', PStr detail)]) \<circ>
      write_text (pjoin (im_corpus_rejected env) (rid @ ''.syz'')) prepared)"

text \<open>A rejection with its reason and detail, or what the inspection says of the prepared text.\<close>

datatype inspection = Rejected string string | Accepted pyval

definition inspect_candidate :: "import_env \<Rightarrow> string \<times> string \<Rightarrow> string \<times> string \<times> inspection" where
  "inspect_candidate env file_text =
     (let path = fst file_text; prepared = preprocess_text (snd file_text) (im_source_type env) in
      (path, prepared,
       if strip prepared = [] then Rejected ''parse_error'' ''empty_candidate_program''
       else case im_inspect env prepared of
           Inl e \<Rightarrow> Rejected ''parse_error'' (im_exc_text env e)
         | Inr info \<Rightarrow> Accepted info))"

definition meta_path :: "import_env \<Rightarrow> string \<Rightarrow> string" where
  "meta_path env program_id = pjoin (im_corpus_meta env) (program_id @ ''.json'')"

definition add_duplicate :: "string \<Rightarrow> pyval \<Rightarrow> pyval res" where
  "add_duplicate path existing = (case existing of
       PDict kvs \<Rightarrow>
         (case opt_default (PList []) (dict_get ''duplicate_inputs'' kvs) of
            PList ds \<Rightarrow> Inr (PDict (dict_set ''duplicate_inputs'' (PList (ds @ [PStr path])) kvs))
          | _ \<Rightarrow> Inl (TypeError ''object has no attribute append''))
     | _ \<Rightarrow> Inl (TypeError ''object has no attribute setdefault''))"

definition meta_of :: "import_env \<Rightarrow> string \<Rightarrow> string \<Rightarrow> pyval \<Rightarrow> pyval res" where
  "meta_of env path program_id info =
     bind (map_res (\<lambda>k. bind (py_item k info) (\<lambda>v. Inr (k, v)))
       [''target_os'', ''arch'', ''syscall_list'', ''full_syscall_list'', ''resource_classes'', ''uses_pseudo_syscalls'',
        ''uses_threading_sensitive_features'']) (\<lambda>fields.
     bind (py_item ''call_count'' info) (\<lambda>c. bind (py_int c) (\<lambda>n.
     bind (py_item ''program_id'' info) (\<lambda>pid.
     Inr (PDict ([(''program_id'', pid), (''source'', PStr (im_source_type env))] @ fields @
       [(''original_path'', PStr path),
        (''normalized_path'', PStr (pjoin (im_corpus_normalized env) (program_id @ ''.syz''))),
        (''raw_path'', PStr (pjoin (im_corpus_raw env) (program_id @ ''.syz''))),
        (''call_count'', PInt n), (''duplicate_inputs'', PList [])]))))))"

text \<open>Writing a value that is no text fails after the file has been opened.\<close>

definition write_value :: "string \<Rightarrow> pyval \<Rightarrow> unit step" where
  "write_value path v = (case v of
       PStr s \<Rightarrow> change (write_text path s)
     | _ \<Rightarrow> and_then (change (write_text path [])) (\<lambda>_. pure (Inl (TypeError ''write() argument must be str''))))"

text \<open>The body of the \<open>try\<close>: it tells what was done, and an exception leaves what had been written.\<close>

definition import_accepted :: "import_env \<Rightarrow> string \<Rightarrow> string \<Rightarrow> pyval \<Rightarrow> string step" where
  "import_accepted env path prepared info =
     and_then (pure (py_item ''program_id'' info)) (\<lambda>pid.
     let program_id = py_str pid in
     and_then (\<lambda>st. (Inr (st (meta_path env program_id) \<noteq> None), st)) (\<lambda>known.
     if known then
       and_then (\<lambda>st. (bind (load_json (meta_path env program_id) st) (add_duplicate path), st)) (\<lambda>existing.
       and_then (change (dump_json (meta_path env program_id) existing)) (\<lambda>_. pure (Inr ''duplicate'')))
     else
       and_then (change (write_text (pjoin (im_corpus_raw env) (program_id @ ''.syz'')) prepared)) (\<lambda>_.
       and_then (pure (py_item ''normalized_syz'' info)) (\<lambda>normalized.
       and_then (write_value (pjoin (im_corpus_normalized env) (program_id @ ''.syz'')) normalized) (\<lambda>_.
       and_then (pure (meta_of env path program_id info)) (\<lambda>meta_doc.
       and_then (change (dump_json (meta_path env program_id) meta_doc)) (\<lambda>_. pure (Inr ''imported'')))))))) "

text \<open>One turn of the loop: the names it counts, and the files.\<close>

definition import_one :: "import_env \<Rightarrow> string \<times> string \<times> inspection \<Rightarrow> store \<Rightarrow> string list \<times> store" where
  "import_one env result st =
     (case result of
        (path, prepared, Rejected reason detail) \<Rightarrow>
          ([''rejected'', reason], store_rejected env path prepared reason detail st)
      | (path, prepared, Accepted info) \<Rightarrow>
          (case import_accepted env path prepared info st of
             (Inr name, st') \<Rightarrow> ([name], st')
           | (Inl e, st') \<Rightarrow>
               ([''rejected'', ''parse_error''], store_rejected env path prepared ''parse_error'' (im_exc_text env e) st')))"

section \<open>All files\<close>

fun import_loop :: "import_env \<Rightarrow> (string \<times> string \<times> inspection) list \<Rightarrow> store \<Rightarrow> string list \<times> store" where
  "import_loop env [] st = ([], st)"
| "import_loop env (r # rs) st =
     (let (counted, st1) = import_one env r st; (more, st2) = import_loop env rs st1 in (counted @ more, st2))"

definition import_summary :: "string \<Rightarrow> string \<Rightarrow> nat \<Rightarrow> string list \<Rightarrow> pyval" where
  "import_summary input_dir source_type n counted =
     PDict [(''input_dir'', PStr input_dir), (''source_type'', PStr source_type), (''total_files'', PInt (int n)),
       (''imported'', PInt (int (count_list counted ''imported''))),
       (''duplicate'', PInt (int (count_list counted ''duplicate''))),
       (''rejected'', PInt (int (count_list counted ''rejected''))),
       (''reason_counts'', count_items (count_values counted))]"

text \<open>The inspections in the order they complete, the loop in the order of the paths.\<close>

definition import_files :: "import_env \<Rightarrow> (string \<times> string) list \<Rightarrow> store \<Rightarrow> string list \<times> store" where
  "import_files env completed st = import_loop env (sort_key fst (map (inspect_candidate env) completed)) st"

definition import_main :: "import_env \<Rightarrow> string \<Rightarrow> string \<Rightarrow> (string \<times> string) list \<Rightarrow> store \<Rightarrow> store" where
  "import_main env report_path input_dir completed st =
     (let (counted, st1) = import_files env completed st in
      dump_json report_path (import_summary input_dir (im_source_type env) (length completed) counted) st1)"

section \<open>What an import accounts for\<close>

text \<open>The programs that have a description.\<close>

definition described_programs :: "import_env \<Rightarrow> store \<Rightarrow> string set" where
  "described_programs env st = {i. st (meta_path env i) \<noteq> None}"

lemma meta_path_eq [simp]: "meta_path env i = meta_path env j \<longleftrightarrow> i = j"
  by (simp add: meta_path_def pjoin_def)

lemma syz_not_json [simp]: "pjoin a (x @ ''.syz'') \<noteq> pjoin b (y @ ''.json'')" "pjoin b (y @ ''.json'') \<noteq> pjoin a (x @ ''.syz'')"
proof -
  have "last (pjoin a (x @ ''.syz'')) = CHR ''z''" "last (pjoin b (y @ ''.json'')) = CHR ''n''"
    by (simp_all add: pjoin_def)
  then show "pjoin a (x @ ''.syz'') \<noteq> pjoin b (y @ ''.json'')" "pjoin b (y @ ''.json'') \<noteq> pjoin a (x @ ''.syz'')"
    by auto
qed

lemma described_write:
  "described_programs env (write_text (pjoin a (x @ ''.syz'')) s st) = described_programs env st"
  "described_programs env (dump_json (meta_path env i) v st) = insert i (described_programs env st)"
  by (auto simp: described_programs_def write_text_def dump_json_def) (simp_all add: meta_path_def)

lemma described_rejected:
  assumes "\<forall>i d. meta_path env i \<noteq> rejected_meta_path env d"
  shows "described_programs env (store_rejected env path prepared reason detail st) = described_programs env st"
  using assms described_write(1) [of env "im_corpus_rejected env"]
  by (auto simp: store_rejected_def Let_def described_programs_def dump_json_def)

lemma import_accepted_known:
  assumes "py_item ''program_id'' info = Inr pid" "i = py_str pid" "st (meta_path env i) \<noteq> None"
  shows "import_accepted env path prepared info st =
    (case bind (load_json (meta_path env i) st) (add_duplicate path) of
       Inl e \<Rightarrow> (Inl e, st) | Inr v \<Rightarrow> (Inr ''duplicate'', dump_json (meta_path env i) v st))"
  using assms by (simp add: import_accepted_def Let_def and_then_def pure_def change_def split: sum.split)

lemma write_value_cases:
  obtains (written) s where "write_value path v st = (Inr (), write_text path s st)"
    | (bad) e where "write_value path v st = (Inl e, write_text path [] st)"
  by (cases v) (auto simp: write_value_def and_then_def change_def pure_def)

lemma import_accepted_new:
  assumes "py_item ''program_id'' info = Inr pid" "i = py_str pid" "st (meta_path env i) = None"
    and "st1 = write_text (pjoin (im_corpus_raw env) (i @ ''.syz'')) prepared st"
  shows "import_accepted env path prepared info st =
    (case py_item ''normalized_syz'' info of Inl e \<Rightarrow> (Inl e, st1)
     | Inr v \<Rightarrow>
       (case write_value (pjoin (im_corpus_normalized env) (i @ ''.syz'')) v st1 of
          (Inl e, st2) \<Rightarrow> (Inl e, st2)
        | (Inr u, st2) \<Rightarrow>
          (case meta_of env path i info of Inl e \<Rightarrow> (Inl e, st2)
           | Inr d \<Rightarrow> (Inr ''imported'', dump_json (meta_path env i) d st2))))"
  using assms by (simp add: import_accepted_def Let_def and_then_def pure_def change_def split: sum.split prod.split)

lemma import_accepted_cases:
  assumes "import_accepted env path prepared info st = (r, st')"
  shows "(\<exists>i. r = Inr ''imported'' \<and> i \<notin> described_programs env st \<and> described_programs env st' = insert i (described_programs env st)) \<or>
    ((r = Inr ''duplicate'' \<or> (\<exists>e. r = Inl e)) \<and> described_programs env st' = described_programs env st)"
proof (cases "py_item ''program_id'' info")
  case (Inl e)
  with assms show ?thesis by (auto simp: import_accepted_def)
next
  case pid: (Inr pid)
  let ?i = "py_str pid" and ?st1 = "write_text (pjoin (im_corpus_raw env) (py_str pid @ ''.syz'')) prepared st"
  consider (known) "st (meta_path env ?i) \<noteq> None" | (new) "st (meta_path env ?i) = None" by blast
  then show ?thesis
  proof cases
    case known
    then have old: "insert ?i (described_programs env st) = described_programs env st" by (auto simp: described_programs_def)
    note eq = import_accepted_known [where st = st and env = env and i = ?i and info = info and pid = pid and path = path and prepared = prepared]
    note run = trans [OF sym [OF eq [OF pid refl known]] assms]
    show ?thesis
    proof (cases "bind (load_json (meta_path env ?i) st) (add_duplicate path)")
      case (Inl e)
      with run show ?thesis by auto
    next
      case (Inr v)
      with run have "r = Inr ''duplicate''" "st' = dump_json (meta_path env ?i) v st" by simp_all
      with old show ?thesis by (simp only: described_write(2) simp_thms)
    qed
  next
    case new
    then have fresh: "?i \<notin> described_programs env st" by (simp add: described_programs_def)
    note eq = import_accepted_new [where st = st and env = env and i = ?i and info = info and pid = pid and path = path and prepared = prepared]
    note run = trans [OF sym [OF eq [OF pid refl new refl]] assms]
    show ?thesis
    proof (cases "py_item ''normalized_syz'' info")
      case (Inl e)
      with run have "r = Inl e" "st' = ?st1" by simp_all
      then show ?thesis by (simp add: described_write(1))
    next
      case normalized: (Inr v)
      show ?thesis
      proof (cases rule: write_value_cases [where path = "pjoin (im_corpus_normalized env) (?i @ ''.syz'')" and v = v and st = ?st1])
        case (bad e)
        with run normalized have "r = Inl e" "st' = write_text (pjoin (im_corpus_normalized env) (?i @ ''.syz'')) [] ?st1" by simp_all
        then show ?thesis by (simp add: described_write(1))
      next
        case (written n)
        let ?st2 = "write_text (pjoin (im_corpus_normalized env) (?i @ ''.syz'')) n ?st1"
        show ?thesis
        proof (cases "meta_of env path ?i info")
          case (Inl e)
          with run normalized written have "r = Inl e" "st' = ?st2" by simp_all
          then show ?thesis by (simp add: described_write(1))
        next
          case (Inr d)
          with run normalized written have "r = Inr ''imported''" "st' = dump_json (meta_path env ?i) d ?st2" by simp_all
          with fresh show ?thesis by (simp only: described_write simp_thms) blast
        qed
      qed
    qed
  qed
qed

lemma import_one_cases:
  assumes "import_one env (inspect_candidate env f) st = (counted, st')" "\<forall>i d. meta_path env i \<noteq> rejected_meta_path env d"
  obtains (new) i where "counted = [''imported'']" "i \<notin> described_programs env st"
      "described_programs env st' = insert i (described_programs env st)"
    | (dup) "counted = [''duplicate'']" "described_programs env st' = described_programs env st"
    | (rej) "counted = [''rejected'', ''parse_error'']" "described_programs env st' = described_programs env st"
proof -
  obtain path prepared ins where r: "inspect_candidate env f = (path, prepared, ins)" by (metis surj_pair)
  show thesis
  proof (cases ins)
    case (Rejected reason detail)
    then have "reason = ''parse_error''" using r by (auto simp: inspect_candidate_def Let_def split: if_splits sum.splits)
    with Rejected assms(1) r show thesis by (intro rej) (auto simp: import_one_def described_rejected [OF assms(2)])
  next
    case (Accepted info)
    obtain a st1 where a: "import_accepted env path prepared info st = (a, st1)" by fastforce
    note known = import_accepted_cases [OF a]
    show thesis
    proof (cases a)
      case (Inl e)
      then have "described_programs env st1 = described_programs env st" using known by simp
      moreover have "counted = [''rejected'', ''parse_error'']"
        "st' = store_rejected env path prepared ''parse_error'' (im_exc_text env e) st1"
        using assms(1) Inl by (simp_all add: r Accepted import_one_def a)
      ultimately show thesis by (intro rej) (simp_all only: described_rejected [OF assms(2)])
    next
      case (Inr n)
      then have res: "counted = [n]" "st' = st1" using assms(1) by (auto simp: r Accepted import_one_def a)
      from known show thesis
      proof (elim disjE exE conjE)
        fix i
        assume "a = Inr ''imported''" "i \<notin> described_programs env st" "described_programs env st1 = insert i (described_programs env st)"
        then show thesis using Inr by (intro new [of i]) (simp_all add: res)
      next
        assume "a = Inr ''duplicate''" "described_programs env st1 = described_programs env st"
        then show thesis using Inr by (intro dup) (simp_all add: res)
      qed (use Inr in simp)
    qed
  qed
qed

lemma import_loop_accounts:
  assumes "import_loop env (map (inspect_candidate env) fs) st = (counted, st')" "\<forall>i d. meta_path env i \<noteq> rejected_meta_path env d"
  shows "count_list counted ''imported'' + count_list counted ''duplicate'' + count_list counted ''rejected'' = length fs \<and>
    described_programs env st \<subseteq> described_programs env st' \<and>
    finite (described_programs env st' - described_programs env st) \<and>
    card (described_programs env st' - described_programs env st) = count_list counted ''imported''"
  using assms(1)
proof (induction fs arbitrary: st counted)
  case (Cons f fs)
  obtain c1 st1 where one: "import_one env (inspect_candidate env f) st = (c1, st1)" by fastforce
  obtain c2 where rest: "import_loop env (map (inspect_candidate env) fs) st1 = (c2, st')" and c: "counted = c1 @ c2"
    using Cons.prems by (auto simp: one Let_def split: prod.splits)
  note IH = Cons.IH [OF rest]
  from one assms(2) show ?case
  proof (cases rule: import_one_cases)
    case (new i)
    let ?more = "described_programs env st' - described_programs env st1"
    have more: "described_programs env st' - described_programs env st = insert i ?more" "i \<notin> ?more"
      "described_programs env st \<subseteq> described_programs env st'"
      using conjunct1 [OF conjunct2 [OF IH]] new(2,3) by blast+
    have "finite ?more" "card ?more = count_list c2 ''imported''" using IH by simp_all
    then have "finite (insert i ?more)" "card (insert i ?more) = Suc (count_list c2 ''imported'')" using more(2) by simp_all
    moreover have "count_list counted ''imported'' = Suc (count_list c2 ''imported'')"
      "count_list counted ''duplicate'' = count_list c2 ''duplicate''" "count_list counted ''rejected'' = count_list c2 ''rejected''"
      by (simp_all add: c new(1))
    ultimately show ?thesis using conjunct1 [OF IH] more(3) unfolding more(1) by simp
  next
    case dup
    then show ?thesis using IH by (simp add: c)
  next
    case rej
    then show ?thesis using IH by (simp add: c)
  qed
qed simp

lemma import_files_order:
  assumes "mset other = mset completed" "distinct (map fst completed)"
  shows "import_files env other st = import_files env completed st"
proof -
  have "inj_on (fst \<circ> inspect_candidate env) (set completed)"
    using assms(2) by (auto simp: inspect_candidate_def Let_def distinct_map inj_on_def)
  moreover have "set other = set completed" using assms(1) by (metis set_mset_mset)
  ultimately have "inj_on fst (set (map (inspect_candidate env) other))" by (auto simp: inj_on_def)
  moreover have "mset (map (inspect_candidate env) other) = mset (sort_key fst (map (inspect_candidate env) completed))"
    using assms(1) by simp
  ultimately have "sort_key fst (map (inspect_candidate env) other) = sort_key fst (map (inspect_candidate env) completed)"
    by (intro sort_key_inj_key_eq) simp_all
  then show ?thesis by (simp add: import_files_def)
qed

text \<open>
  C29. An import accounts for every file. Each file is imported, a duplicate or rejected; what is imported
  are exactly the programs described afterwards and not before, each counted once, and no description is
  lost; and when the paths are distinct, nothing depends on the order in which the inspections complete.
\<close>

theorem import_accounts:
  assumes "import_files env completed st = (counted, st')" "\<forall>i d. meta_path env i \<noteq> rejected_meta_path env d"
  shows "count_list counted ''imported'' + count_list counted ''duplicate'' + count_list counted ''rejected'' = length completed \<and>
    described_programs env st \<subseteq> described_programs env st' \<and>
    card (described_programs env st' - described_programs env st) = count_list counted ''imported'' \<and>
    (\<forall>other. mset other = mset completed \<and> distinct (map fst completed) \<longrightarrow> import_files env other st = (counted, st'))"
proof -
  let ?results = "sort_key fst (map (inspect_candidate env) completed)"
  have "\<exists>fs. ?results = map (inspect_candidate env) fs" unfolding ex_map_conv set_sort set_map by blast
  then obtain fs where fs: "?results = map (inspect_candidate env) fs" ..
  then have "length fs = length completed" by (metis length_map length_sort)
  moreover have "import_loop env (map (inspect_candidate env) fs) st = (counted, st')"
    using assms(1) by (simp add: import_files_def fs)
  ultimately show ?thesis
    using import_loop_accounts [of env fs st counted st'] assms import_files_order [of _ completed env st] by simp
qed

section \<open>Preparing twice\<close>

lemma splitlines_no_end:
  "list_all (\<lambda>c. \<not> line_end c) cur \<Longrightarrow> l \<in> set (splitlines_acc cur s) \<Longrightarrow> list_all (\<lambda>c. \<not> line_end c) l"
proof (induction cur s rule: splitlines_acc.induct)
  case (2 cur c s)
  show ?case
  proof (cases "c = CHR 0x0D \<or> line_end c")
    case True
    with 2 show ?thesis by (auto split: if_splits)
  next
    case False
    with 2 show ?thesis by simp
  qed
qed (simp split: if_splits)

lemma join_newline: "ls \<noteq> [] \<Longrightarrow> join newline ls @ newline = concat (map (\<lambda>l. l @ newline) ls)"
proof (induction ls)
  case (Cons l ls)
  then show ?case by (cases ls) simp_all
qed simp

lemma join_edges:
  assumes "ls \<noteq> []" "\<forall>l \<in> set ls. l \<noteq> [] \<and> \<not> py_space (hd l) \<and> \<not> py_space (last l)"
  shows "join newline ls \<noteq> []" "\<not> py_space (hd (join newline ls))" "\<not> py_space (last (join newline ls))"
  using assms
proof (induction ls)
  case (Cons l ls)
  { case 1 then show ?case by (cases ls) simp_all }
  { case 2 then show ?case by (cases ls) (simp_all add: hd_append) }
  { case 3 with Cons show ?case by (cases ls) (auto simp: last_append) }
qed simp_all

text \<open>A prepared text is prepared: what the importer stores, it would store again unchanged.\<close>

lemma preprocess_idem: "preprocess_text (preprocess_text raw source_type) ''generated'' = preprocess_text raw source_type"
proof -
  define ls where "ls = filter program_line (map strip (splitlines (if source_type = ''crashlog'' then extract_crashlog_program raw else raw)))"
  have lines: "l \<noteq> [] \<and> \<not> py_space (hd l) \<and> \<not> py_space (last l) \<and> strip l = l \<and> program_line l \<and> list_all (\<lambda>c. \<not> line_end c) l" if "l \<in> set ls" for l
  proof -
    from that obtain s where s: "l = strip s" "program_line l"
      "s \<in> set (splitlines (if source_type = ''crashlog'' then extract_crashlog_program raw else raw))"
      by (auto simp: ls_def)
    then have "list_all (\<lambda>c. \<not> line_end c) s" using splitlines_no_end [of "[]" s] by (simp add: splitlines_def)
    then have "list_all (\<lambda>c. \<not> line_end c) l" using set_strip [of s] s(1) by (auto simp: list_all_iff)
    then show ?thesis using s(1,2) strip_edges [of s] by (auto simp: program_line_def)
  qed
  show ?thesis
  proof (cases "ls = []")
    case True
    then have "preprocess_text raw source_type = []" by (simp add: preprocess_text_def ls_def Let_def)
    then show ?thesis by (simp add: preprocess_text_def splitlines_def Let_def)
  next
    case False
    note edges = join_edges [OF False]
    have "strip (join newline ls) = join newline ls" using edges(2,3) lines by (intro strip_id) blast
    then have prepared: "preprocess_text raw source_type = join newline ls @ newline"
      using False by (simp add: preprocess_text_def ls_def Let_def)
    have "splitlines (join newline ls @ newline) = ls" using lines by (simp add: join_newline [OF False] splitlines_lines)
    moreover have "filter program_line (map strip ls) = ls" using lines by (simp add: map_idI filter_id_conv)
    ultimately show ?thesis using False \<open>strip (join newline ls) = join newline ls\<close>
      by (simp add: prepared) (simp add: preprocess_text_def Let_def)
  qed
qed

section \<open>A concrete import\<close>

definition demo_import :: import_env where
  "demo_import = \<lparr>im_corpus_raw = ''w'', im_corpus_normalized = ''n'', im_corpus_meta = ''m'', im_corpus_rejected = ''r'',
     im_source_type = ''generated'', im_digest = (\<lambda>s. s), im_inspect = (\<lambda>s. Inl (ValueError s)), im_exc_text = (\<lambda>_. ''e'')\<rparr>"

lemma import_accounts_witness:
  "\<exists>counted st'. import_files demo_import [(''b'', ''getpid()''), (''a'', [])] Map.empty = (counted, st') \<and>
    count_list counted ''imported'' + count_list counted ''duplicate'' + count_list counted ''rejected'' = 2 \<and>
    import_files demo_import [(''a'', []), (''b'', ''getpid()'')] Map.empty = (counted, st')"
proof -
  obtain counted st' where run: "import_files demo_import [(''b'', ''getpid()''), (''a'', [])] Map.empty = (counted, st')"
    by fastforce
  have "\<forall>i d. meta_path demo_import i \<noteq> rejected_meta_path demo_import d"
    by (simp add: meta_path_def rejected_meta_path_def demo_import_def pjoin_def)
  from import_accounts [OF run this] run show ?thesis by (intro exI [of _ counted] exI [of _ st']) auto
qed

end
