(* ===== verification/Kernel.thy ===== *)
theory Kernel
  imports Compare
begin

text \<open>
  What another run of a program looks like, from the interface of the system calls instead of the tables
  of \<open>analyzer/normalize.py\<close>: which arguments and results of a call are descriptors, addresses or process
  ids, as their manual pages give them. For the calls of \<open>TRACKED_CALLS\<close> the canonicalizer does not see
  the difference; for others it does.
\<close>

section \<open>The interface of the calls\<close>

text \<open>Per call, the kinds of its arguments in order and the kind of its result.\<close>

definition SIGNATURES :: "(string, kind option list \<times> kind option) dict" where
  "SIGNATURES =
     [(''open'', ([Some Addr, None, None], Some Fd)),
      (''openat'', ([Some Fd, Some Addr, None, None], Some Fd)),
      (''close'', ([Some Fd], None)),
      (''read'', ([Some Fd, Some Addr, None], None)),
      (''write'', ([Some Fd, Some Addr, None], None)),
      (''pread64'', ([Some Fd, Some Addr, None, None], None)),
      (''pwrite64'', ([Some Fd, Some Addr, None, None], None)),
      (''lseek'', ([Some Fd, None, None], None)),
      (''fstat'', ([Some Fd, Some Addr], None)),
      (''newfstatat'', ([Some Fd, Some Addr, Some Addr, None], None)),
      (''mkdir'', ([Some Addr, None], None)),
      (''unlink'', ([Some Addr], None)),
      (''rename'', ([Some Addr, Some Addr], None)),
      (''mmap'', ([Some Addr, None, None, None, Some Fd, None], Some Addr)),
      (''munmap'', ([Some Addr, None], None)),
      (''mprotect'', ([Some Addr, None, None], None)),
      (''brk'', ([Some Addr], Some Addr)),
      (''eventfd'', ([None], Some Fd)),
      (''eventfd2'', ([None, None], Some Fd)),
      (''clone'', ([None, Some Addr, Some Addr, Some Addr, Some Addr], Some Pid)),
      (''getpid'', ([], Some Pid)),
      (''getppid'', ([], Some Pid)),
      (''exit'', ([None], None)),
      (''exit_group'', ([None], None)),
      (''wait4'', ([Some Pid, Some Addr, None, Some Addr], Some Pid)),
      (''pipe'', ([Some Addr], None)),
      (''pipe2'', ([Some Addr, None], None)),
      (''socketpair'', ([None, None, None, Some Addr], None)),
      (''dup'', ([Some Fd], Some Fd)),
      (''dup2'', ([Some Fd, Some Fd], Some Fd)),
      (''dup3'', ([Some Fd, Some Fd, None], Some Fd)),
      (''socket'', ([None, None, None], Some Fd)),
      (''fsync'', ([Some Fd], None)),
      (''ftruncate'', ([Some Fd, None], None))]"

definition TRACKED_CALLS :: "string list" where
  "TRACKED_CALLS =
     [''open'', ''openat'', ''close'', ''read'', ''write'', ''pread64'', ''pwrite64'', ''lseek'', ''fstat'', ''newfstatat'',
      ''mkdir'', ''unlink'', ''rename'', ''mmap'', ''munmap'', ''mprotect'', ''brk'', ''eventfd'', ''eventfd2'', ''clone'',
      ''getpid'', ''getppid'', ''exit'', ''exit_group'']"

definition argument_kind :: "string \<Rightarrow> nat \<Rightarrow> kind option" where
  "argument_kind name i = (case dict_get name SIGNATURES of
       None \<Rightarrow> None | Some (args, _) \<Rightarrow> if i < length args then args ! i else None)"

definition result_kind :: "string \<Rightarrow> kind option" where
  "result_kind name = (case dict_get name SIGNATURES of None \<Rightarrow> None | Some (_, result) \<Rightarrow> result)"

text \<open>
  Another run: every descriptor, address and process id is replaced, where the interface of the call says
  that there is one and where the tracer itself lists descriptors in an output.
\<close>

definition rerun_event :: "(kind \<Rightarrow> int \<Rightarrow> int) \<Rightarrow> raw_event \<Rightarrow> raw_event" where
  "rerun_event f e = e\<lparr>
     re_args := map (\<lambda>(i, v). rename_scalar f (argument_kind (re_name e) i) v) (enumerate 0 (re_args e)),
     re_return := rename_scalar f (result_kind (re_name e)) (re_return e),
     re_outputs := map (rename_output f) (re_outputs e)\<rparr>"

definition rerun_resources :: "(kind \<Rightarrow> int \<Rightarrow> int) \<Rightarrow> raw_trace \<Rightarrow> raw_trace" where
  "rerun_resources f t = t\<lparr>rt_events := map_option (map (rerun_event f)) (rt_events t)\<rparr>"

definition other_run :: "(kind \<Rightarrow> int \<Rightarrow> int) \<Rightarrow> (int \<Rightarrow> int \<times> int) \<Rightarrow> string \<Rightarrow> raw_trace \<Rightarrow> raw_trace" where
  "other_run f g side t = (rerun_resources f t)\<lparr>
     rt_side := Some side,
     rt_events := map_option (map (retime_event g)) (rt_events (rerun_resources f t))\<rparr>"

definition tracked :: "raw_trace \<Rightarrow> bool" where
  "tracked t \<longleftrightarrow> (\<forall>e \<in> set (opt_default [] (rt_events t)). re_name e \<in> set TRACKED_CALLS)"

section \<open>The tables of the canonicalizer know these calls\<close>

definition table_kind :: "string \<Rightarrow> nat \<Rightarrow> kind option" where
  "table_kind name i =
     (if i \<in> set (positions FD_ARG_POSITIONS name) then Some Fd
      else if i \<in> set (positions PID_ARG_POSITIONS name) then Some Pid
      else if i \<in> set (positions ADDR_ARG_POSITIONS name) then Some Addr else None)"

lemma tables_agree:
  assumes "name \<in> set TRACKED_CALLS"
  shows "table_kind name i = argument_kind name i"
    and "(if name \<in> set FD_RETURN_SYSCALLS then Some Fd else if name \<in> set PID_RETURN_SYSCALLS then Some Pid
      else if name \<in> set ADDR_RETURN_SYSCALLS then Some Addr else None) = result_kind name"
proof -
  have "list_all (\<lambda>n. list_all (\<lambda>i. table_kind n i = argument_kind n i) [0..<6]) TRACKED_CALLS" by code_simp
  moreover have "list_all (\<lambda>n. list_all (\<lambda>i. i < 6) (positions FD_ARG_POSITIONS n @ positions PID_ARG_POSITIONS n @
      positions ADDR_ARG_POSITIONS n) \<and> length (fst (the (dict_get n SIGNATURES))) \<le> 6 \<and> dict_get n SIGNATURES \<noteq> None) TRACKED_CALLS"
    by code_simp
  ultimately have "i < 6 \<Longrightarrow> table_kind name i = argument_kind name i"
    and far: "\<forall>j \<in> set (positions FD_ARG_POSITIONS name @ positions PID_ARG_POSITIONS name @ positions ADDR_ARG_POSITIONS name). j < 6"
      "length (fst (the (dict_get name SIGNATURES))) \<le> 6" "dict_get name SIGNATURES \<noteq> None"
    using assms unfolding list_all_iff by auto
  then show "table_kind name i = argument_kind name i"
    by (cases "i < 6") (auto simp: table_kind_def argument_kind_def)
  have "list_all (\<lambda>name. (if name \<in> set FD_RETURN_SYSCALLS then Some Fd else if name \<in> set PID_RETURN_SYSCALLS then Some Pid
      else if name \<in> set ADDR_RETURN_SYSCALLS then Some Addr else None) = result_kind name) TRACKED_CALLS" by code_simp
  then show "(if name \<in> set FD_RETURN_SYSCALLS then Some Fd else if name \<in> set PID_RETURN_SYSCALLS then Some Pid
      else if name \<in> set ADDR_RETURN_SYSCALLS then Some Addr else None) = result_kind name"
    using assms by (simp add: list_all_iff)
qed

lemma tracked_positions:
  assumes "renaming f" "name \<in> set TRACKED_CALLS"
  shows "rename_scalar f (argument_kind name i) v = rename_scalar f (arg_kind name i v) v"
    and "rename_scalar f (result_kind name) v = rename_scalar f (return_kind name v) v"
  unfolding tables_agree [OF assms(2), symmetric]
  using renamingD(2) [OF assms(1), of v]
  by (auto simp: rename_scalar_def table_kind_def arg_kind_def return_kind_def)

lemma tracked_rename:
  assumes "renaming f" "tracked t"
  shows "rerun_resources f t = rename_trace f t"
proof -
  have "rerun_event f e = rename_event f e" if "re_name e \<in> set TRACKED_CALLS" for e
    using tracked_positions [OF assms(1) that] by (simp add: rerun_event_def rename_event_def)
  then show ?thesis
    using assms(2) by (cases "rt_events t") (auto simp: rerun_resources_def rename_trace_def tracked_def opt_default_def)
qed

section \<open>Another run of the same program\<close>

text \<open>
  C7. Which descriptors, addresses and process ids a kernel gives out does not matter: when a program of
  the tracked calls is run again with others, wherever the interface of the calls has them and in the
  lists of the tracer, the canonical trace is the same, errors included. (Descriptor 0, the failures and
  the special directory stay; the buffers of \<open>pipe\<close> and \<open>socketpair\<close> are not among these calls.)
\<close>

theorem canonical_of_rerun:
  assumes "renaming f" "tracked t"
  shows "canonicalize (rerun_resources f t) st = canonicalize t st"
  unfolding tracked_rename [OF assms] by (rule canonicalize_rename [OF assms(1)])

text \<open>
  C33. No false alarm from the run itself: when the candidate makes the same tracked calls with the same
  results as the reference, in other descriptors, addresses and process ids and at other times, the
  comparison of the two canonical traces is equivalent, with no divergence index.
\<close>

theorem other_run_equivalent:
  assumes "renaming f" "tracked t" "canonicalize t st = Inr a"
  shows "\<exists>b c. canonicalize (other_run f g side t) st = Inr b \<and> compare_canonical noise a b = Inr c \<and>
    cmp_equivalent c \<and> cmp_first_divergence_index c = None"
proof -
  have run: "other_run f g side t = rerun_trace f g side t"
    by (simp add: other_run_def rerun_trace_def tracked_rename [OF assms(1,2)])
  obtain b where "canonicalize (rerun_trace f g side t) st = Inr b"
    by (rule canonicalize_rerun [OF assms(1,3)]) (rule that)
  with rerun_equivalent [OF assms(1,3) this] show ?thesis unfolding run by blast
qed

text \<open>
  A call whose result is a resource that no table names keeps the number of the run: two runs that differ
  only in the process id that \<open>wait4\<close> returns, or in the descriptor of \<open>dup\<close> or \<open>socket\<close>, do not
  canonicalize alike. \<open>wait4\<close> is among the calls that the workflows allow.
\<close>

definition UNTRACKED_RESULTS :: "string list" where
  "UNTRACKED_RESULTS = [''wait4'', ''dup'', ''dup2'', ''dup3'', ''socket'']"

lemma untracked_result_seen:
  assumes "re_name e \<in> set UNTRACKED_RESULTS" "f (the (result_kind (re_name e))) (re_return e) \<noteq> re_return e"
  shows "ce_return (fst (normalize_event (rerun_event f e) i c)) \<noteq> ce_return (fst (normalize_event e i c))"
proof -
  have "list_all (\<lambda>n. n \<notin> set (FD_RETURN_SYSCALLS @ PID_RETURN_SYSCALLS @ ADDR_RETURN_SYSCALLS) \<and> result_kind n \<noteq> None)
      UNTRACKED_RESULTS" by code_simp
  then have none: "return_kind (re_name e) v = None" and "result_kind (re_name e) \<noteq> None" for v
    using assms(1) unfolding list_all_iff return_kind_def by auto
  then obtain k where k: "result_kind (re_name e) = Some k" by blast
  have raw: "ce_return (fst (normalize_event x i c)) = SInt (re_return x)" if "re_name x = re_name e" for x
    using none by (simp add: normalize_event_def normalize_return_def normalize_scalar_def that case_prod_beta)
  have "re_name (rerun_event f e) = re_name e" "re_return (rerun_event f e) = f k (re_return e)"
    by (simp_all add: rerun_event_def rename_scalar_def k)
  with raw [of "rerun_event f e"] raw [of e] assms(2) k show ?thesis by simp
qed

section \<open>A concrete run\<close>

definition demo_file_trace :: raw_trace where
  "demo_file_trace = demo_trace\<lparr>rt_events := Some
     [demo_event 0 ''openat'' [- 100, 4096, 0] 3 [], demo_event 1 ''read'' [3, 8192, 16] 0 [],
      demo_event 2 ''getpid'' [] 77 [], demo_event 3 ''close'' [3] 0 []]\<rparr>"

definition shifted :: "kind \<Rightarrow> int \<Rightarrow> int" where
  "shifted k v = (if 0 < v then v + 7 else v)"

lemma shifted_renaming: "renaming shifted"
  by (auto simp: renaming_def inj_def shifted_def)

lemma demo_file_tracked: "tracked demo_file_trace"
  by (simp add: tracked_def demo_file_trace_def opt_default_def demo_event_def TRACKED_CALLS_def)

lemma canonical_of_rerun_witness:
  "canonicalize (rerun_resources shifted demo_file_trace) demo_state = canonicalize demo_file_trace demo_state \<and>
    map re_args (the (rt_events (rerun_resources shifted demo_file_trace))) = [[- 100, 4103, 0], [10, 8199, 16], [], [10]]"
proof
  show "canonicalize (rerun_resources shifted demo_file_trace) demo_state = canonicalize demo_file_trace demo_state"
    by (rule canonical_of_rerun [OF shifted_renaming demo_file_tracked])
qed code_simp

lemma other_run_equivalent_witness:
  "\<exists>a b c. canonicalize demo_file_trace demo_state = Inr a \<and>
    canonicalize (other_run shifted (\<lambda>i. (i, 2 * i)) ''candidate'' demo_file_trace) demo_state = Inr b \<and>
    compare_canonical [] a b = Inr c \<and> cmp_equivalent c"
proof -
  have "validate_raw_trace demo_file_trace = Inr ()"
    by (simp add: demo_file_trace_def demo_defs validate_raw_trace_def raw_trace_missing_def)
  then obtain a where a: "canonicalize demo_file_trace demo_state = Inr a" by (simp add: canonicalize_eq)
  from other_run_equivalent [OF shifted_renaming demo_file_tracked a] a show ?thesis by blast
qed

end
