(* ===== verification/Spec2Isabelle.thy ===== *)
theory Spec2Isabelle
  imports Verdicts Preflight Reduce Generate Fat Build Contract VmBatch
    Limiter Manifest Campaign Starry SyzImport Kernel
begin

text \<open>
  SysABI runs small programs of system calls on a reference kernel (Linux) and on a candidate kernel
  (Asterinas, ArceOS, StarryOS or a Linux in a guest) and reports where the two disagree. This is a
  model of its Python code under \<open>src/\<close>, made of definitions that follow the code and theorems about
  them. Exceptions are values (\<open>'a res\<close>), files are a store of texts by path, and what a process, a
  guest, a compiler, a digest or a clock does is an argument of the definitions that use it.

  \<^bold>\<open>How the parts work together.\<close> The corpus tools choose programs; the build step instruments the C text
  of a program and compiles it for each side; the command and VM runners execute a binary and leave a
  raw trace, the external state and a result file; the canonicalizer names the resources in a trace;
  the scheduler decides how often each side runs, compares the canonical traces and classifies the case;
  the reducer shrinks a program that shows a difference; the reports count and rate the results of a
  campaign, and a release gate reads the stored summary. The SCML gate and its preflight keep programs
  away from the Asterinas candidate that use a system call it does not claim to support.

  \<^bold>\<open>The library.\<close>
  \<^item> \<open>PyPrelude\<close>, \<open>PyText\<close>, \<open>PyFloat\<close>, \<open>PyValue\<close>: Python itself, as the program uses it. Exceptions and their
    sequencing, insertion-ordered dictionaries and counters; texts, lines, splitting, decimal numbers;
    finite binary64 numbers as rationals with rounding to even and their shortest text; JSON values.
  \<^item> \<open>Merge\<close> and \<open>Pool\<close>: what several tools share. \<open>Merge\<close> is the merging of rows by id, a locale
    (\<open>keyed_merge\<close>) interpreted for the sources of \<open>Corpus\<close> and the candidates of \<open>Generate\<close>; \<open>Pool\<close> is a thread
    pool whose futures complete in any order, used by \<open>Scheduler\<close>, \<open>Preflight\<close> and \<open>VmBatch\<close>. Two more
    interfaces are \<open>resolver\<close> in \<open>Trace\<close>, a normalizer that reads a growing context, interpreted at each
    level of an event, and \<open>slots\<close> in \<open>Limiter\<close>. \<open>Step\<close> has the operations that change files and may fail
    half way, for \<open>Starry\<close> and \<open>SyzImport\<close>.

  \<^bold>\<open>The components.\<close>
  \<^item> \<open>Constants\<close>: \<open>core/constants.py\<close>, every \<open>StrEnum\<close> with its string.
  \<^item> \<open>Trace\<close>: \<open>analyzer/schemas.py\<close> and \<open>analyzer/normalize.py\<close>. A raw event becomes a canonical one while
    a context numbers descriptors, addresses and process ids. The context is an injective numbering, the
    result is the raw trace under one substitution, and renaming what the tables name does not change it.
  \<^item> \<open>Compare\<close>: \<open>analyzer/compare.py\<close> and \<open>analyzer/classify.py\<close>. The comparison decides pointwise agreement;
    the classification is given as a decision table.
  \<^item> \<open>Kernel\<close>: another run of the same program, said by the interface of the system calls (which arguments and
    results are descriptors, addresses or process ids, from their manual pages) and not by the tables of the
    canonicalizer. For the calls of \<open>TRACKED_CALLS\<close> the canonical trace does not change and the comparison is
    equivalent; a result that no table names, such as that of \<open>wait4\<close> or \<open>dup\<close>, is seen
    (\<open>untracked_result_seen\<close>). The buffers of \<open>pipe\<close> and \<open>socketpair\<close> stay raw, so these are not tracked.
  \<^item> \<open>Stability\<close>: \<open>orchestrator/stability.py\<close>. Equal hashes are equal stable views.
  \<^item> \<open>Targets\<close>: \<open>core/capabilities.py\<close>, \<open>targets/base.py\<close>, \<open>targets/registry.py\<close> and the adapters. Validation
    of the configuration and of capabilities, commands, package identity.
  \<^item> \<open>Scheduler\<close> and \<open>Verdicts\<close>: \<open>orchestrator/scheduler.py\<close> and \<open>orchestrator/models.py\<close>. \<open>Scheduler\<close> has the state
    of a case through preparation, triage and finalization, and the scheduling of all entries, one result
    for each in order whatever fails. \<open>Verdicts\<close> carries the invariant \<open>tri_inv\<close> of the triage to what each
    verdict promises.
  \<^item> \<open>Limiter\<close>: \<open>core/concurrency.py\<close>, the semaphore around guest runs as a step relation of the workers.
  \<^item> \<open>Scml\<close> and \<open>Preflight\<close>: \<open>targets/asterinas/scml.py\<close> and \<open>tools/preflight_scml_gate.py\<close>. The index of the
    manifest, the profile, the reasons of a rejection; one entry and a pool of entries.
  \<^item> \<open>Manifest\<close>: \<open>tools/build_scml_manifest.py\<close> and \<open>tools/export_scml_targets.py\<close>. The READMEs, rule files and
    descriptions become the manifest, and its index the generation targets.
  \<^item> \<open>Corpus\<close>: \<open>tools/filter_corpus.py\<close>, \<open>tools/derive_asterinas_corpus.py\<close> and
    \<open>tools/derive_scml_allowed_sequences.py\<close>. Who is eligible, and the partition of the sources.
  \<^item> \<open>Generate\<close>: \<open>tools/generate_scml_candidates.py\<close>. Settings, generator runs in batches, merging, coverage. A
    candidate covers what the metadata of its program say it calls (\<open>corpus_calls\<close>, \<open>stored_calls\<close>).
  \<^item> \<open>Instrument\<close> and \<open>Build\<close>: \<open>tools/prog2c_wrap.py\<close>. The rewriting of raw system calls in a C text, against
    a program described by its calls (\<open>c_text\<close> and \<open>c_traced\<close>), and one build with its fingerprints and cache.
  \<^item> \<open>Json\<close>: \<open>core/persistence.py\<close> with the writer and the reader of JSON written out.
  \<^item> \<open>Contract\<close>: \<open>core/paths.py\<close>, \<open>core/workflow_contract.py\<close>, \<open>orchestrator/common.py\<close> and
    \<open>orchestrator/legacy_compat.py\<close>. Paths, the workflow contract and the loading of a configuration.
  \<^item> \<open>VmRunner\<close> and \<open>VmBatch\<close>: \<open>runners/command.py\<close>, \<open>runners/factory.py\<close>, \<open>orchestrator/execution_context.py\<close>,
    \<open>core/environment.py\<close>, \<open>core/filesystem.py\<close> and \<open>orchestrator/vm_runner.py\<close>. One program on one side from a
    clean slate; the recovery of framed events from a console, in the compact JSON that the tracer
    prints; batches that share a guest or a package.
  \<^item> \<open>Starry\<close>: \<open>targets/tgoskits_starryos/api.py\<close>. The checks before a run, the prepared checkout that is reused
    while its revision is the pinned one, the dialogue with the shell of the guest, a batch over one console.
    The lemmas give the conditions on the console: each case gets what its own program printed, and a
    console that echoes the line typed never gives a result (\<open>echoing_console_fails\<close>).
  \<^item> \<open>SyzImport\<close>: \<open>tools/import_syz.py\<close>, with the command lines of \<open>orchestrator/syzkaller.py\<close> and
    \<open>tools/generate_corpus.py\<close>. Every file is imported, a duplicate or rejected, and what the importer stores it
    would store again unchanged (\<open>preprocess_idem\<close>).
  \<^item> \<open>Fat\<close>: the disk image reader of \<open>targets/tgoskits_arceos/api.py\<close>. Tables, chains, directories, and the
    difference of two sampled states.
  \<^item> \<open>Reduce\<close>: \<open>tools/reduce_case.py\<close>. The campaign case, the replay of a program, the greedy loop.
  \<^item> \<open>Reports\<close>, \<open>Summary\<close>, \<open>Signoff\<close>, \<open>Campaign\<close>: the report writers of \<open>orchestrator/scheduler.py\<close>,
    \<open>tools/render_summary.py\<close> and \<open>tools/check_workflow_thresholds.py\<close>. Rows and groups of failures, the summary
    by syscall, counts and rates with the sign-off and the release gate, and the files a campaign leaves.

  \<^bold>\<open>Termination and fuel.\<close> \<open>reduce_loop\<close> has the call count of the program plus one as its fuel, since an
  accepted pass drops a call (\<open>reduce_terminates\<close>). A cluster chain is followed while its clusters are new,
  so it ends after at most as many steps as the table has entries (\<open>fat_chain_sound\<close>); the walk of the
  directories is bounded by the interpreter's recursion, whose error the code catches. \<open>json_loads\<close> has twice
  the length of its text as fuel and never runs out (\<open>json_loads_fuel\<close>). The other loops are structural or
  have a measure.

  \<^bold>\<open>Idealisations.\<close> A character is a Latin-1 code point; decoding with replacement is an argument. Floats
  are the finite binary64 numbers. A digest is an argument, and where a theorem needs it the digest is
  injective on the documents compared; \<open>canonical_trace_hash\<close> is such a digest of the stable view, with its
    JSON text left out. Paths are in normal form. \<open>str\<close> of a list or a dictionary, which the modelled
    code meets only where a document has one in the place of a text, is one fixed text (\<open>py_str\<close>). An attribute that is missing is a \<open>TypeError\<close>. No
    modelled operation under \<open>except Exception\<close> raises \<open>SystemExit\<close>, so \<open>prepare_case_safe\<close> catches every error.
    \<open>inspect_program\<close> of a text is an argument, without the name of the temporary file that its message may
    hold. Threads appear as orders of completion,
  or as steps in \<open>Limiter\<close>.

  \<^bold>\<open>Not modelled.\<close> The Asterinas guest pipeline (\<open>targets/asterinas/\<close> apart from \<open>scml.py\<close> and the adapter) and
  the QEMU Linux launcher start Docker, cpio, OSDK and qemu around caches of images: nearly
  every line is an effect on the host. The command-line entry points parse arguments and call what is
  modelled here. \<open>tools/cleanup_repo_processes.py\<close> reads \<open>/proc\<close> and sends signals.
  \<open>tools/render_partial_summary.py\<close> and \<open>tools/generate_report.py\<close> are prose over the same rows. Of the launchers
  that are modelled, the reader threads, the ports and the killing of the guest are left out.
\<close>

end
